(* ===== verification/Prelude.thy ===== *)
theory Prelude
  imports Main "HOL-Library.AList" "HOL-Library.Multiset" "HOL-Library.Sublist"
begin

text \<open>
  Shared vocabulary of the development: the result type of fallible Go code, the string
  functions of the Go standard library that the sources call, association lists as Go maps,
  Go's insertion sort, and the generic lemmas on them that the component theories use.

  A Go \<^verbatim>\<open>(T, error)\<close> result is a value of \<open>'e + 'a\<close>, \<open>Inl\<close> for the error. A Go
  \<^verbatim>\<open>string\<close> and a Go \<^verbatim>\<open>[]byte\<close> are both \<open>string\<close>, a list of bytes. A Go map
  is an association list with distinct keys: its order stands for the order in which one
  \<^verbatim>\<open>range\<close> loop happens to visit the keys, which Go leaves open.
\<close>

named_theorems go_simps \<open>equations that evaluate the models of Go library functions\<close>
named_theorems wf_intros \<open>introduction rules for the well-formedness invariants\<close>

section \<open>Results\<close>

definition bindr :: "'e + 'a \<Rightarrow> ('a \<Rightarrow> 'e + 'b) \<Rightarrow> 'e + 'b" where
  "bindr r f = (case r of Inl e \<Rightarrow> Inl e | Inr x \<Rightarrow> f x)"

definition is_ok :: "'e + 'a \<Rightarrow> bool" where
  "is_ok r = (case r of Inl _ \<Rightarrow> False | Inr _ \<Rightarrow> True)"

text \<open>A Go loop that returns at the first error and collects the results otherwise.\<close>

fun mapr :: "('a \<Rightarrow> 'e + 'b) \<Rightarrow> 'a list \<Rightarrow> 'e + 'b list" where
  "mapr f [] = Inr []"
| "mapr f (x # xs) =
     (case f x of
        Inl e \<Rightarrow> Inl e
      | Inr y \<Rightarrow> (case mapr f xs of Inl e \<Rightarrow> Inl e | Inr ys \<Rightarrow> Inr (y # ys)))"

lemma bindr_simps [simp]: "bindr (Inl e) f = Inl e" "bindr (Inr x) f = f x"
  by (simp_all add: bindr_def)

lemma bindr_eq_Inr: "bindr r f = Inr y \<longleftrightarrow> (\<exists>x. r = Inr x \<and> f x = Inr y)"
  by (cases r) auto

lemma bindr_eq_Inl: "bindr r f = Inl e \<longleftrightarrow> r = Inl e \<or> (\<exists>x. r = Inr x \<and> f x = Inl e)"
  by (cases r) auto

lemma is_ok_simps [simp]: "\<not> is_ok (Inl e)" "is_ok (Inr x)"
  by (simp_all add: is_ok_def)

lemma is_ok_iff: "is_ok r \<longleftrightarrow> (\<exists>x. r = Inr x)"
  by (cases r) auto

lemma mapr_Inr: "mapr f xs = Inr ys \<longleftrightarrow> list_all2 (\<lambda>x y. f x = Inr y) xs ys"
proof (induction xs arbitrary: ys)
  case Nil
  then show ?case by auto
next
  case (Cons x xs)
  have "mapr f (x # xs) = Inr ys \<longleftrightarrow>
      (\<exists>z zs. ys = z # zs \<and> f x = Inr z \<and> mapr f xs = Inr zs)"
    by (auto split: sum.splits)
  then show ?case by (auto simp: list_all2_Cons1 Cons.IH)
qed

lemma mapr_length: "mapr f xs = Inr ys \<Longrightarrow> length ys = length xs"
  by (auto simp: mapr_Inr dest: list_all2_lengthD)

lemma mapr_all_ok: "\<forall>x \<in> set xs. f x = Inr (g x) \<Longrightarrow> mapr f xs = Inr (map g xs)"
  by (induction xs) auto

lemma find_SomeD: "find P xs = Some x \<Longrightarrow> x \<in> set xs \<and> P x"
  by (induction xs) (auto split: if_splits)

lemma list_all2_in1: "list_all2 P xs ys \<Longrightarrow> x \<in> set xs \<Longrightarrow> \<exists>y \<in> set ys. P x y"
  by (induction rule: list_all2_induct) auto

lemma list_all2_in2: "list_all2 P xs ys \<Longrightarrow> y \<in> set ys \<Longrightarrow> \<exists>x \<in> set xs. P x y"
  by (induction rule: list_all2_induct) auto

section \<open>Loops\<close>

text \<open>
  A Go \<^verbatim>\<open>for\<close> loop that ends only by a return of its body: the body returns (\<open>Inl\<close>) or
  goes on with a changed state (\<open>Inr\<close>). A loop that never returns is \<open>None\<close>.
\<close>

partial_function (option) go_loop :: "('s \<Rightarrow> 'r + 's) \<Rightarrow> 's \<Rightarrow> 'r option" where
  [code]: "go_loop body s = (case body s of Inl r \<Rightarrow> Some r | Inr s' \<Rightarrow> go_loop body s')"

lemma go_loop_return: "body s = Inl r \<Longrightarrow> go_loop body s = Some r"
  by (simp add: go_loop.simps)

lemma go_loop_continue: "body s = Inr s' \<Longrightarrow> go_loop body s = go_loop body s'"
  by (simp add: go_loop.simps [of body s])

lemma go_loop_inv:
  fixes body :: "'s \<Rightarrow> 'r + 's"
  assumes "go_loop body s = Some r" and "I s"
    and step: "\<And>s s'. I s \<Longrightarrow> body s = Inr s' \<Longrightarrow> I s'"
  shows "\<exists>s'. I s' \<and> body s' = Inl r"
proof -
  have "body = body \<longrightarrow> I s \<longrightarrow> (\<exists>s'. I s' \<and> body s' = Inl r)"
  proof (rule go_loop.raw_induct
      [of "\<lambda>b s r. b = body \<longrightarrow> I s \<longrightarrow> (\<exists>s'. I s' \<and> body s' = Inl r)", OF _ assms(1)])
    fix loop :: "('s \<Rightarrow> 'r + 's) \<Rightarrow> 's \<Rightarrow> 'r option" and b s r
    assume IH: "\<And>b s r. loop b s = Some r \<Longrightarrow> b = body \<longrightarrow> I s \<longrightarrow> (\<exists>s'. I s' \<and> body s' = Inl r)"
      and eq: "(case b s of Inl r \<Rightarrow> Some r | Inr s' \<Rightarrow> loop b s') = Some r"
    show "b = body \<longrightarrow> I s \<longrightarrow> (\<exists>s'. I s' \<and> body s' = Inl r)"
      using IH eq step by (cases "b s") fastforce+
  qed
  with assms(2) show ?thesis by blast
qed

lemma go_loop_terminates:
  fixes f :: "'s \<Rightarrow> nat"
  assumes "\<And>s s'. I s \<Longrightarrow> body s = Inr s' \<Longrightarrow> I s' \<and> f s' < f s" and "I s"
  shows "\<exists>r. go_loop body s = Some r"
  using assms(2)
proof (induction "f s" arbitrary: s rule: less_induct)
  case less
  show ?case
  proof (cases "body s")
    case (Inl r)
    then show ?thesis by (simp add: go_loop_return)
  next
    case (Inr s')
    with less assms(1) show ?thesis by (metis go_loop_continue)
  qed
qed

section \<open>Strings\<close>

text \<open>\<^verbatim>\<open>strings.TrimRight(s, c)\<close> for a cutset of one character.\<close>

definition trimRight :: "char \<Rightarrow> string \<Rightarrow> string" where
  "trimRight c s = rev (dropWhile (\<lambda>x. x = c) (rev s))"

text \<open>\<^verbatim>\<open>strings.CutPrefix\<close>: the rest after the prefix, or \<open>None\<close>.\<close>

fun cutPrefix :: "string \<Rightarrow> string \<Rightarrow> string option" where
  "cutPrefix s [] = Some s"
| "cutPrefix [] (p # ps) = None"
| "cutPrefix (c # cs) (p # ps) = (if c = p then cutPrefix cs ps else None)"

text \<open>
  \<^verbatim>\<open>strings.SplitN(s, sep, 2)\<close> for a separator of one character: two parts when the
  separator occurs (\<open>Some\<close>), the string alone otherwise (\<open>None\<close>).
\<close>

fun splitOnce :: "char \<Rightarrow> string \<Rightarrow> (string \<times> string) option" where
  "splitOnce sep [] = None"
| "splitOnce sep (c # cs) =
     (if c = sep then Some ([], cs)
      else (case splitOnce sep cs of None \<Rightarrow> None | Some (a, b) \<Rightarrow> Some (c # a, b)))"

text \<open>\<^verbatim>\<open>strings.Split(s, sep)\<close> for a separator of one character: always at least one part.\<close>

fun splitAll :: "char \<Rightarrow> string \<Rightarrow> string list" where
  "splitAll sep [] = [[]]"
| "splitAll sep (c # cs) =
     (if c = sep then [] # splitAll sep cs
      else (case splitAll sep cs of [] \<Rightarrow> [[c]] | p # ps \<Rightarrow> (c # p) # ps))"

text \<open>\<^verbatim>\<open>strings.Join\<close> with a separator of one character.\<close>

fun joinSep :: "char \<Rightarrow> string list \<Rightarrow> string" where
  "joinSep sep [] = []"
| "joinSep sep [p] = p"
| "joinSep sep (p # q # ps) = p @ sep # joinSep sep (q # ps)"

lemma cutPrefix_append [simp]: "cutPrefix (p @ s) p = Some s"
  by (induction p) auto

lemma cutPrefix_Some: "cutPrefix s p = Some r \<longleftrightarrow> s = p @ r"
  by (induction s p rule: cutPrefix.induct) auto

lemma cutPrefix_None: "cutPrefix s p = None \<longleftrightarrow> (\<forall>r. s \<noteq> p @ r)"
  by (metis cutPrefix_Some option.distinct(1) option.exhaust)

lemma splitOnce_append [simp]:
  "sep \<notin> set a \<Longrightarrow> splitOnce sep (a @ sep # b) = Some (a, b)"
  by (induction a) auto

lemma splitOnce_SomeD:
  "splitOnce sep s = Some (a, b) \<Longrightarrow> s = a @ sep # b \<and> sep \<notin> set a"
  by (induction sep s arbitrary: a b rule: splitOnce.induct)
     (auto split: option.splits if_splits)

lemma splitOnce_Some:
  "splitOnce sep s = Some (a, b) \<longleftrightarrow> s = a @ sep # b \<and> sep \<notin> set a"
  using splitOnce_SomeD by auto

lemma splitOnce_None: "splitOnce sep s = None \<longleftrightarrow> sep \<notin> set s"
  by (induction sep s rule: splitOnce.induct) (auto split: option.splits)

lemma splitAll_nonempty [simp]: "splitAll sep s \<noteq> []"
  by (induction sep s rule: splitAll.induct) (auto split: list.splits)

lemma splitAll_no_sep: "p \<in> set (splitAll sep s) \<Longrightarrow> sep \<notin> set p"
  by (induction sep s arbitrary: p rule: splitAll.induct)
     (fastforce split: if_splits list.splits)+

lemma joinSep_splitAll [simp]: "joinSep sep (splitAll sep s) = s"
proof (induction sep s rule: splitAll.induct)
  case (2 sep c cs)
  obtain p ps where "splitAll sep cs = p # ps"
    by (meson neq_Nil_conv splitAll_nonempty)
  with 2 show ?case by (cases ps) auto
qed simp

lemma trimRight_append_sep [simp]: "trimRight c (s @ [c]) = trimRight c s"
  by (simp add: trimRight_def)

lemma trimRight_idem [simp]: "trimRight c (trimRight c s) = trimRight c s"
proof -
  have "dropWhile P (dropWhile P xs) = dropWhile P xs" for P :: "char \<Rightarrow> bool" and xs
    by (induction xs) auto
  then show ?thesis by (simp add: trimRight_def)
qed

section \<open>Go maps as association lists\<close>

lemma update_same: "map_of m k = Some v \<Longrightarrow> AList.update k v m = m"
  by (induction m) auto

lemma map_of_update: "map_of (AList.update k v m) k' = (if k' = k then Some v else map_of m k')"
  by (simp add: update_conv')

lemma singleton_list: "distinct ks \<Longrightarrow> \<forall>k. k \<in> set ks \<longleftrightarrow> k = x \<Longrightarrow> ks = [x]"
proof -
  assume d: "distinct ks" and x: "\<forall>k. k \<in> set ks \<longleftrightarrow> k = x"
  then have "set ks = {x}" by auto
  with d show "ks = [x]" using distinct_card [of ks] by (cases ks; cases "tl ks") auto
qed

lemma set_eq_singleton_distinct: "distinct (map fst hs) \<Longrightarrow> set hs = {x} \<Longrightarrow> hs = [x]"
  by (rule singleton_list) (auto simp: distinct_map)

lemma update_nonempty [simp]: "AList.update k v m \<noteq> []"
  by (cases m) auto

lemma set_update_subset: "set (AList.update k v m) \<subseteq> insert (k, v) (set m)"
  by (induction m) auto

lemma map_of_in: "map_of m k = Some v \<Longrightarrow> (k, v) \<in> set m"
  by (rule map_of_SomeD)

section \<open>Sorting\<close>

text \<open>
  The insertion sort that \<^verbatim>\<open>sort.Slice\<close> runs on slices of at most 12 elements: each
  element moves left past the elements it is less than. The prefix sorted so far is kept
  reversed, so that the scan from its right end is a scan of the list.
\<close>

fun ins_rev :: "('a \<Rightarrow> 'a \<Rightarrow> bool) \<Rightarrow> 'a \<Rightarrow> 'a list \<Rightarrow> 'a list" where
  "ins_rev lt x [] = [x]"
| "ins_rev lt x (y # ys) = (if lt x y then y # ins_rev lt x ys else x # y # ys)"

definition isort :: "('a \<Rightarrow> 'a \<Rightarrow> bool) \<Rightarrow> 'a list \<Rightarrow> 'a list" where
  "isort lt xs = rev (foldl (\<lambda>acc x. ins_rev lt x acc) [] xs)"

lemma mset_ins_rev [simp]: "mset (ins_rev lt x ys) = add_mset x (mset ys)"
  by (induction ys) auto

lemma mset_foldl_ins: "mset (foldl (\<lambda>acc x. ins_rev lt x acc) acc xs) = mset acc + mset xs"
  by (induction xs arbitrary: acc) auto

lemma mset_isort [simp]: "mset (isort lt xs) = mset xs"
  by (simp add: isort_def mset_foldl_ins)

lemma set_isort [simp]: "set (isort lt xs) = set xs"
  by (metis mset_isort set_mset_mset)

lemma length_isort [simp]: "length (isort lt xs) = length xs"
  by (metis mset_isort size_mset)

text \<open>
  What \<^verbatim>\<open>sort\<close> asks of a \<^verbatim>\<open>Less\<close> function: a strict weak ordering. Every comparison
  function of the sources that is handed to \<^verbatim>\<open>sort\<close> is an instance.
\<close>

locale strict_weak_order =
  fixes lt :: "'a \<Rightarrow> 'a \<Rightarrow> bool"
  assumes irrefl: "\<not> lt x x"
    and trans: "lt x y \<Longrightarrow> lt y z \<Longrightarrow> lt x z"
    and not_less_trans: "\<not> lt x y \<Longrightarrow> \<not> lt y z \<Longrightarrow> \<not> lt x z"
begin

lemma asym: "lt x y \<Longrightarrow> \<not> lt y x"
  using irrefl trans by blast

lemma set_ins_rev: "set (ins_rev lt x ys) = insert x (set ys)"
  by (metis mset_ins_rev set_mset_add_mset_insert set_mset_mset)

lemma ins_rev_sorted:
  "sorted_wrt (\<lambda>a b. \<not> lt a b) ys \<Longrightarrow> sorted_wrt (\<lambda>a b. \<not> lt a b) (ins_rev lt x ys)"
proof (induction ys)
  case (Cons y ys)
  show ?case
  proof (cases "lt x y")
    case True
    with Cons show ?thesis by (auto simp: set_ins_rev dest: asym)
  next
    case False
    with Cons show ?thesis by (auto dest: not_less_trans)
  qed
qed simp

lemma foldl_ins_sorted:
  "sorted_wrt (\<lambda>a b. \<not> lt a b) acc \<Longrightarrow>
   sorted_wrt (\<lambda>a b. \<not> lt a b) (foldl (\<lambda>acc x. ins_rev lt x acc) acc xs)"
  by (induction xs arbitrary: acc) (auto intro: ins_rev_sorted)

lemma isort_sorted: "sorted_wrt (\<lambda>a b. \<not> lt b a) (isort lt xs)"
  using foldl_ins_sorted [of "[]" xs] by (simp add: isort_def sorted_wrt_rev)

lemma ins_rev_ge: "\<forall>y \<in> set ys. \<not> lt x y \<Longrightarrow> ins_rev lt x ys = x # ys"
  by (cases ys) auto

lemma isort_id: "sorted_wrt (\<lambda>a b. \<not> lt b a) xs \<Longrightarrow> isort lt xs = xs"
proof (induction xs rule: rev_induct)
  case (snoc x xs)
  then have "foldl (\<lambda>acc x. ins_rev lt x acc) [] xs = rev xs"
    by (simp add: isort_def sorted_wrt_append rev_swap)
  with snoc.prems show ?case
    by (auto simp: isort_def sorted_wrt_append ins_rev_ge)
qed (simp add: isort_def)

lemma isort_idem: "isort lt (isort lt xs) = isort lt xs"
  by (rule isort_id) (rule isort_sorted)

end

end
