(* ===== verification/Storages.thy ===== *)
theory Storages
  imports Prelude
begin

text \<open>
  The layout of keys in a configuration storage, \<^verbatim>\<open>lib/cluster/storages.go\<close>: under one base
  prefix there are the values (\<^verbatim>\<open>/config/\<close>), their hashes (\<^verbatim>\<open>/hashes/\<close>, one level per
  hash function) and their signatures (\<^verbatim>\<open>/sig/\<close>).
\<close>

definition getConfigPrefix :: "string \<Rightarrow> string" where
  "getConfigPrefix basePrefix = trimRight (CHR ''/'') basePrefix @ ''/config/''"

definition getConfigKey :: "string \<Rightarrow> string \<Rightarrow> string" where
  "getConfigKey basePrefix key = getConfigPrefix basePrefix @ key"

definition getHashesPrefix :: "string \<Rightarrow> string" where
  "getHashesPrefix basePrefix = trimRight (CHR ''/'') basePrefix @ ''/hashes/''"

definition getHashesKey :: "string \<Rightarrow> string \<Rightarrow> string \<Rightarrow> string" where
  "getHashesKey basePrefix hash key = getHashesPrefix basePrefix @ hash @ ''/'' @ key"

definition getSignPrefix :: "string \<Rightarrow> string" where
  "getSignPrefix basePrefix = trimRight (CHR ''/'') basePrefix @ ''/sig/''"

definition getSignKey :: "string \<Rightarrow> string \<Rightarrow> string" where
  "getSignKey basePrefix key = getSignPrefix basePrefix @ key"

text \<open>\<open>None\<close> is the result with \<^verbatim>\<open>false\<close>.\<close>

definition parseHashPath :: "string \<Rightarrow> string \<Rightarrow> (string \<times> string) option" where
  "parseHashPath path pref =
     (case cutPrefix path (getHashesPrefix pref) of
        None \<Rightarrow> None
      | Some hashPath \<Rightarrow> splitOnce (CHR ''/'') hashPath)"

definition GetStorageKey :: "string \<Rightarrow> string \<Rightarrow> string + string" where
  "GetStorageKey pref source =
     (let cfgPrefix = getConfigPrefix pref
      in case cutPrefix source cfgPrefix of
           None \<Rightarrow> Inl (''source must begin with: '' @ cfgPrefix)
         | Some key \<Rightarrow> Inr key)"

section \<open>The key spaces\<close>

lemma getConfigKey_inj: "getConfigKey p k = getConfigKey p k' \<longleftrightarrow> k = k'"
  by (simp add: getConfigKey_def)

lemma getSignKey_inj: "getSignKey p k = getSignKey p k' \<longleftrightarrow> k = k'"
  by (simp add: getSignKey_def)

lemma getHashesKey_inj:
  assumes "CHR ''/'' \<notin> set h" and "CHR ''/'' \<notin> set h'"
  shows "getHashesKey p h k = getHashesKey p h' k' \<longleftrightarrow> h = h' \<and> k = k'"
proof
  assume "getHashesKey p h k = getHashesKey p h' k'"
  then have "splitOnce (CHR ''/'') (h @ CHR ''/'' # k) = splitOnce (CHR ''/'') (h' @ CHR ''/'' # k')"
    by (simp add: getHashesKey_def)
  with assms show "h = h' \<and> k = k'" by simp
qed simp

lemma cutPrefix_config [simp]: "cutPrefix (getConfigKey p k) (getConfigPrefix p) = Some k"
  by (simp add: getConfigKey_def)

lemma cutPrefix_sign [simp]: "cutPrefix (getSignKey p k) (getSignPrefix p) = Some k"
  by (simp add: getSignKey_def)

lemma cutPrefix_diverge:
  "a \<noteq> b \<Longrightarrow> cutPrefix ((s @ a # t) @ u) (s @ b # v) = None"
  by (induction s) auto

lemma cutPrefix_cross [simp]:
  "cutPrefix (getHashesKey p h k) (getConfigPrefix p) = None"
  "cutPrefix (getSignKey p k) (getConfigPrefix p) = None"
  "cutPrefix (getConfigKey p k) (getHashesPrefix p) = None"
  "cutPrefix (getSignKey p k) (getHashesPrefix p) = None"
  "cutPrefix (getConfigKey p k) (getSignPrefix p) = None"
  "cutPrefix (getHashesKey p h k) (getSignPrefix p) = None"
proof -
  have *: "cutPrefix ((trimRight (CHR ''/'') p @ CHR ''/'' # a # t) @ u)
      (trimRight (CHR ''/'') p @ CHR ''/'' # b # v) = None" if "a \<noteq> b" for a b t u v
    using cutPrefix_diverge [OF that, of "trimRight (CHR ''/'') p @ ''/''" t u v] by simp
  show "cutPrefix (getHashesKey p h k) (getConfigPrefix p) = None"
    "cutPrefix (getSignKey p k) (getConfigPrefix p) = None"
    "cutPrefix (getConfigKey p k) (getHashesPrefix p) = None"
    "cutPrefix (getSignKey p k) (getHashesPrefix p) = None"
    "cutPrefix (getConfigKey p k) (getSignPrefix p) = None"
    "cutPrefix (getHashesKey p h k) (getSignPrefix p) = None"
    unfolding getHashesKey_def getSignKey_def getConfigKey_def
      getHashesPrefix_def getSignPrefix_def getConfigPrefix_def
    by (rule *; simp)+
qed

lemma keys_disjoint [simp]:
  "getConfigKey p k \<noteq> getHashesKey p h k'" "getConfigKey p k \<noteq> getSignKey p k'"
  "getHashesKey p h k' \<noteq> getConfigKey p k" "getSignKey p k' \<noteq> getConfigKey p k"
  "getHashesKey p h k \<noteq> getSignKey p k'" "getSignKey p k' \<noteq> getHashesKey p h k"
  by (metis cutPrefix_config cutPrefix_sign cutPrefix_cross option.distinct(1))+

lemma prefix_disjoint [simp]:
  "getHashesPrefix p @ x \<noteq> getConfigKey p y" "getHashesPrefix p @ x \<noteq> getSignKey p y"
  "getConfigKey p y \<noteq> getHashesPrefix p @ x" "getSignKey p y \<noteq> getHashesPrefix p @ x"
  by (metis cutPrefix_append cutPrefix_cross(3,4) option.distinct(1))+

lemma getHashesKey_prefix: "getHashesKey p h key = getHashesPrefix p @ (h @ ''/'' @ key)"
  by (simp add: getHashesKey_def)

lemma getHashesKey_inj_hash: "getHashesKey p h key = getHashesKey p h' key \<longleftrightarrow> h = h'"
  by (simp add: getHashesKey_def)

lemma parseHashPath_key [simp]:
  "CHR ''/'' \<notin> set h \<Longrightarrow> parseHashPath (getHashesKey p h k) p = Some (h, k)"
  by (simp add: parseHashPath_def getHashesKey_def)

lemma parseHashPath_cross [simp]:
  "parseHashPath (getConfigKey p k) p = None" "parseHashPath (getSignKey p k) p = None"
  by (simp_all add: parseHashPath_def)

lemma parseHashPath_Some:
  "parseHashPath path pref = Some (hash, key) \<longleftrightarrow>
     path = getHashesKey pref hash key \<and> CHR ''/'' \<notin> set hash"
  by (auto simp: parseHashPath_def getHashesKey_def cutPrefix_Some splitOnce_Some
      split: option.splits)

text \<open>A trailing slash of the base prefix makes no difference.\<close>

lemma getConfigPrefix_slash [simp]: "getConfigPrefix (p @ ''/'') = getConfigPrefix p"
  by (simp add: getConfigPrefix_def)

section \<open>Properties\<close>

text \<open>
  \<^verbatim>\<open>parseHashPath\<close> accepts a path exactly when it is a hash key of the base
  prefix, and it returns the hash name and the key it was built from, the hash name being the
  part before the first slash.
\<close>

theorem parseHashPath_roundtrip:
  "parseHashPath path pref = Some (hash, key) \<longleftrightarrow>
     path = getHashesKey pref hash key \<and> CHR ''/'' \<notin> set hash"
  by (rule parseHashPath_Some)

text \<open>
  \<^verbatim>\<open>GetStorageKey\<close> returns the key of every configuration key of the prefix
  and fails on every other source, the hash and signature keys of the same prefix included.
\<close>

theorem GetStorageKey_roundtrip:
  "(GetStorageKey pref source = Inr key \<longleftrightarrow> source = getConfigKey pref key) \<and>
   \<not> is_ok (GetStorageKey pref (getHashesKey pref hash key)) \<and>
   \<not> is_ok (GetStorageKey pref (getSignKey pref key))"
  by (auto simp: GetStorageKey_def getConfigKey_def Let_def cutPrefix_Some
      split: option.splits)

end
