(* ===== verification/Values.thy ===== *)
theory Values
  imports Prelude "HOL-Library.Word"
begin

text \<open>
  The dynamic values of Go that the configuration library stores in an \<^verbatim>\<open>any\<close>: what a
  YAML document decodes to, and a pointer to a configuration. Every integer kind carries its
  value in 64 bits, as \<^verbatim>\<open>reflect.Value.Int\<close> and \<^verbatim>\<open>reflect.Value.Uint\<close> read it; a
  float is its IEEE bit pattern. \<open>VMap\<close> is \<^verbatim>\<open>map[any]any\<close>, \<open>VSMap\<close> is
  \<^verbatim>\<open>map[string]any\<close>, \<open>VList\<close> is \<^verbatim>\<open>[]any\<close> and \<open>VConf\<close> is a
  \<^verbatim>\<open>*Config\<close> with the value its \<^verbatim>\<open>paths\<close> field holds.

  The model is one of values: two places of the program that share one Go map are two
  separate values here, so a write through one of them is not seen through the other.
\<close>

type_synonym i64 = "64 word"

datatype ikind = KInt | KInt8 | KInt16 | KInt32 | KInt64

datatype ukind = KUint | KUint8 | KUint16 | KUint32 | KUint64

datatype gval =
    VNil
  | VBool bool
  | VInt ikind i64
  | VUint ukind i64
  | VF32 "32 word"
  | VF64 "64 word"
  | VStr string
  | VList "gval list"
  | VMap "(gval \<times> gval) list"
  | VSMap "(string \<times> gval) list"
  | VConf gval

type_synonym path = "string list"

text \<open>The result of \<^verbatim>\<open>m[k]\<close> on a Go map: the zero value \<^verbatim>\<open>nil\<close> for a missing key.\<close>

definition mapIndex :: "(gval \<times> gval) list \<Rightarrow> gval \<Rightarrow> gval" where
  "mapIndex m k = (case map_of m k of None \<Rightarrow> VNil | Some v \<Rightarrow> v)"

fun is_map :: "gval \<Rightarrow> bool" where
  "is_map (VMap m) = True"
| "is_map _ = False"

lemma is_map_iff: "is_map v \<longleftrightarrow> (\<exists>m. v = VMap m)"
  by (cases v) auto

lemma size_snd_map [termination_simp]:
  "(k, v) \<in> set m \<Longrightarrow> size v < Suc (size_list (size_prod size size) m)"
  for m :: "(gval \<times> gval) list"
  by (induction m) auto

lemma size_fst_map [termination_simp]:
  "(k, v) \<in> set m \<Longrightarrow> size k < Suc (size_list (size_prod size size) m)"
  for m :: "(gval \<times> gval) list"
  by (induction m) auto

lemma size_snd_smap [termination_simp]:
  "(k, v) \<in> set m \<Longrightarrow> size v < Suc (size_list (size_prod f size) m)"
  for m :: "(string \<times> gval) list"
  by (induction m) auto

lemma size_elem_list [termination_simp]:
  "v \<in> set xs \<Longrightarrow> size v < Suc (size_list size xs)"
  for xs :: "gval list"
  by (induction xs) auto

text \<open>
  A value that a YAML document decodes to: every map in it has distinct keys, as Go maps do,
  and no configuration pointer occurs in it.
\<close>

fun wf_val :: "gval \<Rightarrow> bool" where
  "wf_val (VList xs) = (\<forall>x \<in> set xs. wf_val x)"
| "wf_val (VMap m) = (distinct (map fst m) \<and> (\<forall>(k, v) \<in> set m. wf_val v))"
| "wf_val (VSMap m) = (distinct (map fst m) \<and> (\<forall>(k, v) \<in> set m. wf_val v))"
| "wf_val (VConf v) = False"
| "wf_val _ = True"

lemma wf_val_mapIndex [wf_intros]: "wf_val (VMap m) \<Longrightarrow> wf_val (mapIndex m k)"
  by (auto simp: mapIndex_def split: option.splits dest!: map_of_in)

lemma wf_val_member: "(k, v) \<in> set m \<Longrightarrow> wf_val (VMap m) \<Longrightarrow> wf_val v"
  by auto

lemma wf_val_update [wf_intros]:
  "wf_val (VMap m) \<Longrightarrow> wf_val v \<Longrightarrow> wf_val (VMap (AList.update k v m))"
  using set_update_subset [of k v m] by (auto simp: distinct_update)

lemma mapIndex_update [simp]:
  "mapIndex (AList.update k v m) k' = (if k' = k then v else mapIndex m k')"
  by (simp add: mapIndex_def map_of_update)

lemma mapIndex_Nil [simp]: "mapIndex [] k = VNil"
  by (simp add: mapIndex_def)

lemma mapIndex_single [simp]: "mapIndex [(k, v)] k' = (if k' = k then v else VNil)"
  by (simp add: mapIndex_def)

lemma update_mapIndex: "mapIndex m k \<noteq> VNil \<Longrightarrow> AList.update k (mapIndex m k) m = m"
  by (auto simp: mapIndex_def update_same split: option.splits)

lemma mapIndex_in: "mapIndex m k \<noteq> VNil \<Longrightarrow> (k, mapIndex m k) \<in> set m"
  by (auto simp: mapIndex_def split: option.splits dest: map_of_in)

end
