(* ===== verification/Config.thy ===== *)
theory Config
  imports Values
begin

text \<open>
  The configuration container of \<^verbatim>\<open>lib/cluster/config.go\<close>: a tree of maps addressed by
  paths of string keys, with \<^verbatim>\<open>Set\<close>, \<^verbatim>\<open>Get\<close>, \<^verbatim>\<open>Elems\<close>, \<^verbatim>\<open>ForEach\<close>
  and \<^verbatim>\<open>Merge\<close>. The receiver is passed and returned; a call that fails returns the
  configuration it leaves behind together with its error.
\<close>

section \<open>Data and operations\<close>

datatype cerr =
    NotExistError path
  | PathNotMap path
  | UnmarshalConfig string

record config =
  paths :: gval

definition NewConfig :: config where
  "NewConfig = \<lparr>paths = VNil\<rparr>"

fun deepCopyMap :: "gval \<Rightarrow> gval" where
  "deepCopyMap (VMap srcMap) = VMap (map (\<lambda>(k, v). (k, deepCopyMap v)) srcMap)"
| "deepCopyMap value = value"

text \<open>
  \<^verbatim>\<open>createMaps\<close> returns a reference to the last map of the path, which its caller then
  writes to. Here the write is the argument \<open>upd\<close>, and the result is the error, if any, and
  the tree after the call. \<open>done\<close> is \<^verbatim>\<open>path[0:i]\<close> and the next argument the rest.
\<close>

fun createMaps ::
  "gval \<Rightarrow> path \<Rightarrow> path \<Rightarrow> ((gval \<times> gval) list \<Rightarrow> (gval \<times> gval) list) \<Rightarrow> cerr option \<times> gval"
where
  "createMaps currentValue done rest upd =
     (case (case currentValue of VNil \<Rightarrow> Some [] | VMap m \<Rightarrow> Some m | _ \<Rightarrow> None) of
        None \<Rightarrow> (Some (PathNotMap done), currentValue)
      | Some m \<Rightarrow>
          (case rest of
             [] \<Rightarrow> (None, VMap (upd m))
           | k # ks \<Rightarrow>
               (case createMaps (mapIndex m (VStr k)) (done @ [k]) ks upd of
                  (err, v) \<Rightarrow> (err, VMap (AList.update (VStr k) v m)))))"

fun getMap :: "gval \<Rightarrow> path \<Rightarrow> path \<Rightarrow> cerr + (gval \<times> gval) list" where
  "getMap currentValue done rest =
     (case currentValue of
        VMap m \<Rightarrow>
          (case rest of
             [] \<Rightarrow> Inr m
           | k # ks \<Rightarrow>
               (case map_of m (VStr k) of
                  None \<Rightarrow> Inl (NotExistError (done @ [k]))
                | Some v \<Rightarrow> getMap v (done @ [k]) ks))
      | _ \<Rightarrow> Inl (PathNotMap done))"

declare createMaps.simps [simp del] getMap.simps [simp del]

definition Set :: "config \<Rightarrow> path \<Rightarrow> gval \<Rightarrow> cerr option \<times> config" where
  "Set cfg path value =
     (if path = [] then (None, cfg\<lparr>paths := value\<rparr>)
      else
        let key = last path;
            stored = (case value of VConf v \<Rightarrow> deepCopyMap v | _ \<Rightarrow> value)
        in case createMaps (paths cfg) [] (butlast path) (AList.update (VStr key) stored) of
             (err, v) \<Rightarrow> (err, cfg\<lparr>paths := v\<rparr>))"

definition Get :: "config \<Rightarrow> path \<Rightarrow> cerr + gval" where
  "Get cfg path =
     (if path = [] then
        (if paths cfg = VNil then Inl (NotExistError path) else Inr (paths cfg))
      else
        (case getMap (paths cfg) [] (butlast path) of
           Inl err \<Rightarrow> Inl err
         | Inr m \<Rightarrow>
             (let ret = mapIndex m (VStr (last path))
              in if ret = VNil then Inl (NotExistError path) else Inr ret)))"

fun stringKeys :: "(gval \<times> gval) list \<Rightarrow> string list" where
  "stringKeys [] = []"
| "stringKeys ((k, v) # kvs) =
     (case k of VStr s \<Rightarrow> s # stringKeys kvs | _ \<Rightarrow> stringKeys kvs)"

definition Elems :: "config \<Rightarrow> path \<Rightarrow> cerr + string list" where
  "Elems cfg path =
     (if path = [] then
        (case paths cfg of
           VNil \<Rightarrow> Inl (NotExistError path)
         | VMap m \<Rightarrow> Inr (stringKeys m)
         | _ \<Rightarrow> Inl (PathNotMap path))
      else
        (case getMap (paths cfg) [] path of
           Inl err \<Rightarrow> Inl err
         | Inr m \<Rightarrow> Inr (stringKeys m)))"

text \<open>
  The callback calls of \<^verbatim>\<open>forEachMap\<close>, in order. The callback does not write to the map
  it is called for, so the calls are a list.
\<close>

fun forEachMap :: "path \<Rightarrow> (gval \<times> gval) list \<Rightarrow> (path \<times> gval) list" where
  "forEachMap path dst =
     (if dst = [] then [(path, VMap [])]
      else concat (map (\<lambda>(k, v).
             (case k of
                VStr str \<Rightarrow>
                  (case v of
                     VMap m \<Rightarrow> forEachMap (path @ [str]) m
                   | VNil \<Rightarrow> []
                   | _ \<Rightarrow> [(path @ [str], v)])
              | _ \<Rightarrow> [])) dst))"

declare forEachMap.simps [simp del]

definition ForEach :: "config \<Rightarrow> path \<Rightarrow> (path \<times> gval) list" where
  "ForEach cfg path =
     (let callback = (\<lambda>target.
            (case target of VMap m \<Rightarrow> forEachMap path m | _ \<Rightarrow> [(path, target)]))
      in if path = [] then
           (if paths cfg = VNil then [] else callback (paths cfg))
         else
           (case getMap (paths cfg) [] (butlast path) of
              Inl _ \<Rightarrow> []
            | Inr m \<Rightarrow> callback (mapIndex m (VStr (last path)))))"

definition mergeStep :: "config \<Rightarrow> path \<times> gval \<Rightarrow> config" where
  "mergeStep cfg pv =
     (case Get cfg (fst pv) of
        Inl _ \<Rightarrow> snd (Set cfg (fst pv) (snd pv))
      | Inr _ \<Rightarrow> cfg)"

definition Merge :: "config \<Rightarrow> config \<Rightarrow> config" where
  "Merge cfg low = foldl mergeStep cfg (ForEach low [])"

fun deepCastStringMapToAnyMap :: "gval \<Rightarrow> gval" where
  "deepCastStringMapToAnyMap (VSMap x) =
     VMap (map (\<lambda>(k, v2). (VStr k, deepCastStringMapToAnyMap v2)) x)"
| "deepCastStringMapToAnyMap (VMap x) =
     VMap (map (\<lambda>(k, v2). (k, deepCastStringMapToAnyMap v2)) x)"
| "deepCastStringMapToAnyMap (VList x) = VList (map deepCastStringMapToAnyMap x)"
| "deepCastStringMapToAnyMap v = v"

text \<open>
  \<^verbatim>\<open>UnmarshalYAML\<close> gets a function that decodes the YAML node at hand into an
  \<^verbatim>\<open>any\<close>; what that function returns is the argument.
\<close>

definition UnmarshalYAML :: "string + gval \<Rightarrow> config \<Rightarrow> cerr option \<times> config" where
  "UnmarshalYAML rawPaths cfg =
     (case rawPaths of
        Inl err \<Rightarrow> (Some (UnmarshalConfig err), cfg)
      | Inr v \<Rightarrow> (None, cfg\<lparr>paths := deepCastStringMapToAnyMap v\<rparr>))"

text \<open>
  \<^verbatim>\<open>String\<close> encodes the tree with the YAML encoder, the argument \<open>encode\<close>; the result
  \<open>None\<close> is the panic on an encoding error.
\<close>

definition ConfigString :: "(gval \<Rightarrow> string option) \<Rightarrow> config \<Rightarrow> string option" where
  "ConfigString encode cfg = (if paths cfg = VNil then Some [] else encode (paths cfg))"

section \<open>Looking a path up\<close>

text \<open>
  The abstract view of a configuration: the value at a path, \<open>None\<close> where there is none or
  where it is \<^verbatim>\<open>nil\<close>.
\<close>

fun lookup :: "gval \<Rightarrow> path \<Rightarrow> gval option" where
  "lookup v [] = (if v = VNil then None else Some v)"
| "lookup v (k # ks) = (case v of VMap m \<Rightarrow> lookup (mapIndex m (VStr k)) ks | _ \<Rightarrow> None)"

text \<open>The reference for \<^verbatim>\<open>Set\<close>: \<open>None\<close> where a value on the way is not a map.\<close>

fun setv :: "gval \<Rightarrow> path \<Rightarrow> gval \<Rightarrow> gval option" where
  "setv v [] s = Some s"
| "setv v (k # ks) s =
     (case v of
        VNil \<Rightarrow> map_option (\<lambda>x. VMap [(VStr k, x)]) (setv VNil ks s)
      | VMap m \<Rightarrow>
          map_option (\<lambda>x. VMap (AList.update (VStr k) x m)) (setv (mapIndex m (VStr k)) ks s)
      | _ \<Rightarrow> None)"

text \<open>A value that is not a map stands on a proper prefix of the path.\<close>

definition blocked :: "gval \<Rightarrow> path \<Rightarrow> bool" where
  "blocked v p = (\<exists>q x. strict_prefix q p \<and> lookup v q = Some x \<and> \<not> is_map x)"

text \<open>The value at a path when it is not a map.\<close>

definition leaf :: "gval \<Rightarrow> path \<Rightarrow> gval option" where
  "leaf v p =
     (case lookup v p of None \<Rightarrow> None | Some x \<Rightarrow> if is_map x then None else Some x)"

definition incomparable :: "path \<Rightarrow> path \<Rightarrow> bool" where
  "incomparable p q = (\<not> prefix p q \<and> \<not> prefix q p)"

lemma lookup_not_nil: "lookup v p = Some x \<Longrightarrow> x \<noteq> VNil"
  by (induction v p rule: lookup.induct) (auto split: gval.splits if_splits)

lemma lookup_VNil [simp]: "lookup VNil p = None"
  by (cases p) auto

lemma lookup_append:
  "lookup v (p @ q) =
     (if q = [] then lookup v p
      else case lookup v p of Some (VMap m) \<Rightarrow> lookup (VMap m) q | _ \<Rightarrow> None)"
proof (induction v p rule: lookup.induct)
  case (1 v)
  then show ?case by (cases q) (auto split: gval.splits)
next
  case (2 v k ks)
  then show ?case by (auto split: gval.splits)
qed

lemma lookup_snoc:
  "lookup v (p @ [k]) =
     (case lookup v p of
        Some (VMap m) \<Rightarrow>
          (if mapIndex m (VStr k) = VNil then None else Some (mapIndex m (VStr k)))
      | _ \<Rightarrow> None)"
  by (auto simp: lookup_append split: option.splits gval.splits)

lemma lookup_prefix_map:
  assumes "lookup v q = Some x" and "strict_prefix p q"
  shows "\<exists>m. lookup v p = Some (VMap m)"
proof -
  from assms(2) obtain r where "q = p @ r" "r \<noteq> []"
    by (auto simp: strict_prefix_def prefix_def)
  with assms(1) show ?thesis by (auto simp: lookup_append split: option.splits gval.splits)
qed

lemma getMap_Inr: "getMap v done p = Inr m \<longleftrightarrow> lookup v p = Some (VMap m)"
proof (induction p arbitrary: v "done")
  case Nil
  show ?case by (subst getMap.simps) (auto split: gval.splits)
next
  case (Cons k ks)
  show ?case
  proof (cases v)
    case (VMap l)
    show ?thesis
    proof (cases "map_of l (VStr k)")
      case None
      with VMap show ?thesis
        by (subst getMap.simps) (cases ks; auto simp: mapIndex_def)
    next
      case (Some y)
      with VMap show ?thesis
        by (subst getMap.simps) (simp add: mapIndex_def Cons.IH)
    qed
  qed (subst getMap.simps; simp)+
qed

lemma Get_lookup: "Get cfg p = Inr v \<longleftrightarrow> lookup (paths cfg) p = Some v"
proof (cases p rule: rev_cases)
  case (snoc q k)
  show ?thesis
  proof (cases "getMap (paths cfg) [] q")
    case (Inl e)
    then have "\<nexists>m. lookup (paths cfg) q = Some (VMap m)"
      by (auto simp flip: getMap_Inr [where ?done = "[]"])
    then show ?thesis
      by (auto simp: Get_def snoc Inl lookup_snoc split: option.splits gval.splits)
  next
    case (Inr m)
    then have "lookup (paths cfg) q = Some (VMap m)" by (simp add: getMap_Inr)
    then show ?thesis by (auto simp: Get_def snoc Inr lookup_snoc Let_def)
  qed
qed (auto simp: Get_def)

lemma Get_Inl: "(\<exists>e. Get cfg p = Inl e) \<longleftrightarrow> lookup (paths cfg) p = None"
  by (metis Get_lookup Inl_Inr_False not_None_eq sum.exhaust)

section \<open>Setting a path\<close>

lemma createMaps_setv:
  "createMaps v done p (AList.update (VStr k) s) =
     (case setv v (p @ [k]) s of
        Some v' \<Rightarrow> (None, v')
      | None \<Rightarrow> (fst (createMaps v done p (AList.update (VStr k) s)), v)) \<and>
   (setv v (p @ [k]) s = None \<longrightarrow> (\<exists>q. fst (createMaps v done p (AList.update (VStr k) s))
        = Some (PathNotMap (done @ q)) \<and> prefix q p \<and>
          (\<exists>x. lookup v q = Some x \<and> \<not> is_map x)))"
proof (induction p arbitrary: v "done")
  case Nil
  show ?case by (subst (1 2 3) createMaps.simps) (auto split: gval.splits)
next
  case (Cons c ps)
  show ?case
  proof (cases v)
    case VNil
    show ?thesis
      using Cons.IH [of VNil "done @ [c]"] unfolding VNil
      by (subst (1 2 3) createMaps.simps) (auto split: option.splits prod.splits)
  next
    case (VMap m)
    let ?w = "mapIndex m (VStr c)"
    note IH = Cons.IH [of ?w "done @ [c]"]
    show ?thesis
    proof (cases "setv ?w (ps @ [k]) s")
      case (Some w')
      with IH VMap show ?thesis
        by (subst (1 2 3) createMaps.simps) auto
    next
      case None
      with IH obtain q where q: "createMaps ?w (done @ [c]) ps (AList.update (VStr k) s) =
          (Some (PathNotMap (done @ c # q)), ?w)" "prefix q ps"
          "\<exists>x. lookup ?w q = Some x \<and> \<not> is_map x"
        by (cases "createMaps ?w (done @ [c]) ps (AList.update (VStr k) s)") auto
      then have "?w \<noteq> VNil" by (cases q) auto
      then have "AList.update (VStr c) ?w m = m" by (rule update_mapIndex)
      with q VMap None show ?thesis
        by (subst (1 2 3) createMaps.simps) (auto intro!: exI [of _ "c # q"])
    qed
  qed (subst (1 2 3) createMaps.simps; auto intro!: exI [of _ "[]"])+
qed

lemma deepCopyMap_id [simp]: "deepCopyMap v = v"
proof (induction v rule: deepCopyMap.induct)
  case (1 srcMap)
  then have "map (\<lambda>(k, v). (k, deepCopyMap v)) srcMap = srcMap"
    by (intro map_idI) auto
  then show ?case by simp
qed auto

text \<open>The value that \<^verbatim>\<open>Set\<close> stores under a non-empty path.\<close>

definition stored :: "gval \<Rightarrow> gval" where
  "stored value = (case value of VConf v \<Rightarrow> v | _ \<Rightarrow> value)"

lemma stored_id [simp]: "wf_val v \<Longrightarrow> stored v = v"
  by (cases v) (auto simp: stored_def)

lemma Set_Some:
  assumes "p \<noteq> []" and "setv (paths cfg) p (stored x0) = Some v'"
  shows "Set cfg p x0 = (None, cfg\<lparr>paths := v'\<rparr>)"
proof -
  obtain q k where p: "p = q @ [k]" using assms(1) by (cases p rule: rev_cases) auto
  have st: "(case x0 of VConf v \<Rightarrow> deepCopyMap v | _ \<Rightarrow> x0) = stored x0"
    by (cases x0) (auto simp: stored_def)
  show ?thesis
    using createMaps_setv [of "paths cfg" "[]" q k "stored x0"] assms(2)
    by (simp add: Set_def p st)
qed

lemma Set_None:
  assumes "p \<noteq> []" and "setv (paths cfg) p (stored x0) = None"
  shows "\<exists>q x. Set cfg p x0 = (Some (PathNotMap q), cfg) \<and> strict_prefix q p \<and>
           lookup (paths cfg) q = Some x \<and> \<not> is_map x"
proof -
  obtain q k where p: "p = q @ [k]" using assms(1) by (cases p rule: rev_cases) auto
  have st: "(case x0 of VConf v \<Rightarrow> deepCopyMap v | _ \<Rightarrow> x0) = stored x0"
    by (cases x0) (auto simp: stored_def)
  obtain r x where r: "createMaps (paths cfg) [] q (AList.update (VStr k) (stored x0)) =
        (Some (PathNotMap r), paths cfg)" "prefix r q"
      "lookup (paths cfg) r = Some x" "\<not> is_map x"
    using createMaps_setv [of "paths cfg" "[]" q k "stored x0"] assms(2)
    by (simp add: p) (metis prod.collapse)
  have "strict_prefix q (q @ [k])" by (rule strict_prefixI') simp
  with r(2) have "strict_prefix r p" unfolding p by (rule prefix_order.le_less_trans)
  moreover have "cfg\<lparr>paths := paths cfg\<rparr> = cfg" by simp
  ultimately show ?thesis using r by (auto simp: Set_def p st)
qed

lemma Set_Nil [simp]: "Set cfg [] x0 = (None, cfg\<lparr>paths := x0\<rparr>)"
  by (simp add: Set_def)

lemma snd_Set:
  assumes "wf_val x0"
  shows "paths (snd (Set cfg p x0)) =
    (case setv (paths cfg) p x0 of Some v' \<Rightarrow> v' | None \<Rightarrow> paths cfg)"
proof (cases "p = []")
  case False
  show ?thesis
  proof (cases "setv (paths cfg) p x0")
    case None
    with False assms Set_None [of p cfg x0] show ?thesis by auto
  next
    case (Some v')
    with False assms show ?thesis by (simp add: Set_Some)
  qed
qed simp

lemma ex_strict_prefix_Cons:
  "(\<exists>q. strict_prefix q (k # ks) \<and> P q) \<longleftrightarrow> P [] \<or> (\<exists>q. strict_prefix q ks \<and> P (k # q))"
proof
  assume "\<exists>q. strict_prefix q (k # ks) \<and> P q"
  then obtain q where "strict_prefix q (k # ks)" "P q" by blast
  then show "P [] \<or> (\<exists>q. strict_prefix q ks \<and> P (k # q))" by (cases q) auto
next
  assume "P [] \<or> (\<exists>q. strict_prefix q ks \<and> P (k # q))"
  then show "\<exists>q. strict_prefix q (k # ks) \<and> P q"
    by (auto intro: exI [of _ "[]"] exI [of _ "k # _"])
qed

lemma blocked_Cons:
  "blocked v (k # ks) \<longleftrightarrow>
     (case v of VNil \<Rightarrow> False | VMap m \<Rightarrow> blocked (mapIndex m (VStr k)) ks | _ \<Rightarrow> True)"
  unfolding blocked_def
  using ex_strict_prefix_Cons [of k ks "\<lambda>q. \<exists>x. lookup v q = Some x \<and> \<not> is_map x"]
  by (cases v) auto

lemma blocked_Nil [simp]: "\<not> blocked v []"
  by (simp add: blocked_def)

lemma blocked_VNil [simp]: "\<not> blocked VNil p"
  by (simp add: blocked_def)

lemma setv_None_iff: "setv v p s = None \<longleftrightarrow> blocked v p"
  by (induction v p s rule: setv.induct) (auto simp: blocked_Cons split: gval.splits)

lemma lookup_setv_ext: "setv v p s = Some v' \<Longrightarrow> lookup v' (p @ r) = lookup s r"
proof (induction v p s arbitrary: v' rule: setv.induct)
  case (2 v k ks s)
  then show ?case by (auto split: gval.splits)
qed auto

lemma lookup_setv_same:
  "setv v p s = Some v' \<Longrightarrow> lookup v' p = (if s = VNil then None else Some s)"
  using lookup_setv_ext [of v p s v' "[]"] by simp

lemma lookup_setv_prefix:
  "setv v p s = Some v' \<Longrightarrow> strict_prefix q p \<Longrightarrow> \<exists>m. lookup v' q = Some (VMap m)"
proof (induction v p s arbitrary: v' q rule: setv.induct)
  case (2 v k ks s)
  then show ?case
    by (cases q) (auto split: gval.splits)
qed auto

lemma lookup_setv_other:
  "setv v p s = Some v' \<Longrightarrow> incomparable p q \<Longrightarrow> lookup v' q = lookup v q"
proof (induction v p s arbitrary: v' q rule: setv.induct)
  case (1 v s)
  then show ?case by (simp add: incomparable_def)
next
  case (2 v k ks s)
  from "2.prems"(2) obtain c cs where q: "q = c # cs"
    by (cases q) (auto simp: incomparable_def)
  show ?case
  proof (cases "c = k")
    case True
    with "2.prems" q have inc: "incomparable ks cs" by (auto simp: incomparable_def)
    show ?thesis
      using 2 inc by (auto simp: q True split: gval.splits)
  next
    case False
    with 2 show ?thesis by (auto simp: q split: gval.splits)
  qed
qed

lemma wf_val_setv: "setv v p s = Some v' \<Longrightarrow> wf_val v \<Longrightarrow> wf_val s \<Longrightarrow> wf_val v'"
proof (induction v p s arbitrary: v' rule: setv.induct)
  case (2 v k ks s)
  then show ?case
    by (auto split: gval.splits simp del: wf_val.simps(2) intro!: wf_intros) (auto)
qed auto

section \<open>Iterating and merging\<close>

lemma forEachMap_nonempty:
  "m \<noteq> [] \<Longrightarrow> forEachMap p m = concat (map (\<lambda>(k, v).
     (case k of
        VStr s \<Rightarrow>
          (case v of VMap m' \<Rightarrow> forEachMap (p @ [s]) m' | VNil \<Rightarrow> [] | _ \<Rightarrow> [(p @ [s], v)])
      | _ \<Rightarrow> [])) m)"
  by (subst forEachMap.simps) simp

lemma forEachMap_Nil [simp]: "forEachMap p [] = [(p, VMap [])]"
  by (subst forEachMap.simps) simp

text \<open>What one entry of a map contributes to the iteration.\<close>

definition entryLeaves :: "path \<Rightarrow> gval \<times> gval \<Rightarrow> (path \<times> gval) list" where
  "entryLeaves p kv =
     (case fst kv of
        VStr s \<Rightarrow>
          (case snd kv of
             VMap m' \<Rightarrow> forEachMap (p @ [s]) m'
           | VNil \<Rightarrow> []
           | v \<Rightarrow> [(p @ [s], v)])
      | _ \<Rightarrow> [])"

lemma forEachMap_entries: "m \<noteq> [] \<Longrightarrow> forEachMap p m = concat (map (entryLeaves p) m)"
  by (subst forEachMap_nonempty)
     (auto simp: entryLeaves_def intro!: arg_cong [of _ _ concat] split: gval.splits)

lemma set_forEachMap_sound:
  assumes "(q, x) \<in> set (forEachMap p m)" and "wf_val (VMap m)"
  shows "\<exists>r. q = p @ r \<and> lookup (VMap m) r = Some x \<and> (x = VMap [] \<or> \<not> is_map x)"
  using assms
proof (induction p m rule: forEachMap.induct)
  case (1 p m)
  show ?case
  proof (cases "m = []")
    case False
    with "1.prems"(1) obtain k v where kv: "(k, v) \<in> set m" "(q, x) \<in> set (entryLeaves p (k, v))"
      by (auto simp: forEachMap_entries)
    then obtain s where k: "k = VStr s"
      by (cases k) (auto simp: entryLeaves_def)
    from kv(1) "1.prems"(2) have mo: "mapIndex m (VStr s) = v" and wv: "wf_val v"
      by (auto simp: k mapIndex_def)
    show ?thesis
    proof (cases "is_map v")
      case True
      then obtain m' where v: "v = VMap m'" by (auto simp: is_map_iff)
      from kv(2) have "(q, x) \<in> set (forEachMap (p @ [s]) m')"
        by (simp add: entryLeaves_def k v)
      with "1.IH" [OF False kv(1) refl k v] wv obtain r where
        "q = (p @ [s]) @ r" "lookup (VMap m') r = Some x" "x = VMap [] \<or> \<not> is_map x"
        by (auto simp: v)
      then show ?thesis by (intro exI [of _ "s # r"]) (simp add: mo v)
    next
      case nm: False
      with kv(2) have "q = p @ [s]" "x = v" "v \<noteq> VNil"
        by (auto simp: entryLeaves_def k split: gval.splits)
      with nm show ?thesis by (intro exI [of _ "[s]"]) (simp add: mo)
    qed
  qed (use "1.prems" in auto)
qed

lemma set_forEachMap_complete:
  assumes "lookup (VMap m) r = Some x" and "\<not> is_map x"
  shows "(p @ r, x) \<in> set (forEachMap p m)"
  using assms
proof (induction p m arbitrary: r rule: forEachMap.induct)
  case (1 p m)
  from "1.prems" obtain s ss where r: "r = s # ss" by (cases r) auto
  let ?v = "mapIndex m (VStr s)"
  have l: "lookup ?v ss = Some x" using "1.prems" r by simp
  then have nn: "?v \<noteq> VNil" by auto
  then have mem: "(VStr s, ?v) \<in> set m" by (rule mapIndex_in)
  then have ne: "m \<noteq> []" by auto
  have "(p @ r, x) \<in> set (entryLeaves p (VStr s, ?v))"
  proof (cases "is_map ?v")
    case True
    then obtain m' where v: "?v = VMap m'" by (auto simp: is_map_iff)
    have "((p @ [s]) @ ss, x) \<in> set (forEachMap (p @ [s]) m')"
      by (rule "1.IH" [OF ne mem refl refl v]) (use l v "1.prems" in simp_all)
    then show ?thesis by (simp add: entryLeaves_def r v)
  next
    case False
    with l have "ss = []" "?v = x" by (cases ss; cases ?v; auto)+
    with False nn show ?thesis
      by (cases "mapIndex m (VStr s)") (auto simp: entryLeaves_def r)
  qed
  with mem ne show ?case by (auto simp: forEachMap_entries)
qed

lemma forEachMap_prefix: "(q, x) \<in> set (forEachMap p m) \<Longrightarrow> prefix p q"
proof (induction p m rule: forEachMap.induct)
  case (1 p m)
  show ?case
  proof (cases "m = []")
    case False
    with "1.prems" obtain k v where kv: "(k, v) \<in> set m" "(q, x) \<in> set (entryLeaves p (k, v))"
      by (auto simp: forEachMap_entries)
    then obtain s where k: "k = VStr s" by (cases k) (auto simp: entryLeaves_def)
    show ?thesis
    proof (cases "is_map v")
      case True
      then obtain m' where v: "v = VMap m'" by (auto simp: is_map_iff)
      from kv(2) have "(q, x) \<in> set (forEachMap (p @ [s]) m')" by (simp add: entryLeaves_def k v)
      then have "prefix (p @ [s]) q" by (rule "1.IH" [OF False kv(1) refl k v])
      then show ?thesis by (rule append_prefixD)
    next
      case nm: False
      with kv(2) show ?thesis by (cases v) (auto simp: entryLeaves_def k)
    qed
  qed (use "1.prems" in auto)
qed

lemma entryLeaves_prefix:
  assumes "(q, x) \<in> set (entryLeaves p (k, v))"
  shows "\<exists>s. k = VStr s \<and> prefix (p @ [s]) q"
  using assms forEachMap_prefix by (cases k; cases v) (auto simp: entryLeaves_def)

lemma incomparable_diverge:
  assumes "prefix (p @ [s]) q" and "prefix (p @ [t]) r" and "s \<noteq> t"
  shows "incomparable q r"
  using assms by (auto simp: incomparable_def prefix_def append_eq_append_conv2 Cons_eq_append_conv)

lemma forEachMap_incomparable:
  "wf_val (VMap m) \<Longrightarrow> sorted_wrt (\<lambda>a b. incomparable (fst a) (fst b)) (forEachMap p m)"
proof (induction p m rule: forEachMap.induct)
  case (1 p m)
  let ?R = "\<lambda>a b. incomparable (fst a) (fst b)"
  show ?case
  proof (cases "m = []")
    case False
    have each: "sorted_wrt ?R (entryLeaves p (k, v))" if kv: "(k, v) \<in> set m" for k v
    proof (cases "\<exists>s m'. k = VStr s \<and> v = VMap m'")
      case True
      then obtain s m' where e: "k = VStr s" "v = VMap m'" by blast
      from kv "1.prems" have "wf_val (VMap m')" unfolding e by (rule wf_val_member)
      from "1.IH" [OF False kv refl e this] show ?thesis by (simp add: entryLeaves_def e)
    next
      case False
      then show ?thesis by (cases k; cases v) (auto simp: entryLeaves_def)
    qed
    have "distinct (map fst ys) \<Longrightarrow> set ys \<subseteq> set m \<Longrightarrow>
        sorted_wrt ?R (concat (map (entryLeaves p) ys))" for ys
    proof (induction ys)
      case (Cons kv ys)
      obtain k v where kv: "kv = (k, v)" by (cases kv)
      have "?R a b" if a: "a \<in> set (entryLeaves p (k, v))"
        and b: "b \<in> set (concat (map (entryLeaves p) ys))" for a b
      proof -
        from b obtain k' v' where k': "(k', v') \<in> set ys" "b \<in> set (entryLeaves p (k', v'))"
          by auto
        with Cons.prems kv have "k' \<noteq> k" by force
        moreover obtain s where "k = VStr s" "prefix (p @ [s]) (fst a)"
          using entryLeaves_prefix [of "fst a" "snd a" p k v] a by auto
        moreover obtain t where "k' = VStr t" "prefix (p @ [t]) (fst b)"
          using entryLeaves_prefix [of "fst b" "snd b" p k' v'] k'(2) by auto
        ultimately show ?thesis by (auto intro: incomparable_diverge)
      qed
      with Cons kv show ?case by (auto simp: sorted_wrt_append each)
    qed simp
    with "1.prems" False show ?thesis by (simp add: forEachMap_entries)
  qed simp
qed

subsection \<open>The steps of a merge\<close>

definition mergeVal :: "gval \<Rightarrow> path \<times> gval \<Rightarrow> gval" where
  "mergeVal h pv =
     (if lookup h (fst pv) \<noteq> None then h
      else case setv h (fst pv) (snd pv) of Some v \<Rightarrow> v | None \<Rightarrow> h)"

lemma paths_mergeStep: "wf_val (snd pv) \<Longrightarrow> paths (mergeStep c pv) = mergeVal (paths c) pv"
proof (cases "Get c (fst pv)")
  case (Inl e)
  then have "lookup (paths c) (fst pv) = None" using Get_Inl by blast
  moreover assume "wf_val (snd pv)"
  ultimately show ?thesis by (simp add: mergeStep_def mergeVal_def Inl snd_Set)
next
  case (Inr v)
  then have "lookup (paths c) (fst pv) = Some v" by (simp add: Get_lookup)
  then show ?thesis by (simp add: mergeStep_def mergeVal_def Inr)
qed

lemma paths_foldl_mergeStep:
  "\<forall>pv \<in> set L. wf_val (snd pv) \<Longrightarrow> paths (foldl mergeStep c L) = foldl mergeVal (paths c) L"
  by (induction L arbitrary: c) (auto simp: paths_mergeStep)

lemma path_cases:
  obtains (inc) "incomparable p q" | (eq) "q = p" | (ext) "strict_prefix p q" | (pre) "strict_prefix q p"
  by (auto simp: incomparable_def strict_prefix_def)

lemma mergeVal_eq:
  obtains (same) "mergeVal h pv = h"
  | (set) v where "setv h (fst pv) (snd pv) = Some v" "mergeVal h pv = v" "lookup h (fst pv) = None"
      "\<not> blocked h (fst pv)"
proof (cases "lookup h (fst pv) = None \<and> setv h (fst pv) (snd pv) \<noteq> None")
  case True
  then obtain v where v: "setv h (fst pv) (snd pv) = Some v" "lookup h (fst pv) = None" by auto
  moreover from v(1) have "\<not> blocked h (fst pv)" by (metis option.distinct(1) setv_None_iff)
  ultimately show thesis by (auto intro: that(2) simp: mergeVal_def)
next
  case False
  then show thesis by (intro that(1)) (auto simp: mergeVal_def)
qed

lemma mergeVal_leaf:
  assumes "lookup h q = Some y" and "\<not> is_map y"
  shows "lookup (mergeVal h pv) q = Some y"
proof (rule mergeVal_eq [where h = h and pv = pv])
  fix v
  assume set: "setv h (fst pv) (snd pv) = Some v" "mergeVal h pv = v"
    "lookup h (fst pv) = None" "\<not> blocked h (fst pv)"
  show ?thesis
  proof (cases "fst pv" q rule: path_cases)
    case inc
    with set assms show ?thesis by (simp add: lookup_setv_other)
  next
    case ext
    with assms set show ?thesis by (auto dest: lookup_prefix_map)
  next
    case pre
    with assms set show ?thesis by (auto simp: blocked_def)
  qed (use set assms in auto)
qed (use assms in simp)

lemma mergeVal_map:
  assumes "lookup h q = Some y" and "is_map y"
  shows "\<exists>m. lookup (mergeVal h pv) q = Some (VMap m)"
proof (rule mergeVal_eq [where h = h and pv = pv])
  fix v
  assume set: "setv h (fst pv) (snd pv) = Some v" "mergeVal h pv = v"
    "lookup h (fst pv) = None" "\<not> blocked h (fst pv)"
  show ?thesis
  proof (cases "fst pv" q rule: path_cases)
    case inc
    with set assms show ?thesis by (simp add: lookup_setv_other is_map_iff)
  next
    case ext
    with assms set show ?thesis by (auto dest: lookup_prefix_map)
  next
    case pre
    with set show ?thesis by (auto dest: lookup_setv_prefix)
  qed (use set assms in auto)
qed (use assms in \<open>simp add: is_map_iff\<close>)

lemma foldl_mergeVal_leaf:
  "lookup h q = Some y \<Longrightarrow> \<not> is_map y \<Longrightarrow> lookup (foldl mergeVal h L) q = Some y"
  by (induction L arbitrary: h) (auto intro: mergeVal_leaf)

lemma foldl_mergeVal_map:
  "lookup h q = Some y \<Longrightarrow> is_map y \<Longrightarrow> \<exists>m. lookup (foldl mergeVal h L) q = Some (VMap m)"
proof (induction L arbitrary: h y)
  case (Cons pv L)
  then obtain m where "lookup (mergeVal h pv) q = Some (VMap m)" using mergeVal_map by blast
  then show ?case using Cons.IH [of "mergeVal h pv" "VMap m"] by simp
qed (auto simp: is_map_iff)

lemma setv_blocked_inc:
  assumes "setv h p x = Some v" and "incomparable p q" and "\<not> blocked h q"
  shows "\<not> blocked v q"
proof
  assume "blocked v q"
  then obtain r z where r: "strict_prefix r q" "lookup v r = Some z" "\<not> is_map z"
    by (auto simp: blocked_def)
  show False
  proof (cases p r rule: path_cases)
    case inc
    with r assms show False by (auto simp: blocked_def lookup_setv_other)
  next
    case pre
    then obtain m where "lookup v r = Some (VMap m)" using lookup_setv_prefix [OF assms(1)] by blast
    with r show False by auto
  next
    case eq
    with r assms(2) show False by (auto simp: incomparable_def strict_prefix_def)
  next
    case ext
    with r(1) have "prefix p q" by (meson prefix_order.less_trans prefix_order.less_imp_le)
    with assms(2) show False by (simp add: incomparable_def)
  qed
qed

lemma setv_blocked_ext:
  assumes "setv h p (VMap []) = Some v" and "strict_prefix p q"
  shows "\<not> blocked v q"
proof
  assume "blocked v q"
  then obtain t z where t: "strict_prefix t q" "lookup v t = Some z" "\<not> is_map z"
    by (auto simp: blocked_def)
  show False
  proof (cases p t rule: path_cases)
    case inc
    with t(1) assms(2) show False
      by (metis incomparable_def prefix_same_cases prefix_order.less_imp_le)
  next
    case eq
    with t lookup_setv_same [OF assms(1)] show False by auto
  next
    case ext
    then obtain u where "t = p @ u" "u \<noteq> []" by (auto simp: strict_prefix_def prefix_def)
    with lookup_setv_ext [OF assms(1)] t(2) show False by (cases u) auto
  next
    case pre
    then obtain m where "lookup v t = Some (VMap m)" using lookup_setv_prefix [OF assms(1)] by blast
    with t show False by auto
  qed
qed

text \<open>
  Where the high side has neither a value nor a blocking one, a merge of a list of pairwise
  incomparable leaves has exactly the leaves of the list.
\<close>

lemma foldl_mergeVal_new:
  assumes "sorted_wrt (\<lambda>a b. incomparable (fst a) (fst b)) L"
    and "\<forall>(p, x) \<in> set L. x \<noteq> VNil \<and> (x = VMap [] \<or> \<not> is_map x)"
    and "lookup h q = None" and "\<not> blocked h q"
  shows "leaf (foldl mergeVal h L) q = Some y \<longleftrightarrow> (q, y) \<in> set L \<and> \<not> is_map y"
  using assms
proof (induction L arbitrary: h)
  case Nil
  then show ?case by (simp add: leaf_def)
next
  case (Cons pv L)
  obtain p x where pv: "pv = (p, x)" by (cases pv)
  have inc: "incomparable p r" if "(r, z) \<in> set L" for r z
    using Cons.prems(1) that by (force simp: pv)
  have x: "x \<noteq> VNil" "x = VMap [] \<or> \<not> is_map x" using Cons.prems(2) by (auto simp: pv)
  have IH: "lookup h' q = None \<Longrightarrow> \<not> blocked h' q \<Longrightarrow>
      leaf (foldl mergeVal h' L) q = Some y \<longleftrightarrow> (q, y) \<in> set L \<and> \<not> is_map y" for h'
    using Cons.IH Cons.prems by simp
  show ?case
  proof (rule mergeVal_eq [where h = h and pv = pv])
    assume same: "mergeVal h pv = h"
    then have "q \<noteq> p"
      using Cons.prems(3,4) x(1) lookup_setv_same [of h p x] setv_None_iff [of h p x]
      by (auto simp: mergeVal_def pv split: option.splits if_splits)
    then show ?thesis using IH [OF Cons.prems(3,4)] by (simp add: same [unfolded pv] pv)
  next
    fix v
    assume "setv h (fst pv) (snd pv) = Some v" "mergeVal h pv = v"
    then have set: "setv h p x = Some v" "mergeVal h (p, x) = v" by (simp_all add: pv)
    show ?thesis
    proof (cases p q rule: path_cases)
      case inc': inc
      then have "lookup v q = None" "\<not> blocked v q" "q \<noteq> p"
        using lookup_setv_other [OF set(1)] setv_blocked_inc [OF set(1)] Cons.prems(3,4)
        by (auto simp: incomparable_def)
      then show ?thesis using IH by (simp add: set(2) pv)
    next
      case eq
      then have "(q, y) \<notin> set L" using inc by (auto simp: incomparable_def)
      moreover have l: "lookup v q = Some x" using lookup_setv_same [OF set(1)] x(1) eq by simp
      ultimately show ?thesis
        using foldl_mergeVal_leaf [OF l, of L] foldl_mergeVal_map [OF l, of L]
        by (cases "is_map x") (auto simp: leaf_def set(2) pv eq)
    next
      case pre
      then have "(q, y) \<notin> set L" "q \<noteq> p" using inc by (auto simp: incomparable_def strict_prefix_def)
      moreover obtain m where l: "lookup v q = Some (VMap m)"
        using lookup_setv_prefix [OF set(1) pre] by blast
      ultimately show ?thesis
        using foldl_mergeVal_map [OF l, of L] by (auto simp: leaf_def set(2) pv)
    next
      case ext
      then have nq: "(q, y) \<notin> set L" "q \<noteq> p"
        using inc by (auto simp: incomparable_def strict_prefix_def)
      obtain r where r: "q = p @ r" "r \<noteq> []" using ext by (auto simp: strict_prefix_def prefix_def)
      have lp: "lookup v p = Some x" using lookup_setv_same [OF set(1)] x(1) by simp
      show ?thesis
      proof (cases "is_map x")
        case False
        then have "lookup (foldl mergeVal v L) p = Some x" by (rule foldl_mergeVal_leaf [OF lp])
        with False ext have "lookup (foldl mergeVal v L) q = None"
          using lookup_prefix_map by (metis not_None_eq option.inject is_map.simps(1))
        with nq show ?thesis by (simp add: leaf_def set(2) pv)
      next
        case True
        then have xm: "x = VMap []" using x(2) by simp
        have "lookup v q = None"
          using lookup_setv_ext [OF set(1), of r] r xm by (cases r) auto
        moreover have "\<not> blocked v q" using setv_blocked_ext set(1) xm ext by blast
        ultimately show ?thesis using IH nq by (simp add: set(2) pv)
      qed
    qed
  qed
qed

text \<open>The leaves that \<^verbatim>\<open>ForEach\<close> visits from the root.\<close>

lemma ForEach_root:
  "ForEach cfg [] = (case paths cfg of VNil \<Rightarrow> [] | VMap m \<Rightarrow> forEachMap [] m | v \<Rightarrow> [([], v)])"
  by (auto simp: ForEach_def split: gval.splits)

lemma ForEach_leaves:
  assumes "wf_val (paths low)"
  shows "(q, y) \<in> set (ForEach low []) \<and> \<not> is_map y \<longleftrightarrow> leaf (paths low) q = Some y"
proof (cases "is_map (paths low)")
  case True
  then obtain m where m: "paths low = VMap m" by (auto simp: is_map_iff)
  show ?thesis
  proof
    assume "(q, y) \<in> set (ForEach low []) \<and> \<not> is_map y"
    with set_forEachMap_sound [of q y "[]" m] assms
    show "leaf (paths low) q = Some y" by (auto simp: ForEach_root m leaf_def)
  next
    assume "leaf (paths low) q = Some y"
    then have "lookup (VMap m) q = Some y" "\<not> is_map y"
      by (auto simp: leaf_def m split: option.splits if_splits)
    with set_forEachMap_complete [of m q y "[]"]
    show "(q, y) \<in> set (ForEach low []) \<and> \<not> is_map y" by (simp add: ForEach_root m)
  qed
next
  case False
  then show ?thesis
    by (cases "paths low"; cases q) (auto simp: ForEach_root leaf_def)
qed

lemma ForEach_shape:
  assumes "wf_val (paths low)"
  shows "sorted_wrt (\<lambda>a b. incomparable (fst a) (fst b)) (ForEach low [])"
    and "\<forall>(p, x) \<in> set (ForEach low []). x \<noteq> VNil \<and> (x = VMap [] \<or> \<not> is_map x)"
proof -
  show "sorted_wrt (\<lambda>a b. incomparable (fst a) (fst b)) (ForEach low [])"
    using assms forEachMap_incomparable by (cases "paths low") (auto simp: ForEach_root)
  show "\<forall>(p, x) \<in> set (ForEach low []). x \<noteq> VNil \<and> (x = VMap [] \<or> \<not> is_map x)"
    using assms set_forEachMap_sound lookup_not_nil
    by (cases "paths low") (fastforce simp: ForEach_root)+
qed

lemma wf_val_lookup: "wf_val v \<Longrightarrow> lookup v p = Some x \<Longrightarrow> wf_val x"
  by (induction v p rule: lookup.induct)
     (auto split: gval.splits if_splits simp del: wf_val.simps(2) intro: wf_val_mapIndex)

lemma ForEach_wf: "wf_val (paths low) \<Longrightarrow> pv \<in> set (ForEach low []) \<Longrightarrow> wf_val (snd pv)"
proof (cases "paths low")
  case (VMap m)
  assume wf: "wf_val (paths low)" and "pv \<in> set (ForEach low [])"
  then have "(fst pv, snd pv) \<in> set (forEachMap [] m)" by (simp add: ForEach_root VMap)
  from set_forEachMap_sound [OF this] wf obtain r where "lookup (VMap m) r = Some (snd pv)"
    by (auto simp: VMap)
  with wf show ?thesis unfolding VMap by (rule wf_val_lookup)
qed (auto simp: ForEach_root)

lemma blocked_foldl_mergeVal: "blocked h q \<Longrightarrow> blocked (foldl mergeVal h L) q"
  unfolding blocked_def using foldl_mergeVal_leaf by blast

lemma blocked_lookup: "blocked v q \<Longrightarrow> lookup v q = None"
  unfolding blocked_def using lookup_prefix_map
  by (metis is_map.simps(1) not_Some_eq option.inject)

lemma Merge_leaf:
  assumes "wf_val (paths low)"
  shows "leaf (paths (Merge high low)) q =
    (if lookup (paths high) q \<noteq> None then leaf (paths high) q
     else if blocked (paths high) q then None
     else leaf (paths low) q)"
proof -
  let ?L = "ForEach low []" and ?h = "paths high"
  have fold: "paths (Merge high low) = foldl mergeVal ?h ?L"
    using ForEach_wf [OF assms] by (simp add: Merge_def paths_foldl_mergeStep)
  consider (leaf) y where "lookup ?h q = Some y" "\<not> is_map y"
    | (map) y where "lookup ?h q = Some y" "is_map y"
    | (bl) "lookup ?h q = None" "blocked ?h q"
    | (new) "lookup ?h q = None" "\<not> blocked ?h q"
    by (cases "lookup ?h q") auto
  then show ?thesis
  proof cases
    case leaf
    then show ?thesis by (simp add: fold leaf_def foldl_mergeVal_leaf)
  next
    case map
    then obtain m where "lookup (foldl mergeVal ?h ?L) q = Some (VMap m)"
      using foldl_mergeVal_map by blast
    with map show ?thesis by (simp add: fold leaf_def)
  next
    case bl
    then have "lookup (foldl mergeVal ?h ?L) q = None"
      by (simp add: blocked_lookup blocked_foldl_mergeVal)
    with bl show ?thesis by (simp add: fold leaf_def)
  next
    case new
    have "leaf (foldl mergeVal ?h ?L) q = Some y \<longleftrightarrow> leaf (paths low) q = Some y" for y
      using foldl_mergeVal_new [OF ForEach_shape [OF assms] new] ForEach_leaves [OF assms]
      by simp
    then have "leaf (foldl mergeVal ?h ?L) q = leaf (paths low) q"
      by (metis not_Some_eq)
    with new show ?thesis by (simp add: fold)
  qed
qed

lemma wf_mergeVal: "wf_val h \<Longrightarrow> wf_val (snd pv) \<Longrightarrow> wf_val (mergeVal h pv)"
  by (auto simp: mergeVal_def split: option.splits intro: wf_val_setv)

lemma wf_Merge [wf_intros]:
  assumes "wf_val (paths high)" and "wf_val (paths low)"
  shows "wf_val (paths (Merge high low))"
proof -
  have "wf_val h \<Longrightarrow> \<forall>pv \<in> set L. wf_val (snd pv) \<Longrightarrow> wf_val (foldl mergeVal h L)" for h L
    by (induction L arbitrary: h) (auto simp: wf_mergeVal)
  with assms ForEach_wf [OF assms(2)] show ?thesis
    by (simp add: Merge_def paths_foldl_mergeStep)
qed

section \<open>Merging several configurations\<close>

text \<open>A merge puts something at a path only if one of its arguments has something there.\<close>

lemma mergeVal_source:
  assumes "lookup (mergeVal h pv) q = Some y" and "snd pv = VMap [] \<or> \<not> is_map (snd pv)"
  shows "lookup h q \<noteq> None \<or> prefix q (fst pv)"
proof (rule mergeVal_eq [where h = h and pv = pv])
  fix v
  assume set: "setv h (fst pv) (snd pv) = Some v" "mergeVal h pv = v"
  show ?thesis
  proof (cases "fst pv" q rule: path_cases)
    case inc
    with set assms(1) show ?thesis by (simp add: lookup_setv_other)
  next
    case ext
    then obtain zs where "q = fst pv @ zs" "zs \<noteq> []" by (auto simp: strict_prefix_def prefix_def)
    then obtain k ks where q: "q = fst pv @ k # ks" by (cases zs) auto
    have "lookup (snd pv) (k # ks) = None"
      using assms(2) by (auto split: gval.split)
    with set assms(1) lookup_setv_ext [OF set(1), of "k # ks"] show ?thesis by (simp add: q)
  qed auto
qed (use assms in simp)

lemma foldl_mergeVal_source:
  "lookup (foldl mergeVal h L) q \<noteq> None \<Longrightarrow> \<forall>(p, x) \<in> set L. x = VMap [] \<or> \<not> is_map x \<Longrightarrow>
   lookup h q \<noteq> None \<or> (\<exists>(p, x) \<in> set L. prefix q p)"
proof (induction L arbitrary: h)
  case (Cons pv L)
  from Cons.IH [of "mergeVal h pv"] Cons.prems
  consider "lookup (mergeVal h pv) q \<noteq> None" | "\<exists>(p, x) \<in> set L. prefix q p" by auto
  then show ?case
  proof cases
    case 1
    then show ?thesis using mergeVal_source [of h pv q] Cons.prems(2) by (cases pv) auto
  qed auto
qed auto

lemma ForEach_lookup:
  assumes "wf_val (paths low)" and "(p, x) \<in> set (ForEach low [])"
  shows "lookup (paths low) p = Some x"
proof (cases "is_map (paths low)")
  case True
  then obtain m where m: "paths low = VMap m" by (auto simp: is_map_iff)
  with assms set_forEachMap_sound [of p x "[]" m] show ?thesis by (auto simp: ForEach_root)
next
  case False
  with assms show ?thesis by (cases "paths low") (auto simp: ForEach_root)
qed

lemma Merge_source:
  assumes "wf_val (paths low)" and "lookup (paths (Merge high low)) q \<noteq> None"
  shows "lookup (paths high) q \<noteq> None \<or> lookup (paths low) q \<noteq> None"
proof -
  have fold: "paths (Merge high low) = foldl mergeVal (paths high) (ForEach low [])"
    using ForEach_wf [OF assms(1)] by (simp add: Merge_def paths_foldl_mergeStep)
  have "\<forall>(p, x) \<in> set (ForEach low []). x = VMap [] \<or> \<not> is_map x"
    using ForEach_shape(2) [OF assms(1)] by auto
  from foldl_mergeVal_source [OF assms(2) [unfolded fold] this]
  show ?thesis
  proof
    assume "\<exists>(p, x) \<in> set (ForEach low []). prefix q p"
    then obtain p x where p: "(p, x) \<in> set (ForEach low [])" "prefix q p" by blast
    then have "lookup (paths low) p = Some x" using ForEach_lookup assms(1) by blast
    with p(2) lookup_prefix_map [of "paths low" p x q] show ?thesis
      by (cases "q = p") (auto simp: strict_prefix_def)
  qed simp
qed

text \<open>A configuration that says nothing about a path: no value there and no leaf above.\<close>

definition silent :: "config \<Rightarrow> path \<Rightarrow> bool" where
  "silent c q \<longleftrightarrow> lookup (paths c) q = None \<and> \<not> blocked (paths c) q"

lemma blocked_leaf: "blocked v q \<longleftrightarrow> (\<exists>r x. strict_prefix r q \<and> leaf v r = Some x)"
  by (auto simp: blocked_def leaf_def split: option.splits if_splits)

lemma Merge_silent:
  assumes "wf_val (paths low)" and "silent high q" and "silent low q"
  shows "silent (Merge high low) q"
proof -
  have "lookup (paths (Merge high low)) q = None"
    using Merge_source [OF assms(1), of high q] assms(2,3) unfolding silent_def by metis
  moreover have "leaf (paths (Merge high low)) r = None" if "strict_prefix r q" for r
    using assms(2,3) that unfolding silent_def blocked_leaf Merge_leaf [OF assms(1)]
    by (metis not_None_eq)
  ultimately show ?thesis by (auto simp: silent_def blocked_leaf)
qed

lemma leaf_Merge_keep: "wf_val (paths low) \<Longrightarrow> leaf (paths high) q = Some x \<Longrightarrow> leaf (paths (Merge high low)) q = Some x"
  unfolding Merge_leaf by (auto simp: leaf_def split: option.splits)

lemma leaf_Merge_new: "wf_val (paths low) \<Longrightarrow> silent high q \<Longrightarrow> leaf (paths (Merge high low)) q = leaf (paths low) q"
  by (simp add: Merge_leaf silent_def)

lemma silent_NewConfig [simp]: "silent NewConfig q"
  by (simp add: silent_def NewConfig_def)

lemma leaf_foldl_Merge_keep:
  "\<forall>c \<in> set cs. wf_val (paths c) \<Longrightarrow> leaf (paths h) q = Some x \<Longrightarrow> leaf (paths (foldl Merge h cs)) q = Some x"
  by (induction cs arbitrary: h) (auto simp: leaf_Merge_keep)

text \<open>The first configuration of a chain that speaks about a path wins.\<close>

lemma Merges_first:
  "\<forall>c \<in> set (pre @ c # post). wf_val (paths c) \<Longrightarrow> silent h q \<Longrightarrow> \<forall>d \<in> set pre. silent d q \<Longrightarrow>
   leaf (paths c) q = Some x \<Longrightarrow> leaf (paths (foldl Merge h (pre @ c # post))) q = Some x"
proof (induction pre arbitrary: h)
  case Nil
  then have "leaf (paths (Merge h c)) q = Some x" by (simp add: leaf_Merge_new)
  with Nil show ?case by (simp add: leaf_foldl_Merge_keep)
next
  case (Cons d pre)
  then show ?case using Merge_silent [of d h q] by simp
qed

lemma Merges_source:
  "\<forall>c \<in> set cs. wf_val (paths c) \<Longrightarrow> leaf (paths (foldl Merge h cs)) q = Some x \<Longrightarrow>
   leaf (paths h) q = Some x \<or> (\<exists>c \<in> set cs. leaf (paths c) q = Some x)"
proof (induction cs arbitrary: h)
  case (Cons c cs)
  then have "leaf (paths (Merge h c)) q = Some x \<or> (\<exists>c \<in> set cs. leaf (paths c) q = Some x)" by simp
  then show ?case using Cons.prems(1) by (auto simp: Merge_leaf split: if_splits)
qed auto

lemma wf_Merges: "\<forall>c \<in> set cs. wf_val (paths c) \<Longrightarrow> wf_val (paths h) \<Longrightarrow> wf_val (paths (foldl Merge h cs))"
  by (induction cs arbitrary: h) (auto simp: wf_Merge)

section \<open>The interface of a store addressed by paths\<close>

text \<open>
  What the clients of a configuration rely on: a value set at a path is read back, values at
  incomparable paths stay, and setting fails only below a value that is not a map.
\<close>

fun storeAll :: "('c \<Rightarrow> path \<Rightarrow> 'v \<Rightarrow> 'c option) \<Rightarrow> 'c \<Rightarrow> (path \<times> 'v) list \<Rightarrow> 'c option" where
  "storeAll setf c [] = Some c"
| "storeAll setf c ((p, v) # pvs) =
     (case setf c p v of None \<Rightarrow> None | Some c' \<Rightarrow> storeAll setf c' pvs)"

locale path_store =
  fixes new :: "'c"
    and get :: "'c \<Rightarrow> path \<Rightarrow> 'v option"
    and put :: "'c \<Rightarrow> path \<Rightarrow> 'v \<Rightarrow> 'c option"
    and inner :: "'v \<Rightarrow> bool"
    and plain :: "'v \<Rightarrow> bool"
  assumes get_new: "get new p = None"
    and put_total:
      "(\<And>q y. strict_prefix q p \<Longrightarrow> get c q = Some y \<Longrightarrow> inner y) \<Longrightarrow> \<exists>c'. put c p v = Some c'"
    and get_put_same: "plain v \<Longrightarrow> put c p v = Some c' \<Longrightarrow> get c' p = Some v"
    and get_put_other: "put c p v = Some c' \<Longrightarrow> incomparable p q \<Longrightarrow> get c' q = get c q"
    and get_put_prefix:
      "put c p v = Some c' \<Longrightarrow> strict_prefix q p \<Longrightarrow> get c' q = Some y \<Longrightarrow> inner y"
begin

text \<open>No value below a path of the list stands in the way of setting it.\<close>

definition open_for :: "'c \<Rightarrow> path \<Rightarrow> bool" where
  "open_for c p = (\<forall>q y. strict_prefix q p \<longrightarrow> get c q = Some y \<longrightarrow> inner y)"

lemma open_for_put:
  assumes "put c p v = Some c'" and "incomparable p r" and "open_for c r"
  shows "open_for c' r"
  unfolding open_for_def
proof (intro allI impI)
  fix q y
  assume q: "strict_prefix q r" "get c' q = Some y"
  show "inner y"
  proof (cases p q rule: path_cases)
    case inc
    with assms q show ?thesis by (auto simp: open_for_def get_put_other)
  next
    case pre
    then show ?thesis using get_put_prefix [OF assms(1) _ q(2)] by simp
  next
    case eq
    with q assms(2) show ?thesis by (auto simp: incomparable_def strict_prefix_def)
  next
    case ext
    with q(1) have "prefix p r" by (meson prefix_order.less_trans prefix_order.less_imp_le)
    with assms(2) show ?thesis by (simp add: incomparable_def)
  qed
qed

lemma storeAll_correct:
  assumes "sorted_wrt (\<lambda>a b. incomparable (fst a) (fst b)) pvs"
    and "\<forall>(p, v) \<in> set pvs. plain v \<and> open_for c p"
  shows "\<exists>c'. storeAll put c pvs = Some c' \<and>
    (\<forall>(p, v) \<in> set pvs. get c' p = Some v) \<and>
    (\<forall>q. (\<forall>(p, v) \<in> set pvs. incomparable p q) \<longrightarrow> get c' q = get c q)"
  using assms
proof (induction pvs arbitrary: c)
  case (Cons pv pvs)
  obtain p v where pv: "pv = (p, v)" by (cases pv)
  obtain c1 where c1: "put c p v = Some c1"
    using put_total [of p c v] Cons.prems(2) by (auto simp: pv open_for_def)
  have "\<forall>(r, w) \<in> set pvs. plain w \<and> open_for c1 r"
    using Cons.prems open_for_put [OF c1] by (fastforce simp: pv)
  then obtain c2 where c2: "storeAll put c1 pvs = Some c2"
      "\<forall>(r, w) \<in> set pvs. get c2 r = Some w"
      "\<forall>q. (\<forall>(r, w) \<in> set pvs. incomparable r q) \<longrightarrow> get c2 q = get c1 q"
    using Cons.IH [of c1] Cons.prems(1) by auto
  have "\<forall>(r, w) \<in> set pvs. incomparable r p"
    using Cons.prems(1) by (auto simp: pv incomparable_def)
  with c2(3) get_put_same [OF _ c1] Cons.prems(2) have "get c2 p = Some v"
    by (auto simp: pv)
  moreover have "get c2 q = get c q"
    if "\<forall>(r, w) \<in> set (pv # pvs). incomparable r q" for q
    using that c2(3) get_put_other [OF c1, of q] by (auto simp: pv)
  ultimately show ?case using c1 c2 by (auto simp: pv)
qed auto

lemma open_for_new: "open_for new p"
  by (simp add: open_for_def get_new)

lemma storeAll_new:
  assumes "sorted_wrt (\<lambda>a b. incomparable (fst a) (fst b)) pvs"
    and "\<forall>(p, v) \<in> set pvs. plain v"
  shows "\<exists>c'. storeAll put new pvs = Some c' \<and> (\<forall>(p, v) \<in> set pvs. get c' p = Some v) \<and>
    (\<forall>q. (\<forall>(p, v) \<in> set pvs. incomparable p q) \<longrightarrow> get c' q = None)"
  using storeAll_correct [OF assms(1), of new] assms(2)
  by (auto simp: open_for_new get_new)

end

text \<open>\<^verbatim>\<open>Get\<close> and \<^verbatim>\<open>Set\<close> as the operations of the interface.\<close>

definition getOpt :: "config \<Rightarrow> path \<Rightarrow> gval option" where
  "getOpt cfg p = (case Get cfg p of Inl _ \<Rightarrow> None | Inr v \<Rightarrow> Some v)"

definition setOpt :: "config \<Rightarrow> path \<Rightarrow> gval \<Rightarrow> config option" where
  "setOpt cfg p v = (case Set cfg p v of (None, cfg') \<Rightarrow> Some cfg' | (Some _, _) \<Rightarrow> None)"

definition plain_val :: "gval \<Rightarrow> bool" where
  "plain_val v = (wf_val v \<and> v \<noteq> VNil)"

lemma getOpt_lookup: "getOpt cfg p = lookup (paths cfg) p"
proof (cases "Get cfg p")
  case (Inl e)
  then show ?thesis using Get_Inl [of cfg p] by (simp add: getOpt_def)
next
  case (Inr v)
  then show ?thesis using Get_lookup [of cfg p v] by (simp add: getOpt_def)
qed

lemma setOpt_setv:
  "p \<noteq> [] \<Longrightarrow> setOpt cfg p v = map_option (\<lambda>v'. cfg\<lparr>paths := v'\<rparr>) (setv (paths cfg) p (stored v))"
  using Set_Some [of p cfg v] Set_None [of p cfg v]
  by (cases "setv (paths cfg) p (stored v)") (auto simp: setOpt_def)

lemma setOpt_Nil [simp]: "setOpt cfg [] v = Some (cfg\<lparr>paths := v\<rparr>)"
  by (simp add: setOpt_def)

interpretation cfg: path_store NewConfig getOpt setOpt is_map plain_val
proof unfold_locales
  fix c c' :: config and p q :: path and v y :: gval
  show "getOpt NewConfig p = None" by (simp add: getOpt_lookup NewConfig_def)
  show "\<exists>c'. setOpt c p v = Some c'"
    if "\<And>q y. strict_prefix q p \<Longrightarrow> getOpt c q = Some y \<Longrightarrow> is_map y"
  proof (cases "p = []")
    case False
    have "\<not> blocked (paths c) p" using that by (auto simp: blocked_def getOpt_lookup)
    with False setv_None_iff [of "paths c" p "stored v"] show ?thesis
      by (cases "setv (paths c) p (stored v)") (auto simp: setOpt_setv)
  qed simp
  show "getOpt c' p = Some v" if "plain_val v" "setOpt c p v = Some c'"
    using that lookup_setv_same [of "paths c" p v]
    by (cases "p = []") (auto simp: getOpt_lookup plain_val_def setOpt_setv)
  show "getOpt c' q = getOpt c q" if "setOpt c p v = Some c'" "incomparable p q"
    using that lookup_setv_other
    by (cases "p = []") (auto simp: getOpt_lookup setOpt_setv incomparable_def)
  show "is_map y" if "setOpt c p v = Some c'" "strict_prefix q p" "getOpt c' q = Some y"
    using that lookup_setv_prefix [of "paths c" p "stored v" _ q]
    by (cases "p = []") (fastforce simp: getOpt_lookup setOpt_setv)+
qed

section \<open>Properties\<close>

text \<open>
  Property C1: merging a configuration with one of lower priority keeps every value of the high
  one; a value of the low one is taken exactly at the paths where the high one has nothing and
  no non-map value above; and nothing else appears. In particular the order in which Go ranges
  over the maps does not matter.
\<close>

theorem Merge_priority:
  assumes "wf_val (paths low)"
  shows "leaf (paths (Merge high low)) q =
    (if lookup (paths high) q \<noteq> None then leaf (paths high) q
     else if blocked (paths high) q then None
     else leaf (paths low) q)"
  using assms by (rule Merge_leaf)

theorem Merge_priority_witness:
  "leaf (paths (Merge \<lparr>paths = VMap [(VStr ''a'', VStr ''high'')]\<rparr>
      \<lparr>paths = VMap [(VStr ''a'', VStr ''low''), (VStr ''b'', VBool True)]\<rparr>)) [''b''] =
    Some (VBool True)"
proof -
  have "wf_val (paths \<lparr>paths = VMap [(VStr ''a'', VStr ''low''), (VStr ''b'', VBool True)]\<rparr>)"
    by simp
  from Merge_priority [OF this, of "\<lparr>paths = VMap [(VStr ''a'', VStr ''high'')]\<rparr>" "[''b'']"]
  show ?thesis by (simp add: mapIndex_def blocked_Cons leaf_def)
qed

text \<open>
  Property C2: after a successful \<^verbatim>\<open>Set\<close>, \<^verbatim>\<open>Get\<close> returns the value that was set, and
  at every path that neither extends the set path nor is extended by it, what it returned before.
\<close>

theorem Set_Get:
  assumes "Set cfg p v = (None, cfg')" and "wf_val v" and "v \<noteq> VNil"
  shows "Get cfg' p = Inr v \<and>
    (\<forall>q x. incomparable p q \<longrightarrow> (Get cfg' q = Inr x \<longleftrightarrow> Get cfg q = Inr x))"
proof -
  have "setOpt cfg p v = Some cfg'" using assms(1) by (simp add: setOpt_def)
  with assms(2,3) cfg.get_put_same cfg.get_put_other show ?thesis
    by (auto simp: plain_val_def Get_lookup getOpt_lookup)
qed

theorem Set_Get_witness:
  "Get (snd (Set NewConfig [''a'', ''b''] (VStr ''x''))) [''a'', ''b''] = Inr (VStr ''x'')"
proof -
  have "Set NewConfig [''a'', ''b''] (VStr ''x'') =
      (None, snd (Set NewConfig [''a'', ''b''] (VStr ''x'')))"
    by (simp add: Set_def NewConfig_def createMaps.simps)
  from Set_Get [OF this] show ?thesis by simp
qed

text \<open>
  Property C3: \<^verbatim>\<open>Set\<close> with a non-empty path fails exactly when a value that is not a map
  stands on a proper prefix of the path; it then reports such a prefix and leaves the
  configuration as it was.
\<close>

theorem Set_error:
  assumes "p \<noteq> []"
  shows "(\<exists>cfg'. Set cfg p v = (None, cfg')) \<and> \<not> blocked (paths cfg) p \<or>
    (\<exists>q x. Set cfg p v = (Some (PathNotMap q), cfg) \<and> strict_prefix q p \<and>
       Get cfg q = Inr x \<and> \<not> is_map x)"
proof (cases "setv (paths cfg) p (stored v)")
  case None
  with Set_None [OF assms this] show ?thesis by (simp add: Get_lookup)
next
  case (Some v')
  then have "\<not> blocked (paths cfg) p" by (metis option.distinct(1) setv_None_iff)
  with Set_Some [OF assms Some] show ?thesis by blast
qed

theorem Set_error_witness:
  "Set \<lparr>paths = VMap [(VStr ''a'', VBool True)]\<rparr> [''a'', ''b''] VNil =
     (Some (PathNotMap [''a'']), \<lparr>paths = VMap [(VStr ''a'', VBool True)]\<rparr>)"
proof -
  let ?c = "\<lparr>paths = VMap [(VStr ''a'', VBool True)]\<rparr>"
  have "blocked (paths ?c) [''a'', ''b'']" by (simp add: blocked_Cons mapIndex_def)
  with Set_error [of "[''a'', ''b'']" ?c VNil] obtain q x where
    q: "Set ?c [''a'', ''b''] VNil = (Some (PathNotMap q), ?c)" "strict_prefix q [''a'', ''b'']"
      "lookup (paths ?c) q = Some x" "\<not> is_map x" by (auto simp: Get_lookup)
  then have "q = [''a'']" by (cases q; cases "tl q") auto
  with q(1) show ?thesis by simp
qed

end
