(* ===== verification/Data.thy ===== *)
theory Data
  imports Storages Config
begin

text \<open>
  What the data collectors and publishers of \<^verbatim>\<open>lib/cluster\<close> exchange: the collected data
  with its source (\<^verbatim>\<open>datacollector.go\<close>), the signing and checking functions of
  \<^verbatim>\<open>integrity.go\<close>, which are arguments of every definition that calls them, and the errors.
  A nil and an empty Go map of hashes are both the empty list. A function argument that may be
  \<^verbatim>\<open>nil\<close> is an option. Bytes that may be \<^verbatim>\<open>nil\<close> are an option as well.
\<close>

record data =
  Source :: string
  Value :: string
  Revision :: int

type_synonym hashes = "(string \<times> string) list"

text \<open>
  \<^verbatim>\<open>SignFunc\<close>, \<^verbatim>\<open>CheckFunc\<close> and \<^verbatim>\<open>FileReadFunc\<close>, the last with the reading of the
  reader it returns; it reads the state \<open>'s\<close> of the world.
\<close>

type_synonym sign_func = "string \<Rightarrow> string + (hashes \<times> string)"
type_synonym check_func = "string \<Rightarrow> hashes \<Rightarrow> string \<Rightarrow> string option"
type_synonym 's read_func = "'s \<Rightarrow> string \<Rightarrow> string + string"

datatype yerr = YamlSyntax string | YamlConfig cerr

datatype derr =
    FetchFailed string
  | UnexpectedResponse
  | MapFailed
  | NotFoundPrefix string
  | NotFoundKey string
  | TooManyResponses string
  | MissingResponses
  | HashesNotFound
  | SigNotFound string
  | TooManySigs string
  | MissingSignature string
  | ValueNotFound string
  | IntegrityFailed string string
  | RevisionNotSupported int
  | DataNotExist
  | PathEmpty
  | SignFailed string
  | SignErr string
  | PutFailed string
  | WrongRevision
  | CtxDone string
  | ReadFailed string string
  | WriteFailed string string
  | FilePublishUnsupported
  | ConfigNotExist
  | DecodeFailed string yerr
  | EnvFailed cerr
  | EncodePanic
  | NilDereference
  | TlsFailed string
  | CaDirFailed string
  | ClientFailed string
  | BadStorageKey string

text \<open>The value node of the collectors that check integrity: one per key.\<close>

record valueNode =
  nodeValue :: string
  nodeHashes :: hashes
  nodeSig :: string

definition emptyNode :: valueNode where
  "emptyNode = \<lparr>nodeValue = [], nodeHashes = [], nodeSig = []\<rparr>"

text \<open>\<^verbatim>\<open>nodes[key]\<close>, the zero node for a missing key.\<close>

definition node_of :: "(string \<Rightarrow> valueNode option) \<Rightarrow> string \<Rightarrow> valueNode" where
  "node_of nodes key = (case nodes key of None \<Rightarrow> emptyNode | Some n \<Rightarrow> n)"

text \<open>
  The last loop of the collectors that check integrity: check every key in turn and stop at the
  first failure.
\<close>

fun checkNodes ::
  "check_func \<Rightarrow> string \<Rightarrow> (string \<Rightarrow> valueNode option) \<Rightarrow> string list \<Rightarrow> derr + data list"
where
  "checkNodes checkFunc pref nodes [] = Inr []"
| "checkNodes checkFunc pref nodes (key # keys) =
     (let node = node_of nodes key;
          fullKey = getConfigKey pref key
      in case checkFunc (nodeValue node) (nodeHashes node) (nodeSig node) of
           Some err \<Rightarrow> Inl (IntegrityFailed fullKey err)
         | None \<Rightarrow>
             (case checkNodes checkFunc pref nodes keys of
                Inl e \<Rightarrow> Inl e
              | Inr ds \<Rightarrow>
                  Inr (\<lparr>Source = fullKey, Value = nodeValue node, Revision = 0\<rparr> # ds)))"

lemma checkNodes_Inr:
  "checkNodes chk p nodes keys = Inr ds \<longleftrightarrow>
     ds = map (\<lambda>k. \<lparr>Source = getConfigKey p k, Value = nodeValue (node_of nodes k), Revision = 0\<rparr>)
            keys \<and>
     (\<forall>k \<in> set keys. chk (nodeValue (node_of nodes k)) (nodeHashes (node_of nodes k))
        (nodeSig (node_of nodes k)) = None)"
proof (induction keys arbitrary: ds)
  case (Cons k keys)
  show ?case
  proof (cases "checkNodes chk p nodes keys")
    case (Inl e)
    then have "\<exists>k \<in> set keys. chk (nodeValue (node_of nodes k)) (nodeHashes (node_of nodes k))
        (nodeSig (node_of nodes k)) \<noteq> None" using Cons.IH by auto
    with Inl show ?thesis by (auto simp: Let_def split: option.splits)
  next
    case (Inr ds')
    with Cons.IH [of ds'] show ?thesis by (auto simp: Let_def split: option.splits)
  qed
qed auto

lemma checkNodes_Inl:
  "checkNodes chk p nodes keys = Inl e \<Longrightarrow>
     \<exists>k \<in> set keys. \<exists>msg. e = IntegrityFailed (getConfigKey p k) msg \<and>
       chk (nodeValue (node_of nodes k)) (nodeHashes (node_of nodes k))
         (nodeSig (node_of nodes k)) = Some msg"
  by (induction keys) (auto simp: Let_def split: option.splits sum.splits)

lemma checkNodes_cong:
  "(\<And>k. k \<in> set keys \<Longrightarrow> node_of nodes k = node_of nodes' k) \<Longrightarrow>
     checkNodes chk p nodes keys = checkNodes chk p nodes' keys"
  by (induction keys) (auto simp: Let_def split: option.split)

lemma node_of_Some [simp]: "node_of (\<lambda>k. Some (f k)) key = f key"
  by (simp add: node_of_def)

end
