(* ===== verification/Cluster.thy ===== *)
theory Cluster
  imports Data
begin

text \<open>
  The cluster configuration of \<^verbatim>\<open>lib/cluster/cluster.go\<close>: groups of replicasets of instances,
  each scope with its own configuration, and the operations that look instances up, merge their
  scopes and replace their configurations. The structures are filled by the decoder of
  \<^verbatim>\<open>yaml.v3\<close>, which is the record \<open>yaml\<close>, an argument of what decodes; the methods
  \<^verbatim>\<open>UnmarshalYAML\<close> that it calls back are definitions.
\<close>

section \<open>Data\<close>

text \<open>
  A Go map of named configurations is an association list. \<^verbatim>\<open>RawConfig\<close> is a pointer: it is
  nil for an entry whose YAML value is null.
\<close>

record instanceConfig =
  iRaw :: "config option"

record replicasetConfig =
  rRaw :: "config option"
  rInstances :: "(string \<times> instanceConfig) list"

record groupConfig =
  gRaw :: "config option"
  gReplicasets :: "(string \<times> replicasetConfig) list"

record etcdSsl =
  sslKeyFile :: string
  sslCertFile :: string
  sslCaPath :: string
  sslCaFile :: string
  sslVerifyPeer :: bool
  sslVerifyHost :: bool

record etcdSection =
  etcdEndpoints :: "string list"
  etcdUsername :: string
  etcdPassword :: string
  etcdPrefix :: string
  etcdSslOpts :: etcdSsl
  etcdRequestTimeout :: "64 word"

record storageEndpoint =
  epUri :: string
  epLogin :: string
  epPassword :: string
  epTransport :: string
  epSslKeyFile :: string
  epSslCertFile :: string
  epSslCaFile :: string
  epSslCiphers :: string
  epSslPassword :: string
  epSslPasswordFile :: string

record storageSection =
  storagePrefix :: string
  storageTimeout :: "64 word"
  storageEndpoints :: "storageEndpoint list"

record clusterConfig =
  ccEtcd :: etcdSection
  ccStorage :: storageSection
  ccRaw :: "config option"
  ccGroups :: "(string \<times> groupConfig) list"

datatype clerr =
    UnmarshalFailed string
  | ParseClusterFailed clerr
  | YamlError string
  | ConfigError cerr
  | SetFailed cerr
  | NoInstance string
  | NilConfig
  | EncodeFailed

text \<open>
  What the code uses of the decoder, for a document or a part of it (a node \<open>'n\<close>): parsing and
  encoding a document, whether a node is null, decoding it into an \<^verbatim>\<open>any\<close>, the entries of a
  mapping with string keys, and the structure under the key \<^verbatim>\<open>config\<close>, which has no methods of its
  own (\<open>None\<close> for a missing key).
\<close>

record 'n yaml =
  yParse :: "string \<Rightarrow> string + 'n option"
  yEncode :: "gval \<Rightarrow> string option"
  yNull :: "'n \<Rightarrow> bool"
  yDecode :: "'n \<Rightarrow> string + gval"
  yEntries :: "'n \<Rightarrow> string + (string \<times> 'n) list"
  ySections :: "'n option \<Rightarrow> string + (etcdSection \<times> storageSection)"

section \<open>Decoding\<close>

text \<open>The step every method starts with: the whole node as a raw configuration.\<close>

definition unmarshalRaw :: "'n yaml \<Rightarrow> 'n \<Rightarrow> clerr + config" where
  "unmarshalRaw Y n =
     (case UnmarshalYAML (yDecode Y n) NewConfig of
        (Some err, _) \<Rightarrow> Inl (ConfigError err)
      | (None, raw) \<Rightarrow> Inr raw)"

text \<open>Decoding a field of type \<^verbatim>\<open>map[string]T\<close>, null and missing being no entries.\<close>

definition unmarshalMap ::
  "'n yaml \<Rightarrow> 'a \<Rightarrow> ('n \<Rightarrow> clerr + 'a) \<Rightarrow> 'n option \<Rightarrow> clerr + (string \<times> 'a) list"
where
  "unmarshalMap Y zero unm field =
     (case field of
        None \<Rightarrow> Inr []
      | Some n \<Rightarrow>
          (if yNull Y n then Inr []
           else
             (case yEntries Y n of
                Inl err \<Rightarrow> Inl (YamlError err)
              | Inr entries \<Rightarrow>
                  mapr (\<lambda>(name, m).
                      if yNull Y m then Inr (name, zero)
                      else (case unm m of Inl err \<Rightarrow> Inl err | Inr x \<Rightarrow> Inr (name, x))) entries)))"

definition unmarshalInstance :: "'n yaml \<Rightarrow> 'n \<Rightarrow> clerr + instanceConfig" where
  "unmarshalInstance Y n =
     (case unmarshalRaw Y n of
        Inl err \<Rightarrow> Inl (UnmarshalFailed ''InstanceConfig'')
      | Inr raw \<Rightarrow>
          (case yEntries Y n of
             Inl err \<Rightarrow> Inl (UnmarshalFailed ''InstanceConfig'')
           | Inr flds \<Rightarrow> Inr \<lparr>iRaw = Some raw\<rparr>))"

definition unmarshalReplicaset :: "'n yaml \<Rightarrow> 'n \<Rightarrow> clerr + replicasetConfig" where
  "unmarshalReplicaset Y n =
     (case unmarshalRaw Y n of
        Inl err \<Rightarrow> Inl (UnmarshalFailed ''ReplicasetConfig'')
      | Inr raw \<Rightarrow>
          (case yEntries Y n of
             Inl err \<Rightarrow> Inl (UnmarshalFailed ''ReplicasetConfig'')
           | Inr flds \<Rightarrow>
               (case unmarshalMap Y \<lparr>iRaw = None\<rparr> (unmarshalInstance Y)
                       (map_of flds ''instances'') of
                  Inl err \<Rightarrow> Inl (UnmarshalFailed ''ReplicasetConfig'')
                | Inr instances \<Rightarrow> Inr \<lparr>rRaw = Some raw, rInstances = instances\<rparr>)))"

definition unmarshalGroup :: "'n yaml \<Rightarrow> 'n \<Rightarrow> clerr + groupConfig" where
  "unmarshalGroup Y n =
     (case unmarshalRaw Y n of
        Inl err \<Rightarrow> Inl (UnmarshalFailed ''GroupConfig'')
      | Inr raw \<Rightarrow>
          (case yEntries Y n of
             Inl err \<Rightarrow> Inl (UnmarshalFailed ''GroupConfig'')
           | Inr flds \<Rightarrow>
               (case unmarshalMap Y \<lparr>rRaw = None, rInstances = []\<rparr> (unmarshalReplicaset Y)
                       (map_of flds ''replicasets'') of
                  Inl err \<Rightarrow> Inl (UnmarshalFailed ''GroupConfig'')
                | Inr replicasets \<Rightarrow> Inr \<lparr>gRaw = Some raw, gReplicasets = replicasets\<rparr>)))"

definition unmarshalCluster :: "'n yaml \<Rightarrow> 'n \<Rightarrow> clerr + clusterConfig" where
  "unmarshalCluster Y n =
     (case unmarshalRaw Y n of
        Inl err \<Rightarrow> Inl (UnmarshalFailed ''ClusterConfig'')
      | Inr raw \<Rightarrow>
          (case yEntries Y n of
             Inl err \<Rightarrow> Inl (UnmarshalFailed ''ClusterConfig'')
           | Inr flds \<Rightarrow>
               (case ySections Y (map_of flds ''config'') of
                  Inl err \<Rightarrow> Inl (UnmarshalFailed ''ClusterConfig'')
                | Inr (etcd, storage) \<Rightarrow>
                    (case unmarshalMap Y \<lparr>gRaw = None, gReplicasets = []\<rparr> (unmarshalGroup Y)
                            (map_of flds ''groups'') of
                       Inl err \<Rightarrow> Inl (UnmarshalFailed ''ClusterConfig'')
                     | Inr groups \<Rightarrow>
                         Inr \<lparr>ccEtcd = etcd, ccStorage = storage, ccRaw = Some raw,
                           ccGroups = groups\<rparr>))))"

text \<open>
  \<^verbatim>\<open>yaml.Unmarshal\<close> of a configuration's text: for an empty or null document the structure
  stays as the caller made it (\<open>zero\<close>); \<open>EncodeFailed\<close> is the panic of \<^verbatim>\<open>String\<close>.
\<close>

definition unmarshalText ::
  "'n yaml \<Rightarrow> 'a \<Rightarrow> ('n \<Rightarrow> clerr + 'a) \<Rightarrow> config \<Rightarrow> clerr + 'a"
where
  "unmarshalText Y zero unm cfg =
     (case ConfigString (yEncode Y) cfg of
        None \<Rightarrow> Inl EncodeFailed
      | Some bytes \<Rightarrow>
          (case yParse Y bytes of
             Inl err \<Rightarrow> Inl (YamlError err)
           | Inr None \<Rightarrow> Inr zero
           | Inr (Some n) \<Rightarrow> if yNull Y n then Inr zero else unm n))"

definition MakeInstanceConfig :: "'n yaml \<Rightarrow> config \<Rightarrow> clerr + instanceConfig" where
  "MakeInstanceConfig Y cfg = unmarshalText Y \<lparr>iRaw = None\<rparr> (unmarshalInstance Y) cfg"

definition zeroEtcd :: etcdSection where
  "zeroEtcd = \<lparr>etcdEndpoints = [], etcdUsername = [], etcdPassword = [], etcdPrefix = [],
     etcdSslOpts = \<lparr>sslKeyFile = [], sslCertFile = [], sslCaPath = [], sslCaFile = [],
       sslVerifyPeer = False, sslVerifyHost = False\<rparr>, etcdRequestTimeout = 0\<rparr>"

definition zeroStorage :: storageSection where
  "zeroStorage = \<lparr>storagePrefix = [], storageTimeout = 0, storageEndpoints = []\<rparr>"

definition MakeClusterConfig :: "'n yaml \<Rightarrow> config \<Rightarrow> clerr + clusterConfig" where
  "MakeClusterConfig Y cfg =
     (case unmarshalText Y \<lparr>ccEtcd = zeroEtcd, ccStorage = zeroStorage, ccRaw = Some NewConfig,
             ccGroups = []\<rparr> (unmarshalCluster Y) cfg of
        Inl err \<Rightarrow> Inl (ParseClusterFailed err)
      | Inr cconfig \<Rightarrow> Inr cconfig)"

section \<open>Looking instances up\<close>

text \<open>A nil low-priority configuration is dereferenced by \<^verbatim>\<open>Merge\<close>, which panics.\<close>

definition mergeExclude :: "config \<Rightarrow> config option \<Rightarrow> path \<Rightarrow> clerr + config" where
  "mergeExclude high low excludePath =
     (case low of
        None \<Rightarrow> Inl NilConfig
      | Some l \<Rightarrow>
          (let lowCopy = snd (Set (Merge NewConfig l) excludePath VNil)
           in Inr (Merge high lowCopy)))"

text \<open>What the three nested loops run over, in the order in which they meet it.\<close>

definition flatInstances ::
  "clusterConfig \<Rightarrow>
   (string \<times> groupConfig \<times> string \<times> replicasetConfig \<times> string \<times> instanceConfig) list"
where
  "flatInstances cluster =
     concat (map (\<lambda>(gname, grp).
       concat (map (\<lambda>(rname, replicaset).
         map (\<lambda>(iname, inst). (gname, grp, rname, replicaset, iname, inst))
           (rInstances replicaset)) (gReplicasets grp))) (ccGroups cluster))"

definition scopedConfig ::
  "clusterConfig \<Rightarrow> groupConfig \<Rightarrow> replicasetConfig \<Rightarrow> instanceConfig \<Rightarrow> clerr + config"
where
  "scopedConfig cluster grp replicaset inst =
     (let config0 = (case iRaw inst of None \<Rightarrow> NewConfig | Some raw \<Rightarrow> Merge NewConfig raw)
      in bindr (mergeExclude config0 (rRaw replicaset) [''instances'']) (\<lambda>config1.
         bindr (mergeExclude config1 (gRaw grp) [''replicasets'']) (\<lambda>config2.
         mergeExclude config2 (ccRaw cluster) [''groups''])))"

definition findInstance :: "clusterConfig \<Rightarrow> string \<Rightarrow> clerr + config option" where
  "findInstance cluster name =
     (case find (\<lambda>(_, _, _, _, iname, _). iname = name) (flatInstances cluster) of
        None \<Rightarrow> Inr None
      | Some (_, grp, _, replicaset, _, inst) \<Rightarrow>
          (case scopedConfig cluster grp replicaset inst of
             Inl err \<Rightarrow> Inl err
           | Inr cfg \<Rightarrow> Inr (Some cfg)))"

definition Instances :: "clusterConfig \<Rightarrow> string list" where
  "Instances cluster = map (\<lambda>(_, _, _, _, iname, _). iname) (flatInstances cluster)"

definition HasInstance :: "clusterConfig \<Rightarrow> string \<Rightarrow> clerr + bool" where
  "HasInstance cluster name =
     (case findInstance cluster name of Inl err \<Rightarrow> Inl err | Inr c \<Rightarrow> Inr (c \<noteq> None))"

definition Instantiate :: "clusterConfig \<Rightarrow> string \<Rightarrow> clerr + config" where
  "Instantiate cluster name =
     (case findInstance cluster name of
        Inl err \<Rightarrow> Inl err
      | Inr (Some iconfig) \<Rightarrow> Inr iconfig
      | Inr None \<Rightarrow> mergeExclude NewConfig (ccRaw cluster) [''groups''])"

definition FindInstance :: "clusterConfig \<Rightarrow> string \<Rightarrow> (string \<times> string) option" where
  "FindInstance cconfig name =
     map_option (\<lambda>(gname, _, rname, _, _, _). (gname, rname))
       (find (\<lambda>(_, _, _, _, iname, _). name = iname) (flatInstances cconfig))"

definition FindGroupByReplicaset :: "clusterConfig \<Rightarrow> string \<Rightarrow> string option" where
  "FindGroupByReplicaset cconfig replicaset =
     map_option fst
       (find (\<lambda>(gname, grp). list_ex (\<lambda>(rname, _). rname = replicaset) (gReplicasets grp))
         (ccGroups cconfig))"

section \<open>Replacing an instance\<close>

definition instancePath :: "string \<Rightarrow> string \<Rightarrow> string \<Rightarrow> path" where
  "instancePath gname rname iname =
     [''groups'', gname, ''replicasets'', rname, ''instances'', iname]"

text \<open>The new configuration is a pointer: \<open>VConf\<close> with what its \<^verbatim>\<open>paths\<close> field holds.\<close>

definition SetInstanceConfig ::
  "'n yaml \<Rightarrow> clusterConfig \<Rightarrow> string \<Rightarrow> string \<Rightarrow> string \<Rightarrow> config \<Rightarrow> clerr + clusterConfig"
where
  "SetInstanceConfig Y cconfig grp replicaset instance iconfig =
     (case ccRaw cconfig of
        None \<Rightarrow> Inl NilConfig
      | Some raw \<Rightarrow>
          (case Set (Merge NewConfig raw) (instancePath grp replicaset instance)
                  (VConf (paths iconfig)) of
             (Some err, _) \<Rightarrow> Inl (SetFailed err)
           | (None, newConfig) \<Rightarrow> MakeClusterConfig Y newConfig))"

definition ReplaceInstanceConfig ::
  "'n yaml \<Rightarrow> clusterConfig \<Rightarrow> string \<Rightarrow> config \<Rightarrow> clerr + clusterConfig"
where
  "ReplaceInstanceConfig Y cconfig instance iconfig =
     (case find (\<lambda>(_, _, _, _, iname, _). instance = iname) (flatInstances cconfig) of
        None \<Rightarrow> Inl (NoInstance instance)
      | Some (gname, _, rname, _, iname, _) \<Rightarrow>
          (case ccRaw cconfig of
             None \<Rightarrow> Inl NilConfig
           | Some raw \<Rightarrow>
               (case Set (Merge NewConfig raw) (instancePath gname rname iname)
                       (VConf (paths iconfig)) of
                  (Some err, _) \<Rightarrow> Inl (SetFailed err)
                | (None, newConfig) \<Rightarrow> MakeClusterConfig Y newConfig)))"

section \<open>Well-formed clusters\<close>

text \<open>A scope's configuration: what a YAML mapping decodes to.\<close>

definition wf_raw :: "config \<Rightarrow> bool" where
  "wf_raw c \<longleftrightarrow> wf_val (paths c) \<and> (paths c = VNil \<or> is_map (paths c))"

definition wf_instance :: "instanceConfig \<Rightarrow> bool" where
  "wf_instance inst \<longleftrightarrow> (\<forall>raw. iRaw inst = Some raw \<longrightarrow> wf_raw raw)"

definition wf_replicaset :: "replicasetConfig \<Rightarrow> bool" where
  "wf_replicaset rs \<longleftrightarrow> (\<forall>raw. rRaw rs = Some raw \<longrightarrow> wf_raw raw) \<and>
     (rRaw rs = None \<longrightarrow> rInstances rs = []) \<and> (\<forall>(_, inst) \<in> set (rInstances rs). wf_instance inst)"

definition wf_group :: "groupConfig \<Rightarrow> bool" where
  "wf_group grp \<longleftrightarrow> (\<forall>raw. gRaw grp = Some raw \<longrightarrow> wf_raw raw) \<and>
     (gRaw grp = None \<longrightarrow> gReplicasets grp = []) \<and> (\<forall>(_, rs) \<in> set (gReplicasets grp). wf_replicaset rs)"

definition wf_cluster :: "clusterConfig \<Rightarrow> bool" where
  "wf_cluster c \<longleftrightarrow> (\<exists>raw. ccRaw c = Some raw \<and> wf_raw raw) \<and> (\<forall>(_, grp) \<in> set (ccGroups c). wf_group grp)"

text \<open>
  What the decoder promises: a node with entries is a mapping, its maps have distinct keys.
\<close>

definition decodes_maps :: "'n yaml \<Rightarrow> bool" where
  "decodes_maps Y \<longleftrightarrow> (\<forall>n v es. yDecode Y n = Inr v \<and> yEntries Y n = Inr es \<longrightarrow>
     wf_val (deepCastStringMapToAnyMap v) \<and> is_map (deepCastStringMapToAnyMap v))"

lemma unmarshalRaw_wf:
  "decodes_maps Y \<Longrightarrow> unmarshalRaw Y n = Inr raw \<Longrightarrow> yEntries Y n = Inr es \<Longrightarrow> wf_raw raw"
  unfolding decodes_maps_def
  by (fastforce simp: unmarshalRaw_def UnmarshalYAML_def wf_raw_def split: sum.splits)

lemma unmarshalMap_all:
  assumes "unmarshalMap Y zero unm field = Inr xs" and "P zero" and "\<And>n x. unm n = Inr x \<Longrightarrow> P x"
  shows "\<forall>(_, x) \<in> set xs. P x"
proof -
  have "\<forall>(_, x) \<in> set ys. P x"
    if "list_all2 (\<lambda>e y. (case e of (name, m) \<Rightarrow> if yNull Y m then Inr (name, zero)
      else (case unm m of Inl err \<Rightarrow> Inl err | Inr x \<Rightarrow> Inr (name, x))) = Inr y) es ys" for es ys
    using that assms(2,3)
    by (induction rule: list_all2_induct) (auto split: if_splits sum.splits)
  then show ?thesis using assms(1)
    by (fastforce simp: unmarshalMap_def mapr_Inr split: option.splits if_splits sum.splits)
qed

lemma unmarshalInstance_wf:
  "decodes_maps Y \<Longrightarrow> unmarshalInstance Y n = Inr inst \<Longrightarrow> wf_instance inst"
  by (auto simp: unmarshalInstance_def wf_instance_def unmarshalRaw_wf split: sum.splits)

lemma unmarshalReplicaset_wf:
  assumes "decodes_maps Y" and "unmarshalReplicaset Y n = Inr rs"
  shows "wf_replicaset rs"
proof -
  from assms(2) obtain raw flds insts where r: "unmarshalRaw Y n = Inr raw" "yEntries Y n = Inr flds"
    "unmarshalMap Y \<lparr>iRaw = None\<rparr> (unmarshalInstance Y) (map_of flds ''instances'') = Inr insts"
    "rs = \<lparr>rRaw = Some raw, rInstances = insts\<rparr>"
    by (auto simp: unmarshalReplicaset_def split: sum.splits)
  have "\<forall>(_, x) \<in> set insts. wf_instance x"
    by (rule unmarshalMap_all [OF r(3)]) (simp_all add: unmarshalInstance_wf [OF assms(1)], simp add: wf_instance_def)
  with r unmarshalRaw_wf [OF assms(1) r(1,2)] show ?thesis by (simp add: wf_replicaset_def)
qed

lemma unmarshalGroup_wf:
  assumes "decodes_maps Y" and "unmarshalGroup Y n = Inr grp"
  shows "wf_group grp"
proof -
  from assms(2) obtain raw flds rss where r: "unmarshalRaw Y n = Inr raw" "yEntries Y n = Inr flds"
    "unmarshalMap Y \<lparr>rRaw = None, rInstances = []\<rparr> (unmarshalReplicaset Y)
       (map_of flds ''replicasets'') = Inr rss" "grp = \<lparr>gRaw = Some raw, gReplicasets = rss\<rparr>"
    by (auto simp: unmarshalGroup_def split: sum.splits)
  have "\<forall>(_, x) \<in> set rss. wf_replicaset x"
    by (rule unmarshalMap_all [OF r(3)]) (simp_all add: unmarshalReplicaset_wf [OF assms(1)], simp add: wf_replicaset_def)
  with r unmarshalRaw_wf [OF assms(1) r(1,2)] show ?thesis by (simp add: wf_group_def)
qed

lemma unmarshalCluster_wf:
  assumes "decodes_maps Y" and "unmarshalCluster Y n = Inr c"
  shows "wf_cluster c"
proof -
  from assms(2) obtain raw flds etc sto grps where
    r: "unmarshalRaw Y n = Inr raw" "yEntries Y n = Inr flds"
    "unmarshalMap Y \<lparr>gRaw = None, gReplicasets = []\<rparr> (unmarshalGroup Y) (map_of flds ''groups'') = Inr grps"
    "c = \<lparr>ccEtcd = etc, ccStorage = sto, ccRaw = Some raw, ccGroups = grps\<rparr>"
    by (auto simp: unmarshalCluster_def split: sum.splits)
  have "\<forall>(_, x) \<in> set grps. wf_group x"
    by (rule unmarshalMap_all [OF r(3)]) (simp_all add: unmarshalGroup_wf [OF assms(1)], simp add: wf_group_def)
  with r unmarshalRaw_wf [OF assms(1) r(1,2)] show ?thesis by (simp add: wf_cluster_def)
qed

lemma MakeClusterConfig_wf_cluster:
  assumes "decodes_maps Y" and "MakeClusterConfig Y cfg = Inr c"
  shows "wf_cluster c"
proof -
  have "wf_cluster \<lparr>ccEtcd = zeroEtcd, ccStorage = zeroStorage, ccRaw = Some NewConfig, ccGroups = []\<rparr>"
    by (simp add: wf_cluster_def wf_raw_def NewConfig_def)
  then show ?thesis using assms(2) unmarshalCluster_wf [OF assms(1)]
    by (auto simp: MakeClusterConfig_def unmarshalText_def split: sum.splits option.splits if_splits)
qed

section \<open>Scopes\<close>

text \<open>A scope with the key it hides from its instances.\<close>

definition hidden :: "string option \<Rightarrow> path \<Rightarrow> bool" where
  "hidden l q = (case l of None \<Rightarrow> False | Some k \<Rightarrow> prefix [k] q)"

definition scopeLeaf :: "config \<times> string option \<Rightarrow> path \<Rightarrow> gval option" where
  "scopeLeaf sc q = (if hidden (snd sc) q then None else leaf (paths (fst sc)) q)"

definition scopeSilent :: "config \<times> string option \<Rightarrow> path \<Rightarrow> bool" where
  "scopeSilent sc q \<longleftrightarrow> hidden (snd sc) q \<or> silent (fst sc) q"

definition exclude :: "config \<Rightarrow> string \<Rightarrow> config" where
  "exclude low k = snd (Set (Merge NewConfig low) [k] VNil)"

definition scopeConfig :: "config \<times> string option \<Rightarrow> config" where
  "scopeConfig sc = (case snd sc of None \<Rightarrow> fst sc | Some k \<Rightarrow> exclude (fst sc) k)"

lemma leaf_Merge_NewConfig: "wf_val (paths c) \<Longrightarrow> leaf (paths (Merge NewConfig c)) q = leaf (paths c) q"
  by (simp add: leaf_Merge_new)

lemma wf_raw_copy:
  assumes "wf_raw low"
  shows "wf_val (paths (Merge NewConfig low))" and "\<not> blocked (paths (Merge NewConfig low)) [k]"
proof -
  show "wf_val (paths (Merge NewConfig low))"
    using assms by (intro wf_Merge) (auto simp: wf_raw_def NewConfig_def)
  have "leaf (paths low) [] = None" using assms by (auto simp: wf_raw_def leaf_def)
  with assms show "\<not> blocked (paths (Merge NewConfig low)) [k]"
    by (auto simp: blocked_leaf leaf_Merge_NewConfig wf_raw_def strict_prefix_def prefix_Cons)
qed

lemma exclude_setv:
  assumes "wf_raw low"
  obtains v where "setv (paths (Merge NewConfig low)) [k] VNil = Some v" "paths (exclude low k) = v"
proof -
  from wf_raw_copy(2) [OF assms] obtain v where v: "setv (paths (Merge NewConfig low)) [k] VNil = Some v"
    by (metis not_None_eq setv_None_iff)
  moreover from v have "paths (exclude low k) = v" by (simp add: exclude_def snd_Set)
  ultimately show thesis by (rule that)
qed

lemma prefix_or_incomparable: "q \<noteq> [] \<Longrightarrow> \<not> prefix [k] q \<Longrightarrow> incomparable [k] q"
  by (cases q) (auto simp: incomparable_def)

lemma lookup_exclude:
  assumes "wf_raw low" and "q \<noteq> []"
  shows "lookup (paths (exclude low k)) q =
    (if prefix [k] q then None else lookup (paths (Merge NewConfig low)) q)"
proof -
  from exclude_setv [OF assms(1)] obtain v where
    v: "setv (paths (Merge NewConfig low)) [k] VNil = Some v" "paths (exclude low k) = v" by blast
  show ?thesis
  proof (cases "prefix [k] q")
    case True
    then obtain r where "q = [k] @ r" by (auto simp: prefix_def)
    with lookup_setv_ext [OF v(1), of r] v(2) show ?thesis by simp
  next
    case False
    with v lookup_setv_other [OF v(1) prefix_or_incomparable [OF assms(2) False]] show ?thesis by simp
  qed
qed

lemma leaf_exclude:
  assumes "wf_raw low"
  shows "leaf (paths (exclude low k)) q = scopeLeaf (low, Some k) q"
proof (cases "q = []")
  case True
  from exclude_setv [OF assms] obtain v where
    v: "setv (paths (Merge NewConfig low)) [k] VNil = Some v" "paths (exclude low k) = v" by blast
  have "\<exists>m. lookup v [] = Some (VMap m)" by (rule lookup_setv_prefix [OF v(1)]) simp
  with True v(2) assms show ?thesis
    by (auto simp: scopeLeaf_def hidden_def leaf_def wf_raw_def)
next
  case False
  have "leaf (paths (exclude low k)) q =
      (if prefix [k] q then None else leaf (paths (Merge NewConfig low)) q)"
    by (simp add: leaf_def lookup_exclude [OF assms False])
  with assms show ?thesis by (simp add: scopeLeaf_def hidden_def leaf_Merge_NewConfig wf_raw_def)
qed

lemma silent_exclude:
  assumes "wf_raw low" and "q \<noteq> []" and "scopeSilent (low, Some k) q"
  shows "silent (exclude low k) q"
proof -
  have copy: "lookup (paths low) q = None \<Longrightarrow> lookup (paths (Merge NewConfig low)) q = None"
    using Merge_source [of low NewConfig q] assms(1) unfolding wf_raw_def
    by (metis NewConfig_def lookup_VNil config.select_convs(1))
  have "lookup (paths (exclude low k)) q = None"
    using assms(3) copy by (auto simp: lookup_exclude [OF assms(1,2)] scopeSilent_def hidden_def silent_def)
  moreover have "leaf (paths (exclude low k)) r = None" if r: "strict_prefix r q" for r
  proof (cases "prefix [k] q")
    case True
    with r have "r = [] \<or> prefix [k] r" by (cases r; cases q) (auto simp: strict_prefix_def)
    then show ?thesis unfolding leaf_exclude [OF assms(1)] using assms(1)
      by (auto simp: scopeLeaf_def hidden_def leaf_def wf_raw_def)
  next
    case False
    with assms(3) r show ?thesis
      by (auto simp: leaf_exclude [OF assms(1)] scopeLeaf_def scopeSilent_def hidden_def silent_def blocked_leaf)
  qed
  ultimately show ?thesis by (auto simp: silent_def blocked_leaf)
qed


definition scopesOf ::
  "clusterConfig \<Rightarrow> groupConfig \<Rightarrow> replicasetConfig \<Rightarrow> instanceConfig \<Rightarrow> (config \<times> string option) list"
where
  "scopesOf cluster grp replicaset inst =
     (case iRaw inst of None \<Rightarrow> [] | Some raw \<Rightarrow> [(raw, None)]) @
     [(the (rRaw replicaset), Some ''instances''), (the (gRaw grp), Some ''replicasets''),
      (the (ccRaw cluster), Some ''groups'')]"

lemma flatInstances_mem:
  "(gname, grp, rname, rs, iname, inst) \<in> set (flatInstances c) \<longleftrightarrow>
     (gname, grp) \<in> set (ccGroups c) \<and> (rname, rs) \<in> set (gReplicasets grp) \<and>
     (iname, inst) \<in> set (rInstances rs)"
proof
  assume "(gname, grp, rname, rs, iname, inst) \<in> set (flatInstances c)"
  then show "(gname, grp) \<in> set (ccGroups c) \<and> (rname, rs) \<in> set (gReplicasets grp) \<and>
     (iname, inst) \<in> set (rInstances rs)" by (auto simp: flatInstances_def)
next
  let ?row = "\<lambda>gname grp rname rs. map (\<lambda>(iname, inst). (gname, grp, rname, rs, iname, inst)) (rInstances rs)"
  let ?grp = "\<lambda>gname grp. concat (map (\<lambda>(rname, rs). ?row gname grp rname rs) (gReplicasets grp))"
  assume m: "(gname, grp) \<in> set (ccGroups c) \<and> (rname, rs) \<in> set (gReplicasets grp) \<and>
     (iname, inst) \<in> set (rInstances rs)"
  then have "(gname, grp, rname, rs, iname, inst) \<in> set (?row gname grp rname rs)" by force
  then have "(gname, grp, rname, rs, iname, inst) \<in> set (?grp gname grp)" using m by fastforce
  then show "(gname, grp, rname, rs, iname, inst) \<in> set (flatInstances c)"
    unfolding flatInstances_def using m by fastforce
qed

lemma wf_flat:
  assumes "wf_cluster c" and "(gname, grp, rname, rs, iname, inst) \<in> set (flatInstances c)"
  obtains rawr rawg rawc where "rRaw rs = Some rawr" "wf_raw rawr" "gRaw grp = Some rawg" "wf_raw rawg"
    "ccRaw c = Some rawc" "wf_raw rawc" "\<And>raw. iRaw inst = Some raw \<Longrightarrow> wf_raw raw"
proof -
  from assms have m: "(gname, grp) \<in> set (ccGroups c)" "(rname, rs) \<in> set (gReplicasets grp)"
    "(iname, inst) \<in> set (rInstances rs)" by (simp_all add: flatInstances_mem)
  from assms(1) m(1) have g: "wf_group grp" by (auto simp: wf_cluster_def)
  with m(2) have r: "wf_replicaset rs" by (auto simp: wf_group_def)
  with m(3) have i: "wf_instance inst" by (auto simp: wf_replicaset_def)
  have "gReplicasets grp \<noteq> []" "rInstances rs \<noteq> []" using m by auto
  with g r i assms(1) that show thesis
    by (auto simp: wf_group_def wf_replicaset_def wf_instance_def wf_cluster_def)
qed

lemma mergeExclude_exclude: "mergeExclude high (Some low) [k] = Inr (Merge high (exclude low k))"
  by (simp add: mergeExclude_def exclude_def Let_def)

lemma scopedConfig_eq:
  assumes "wf_cluster c" and "(gname, grp, rname, rs, iname, inst) \<in> set (flatInstances c)"
  shows "scopedConfig c grp rs inst = Inr (foldl Merge NewConfig (map scopeConfig (scopesOf c grp rs inst)))"
proof -
  obtain rawr rawg rawc where "rRaw rs = Some rawr" "gRaw grp = Some rawg" "ccRaw c = Some rawc"
    using wf_flat [OF assms] by metis
  then show ?thesis
    by (cases "iRaw inst")
       (simp_all add: scopedConfig_def scopesOf_def scopeConfig_def mergeExclude_exclude Let_def)
qed

lemma wf_exclude: "wf_raw low \<Longrightarrow> wf_val (paths (exclude low k))"
  using exclude_setv [of low k] wf_val_setv wf_raw_copy(1) by (metis wf_val.simps(5))

lemma scopes_wf:
  assumes "wf_cluster c" and "(gname, grp, rname, rs, iname, inst) \<in> set (flatInstances c)"
    and "sc \<in> set (scopesOf c grp rs inst)"
  shows "wf_raw (fst sc)"
proof -
  obtain rawr rawg rawc where "rRaw rs = Some rawr" "wf_raw rawr" "gRaw grp = Some rawg" "wf_raw rawg"
    "ccRaw c = Some rawc" "wf_raw rawc" "\<And>raw. iRaw inst = Some raw \<Longrightarrow> wf_raw raw"
    using wf_flat [OF assms(1,2)] by metis
  with assms(3) show ?thesis by (cases "iRaw inst") (auto simp: scopesOf_def)
qed

lemma scopeConfig_props:
  assumes "wf_raw (fst sc)"
  shows "wf_val (paths (scopeConfig sc))" and "leaf (paths (scopeConfig sc)) q = scopeLeaf sc q"
    and "q \<noteq> [] \<Longrightarrow> scopeSilent sc q \<Longrightarrow> silent (scopeConfig sc) q"
proof -
  obtain raw l where sc: "sc = (raw, l)" by (cases sc)
  show "wf_val (paths (scopeConfig sc))"
    using assms by (cases l) (auto simp: sc scopeConfig_def wf_exclude wf_raw_def)
  show "leaf (paths (scopeConfig sc)) q = scopeLeaf sc q"
    using assms by (cases l) (simp_all add: sc scopeConfig_def leaf_exclude, simp add: scopeLeaf_def hidden_def)
  show "silent (scopeConfig sc) q" if "q \<noteq> []" "scopeSilent sc q"
    using assms that silent_exclude
    by (cases l) (simp_all add: sc scopeConfig_def, simp add: scopeSilent_def hidden_def)
qed

lemma scope_leaf_nonempty: "wf_raw (fst sc) \<Longrightarrow> scopeLeaf sc q = Some x \<Longrightarrow> q \<noteq> []"
  by (auto simp: scopeLeaf_def wf_raw_def leaf_def split: if_splits)

section \<open>Reading back what was set\<close>

text \<open>
  \<open>val n\<close> is the value of a node, with the keys of its mappings as \<^verbatim>\<open>map[any]any\<close> has them. The
  decoder decodes a node to its value, and the entry of a string key is a node of that entry's
  value.
\<close>

definition yaml_nodes :: "'n yaml \<Rightarrow> ('n \<Rightarrow> gval) \<Rightarrow> bool" where
  "yaml_nodes Y val \<longleftrightarrow>
     (\<forall>n w. yDecode Y n = Inr w \<longrightarrow> deepCastStringMapToAnyMap w = val n) \<and>
     (\<forall>n. yNull Y n \<longleftrightarrow> val n = VNil) \<and>
     (\<forall>n m es k w. val n = VMap m \<and> yEntries Y n = Inr es \<and> map_of m (VStr k) = Some w \<longrightarrow>
        (\<exists>n'. map_of es k = Some n' \<and> val n' = w))"

lemma yaml_entry:
  assumes "yaml_nodes Y val" and "val n = VMap m" and "yEntries Y n = Inr es"
    and "mapIndex m (VStr k) = w" and "w \<noteq> VNil"
  obtains n' where "map_of es k = Some n'" "val n' = w"
proof -
  have "map_of m (VStr k) = Some w" using assms(4,5) by (auto simp: mapIndex_def split: option.splits)
  with assms(1-3) show thesis unfolding yaml_nodes_def by (metis that)
qed

lemma unmarshalMap_entry:
  assumes law: "yaml_nodes Y val" and "unmarshalMap Y zero unm (Some n) = Inr xs"
    and "val n = VMap m" and "mapIndex m (VStr k) = w" and "w \<noteq> VNil"
  obtains n' x where "val n' = w" "unm n' = Inr x" "(k, x) \<in> set xs"
proof -
  have "\<not> yNull Y n" using law assms(3) by (simp add: yaml_nodes_def)
  with assms(2) obtain es where es: "yEntries Y n = Inr es"
    "list_all2 (\<lambda>e y. (case e of (name, m) \<Rightarrow> if yNull Y m then Inr (name, zero)
      else (case unm m of Inl err \<Rightarrow> Inl err | Inr x \<Rightarrow> Inr (name, x))) = Inr y) es xs"
    by (auto simp: unmarshalMap_def mapr_Inr split: sum.splits)
  from yaml_entry [OF law assms(3) es(1) assms(4,5)] obtain n' where
    n': "map_of es k = Some n'" "val n' = w" by blast
  have "\<not> yNull Y n'" using law n'(2) assms(5) by (simp add: yaml_nodes_def)
  moreover from n'(1) have "(k, n') \<in> set es" by (rule map_of_SomeD)
  ultimately have "\<exists>x. unm n' = Inr x \<and> (k, x) \<in> set xs"
    using list_all2_in1 [OF es(2)] by (fastforce split: sum.splits)
  with n'(2) that show thesis by blast
qed

lemma unmarshalRaw_val:
  "yaml_nodes Y val \<Longrightarrow> unmarshalRaw Y n = Inr raw \<Longrightarrow> raw = \<lparr>paths = val n\<rparr>"
  by (auto simp: unmarshalRaw_def UnmarshalYAML_def NewConfig_def yaml_nodes_def split: sum.splits)


lemma lookup_ConsE:
  assumes "lookup v (k # ks) = Some w"
  obtains m where "v = VMap m" "lookup (mapIndex m (VStr k)) ks = Some w" "mapIndex m (VStr k) \<noteq> VNil"
  using assms by (cases v) (auto intro: that)

text \<open>One level of decoding: the named entry of a map-valued field.\<close>

lemma decode_level:
  assumes law: "yaml_nodes Y val" and es: "yEntries Y n = Inr es"
    and u: "unmarshalMap Y zero unm (map_of es fld) = Inr xs"
    and look: "lookup (val n) (fld # k # ks) = Some w"
  obtains n' x where "unm n' = Inr x" "(k, x) \<in> set xs" "lookup (val n') ks = Some w"
proof -
  from look obtain m where m: "val n = VMap m" "lookup (mapIndex m (VStr fld)) (k # ks) = Some w"
    "mapIndex m (VStr fld) \<noteq> VNil" by (rule lookup_ConsE)
  from yaml_entry [OF law m(1) es refl m(3)] obtain nf where
    nf: "map_of es fld = Some nf" "val nf = mapIndex m (VStr fld)" by blast
  from m(2) obtain m' where m': "mapIndex m (VStr fld) = VMap m'"
    "lookup (mapIndex m' (VStr k)) ks = Some w" "mapIndex m' (VStr k) \<noteq> VNil" by (rule lookup_ConsE)
  from unmarshalMap_entry [OF law u [unfolded nf(1)] _ refl m'(3)] nf(2) m'(1) obtain n' x where
    "val n' = mapIndex m' (VStr k)" "unm n' = Inr x" "(k, x) \<in> set xs" by metis
  with m'(2) show thesis by (intro that) auto
qed

lemma unmarshalCluster_instance:
  assumes law: "yaml_nodes Y val" and c: "unmarshalCluster Y n = Inr c"
    and look: "lookup (val n) (instancePath g r i) = Some w"
  shows "\<exists>grp rs. (g, grp, r, rs, i, \<lparr>iRaw = Some \<lparr>paths = w\<rparr>\<rparr>) \<in> set (flatInstances c)"
proof -
  from c obtain raw es etc sto grps where cs: "yEntries Y n = Inr es"
    "unmarshalMap Y \<lparr>gRaw = None, gReplicasets = []\<rparr> (unmarshalGroup Y) (map_of es ''groups'') = Inr grps"
    "c = \<lparr>ccEtcd = etc, ccStorage = sto, ccRaw = Some raw, ccGroups = grps\<rparr>"
    by (auto simp: unmarshalCluster_def split: sum.splits)
  from decode_level [OF law cs(1,2) look [unfolded instancePath_def]] obtain ng grp where
    g: "unmarshalGroup Y ng = Inr grp" "(g, grp) \<in> set grps"
      "lookup (val ng) [''replicasets'', r, ''instances'', i] = Some w" by metis
  from g(1) obtain rawg esg rss where gs: "yEntries Y ng = Inr esg"
    "unmarshalMap Y \<lparr>rRaw = None, rInstances = []\<rparr> (unmarshalReplicaset Y) (map_of esg ''replicasets'') = Inr rss"
    "grp = \<lparr>gRaw = Some rawg, gReplicasets = rss\<rparr>"
    by (auto simp: unmarshalGroup_def split: sum.splits)
  from decode_level [OF law gs(1,2) g(3)] obtain nr rs where
    r: "unmarshalReplicaset Y nr = Inr rs" "(r, rs) \<in> set rss"
      "lookup (val nr) [''instances'', i] = Some w" by metis
  from r(1) obtain rawr esr insts where rsr: "yEntries Y nr = Inr esr"
    "unmarshalMap Y \<lparr>iRaw = None\<rparr> (unmarshalInstance Y) (map_of esr ''instances'') = Inr insts"
    "rs = \<lparr>rRaw = Some rawr, rInstances = insts\<rparr>"
    by (auto simp: unmarshalReplicaset_def split: sum.splits)
  from decode_level [OF law rsr(1,2) r(3)] obtain ni inst where
    i: "unmarshalInstance Y ni = Inr inst" "(i, inst) \<in> set insts" "lookup (val ni) [] = Some w" by metis
  from i(1) obtain rawi where "unmarshalRaw Y ni = Inr rawi" "inst = \<lparr>iRaw = Some rawi\<rparr>"
    by (auto simp: unmarshalInstance_def split: sum.splits)
  moreover from this(1) i(3) have "rawi = \<lparr>paths = w\<rparr>"
    using unmarshalRaw_val [OF law] by (auto split: if_splits)
  ultimately have "(g, grp, r, rs, i, \<lparr>iRaw = Some \<lparr>paths = w\<rparr>\<rparr>) \<in> set (flatInstances c)"
    using i(2) r(2) g(2) cs(3) gs(3) rsr(3) by (simp add: flatInstances_mem)
  then show ?thesis by blast
qed

section \<open>Properties\<close>

text \<open>
  Property C11: the configuration that is found for an instance merges four scopes in the order
  of their priority: the instance, its replicaset, its group, the whole cluster, each of the last
  three without the key under which the narrower scopes are written. Every value of the result
  comes from a scope, and the first scope that has a value at a path wins over the ones after it,
  unless a scope before it has something at the path or a value that is not a map above it.
\<close>

theorem findInstance_scopes:
  assumes "wf_cluster cluster"
    and "find (\<lambda>(_, _, _, _, iname, _). iname = name) (flatInstances cluster) =
      Some (gname, grp, rname, rs, iname, inst)"
  shows "\<exists>cfg. findInstance cluster name = Inr (Some cfg) \<and>
    (\<forall>q x. leaf (paths cfg) q = Some x \<longrightarrow>
       (\<exists>sc \<in> set (scopesOf cluster grp rs inst). scopeLeaf sc q = Some x)) \<and>
    (\<forall>pre sc post q x. scopesOf cluster grp rs inst = pre @ sc # post \<and> scopeLeaf sc q = Some x \<and>
       (\<forall>sc' \<in> set pre. scopeSilent sc' q) \<longrightarrow> leaf (paths cfg) q = Some x)"
proof -
  let ?scs = "scopesOf cluster grp rs inst"
  let ?cfg = "foldl Merge NewConfig (map scopeConfig ?scs)"
  have mem: "(gname, grp, rname, rs, iname, inst) \<in> set (flatInstances cluster)"
    using find_SomeD [OF assms(2)] by blast
  note p = scopeConfig_props [OF scopes_wf [OF assms(1) mem]]
  have wf: "\<forall>c \<in> set (map scopeConfig ?scs). wf_val (paths c)" using p(1) by auto
  have "findInstance cluster name = Inr (Some ?cfg)"
    by (simp add: findInstance_def assms(2) scopedConfig_eq [OF assms(1) mem])
  moreover have "\<exists>sc \<in> set ?scs. scopeLeaf sc q = Some x" if "leaf (paths ?cfg) q = Some x" for q x
    using Merges_source [OF wf that] p(2) by (auto simp: leaf_def NewConfig_def)
  moreover have "leaf (paths ?cfg) q = Some x"
    if d: "?scs = pre @ sc # post" "scopeLeaf sc q = Some x" "\<forall>sc' \<in> set pre. scopeSilent sc' q"
    for pre sc post q x
  proof -
    have sc: "sc \<in> set ?scs" "\<forall>sc' \<in> set pre. sc' \<in> set ?scs" using d(1) by auto
    have "q \<noteq> []" using scope_leaf_nonempty [OF scopes_wf [OF assms(1) mem sc(1)] d(2)] .
    then have "\<forall>c \<in> set (map scopeConfig pre). silent c q" using p(3) sc(2) d(3) by auto
    with wf d(2) p(2) [OF sc(1)] show ?thesis
      unfolding d(1) map_append list.map by (intro Merges_first) auto
  qed
  ultimately show ?thesis by blast
qed

text \<open>
  Property C12: whatever configuration is decoded into a cluster configuration, the result is
  well-formed: every scope that contains narrower ones has a raw configuration, and it is a
  mapping. Looking an instance up in it never dereferences a nil pointer.
\<close>

theorem MakeClusterConfig_wf:
  assumes "decodes_maps Y" and "MakeClusterConfig Y cfg = Inr c"
  shows "wf_cluster c \<and> is_ok (findInstance c name) \<and> is_ok (Instantiate c name)"
proof -
  have wf: "wf_cluster c" using assms by (rule MakeClusterConfig_wf_cluster)
  have "is_ok (findInstance c name)"
    using scopedConfig_eq [OF wf]
    by (fastforce simp: findInstance_def split: option.split dest: find_SomeD)
  moreover from this have "is_ok (Instantiate c name)"
    using wf by (auto simp: Instantiate_def is_ok_iff wf_cluster_def mergeExclude_def Let_def split: option.splits)
  ultimately show ?thesis using wf by blast
qed

text \<open>
  The lookups of an instance agree: on a well-formed cluster \<^verbatim>\<open>HasInstance\<close> holds
  exactly for the names that \<^verbatim>\<open>Instances\<close> lists, these are the names for which
  \<^verbatim>\<open>FindInstance\<close> succeeds, and the group it returns is one with the replicaset it returns.
\<close>

theorem Instances_agree:
  assumes "wf_cluster c"
  shows "HasInstance c name = Inr (name \<in> set (Instances c)) \<and>
    (FindInstance c name = None \<longleftrightarrow> name \<notin> set (Instances c)) \<and>
    (\<forall>g r. FindInstance c name = Some (g, r) \<longrightarrow> (\<exists>g'. FindGroupByReplicaset c r = Some g'))"
proof -
  have none: "find (\<lambda>(_, _, _, _, iname, _). iname = name) (flatInstances c) = None \<longleftrightarrow>
      name \<notin> set (Instances c)"
    by (force simp: find_None_iff Instances_def)
  have has: "HasInstance c name = Inr (name \<in> set (Instances c))"
  proof (cases "find (\<lambda>(_, _, _, _, iname, _). iname = name) (flatInstances c)")
    case None
    with none show ?thesis by (simp add: HasInstance_def findInstance_def)
  next
    case (Some row)
    obtain g grp r rs i inst where row: "row = (g, grp, r, rs, i, inst)" by (cases row)
    with find_SomeD [OF Some] have "(g, grp, r, rs, i, inst) \<in> set (flatInstances c)" by blast
    from scopedConfig_eq [OF assms this] Some row none show ?thesis
      by (simp add: HasInstance_def findInstance_def)
  qed
  have "FindInstance c name = None \<longleftrightarrow> name \<notin> set (Instances c)"
    by (force simp: FindInstance_def find_None_iff Instances_def)
  moreover have "\<exists>g'. FindGroupByReplicaset c r = Some g'" if "FindInstance c name = Some (g, r)" for g r
  proof -
    from that obtain grp rs i inst where "(g, grp, r, rs, i, inst) \<in> set (flatInstances c)"
      by (auto simp: FindInstance_def dest: find_SomeD)
    then have "(g, grp) \<in> set (ccGroups c)" "(r, rs) \<in> set (gReplicasets grp)"
      by (simp_all add: flatInstances_mem)
    then have "(\<lambda>(gname, grp). list_ex (\<lambda>(rname, _). rname = r) (gReplicasets grp)) (g, grp)"
      by (auto simp: list_ex_iff)
    with \<open>(g, grp) \<in> set (ccGroups c)\<close>
    have "find (\<lambda>(gname, grp). list_ex (\<lambda>(rname, _). rname = r) (gReplicasets grp)) (ccGroups c) \<noteq> None"
      unfolding find_None_iff by blast
    then show ?thesis by (auto simp: FindGroupByReplicaset_def)
  qed
  ultimately show ?thesis using has by blast
qed

lemma Replace_is_Set:
  "ReplaceInstanceConfig Y c name iconfig =
     (case FindInstance c name of
        None \<Rightarrow> Inl (NoInstance name)
      | Some (g, r) \<Rightarrow> SetInstanceConfig Y c g r name iconfig)"
proof (cases "find (\<lambda>(_, _, _, _, iname, _). name = iname) (flatInstances c)")
  case None
  then show ?thesis by (simp add: ReplaceInstanceConfig_def FindInstance_def)
next
  case (Some row)
  then obtain g grp r rs inst where "row = (g, grp, r, rs, name, inst)"
    using find_SomeD [OF Some] by (cases row) auto
  with Some show ?thesis
    by (simp add: ReplaceInstanceConfig_def FindInstance_def SetInstanceConfig_def)
qed

text \<open>
  \<^verbatim>\<open>ReplaceInstanceConfig\<close> is \<^verbatim>\<open>SetInstanceConfig\<close> at the place where
  \<^verbatim>\<open>FindInstance\<close> finds the instance, and an error when it finds none.
\<close>

theorem ReplaceInstanceConfig_eq:
  "ReplaceInstanceConfig Y c name iconfig =
     (case FindInstance c name of
        None \<Rightarrow> Inl (NoInstance name)
      | Some (g, r) \<Rightarrow> SetInstanceConfig Y c g r name iconfig)"
  by (rule Replace_is_Set)

text \<open>
  After a successful \<^verbatim>\<open>SetInstanceConfig\<close> the cluster has the instance at the
  given group and replicaset with exactly the configuration that was set, provided the text of
  the new configuration decodes to the configuration it was made from.
\<close>

theorem SetInstanceConfig_found:
  assumes "yaml_nodes Y val" and "ccRaw c = Some raw"
    and "Set (Merge NewConfig raw) (instancePath g r i) (VConf (paths iconfig)) = (None, newConfig)"
    and "yEncode Y (paths newConfig) = Some bytes" and "yParse Y bytes = Inr (Some n)"
    and "val n = paths newConfig"
    and "paths iconfig \<noteq> VNil"
    and "SetInstanceConfig Y c g r i iconfig = Inr c'"
  shows "\<exists>grp rs. (g, grp, r, rs, i, \<lparr>iRaw = Some iconfig\<rparr>) \<in> set (flatInstances c')"
proof -
  have p: "instancePath g r i \<noteq> []" by (simp add: instancePath_def)
  have st: "stored (VConf (paths iconfig)) = paths iconfig" by (simp add: stored_def)
  from assms(3) have "setv (paths (Merge NewConfig raw)) (instancePath g r i) (paths iconfig) \<noteq> None"
    using Set_None [OF p, of "Merge NewConfig raw" "VConf (paths iconfig)"] st by auto
  with assms(3) have "setv (paths (Merge NewConfig raw)) (instancePath g r i) (paths iconfig) =
      Some (paths newConfig)"
    using Set_Some [OF p, of "Merge NewConfig raw" "VConf (paths iconfig)"] st by auto
  from lookup_setv_same [OF this] assms(7)
  have look: "lookup (paths newConfig) (instancePath g r i) = Some (paths iconfig)" by simp
  then have "paths newConfig \<noteq> VNil" by auto
  moreover from this assms(1,6) have "\<not> yNull Y n" by (simp add: yaml_nodes_def)
  ultimately have "unmarshalCluster Y n = Inr c'"
    using assms(2,3,4,5,8)
    by (auto simp: SetInstanceConfig_def MakeClusterConfig_def unmarshalText_def ConfigString_def split: sum.splits)
  from unmarshalCluster_instance [OF assms(1) this look [folded assms(6)]] show ?thesis
    by (cases iconfig) auto
qed


text \<open>
  A decoder that has one document, for the examples: a node is a value, its text a fixed string.
\<close>

definition docYaml :: "gval \<Rightarrow> gval yaml" where
  "docYaml doc = \<lparr>yParse = (\<lambda>_. Inr (Some doc)), yEncode = (\<lambda>_. Some ''doc''), yNull = (\<lambda>n. n = VNil),
     yDecode = (\<lambda>n. if deepCastStringMapToAnyMap n = n \<and> wf_val n then Inr n else Inl ''bad''),
     yEntries = (\<lambda>n. case n of
        VMap m \<Rightarrow> Inr (List.map_filter (\<lambda>(k, v). case k of VStr s \<Rightarrow> Some (s, v) | _ \<Rightarrow> None) m)
      | _ \<Rightarrow> Inl ''not a mapping''),
     ySections = (\<lambda>_. Inr (zeroEtcd, zeroStorage))\<rparr>"

lemma docYaml_maps: "decodes_maps (docYaml doc)"
  by (auto simp: decodes_maps_def docYaml_def split: gval.splits if_splits)

lemma docYaml_nodes: "yaml_nodes (docYaml doc) (\<lambda>n. n)"
proof -
  have "map_of m (VStr k) = Some w \<Longrightarrow>
      map_of (List.map_filter (\<lambda>(k, v). case k of VStr s \<Rightarrow> Some (s, v) | _ \<Rightarrow> None) m) k = Some w"
    for m :: "(gval \<times> gval) list" and k w
    by (induction m) (auto simp: List.map_filter_simps split: gval.splits if_splits)
  then show ?thesis by (auto simp: yaml_nodes_def docYaml_def split: if_splits)
qed

definition demoDoc :: gval where
  "demoDoc = VMap [
     (VStr ''groups'', VMap [(VStr ''g'', VMap [(VStr ''replicasets'', VMap [(VStr ''r'',
        VMap [(VStr ''instances'', VMap [(VStr ''i'', VMap [(VStr ''a'', VStr ''inst'')])]),
              (VStr ''a'', VStr ''repl'')])])])]),
     (VStr ''b'', VBool True)]"

definition demoCluster :: clusterConfig where
  "demoCluster = (case MakeClusterConfig (docYaml demoDoc) \<lparr>paths = demoDoc\<rparr> of
     Inr c \<Rightarrow> c | Inl _ \<Rightarrow> undefined)"

lemma demoCluster_made: "MakeClusterConfig (docYaml demoDoc) \<lparr>paths = demoDoc\<rparr> = Inr demoCluster"
proof -
  have "\<exists>c. MakeClusterConfig (docYaml demoDoc) \<lparr>paths = demoDoc\<rparr> = Inr c"
    by (simp add: MakeClusterConfig_def unmarshalText_def ConfigString_def docYaml_def demoDoc_def
        unmarshalCluster_def unmarshalGroup_def unmarshalReplicaset_def unmarshalInstance_def
        unmarshalRaw_def unmarshalMap_def UnmarshalYAML_def List.map_filter_simps)
  then show ?thesis by (auto simp: demoCluster_def)
qed

theorem MakeClusterConfig_wf_witness:
  "wf_cluster demoCluster \<and> is_ok (findInstance demoCluster ''i'')"
  using MakeClusterConfig_wf [OF docYaml_maps demoCluster_made, of "''i''"] by blast


theorem Instances_agree_witness:
  "HasInstance demoCluster ''i'' = Inr (''i'' \<in> set (Instances demoCluster)) \<and>
   (FindInstance demoCluster ''x'' = None \<longleftrightarrow> ''x'' \<notin> set (Instances demoCluster))"
  using Instances_agree [of demoCluster "''i''"] Instances_agree [of demoCluster "''x''"]
    MakeClusterConfig_wf_cluster [OF docYaml_maps demoCluster_made] by blast

definition demoRow ::
  "string \<times> groupConfig \<times> string \<times> replicasetConfig \<times> string \<times> instanceConfig"
where
  "demoRow = hd (flatInstances demoCluster)"

lemma demoCluster_find:
  "find (\<lambda>(_, _, _, _, iname, _). iname = ''i'') (flatInstances demoCluster) =
     Some (''g'', fst (snd demoRow), ''r'', fst (snd (snd (snd demoRow))), ''i'',
       \<lparr>iRaw = Some \<lparr>paths = VMap [(VStr ''a'', VStr ''inst'')]\<rparr>\<rparr>)"
  by (simp add: demoRow_def demoCluster_def flatInstances_def MakeClusterConfig_def unmarshalText_def
      ConfigString_def docYaml_def demoDoc_def unmarshalCluster_def unmarshalGroup_def
      unmarshalReplicaset_def unmarshalInstance_def NewConfig_def
      unmarshalRaw_def unmarshalMap_def UnmarshalYAML_def List.map_filter_simps)

theorem findInstance_scopes_witness:
  "\<exists>cfg. findInstance demoCluster ''i'' = Inr (Some cfg) \<and> leaf (paths cfg) [''a''] = Some (VStr ''inst'')"
proof -
  let ?raw = "\<lparr>paths = VMap [(VStr ''a'', VStr ''inst'')]\<rparr>"
  let ?scs = "scopesOf demoCluster (fst (snd demoRow)) (fst (snd (snd (snd demoRow)))) \<lparr>iRaw = Some ?raw\<rparr>"
  have wf: "wf_cluster demoCluster" by (rule MakeClusterConfig_wf_cluster [OF docYaml_maps demoCluster_made])
  obtain post where scs: "?scs = [] @ (?raw, None) # post" by (simp add: scopesOf_def)
  have l: "scopeLeaf (?raw, None) [''a''] = Some (VStr ''inst'')"
    by (simp add: scopeLeaf_def hidden_def leaf_def mapIndex_def)
  from findInstance_scopes [OF wf demoCluster_find] obtain cfg where
    c: "findInstance demoCluster ''i'' = Inr (Some cfg)"
    "\<forall>pre sc post q x. ?scs = pre @ sc # post \<and> scopeLeaf sc q = Some x \<and>
       (\<forall>sc' \<in> set pre. scopeSilent sc' q) \<longrightarrow> leaf (paths cfg) q = Some x" by blast
  from c(2) [rule_format, of "[]" _ post] scs l have "leaf (paths cfg) [''a''] = Some (VStr ''inst'')"
    by simp
  with c(1) show ?thesis by blast
qed

definition demoNew :: gval where
  "demoNew = paths (snd (Set (Merge NewConfig \<lparr>paths = demoDoc\<rparr>) (instancePath ''g'' ''r'' ''j'')
     (VConf (VMap [(VStr ''a'', VStr ''new'')]))))"

theorem SetInstanceConfig_found_witness:
  "\<exists>c' grp rs. SetInstanceConfig (docYaml demoNew) demoCluster ''g'' ''r'' ''j''
      \<lparr>paths = VMap [(VStr ''a'', VStr ''new'')]\<rparr> = Inr c' \<and>
    (''g'', grp, ''r'', rs, ''j'', \<lparr>iRaw = Some \<lparr>paths = VMap [(VStr ''a'', VStr ''new'')]\<rparr>\<rparr>)
      \<in> set (flatInstances c')"
proof -
  let ?i = "\<lparr>paths = VMap [(VStr ''a'', VStr ''new'')]\<rparr>"
  let ?set = "Set (Merge NewConfig \<lparr>paths = demoDoc\<rparr>) (instancePath ''g'' ''r'' ''j'') (VConf (paths ?i))"
  have raw: "ccRaw demoCluster = Some \<lparr>paths = demoDoc\<rparr>" by code_simp
  have s: "?set = (None, \<lparr>paths = demoNew\<rparr>)" by code_simp
  have c: "is_ok (SetInstanceConfig (docYaml demoNew) demoCluster ''g'' ''r'' ''j'' ?i)" by code_simp
  then obtain c' where c': "SetInstanceConfig (docYaml demoNew) demoCluster ''g'' ''r'' ''j'' ?i = Inr c'"
    by (auto simp: is_ok_iff)
  have "\<exists>grp rs. (''g'', grp, ''r'', rs, ''j'', \<lparr>iRaw = Some ?i\<rparr>) \<in> set (flatInstances c')"
    by (rule SetInstanceConfig_found [OF docYaml_nodes raw s _ _ _ _ c', of "''doc''" demoNew])
       (simp_all add: docYaml_def)
  with c' show ?thesis by blast
qed


end
