(* ===== verification/Validators.thy ===== *)
theory Validators
  imports Config "HOL-Library.Char_ord"
begin

text \<open>
  The schema validation of \<^verbatim>\<open>lib/cluster/validators.go\<close> and \<^verbatim>\<open>lib/cluster/schema.go\<close>: the
  errors with their paths, the validators, and the validation of a configuration. Arithmetic on
  IEEE floats and the text of floats, lists and maps are the record \<open>fops\<close>; the rest of what the
  code uses of \<^verbatim>\<open>reflect\<close>, \<^verbatim>\<open>strconv\<close> and \<^verbatim>\<open>sort\<close> is defined here.
\<close>

section \<open>Library functions\<close>

record fops =
  parseFloat :: "string \<Rightarrow> 64 word option"
  floatOfInt :: "i64 \<Rightarrow> 64 word"
  floatOfUint :: "i64 \<Rightarrow> 64 word"
  float64Of32 :: "32 word \<Rightarrow> 64 word"
  float32Of64 :: "64 word \<Rightarrow> 32 word"
  intOfFloat :: "64 word \<Rightarrow> i64"
  uintOfFloat :: "64 word \<Rightarrow> i64"
  floatEq :: "64 word \<Rightarrow> 64 word \<Rightarrow> bool"
  fmtFloat32 :: "32 word \<Rightarrow> string"
  fmtFloat64 :: "64 word \<Rightarrow> string"
  fmtOther :: "gval \<Rightarrow> string"

text \<open>Decimal numbers, as \<^verbatim>\<open>fmt.Sprint\<close> writes and \<^verbatim>\<open>strconv.ParseInt\<close> reads them.\<close>

definition digitChar :: "nat \<Rightarrow> char" where
  "digitChar d = char_of (48 + d)"

fun showNat :: "nat \<Rightarrow> string" where
  "showNat n = (if n < 10 then [digitChar n] else showNat (n div 10) @ [digitChar (n mod 10)])"

declare showNat.simps [simp del]

definition showInt :: "int \<Rightarrow> string" where
  "showInt i = (if i < 0 then CHR ''-'' # showNat (nat (- i)) else showNat (nat i))"

fun sprint :: "fops \<Rightarrow> gval \<Rightarrow> string" where
  "sprint F (VStr s) = s"
| "sprint F (VInt k w) = showInt (sint w)"
| "sprint F (VUint k w) = showInt (uint w)"
| "sprint F (VBool b) = (if b then ''true'' else ''false'')"
| "sprint F (VF32 f) = fmtFloat32 F f"
| "sprint F (VF64 f) = fmtFloat64 F f"
| "sprint F VNil = ''<nil>''"
| "sprint F v = fmtOther F v"

definition digitVal :: "char \<Rightarrow> nat option" where
  "digitVal c = (let n = of_char c :: nat in if 48 \<le> n \<and> n \<le> 57 then Some (n - 48) else None)"

fun parseDigits :: "nat \<Rightarrow> string \<Rightarrow> nat option" where
  "parseDigits acc [] = Some acc"
| "parseDigits acc (c # cs) =
     (case digitVal c of None \<Rightarrow> None | Some d \<Rightarrow> parseDigits (10 * acc + d) cs)"

definition parseNat :: "string \<Rightarrow> nat option" where
  "parseNat s = (if s = [] then None else parseDigits 0 s)"

text \<open>\<^verbatim>\<open>strconv.ParseInt(s, 10, 64)\<close>: an optional sign, digits, and a value that fits.\<close>

definition parseInt64 :: "string \<Rightarrow> int option" where
  "parseInt64 s =
     (case s of
        [] \<Rightarrow> None
      | c # cs \<Rightarrow>
          (case (if c = CHR ''-'' \<or> c = CHR ''+'' then parseNat cs else parseNat s) of
             None \<Rightarrow> None
           | Some n \<Rightarrow>
               (let i = (if c = CHR ''-'' then - int n else int n)
                in if - (2 ^ 63) \<le> i \<and> i < 2 ^ 63 then Some i else None)))"

text \<open>
  \<^verbatim>\<open>strings.ToLower\<close> as far as a comparison with an ASCII word can see it: besides the capital
  letters only the dotted capital I (two bytes in UTF-8) and the Kelvin sign (three bytes) become
  ASCII letters.
\<close>

definition lowerChar :: "char \<Rightarrow> char" where
  "lowerChar c = (let n = of_char c :: nat in if 65 \<le> n \<and> n \<le> 90 then char_of (n + 32) else c)"

fun toLower :: "string \<Rightarrow> string" where
  "toLower [] = []"
| "toLower (c # cs) =
     (if c = CHR 0xC4 \<and> take 1 cs = [CHR 0xB0] then CHR ''i'' # toLower (drop 1 cs)
      else if c = CHR 0xE2 \<and> take 2 cs = [CHR 0x84, CHR 0xAA] then CHR ''k'' # toLower (drop 2 cs)
      else lowerChar c # toLower cs)"

text \<open>The order of Go strings: bytewise.\<close>

fun strLess :: "string \<Rightarrow> string \<Rightarrow> bool" where
  "strLess [] [] = False"
| "strLess [] (b # bs) = True"
| "strLess (a # as) [] = False"
| "strLess (a # as) (b # bs) =
     (if a = b then strLess as bs else (of_char a :: nat) < of_char b)"

section \<open>Errors\<close>

datatype msg =
    NilValue
  | Unexpected gval string
  | ParseFailed gval string
  | NotComparable gval
  | NotAllowed gval "gval list"
  | MustBe string
  | ZeroValuePanic

text \<open>
  A path is a Go slice: \<open>None\<close> is \<^verbatim>\<open>nil\<close>, which \<^verbatim>\<open>reflect.DeepEqual\<close> tells from an empty
  slice. \<open>VErr\<close> is a \<^verbatim>\<open>ValidateError\<close>, \<open>Join\<close> what \<^verbatim>\<open>errors.Join\<close> makes, \<open>Raw\<close> any other error.
\<close>

type_synonym vpath = "string list option"

datatype gerr = Raw msg | VErr vpath "gerr list" | Join "gerr list"

definition pathList :: "vpath \<Rightarrow> string list" where
  "pathList p = (case p of None \<Rightarrow> [] | Some l \<Rightarrow> l)"

text \<open>\<^verbatim>\<open>append(path, rest...)\<close>: nil only if nothing is appended to nil.\<close>

definition appendPath :: "vpath \<Rightarrow> vpath \<Rightarrow> vpath" where
  "appendPath p q = (if p = None \<and> pathList q = [] then None else Some (pathList p @ pathList q))"

fun Unwrap :: "gerr \<Rightarrow> gerr list option" where
  "Unwrap (Raw m) = None"
| "Unwrap (VErr p errs) = Some errs"
| "Unwrap (Join errs) = Some errs"

type_synonym vErr = "vpath \<times> gerr list"

text \<open>The loop that flattens the errors: raw errors and validation errors collected so far.\<close>

definition addUnwrapped :: "vpath \<Rightarrow> gerr list \<times> vErr list \<Rightarrow> gerr \<Rightarrow> gerr list \<times> vErr list" where
  "addUnwrapped path acc err =
     (case err of
        VErr p errs \<Rightarrow> (fst acc, snd acc @ [(appendPath path p, errs)])
      | _ \<Rightarrow> (fst acc @ [err], snd acc))"

definition flattenStep :: "vpath \<Rightarrow> gerr list \<times> vErr list \<Rightarrow> gerr \<Rightarrow> gerr list \<times> vErr list" where
  "flattenStep path acc err =
     (case Unwrap err of
        Some errs \<Rightarrow> foldl (addUnwrapped path) acc errs
      | None \<Rightarrow> (fst acc @ [err], snd acc))"

fun listLess :: "string list \<Rightarrow> string list \<Rightarrow> bool" where
  "listLess (a # as) (b # bs) = (if a \<noteq> b then strLess a b else listLess as bs)"
| "listLess _ _ = False"

definition pathLess :: "vErr \<Rightarrow> vErr \<Rightarrow> bool" where
  "pathLess x y =
     (let left = pathList (fst x); right = pathList (fst y)
      in if length left \<noteq> length right then length left < length right else listLess left right)"

definition mergeErrStep :: "vErr list \<Rightarrow> vErr \<Rightarrow> vErr list" where
  "mergeErrStep merged err =
     (if merged \<noteq> [] \<and> fst (last merged) = fst err
      then butlast merged @ [(fst (last merged), snd (last merged) @ snd err)]
      else merged @ [err])"

text \<open>
  \<^verbatim>\<open>sort.Slice\<close> is an insertion sort on up to 12 errors; on more it may order errors of equal
  paths differently, which changes only their order inside one merged error.
\<close>

definition mergeValidateErrors :: "vErr list \<Rightarrow> vErr list" where
  "mergeValidateErrors errs = foldl mergeErrStep [] (isort pathLess errs)"

definition wrapValidateErrors :: "vpath \<Rightarrow> gerr list \<Rightarrow> gerr" where
  "wrapValidateErrors path errs =
     (case foldl (flattenStep path) ([], []) errs of
        (rawErrs, validateErrs) \<Rightarrow>
          (let validateErrs' =
                 (if validateErrs = [] \<or> rawErrs \<noteq> [] then validateErrs @ [(path, rawErrs)]
                  else validateErrs)
           in Join (map (\<lambda>(p, es). VErr p es) (mergeValidateErrors validateErrs'))))"

section \<open>Comparing with the allowed values\<close>

text \<open>\<^verbatim>\<open>reflect.Value.Comparable\<close> on the dynamic types that occur.\<close>

fun comparable :: "gval \<Rightarrow> bool" where
  "comparable (VList xs) = False"
| "comparable (VMap m) = False"
| "comparable (VSMap m) = False"
| "comparable _ = True"

text \<open>Integers are kept at the width of their kind.\<close>

fun fitInt :: "ikind \<Rightarrow> i64 \<Rightarrow> i64" where
  "fitInt KInt8 w = signed_take_bit 7 w"
| "fitInt KInt16 w = signed_take_bit 15 w"
| "fitInt KInt32 w = signed_take_bit 31 w"
| "fitInt _ w = w"

fun fitUint :: "ukind \<Rightarrow> i64 \<Rightarrow> i64" where
  "fitUint KUint8 w = take_bit 8 w"
| "fitUint KUint16 w = take_bit 16 w"
| "fitUint KUint32 w = take_bit 32 w"
| "fitUint _ w = w"

text \<open>The UTF-8 text of a rune; an invalid one is written as the replacement character.\<close>

definition byteChar :: "int \<Rightarrow> char" where
  "byteChar i = char_of (nat i)"

definition runeString :: "int \<Rightarrow> string" where
  "runeString r =
     (if r < 0 \<or> r > 1114111 \<or> (55296 \<le> r \<and> r \<le> 57343) then map byteChar [239, 191, 189]
      else if r < 128 then [byteChar r]
      else if r < 2048 then map byteChar [192 + r div 64, 128 + r mod 64]
      else if r < 65536 then
        map byteChar [224 + r div 4096, 128 + r div 64 mod 64, 128 + r mod 64]
      else
        map byteChar [240 + r div 262144, 128 + r div 4096 mod 64, 128 + r div 64 mod 64,
          128 + r mod 64])"

text \<open>
  \<^verbatim>\<open>allowed.Convert(val.Type())\<close>, \<open>None\<close> where \<^verbatim>\<open>CanConvert\<close> is false. An integer converts
  to a string as the rune it numbers.
\<close>

fun convertTo :: "fops \<Rightarrow> gval \<Rightarrow> gval \<Rightarrow> gval option" where
  "convertTo F (VStr s) (VStr t) = Some (VStr s)"
| "convertTo F (VInt k w) (VStr t) = Some (VStr (runeString (sint w)))"
| "convertTo F (VUint k w) (VStr t) = Some (VStr (runeString (uint w)))"
| "convertTo F (VBool b) (VBool c) = Some (VBool b)"
| "convertTo F (VInt k w) (VInt k' w') = Some (VInt k' (fitInt k' w))"
| "convertTo F (VUint k w) (VInt k' w') = Some (VInt k' (fitInt k' w))"
| "convertTo F (VF64 f) (VInt k' w') = Some (VInt k' (fitInt k' (intOfFloat F f)))"
| "convertTo F (VF32 f) (VInt k' w') = Some (VInt k' (fitInt k' (intOfFloat F (float64Of32 F f))))"
| "convertTo F (VInt k w) (VUint k' w') = Some (VUint k' (fitUint k' w))"
| "convertTo F (VUint k w) (VUint k' w') = Some (VUint k' (fitUint k' w))"
| "convertTo F (VF64 f) (VUint k' w') = Some (VUint k' (fitUint k' (uintOfFloat F f)))"
| "convertTo F (VF32 f) (VUint k' w') = Some (VUint k' (fitUint k' (uintOfFloat F (float64Of32 F f))))"
| "convertTo F (VInt k w) (VF64 g) = Some (VF64 (floatOfInt F w))"
| "convertTo F (VUint k w) (VF64 g) = Some (VF64 (floatOfUint F w))"
| "convertTo F (VF64 f) (VF64 g) = Some (VF64 f)"
| "convertTo F (VF32 f) (VF64 g) = Some (VF64 (float64Of32 F f))"
| "convertTo F (VInt k w) (VF32 g) = Some (VF32 (float32Of64 F (floatOfInt F w)))"
| "convertTo F (VUint k w) (VF32 g) = Some (VF32 (float32Of64 F (floatOfUint F w)))"
| "convertTo F (VF64 f) (VF32 g) = Some (VF32 (float32Of64 F f))"
| "convertTo F (VF32 f) (VF32 g) = Some (VF32 f)"
| "convertTo F _ _ = None"

text \<open>\<^verbatim>\<open>reflect.Value.Equal\<close> on two values of one type.\<close>

fun equalVal :: "fops \<Rightarrow> gval \<Rightarrow> gval \<Rightarrow> bool" where
  "equalVal F (VF64 f) (VF64 g) = floatEq F f g"
| "equalVal F (VF32 f) (VF32 g) = floatEq F (float64Of32 F f) (float64Of32 F g)"
| "equalVal F v w = (v = w)"

definition isAllowed :: "fops \<Rightarrow> gval list \<Rightarrow> gval \<Rightarrow> bool" where
  "isAllowed F allowed val =
     list_ex (\<lambda>a. case convertTo F a val of None \<Rightarrow> False | Some c \<Rightarrow> equalVal F val c) allowed"

section \<open>Validators\<close>

datatype validator =
    AnyValidator
  | StringValidator
  | BooleanValidator
  | IntegerValidator
  | NumberValidator
  | SequenceValidator "validator list"
  | AllowedValidator validator "gval list"
  | ArrayValidator validator
  | RecordValidator "(string \<times> validator) list"
  | MapValidator validator validator

definition fail :: "msg \<Rightarrow> gerr + gval" where
  "fail m = Inl (wrapValidateErrors (Some []) [Raw m])"

definition validateAny :: "gval \<Rightarrow> gerr + gval" where
  "validateAny v = (if v = VNil then fail NilValue else Inr v)"

definition validateString :: "fops \<Rightarrow> gval \<Rightarrow> gerr + gval" where
  "validateString F v =
     (case v of
        VStr s \<Rightarrow> Inr (VStr s)
      | VInt _ _ \<Rightarrow> Inr (VStr (sprint F v))
      | VUint _ _ \<Rightarrow> Inr (VStr (sprint F v))
      | VF32 _ \<Rightarrow> Inr (VStr (sprint F v))
      | VF64 _ \<Rightarrow> Inr (VStr (sprint F v))
      | VBool _ \<Rightarrow> Inr (VStr (sprint F v))
      | _ \<Rightarrow> fail (Unexpected v ''string''))"

text \<open>A case of the switch matches only a value of its own dynamic type: 1 and 0 are \<^verbatim>\<open>int\<close>.\<close>

definition validateBoolean :: "gval \<Rightarrow> gerr + gval" where
  "validateBoolean v =
     (let dst = (case v of VStr s \<Rightarrow> VStr (toLower s) | _ \<Rightarrow> v)
      in if dst = VBool True \<or> dst = VInt KInt 1 \<or> dst = VStr ''true'' then Inr (VBool True)
         else if dst = VBool False \<or> dst = VInt KInt 0 \<or> dst = VStr ''false'' then Inr (VBool False)
         else fail (Unexpected v ''boolean''))"

definition validateInteger :: "gval \<Rightarrow> gerr + gval" where
  "validateInteger v =
     (case v of
        VStr s \<Rightarrow>
          (case parseInt64 s of
             None \<Rightarrow> fail (ParseFailed v ''integer'')
           | Some i \<Rightarrow> Inr (VInt KInt (word_of_int i)))
      | VInt _ w \<Rightarrow> Inr (VInt KInt w)
      | VUint _ w \<Rightarrow> Inr (VInt KInt w)
      | _ \<Rightarrow> fail (Unexpected v ''integer''))"

definition validateNumber :: "fops \<Rightarrow> gval \<Rightarrow> gerr + gval" where
  "validateNumber F v =
     (case v of
        VStr s \<Rightarrow>
          (case parseFloat F s of
             None \<Rightarrow> fail (ParseFailed v ''number'')
           | Some f \<Rightarrow> Inr (VF64 f))
      | VInt _ w \<Rightarrow> Inr (VF64 (floatOfInt F w))
      | VUint _ w \<Rightarrow> Inr (VF64 (floatOfUint F w))
      | VF32 f \<Rightarrow> Inr (VF64 (float64Of32 F f))
      | VF64 f \<Rightarrow> Inr (VF64 f)
      | _ \<Rightarrow> fail (Unexpected v ''number''))"

text \<open>The loop over the results of the validators of a sequence.\<close>

fun firstOk :: "gval \<Rightarrow> gerr list \<Rightarrow> (gerr + gval) list \<Rightarrow> gerr + gval" where
  "firstOk v errs [] =
     (if errs \<noteq> [] then Inl (wrapValidateErrors (Some []) errs) else Inr v)"
| "firstOk v errs (Inr ret # rs) = Inr ret"
| "firstOk v errs (Inl err # rs) = firstOk v (errs @ [err]) rs"

definition validateAllowed :: "fops \<Rightarrow> gval list \<Rightarrow> gval \<Rightarrow> gerr + gval \<Rightarrow> gerr + gval" where
  "validateAllowed F allowed v r =
     (case r of
        Inl err \<Rightarrow> Inl err
      | Inr validated \<Rightarrow>
          (if \<not> comparable validated then fail (NotComparable v)
           else if validated = VNil \<and> allowed \<noteq> [] then Inl (Raw ZeroValuePanic)
           else if isAllowed F allowed validated then Inr validated
           else fail (NotAllowed v allowed)))"

text \<open>A loop that validates every element and fails with all their errors.\<close>

definition collect :: "(gerr + 'a) list \<Rightarrow> gerr + 'a list" where
  "collect rs =
     (let errs = List.map_filter (\<lambda>r. case r of Inl e \<Rightarrow> Some e | Inr _ \<Rightarrow> None) rs
      in if errs \<noteq> [] then Inl (wrapValidateErrors None errs)
         else Inr (List.map_filter (\<lambda>r. case r of Inl _ \<Rightarrow> None | Inr x \<Rightarrow> Some x) rs))"

definition wrapAt :: "vpath \<Rightarrow> gerr + 'a \<Rightarrow> gerr + 'a" where
  "wrapAt path r = (case r of Inl err \<Rightarrow> Inl (wrapValidateErrors path [err]) | Inr x \<Rightarrow> Inr x)"

definition validateArray :: "(gerr + gval) list \<Rightarrow> gerr + gval" where
  "validateArray rs =
     (case collect (map (wrapAt (Some [])) rs) of Inl e \<Rightarrow> Inl e | Inr out \<Rightarrow> Inr (VList out))"

definition outMap :: "(gval \<times> gval) list \<Rightarrow> gval" where
  "outMap kvs = VMap (foldl (\<lambda>m (k, v). AList.update k v m) [] kvs)"

definition validateRecord :: "(string \<times> (gerr + gval)) list \<Rightarrow> gerr + gval" where
  "validateRecord rs =
     (case collect (map (\<lambda>(k, r). wrapAt (Some [k]) (case r of Inl e \<Rightarrow> Inl e | Inr x \<Rightarrow> Inr (VStr k, x))) rs) of
        Inl e \<Rightarrow> Inl e
      | Inr kvs \<Rightarrow> Inr (outMap kvs))"

definition validateMap ::
  "fops \<Rightarrow> (gval \<times> (gerr + gval) \<times> (gerr + gval)) list \<Rightarrow> gerr + gval"
where
  "validateMap F rs =
     (case collect (map (\<lambda>(key, rk, rv).
             case wrapAt None rk of
               Inl e \<Rightarrow> Inl e
             | Inr rkey \<Rightarrow>
                 (case wrapAt (Some [sprint F key]) rv of
                    Inl e \<Rightarrow> Inl e
                  | Inr rvalue \<Rightarrow> Inr (rkey, rvalue))) rs) of
        Inl e \<Rightarrow> Inl e
      | Inr kvs \<Rightarrow> Inr (outMap kvs))"

definition notA :: "fops \<Rightarrow> gval \<Rightarrow> string \<Rightarrow> gerr + gval" where
  "notA F v what = Inl (wrapValidateErrors (Some [sprint F v]) [Raw (MustBe what)])"

fun Validate :: "fops \<Rightarrow> validator \<Rightarrow> gval \<Rightarrow> gerr + gval" where
  "Validate F AnyValidator v = validateAny v"
| "Validate F StringValidator v = validateString F v"
| "Validate F BooleanValidator v = validateBoolean v"
| "Validate F IntegerValidator v = validateInteger v"
| "Validate F NumberValidator v = validateNumber F v"
| "Validate F (SequenceValidator validators) v = firstOk v [] (map (\<lambda>x. Validate F x v) validators)"
| "Validate F (AllowedValidator item allowed) v = validateAllowed F allowed v (Validate F item v)"
| "Validate F (ArrayValidator item) v =
     (case v of
        VList array \<Rightarrow> validateArray (map (Validate F item) array)
      | _ \<Rightarrow> notA F v ''an array'')"
| "Validate F (RecordValidator items) v =
     (case v of
        VMap vmap \<Rightarrow>
          validateRecord (concat (map (\<lambda>(k, item).
            case map_of vmap (VStr k) of
              None \<Rightarrow> []
            | Some val \<Rightarrow> [(k, Validate F item val)]) items))
      | _ \<Rightarrow> notA F v ''a map'')"
| "Validate F (MapValidator key val) v =
     (case v of
        VMap vmap \<Rightarrow>
          validateMap F (map (\<lambda>(k, x). (k, Validate F key k, Validate F val x)) vmap)
      | _ \<Rightarrow> notA F v ''a map'')"

section \<open>Schema\<close>

record schemaPath =
  Path :: path
  Validator :: validator

definition ValidateSchema :: "fops \<Rightarrow> config \<Rightarrow> schemaPath list \<Rightarrow> gerr option" where
  "ValidateSchema F cfg schema =
     (let errs = concat (map (\<lambda>p.
            case Get cfg (Path p) of
              Inl _ \<Rightarrow> []
            | Inr v \<Rightarrow>
                (case Validate F (Validator p) v of
                   Inl err \<Rightarrow> [wrapValidateErrors (Some (Path p)) [err]]
                 | Inr _ \<Rightarrow> [])) schema)
      in if errs = [] then None else Some (wrapValidateErrors None errs))"

section \<open>The order of paths\<close>

lemma strLess_irrefl [simp]: "\<not> strLess a a"
  by (induction a) auto

lemma strLess_trans: "strLess a b \<Longrightarrow> strLess b c \<Longrightarrow> strLess a c"
proof (induction a b arbitrary: c rule: strLess.induct)
  case (2 b bs)
  then show ?case by (cases c) auto
next
  case (4 a as b bs)
  then show ?case by (cases c) (auto split: if_splits)
qed auto

lemma strLess_total: "strLess a b \<or> a = b \<or> strLess b a"
proof (induction a b rule: strLess.induct)
  case (4 a as b bs)
  have "a \<noteq> b \<Longrightarrow> (of_char a :: nat) \<noteq> of_char b" by simp
  with 4 show ?case by (auto simp: linorder_neq_iff)
qed auto

lemma listLess_irrefl [simp]: "\<not> listLess a a"
  by (induction a) auto

lemma listLess_trans: "listLess a b \<Longrightarrow> listLess b c \<Longrightarrow> listLess a c"
proof (induction a b arbitrary: c rule: listLess.induct)
  case (1 a as b bs)
  then show ?case by (cases c) (auto split: if_splits dest: strLess_trans)
qed auto

lemma listLess_total: "length a = length b \<Longrightarrow> listLess a b \<or> a = b \<or> listLess b a"
  by (induction a b rule: listLess.induct) (use strLess_total in auto)

lemma pathLess_irrefl: "\<not> pathLess x x"
  by (simp add: pathLess_def)

lemma pathLess_trans: "pathLess x y \<Longrightarrow> pathLess y z \<Longrightarrow> pathLess x z"
  by (auto simp: pathLess_def Let_def split: if_splits dest: listLess_trans)

lemma pathLess_total: "pathLess x y \<or> pathList (fst x) = pathList (fst y) \<or> pathLess y x"
  using listLess_total [of "pathList (fst x)" "pathList (fst y)"]
  by (auto simp: pathLess_def Let_def)

lemma pathLess_cong: "pathList (fst x) = pathList (fst y) \<Longrightarrow> pathLess x z = pathLess y z"
  "pathList (fst x) = pathList (fst y) \<Longrightarrow> pathLess z x = pathLess z y"
  by (simp_all add: pathLess_def)

interpretation path: strict_weak_order pathLess
proof unfold_locales
  fix x y z :: vErr
  show "\<not> pathLess x x" by (rule pathLess_irrefl)
  show "pathLess x y \<Longrightarrow> pathLess y z \<Longrightarrow> pathLess x z" by (rule pathLess_trans)
  show "\<not> pathLess x y \<Longrightarrow> \<not> pathLess y z \<Longrightarrow> \<not> pathLess x z"
    using pathLess_total [of x y] pathLess_trans [of y x z] pathLess_cong(1) [of x y z] by blast
qed

section \<open>No error is lost\<close>

text \<open>The errors that are not validation errors, each with the path it is reported at.\<close>

definition vLeaves :: "vErr \<Rightarrow> (string list \<times> gerr) multiset" where
  "vLeaves ve = image_mset (Pair (pathList (fst ve))) (mset (snd ve))"

fun errLeaves :: "gerr \<Rightarrow> (string list \<times> gerr) multiset" where
  "errLeaves (Join es) =
     sum_mset (image_mset (\<lambda>e. case e of VErr p ms \<Rightarrow> vLeaves (p, ms) | _ \<Rightarrow> {#}) (mset es))"
| "errLeaves e = {#([], e)#}"

text \<open>What every validator returns: joined validation errors, each with at least one raw error.\<close>

definition wf_ve :: "vErr \<Rightarrow> bool" where
  "wf_ve ve \<longleftrightarrow> snd ve \<noteq> [] \<and> (\<forall>e \<in> set (snd ve). \<exists>m. e = Raw m)"

definition wf_err :: "gerr \<Rightarrow> bool" where
  "wf_err e \<longleftrightarrow> (\<exists>ves. e = Join (map (\<lambda>(p, es). VErr p es) ves) \<and> ves \<noteq> [] \<and> (\<forall>ve \<in> set ves. wf_ve ve) \<and>
     sorted_wrt (\<lambda>a b. \<not> pathLess b a) ves)"

definition wf_arg :: "gerr \<Rightarrow> bool" where
  "wf_arg e \<longleftrightarrow> wf_err e \<or> (\<exists>m. e = Raw m)"

definition prefixLeaves :: "vpath \<Rightarrow> (string list \<times> gerr) multiset \<Rightarrow> (string list \<times> gerr) multiset" where
  "prefixLeaves p M = image_mset (\<lambda>(q, e). (pathList p @ q, e)) M"

definition sumLeaves :: "vErr list \<Rightarrow> (string list \<times> gerr) multiset" where
  "sumLeaves ves = sum_list (map vLeaves ves)"

lemma sumLeaves_simps [simp]:
  "sumLeaves [] = {#}" "sumLeaves (ve # ves) = vLeaves ve + sumLeaves ves"
  "sumLeaves (xs @ ys) = sumLeaves xs + sumLeaves ys"
  by (simp_all add: sumLeaves_def)

lemma errLeaves_join: "errLeaves (Join (map (\<lambda>(p, es). VErr p es) ves)) = sumLeaves ves"
  by (induction ves) auto

lemma pathList_append [simp]: "pathList (appendPath p q) = pathList p @ pathList q"
  by (auto simp: appendPath_def pathList_def split: option.splits)

lemma vLeaves_append: "vLeaves (appendPath p q, es) = prefixLeaves p (vLeaves (q, es))"
  by (simp add: vLeaves_def prefixLeaves_def image_mset.compositionality comp_def)

lemma prefixLeaves_add [simp]: "prefixLeaves p (M + N) = prefixLeaves p M + prefixLeaves p N" "prefixLeaves p {#} = {#}"
  by (simp_all add: prefixLeaves_def)

lemma foldl_addUnwrapped:
  "foldl (addUnwrapped path) acc (map (\<lambda>(p, es). VErr p es) ves) =
     (fst acc, snd acc @ map (\<lambda>(p, es). (appendPath path p, es)) ves)"
  by (induction ves arbitrary: acc) (auto simp: addUnwrapped_def)

lemma sumLeaves_prefixed:
  "sumLeaves (map (\<lambda>(p, es). (appendPath path p, es)) ves) = prefixLeaves path (sumLeaves ves)"
  by (induction ves) (auto simp: vLeaves_append)

text \<open>The flattening loop keeps raw errors apart, prefixes the rest and loses nothing.\<close>

lemma flatten_leaves:
  assumes "\<forall>e \<in> set errs. wf_arg e"
    and "\<forall>e \<in> set (fst acc). \<exists>m. e = Raw m" and "\<forall>ve \<in> set (snd acc). wf_ve ve"
  shows "let (raws, ves) = foldl (flattenStep path) acc errs in
    vLeaves (path, raws) + sumLeaves ves =
      vLeaves (path, fst acc) + sumLeaves (snd acc) + (\<Sum>e \<leftarrow> errs. prefixLeaves path (errLeaves e)) \<and>
    (\<forall>e \<in> set raws. \<exists>m. e = Raw m) \<and> (\<forall>ve \<in> set ves. wf_ve ve) \<and>
    (errs \<noteq> [] \<or> fst acc \<noteq> [] \<or> snd acc \<noteq> [] \<longrightarrow> raws \<noteq> [] \<or> ves \<noteq> [])"
  using assms
proof (induction errs arbitrary: acc)
  case (Cons e errs)
  consider (raw) m where "e = Raw m"
    | (joined) ves where "e = Join (map (\<lambda>(p, es). VErr p es) ves)" "ves \<noteq> []" "\<forall>ve \<in> set ves. wf_ve ve"
    using Cons.prems(1) by (auto simp: wf_arg_def wf_err_def)
  then show ?case
  proof cases
    case raw
    with Cons.prems Cons.IH [of "(fst acc @ [e], snd acc)"] show ?thesis
      by (auto simp: flattenStep_def vLeaves_def prefixLeaves_def Let_def case_prod_beta)
  next
    case joined
    let ?acc = "(fst acc, snd acc @ map (\<lambda>(p, es). (appendPath path p, es)) ves)"
    have "flattenStep path acc e = ?acc" by (simp add: flattenStep_def joined(1) foldl_addUnwrapped)
    moreover have "\<forall>ve \<in> set (snd ?acc). wf_ve ve" using joined(3) Cons.prems(3) by (auto simp: wf_ve_def)
    moreover have "sumLeaves (snd ?acc) = sumLeaves (snd acc) + prefixLeaves path (errLeaves e)"
      by (simp add: joined(1) errLeaves_join sumLeaves_prefixed del: errLeaves.simps)
    ultimately show ?thesis
      using Cons.IH [of ?acc] Cons.prems joined(2) by (auto simp: Let_def case_prod_beta add_ac)
  qed
qed auto

lemma mergeErrStep_leaves: "sumLeaves (mergeErrStep merged ve) = sumLeaves merged + vLeaves ve"
proof (cases "merged \<noteq> [] \<and> fst (last merged) = fst ve")
  case True
  then have "sumLeaves merged = sumLeaves (butlast merged) + vLeaves (last merged)"
    by (metis append_butlast_last_id sumLeaves_simps(1,2,3) add.right_neutral)
  with True show ?thesis
    by (simp add: mergeErrStep_def vLeaves_def)
qed (auto simp: mergeErrStep_def)

lemma foldl_merge_leaves: "sumLeaves (foldl mergeErrStep merged ves) = sumLeaves merged + sumLeaves ves"
  by (induction ves arbitrary: merged) (auto simp: mergeErrStep_leaves)

lemma sumLeaves_mset: "mset xs = mset ys \<Longrightarrow> sumLeaves xs = sumLeaves ys"
  unfolding sumLeaves_def by (metis mset_map sum_mset_sum_list)

lemma mergeValidateErrors_leaves: "sumLeaves (mergeValidateErrors ves) = sumLeaves ves"
  unfolding mergeValidateErrors_def foldl_merge_leaves by (simp add: sumLeaves_mset [OF mset_isort])

lemma mergeErrStep_wf:
  "\<forall>x \<in> set merged. wf_ve x \<Longrightarrow> wf_ve ve \<Longrightarrow> \<forall>x \<in> set (mergeErrStep merged ve). wf_ve x"
  by (auto simp: mergeErrStep_def wf_ve_def dest: in_set_butlastD last_in_set split: if_splits)

lemma foldl_merge_wf:
  "\<forall>x \<in> set merged. wf_ve x \<Longrightarrow> \<forall>x \<in> set ves. wf_ve x \<Longrightarrow> \<forall>x \<in> set (foldl mergeErrStep merged ves). wf_ve x"
proof (induction ves arbitrary: merged)
  case (Cons ve ves)
  have "\<forall>x \<in> set (mergeErrStep merged ve). wf_ve x"
    using Cons.prems by (intro mergeErrStep_wf) auto
  with Cons show ?case by simp
qed simp

lemma mergeErrStep_nonempty [simp]: "mergeErrStep merged ve \<noteq> []"
  by (simp add: mergeErrStep_def)

lemma foldl_merge_nonempty: "merged \<noteq> [] \<or> ves \<noteq> [] \<Longrightarrow> foldl mergeErrStep merged ves \<noteq> []"
  by (induction ves arbitrary: merged) auto

lemma fst_mergeErrStep:
  "map fst (mergeErrStep merged ve) =
     (if merged \<noteq> [] \<and> fst (last merged) = fst ve then map fst merged else map fst merged @ [fst ve])"
  by (auto simp: mergeErrStep_def map_butlast)
     (metis append_butlast_last_id last_map map_butlast map_is_Nil_conv)

text \<open>The paths of the merged errors are in order.\<close>

lemma foldl_merge_sorted:
  assumes "sorted_wrt (\<lambda>a b. \<not> pathLess b a) (merged @ ves)"
  shows "sorted_wrt (\<lambda>a b. \<not> pathLess b a) (foldl mergeErrStep merged ves)"
  using assms
proof (induction ves arbitrary: merged)
  case (Cons ve ves)
  let ?lt = "\<lambda>p q. \<not> pathLess (q, []) (p, [])"
  have fst_only: "sorted_wrt (\<lambda>a b. \<not> pathLess b a) xs \<longleftrightarrow> sorted_wrt ?lt (map fst xs)" for xs :: "vErr list"
    by (simp add: sorted_wrt_map pathLess_def)
  have "sorted_wrt (\<lambda>a b. \<not> pathLess b a) (mergeErrStep merged ve @ ves)"
    using Cons.prems unfolding fst_only map_append fst_mergeErrStep
    by (auto simp: sorted_wrt_append)
  then show ?case using Cons.IH by simp
qed simp

lemma joined_leaves:
  assumes "\<forall>ve \<in> set ves. wf_ve ve" and "ves \<noteq> []"
  shows "wf_err (Join (map (\<lambda>(p, es). VErr p es) (mergeValidateErrors ves)))"
    and "errLeaves (Join (map (\<lambda>(p, es). VErr p es) (mergeValidateErrors ves))) = sumLeaves ves"
proof -
  have "sorted_wrt (\<lambda>a b. \<not> pathLess b a) (mergeValidateErrors ves)"
    unfolding mergeValidateErrors_def by (rule foldl_merge_sorted) (simp add: path.isort_sorted)
  moreover have "\<forall>ve \<in> set (mergeValidateErrors ves). wf_ve ve"
    unfolding mergeValidateErrors_def using assms(1) by (intro foldl_merge_wf) auto
  moreover have "mergeValidateErrors ves \<noteq> []"
    unfolding mergeValidateErrors_def using assms(2)
    by (intro foldl_merge_nonempty) (metis length_0_conv length_isort)
  ultimately show "wf_err (Join (map (\<lambda>(p, es). VErr p es) (mergeValidateErrors ves)))"
    unfolding wf_err_def by blast
qed (simp add: errLeaves_join mergeValidateErrors_leaves del: errLeaves.simps)

lemma wrapValidateErrors_facts:
  assumes "\<forall>e \<in> set errs. wf_arg e" and "errs \<noteq> []"
  shows "wf_err (wrapValidateErrors path errs)"
    and "errLeaves (wrapValidateErrors path errs) = (\<Sum>e \<leftarrow> errs. prefixLeaves path (errLeaves e))"
proof -
  obtain raws ves where f: "foldl (flattenStep path) ([], []) errs = (raws, ves)"
    by (cases "foldl (flattenStep path) ([], []) errs")
  have *: "vLeaves (path, raws) + sumLeaves ves = (\<Sum>e \<leftarrow> errs. prefixLeaves path (errLeaves e))"
      "\<forall>e \<in> set raws. \<exists>m. e = Raw m" "\<forall>ve \<in> set ves. wf_ve ve" "raws \<noteq> [] \<or> ves \<noteq> []"
    using flatten_leaves [OF assms(1), of "([], [])" path] assms(2) by (simp_all add: f vLeaves_def)
  define all where "all = (if ves = [] \<or> raws \<noteq> [] then ves @ [(path, raws)] else ves)"
  have w: "wrapValidateErrors path errs = Join (map (\<lambda>(p, es). VErr p es) (mergeValidateErrors all))"
    by (simp add: wrapValidateErrors_def f all_def)
  have "\<forall>ve \<in> set all. wf_ve ve" "all \<noteq> []" "sumLeaves all = vLeaves (path, raws) + sumLeaves ves"
    using *(2,3,4) by (auto simp: all_def wf_ve_def vLeaves_def add.commute)
  with joined_leaves [of all] * w
  show "wf_err (wrapValidateErrors path errs)"
    and "errLeaves (wrapValidateErrors path errs) = (\<Sum>e \<leftarrow> errs. prefixLeaves path (errLeaves e))"
    by simp_all
qed

lemma wf_err_arg: "wf_err e \<Longrightarrow> wf_arg e"
  by (simp add: wf_arg_def)

lemma wf_err_wrap1: "wf_arg e \<Longrightarrow> wf_err (wrapValidateErrors path [e])"
  by (rule wrapValidateErrors_facts) auto

lemma wf_err_raw [simp]: "wf_err (wrapValidateErrors path [Raw m])"
  by (rule wf_err_wrap1) (simp add: wf_arg_def)

lemma fail_ok [simp]: "fail m \<noteq> Inr y" "fail m = Inl e \<longleftrightarrow> e = wrapValidateErrors (Some []) [Raw m]"
  by (auto simp: fail_def)

end
