(* ===== verification/Validation.thy ===== *)
theory Validation
  imports Validators
begin

text \<open>
  What the validators of \<^verbatim>\<open>lib/cluster/validators.go\<close> promise: the values they return have
  the type the validator describes, the errors they return are ordered, non-empty and complete,
  and validating a configuration reports exactly the schema paths that fail.
\<close>

section \<open>What validators accept\<close>

text \<open>
  The panic of \<^verbatim>\<open>reflect\<close> on a nil result is kept as an error of its own. Only an empty
  \<^verbatim>\<open>SequenceValidator\<close> accepts nil, so the validators without one never panic.
\<close>

fun proper :: "validator \<Rightarrow> bool" where
  "proper (SequenceValidator vs) = (vs \<noteq> [] \<and> (\<forall>v \<in> set vs. proper v))"
| "proper (AllowedValidator v allowed) = proper v"
| "proper (ArrayValidator v) = proper v"
| "proper (RecordValidator items) = (\<forall>(k, v) \<in> set items. proper v)"
| "proper (MapValidator k v) = (proper k \<and> proper v)"
| "proper _ = True"

fun conforms :: "fops \<Rightarrow> validator \<Rightarrow> gval \<Rightarrow> bool" where
  "conforms F AnyValidator y = (y \<noteq> VNil)"
| "conforms F StringValidator y = (case y of VStr s \<Rightarrow> True | _ \<Rightarrow> False)"
| "conforms F BooleanValidator y = (case y of VBool b \<Rightarrow> True | _ \<Rightarrow> False)"
| "conforms F IntegerValidator y = (case y of VInt KInt w \<Rightarrow> True | _ \<Rightarrow> False)"
| "conforms F NumberValidator y = (case y of VF64 w \<Rightarrow> True | _ \<Rightarrow> False)"
| "conforms F (SequenceValidator vs) y = (\<exists>v \<in> set vs. conforms F v y)"
| "conforms F (AllowedValidator v allowed) y = (conforms F v y \<and> comparable y \<and> isAllowed F allowed y)"
| "conforms F (ArrayValidator v) y = (case y of VList ys \<Rightarrow> \<forall>z \<in> set ys. conforms F v z | _ \<Rightarrow> False)"
| "conforms F (RecordValidator items) y =
     (case y of
        VMap m \<Rightarrow> distinct (map fst m) \<and>
          (\<forall>(k, z) \<in> set m. \<exists>(i, v) \<in> set items. k = VStr i \<and> conforms F v z)
      | _ \<Rightarrow> False)"
| "conforms F (MapValidator kv vv) y =
     (case y of
        VMap m \<Rightarrow> distinct (map fst m) \<and> (\<forall>(k, z) \<in> set m. conforms F kv k \<and> conforms F vv z)
      | _ \<Rightarrow> False)"

lemma conforms_not_nil: "proper v \<Longrightarrow> conforms F v y \<Longrightarrow> y \<noteq> VNil"
  by (induction v arbitrary: y) (auto split: gval.splits)

definition errsOf :: "(gerr + 'a) list \<Rightarrow> gerr list" where
  "errsOf rs = List.map_filter (\<lambda>r. case r of Inl e \<Rightarrow> Some e | Inr _ \<Rightarrow> None) rs"

lemma errsOf_simps [simp]:
  "errsOf [] = []" "errsOf (Inl e # rs) = e # errsOf rs" "errsOf (Inr x # rs) = errsOf rs"
  by (simp_all add: errsOf_def List.map_filter_def)

lemma in_errsOf [simp]: "e \<in> set (errsOf rs) \<longleftrightarrow> Inl e \<in> set rs"
  by (force simp: errsOf_def List.map_filter_def split: sum.splits)

lemma errsOf_empty: "errsOf rs = [] \<longleftrightarrow> (\<exists>xs. rs = map Inr xs)"
proof (induction rs)
  case (Cons r rs)
  then show ?case by (cases r) (auto simp: map_eq_Cons_conv Cons_eq_map_conv)
qed simp

lemma collect_eq:
  "collect rs = (if errsOf rs \<noteq> [] then Inl (wrapValidateErrors None (errsOf rs))
     else Inr (List.map_filter (\<lambda>r. case r of Inl _ \<Rightarrow> None | Inr x \<Rightarrow> Some x) rs))"
  by (simp add: collect_def errsOf_def)

lemma map_filter_Inr: "List.map_filter (\<lambda>r. case r of Inl _ \<Rightarrow> None | Inr x \<Rightarrow> Some x) (map Inr ys) = ys"
  by (induction ys) (simp_all add: List.map_filter_def)

lemma collect_Inr: "collect rs = Inr xs \<longleftrightarrow> rs = map Inr xs"
  by (auto simp: collect_eq errsOf_empty map_filter_Inr)

lemma map_eq_InrD: "map f rs = map Inr ys \<Longrightarrow> y \<in> set ys \<Longrightarrow> \<exists>r \<in> set rs. f r = Inr y"
  by (metis (no_types, lifting) image_iff list.set_map)

lemma collect_Inl: "collect rs = Inl e \<longleftrightarrow> errsOf rs \<noteq> [] \<and> e = wrapValidateErrors None (errsOf rs)"
  by (auto simp: collect_eq)

lemma wrapAt_Inr [simp]: "wrapAt p r = Inr x \<longleftrightarrow> r = Inr x"
  by (auto simp: wrapAt_def split: sum.splits)

lemma wrapAt_Inl: "wrapAt p r = Inl e \<longleftrightarrow> (\<exists>err. r = Inl err \<and> e = wrapValidateErrors p [err])"
  by (auto simp: wrapAt_def split: sum.splits)

text \<open>The map built from validated pairs: its entries are among them, its keys are distinct.\<close>

lemma foldl_update_distinct:
  "distinct (map fst m) \<Longrightarrow> distinct (map fst (foldl (\<lambda>m (k, v). AList.update k v m) m kvs))"
  by (induction kvs arbitrary: m) (auto simp: distinct_update)

lemma foldl_update_subset: "set (foldl (\<lambda>m (k, v). AList.update k v m) m kvs) \<subseteq> set m \<union> set kvs"
proof (induction kvs arbitrary: m)
  case (Cons kv kvs)
  obtain k v where "kv = (k, v)" by (cases kv)
  with Cons.IH [of "AList.update k v m"] show ?case using set_update_subset [of k v m] by auto
qed simp

lemma outMap_VMap: "outMap kvs = VMap (foldl (\<lambda>m (k, v). AList.update k v m) [] kvs)"
  by (simp add: outMap_def)

lemma outMap_D: "outMap kvs = y \<Longrightarrow> \<exists>m. y = VMap m \<and> distinct (map fst m) \<and> set m \<subseteq> set kvs"
  using foldl_update_distinct [of "[]" kvs] foldl_update_subset [of "[]" kvs] by (auto simp: outMap_VMap)

lemma firstOk_Inr: "firstOk v errs rs = Inr y \<Longrightarrow> Inr y \<in> set rs \<or> rs = [] \<and> errs = [] \<and> y = v"
  by (induction v errs rs rule: firstOk.induct) (auto split: if_splits)

lemma validateArray_Inr:
  "validateArray rs = Inr y \<longleftrightarrow> (\<exists>out. y = VList out \<and> rs = map Inr out)"
proof -
  have "map (wrapAt (Some [])) rs = map Inr out \<longleftrightarrow> rs = map Inr out" for out :: "gval list"
  proof (induction rs arbitrary: out)
    case (Cons r rs)
    then show ?case by (cases out) auto
  qed auto
  then have *: "collect (map (wrapAt (Some [])) rs) = Inr out \<longleftrightarrow> rs = map Inr out" for out
    by (simp add: collect_Inr)
  show ?thesis
  proof (cases "collect (map (wrapAt (Some [])) rs)")
    case (Inl e)
    with * [symmetric] show ?thesis by (simp add: validateArray_def)
  next
    case (Inr out)
    with * show ?thesis by (force simp: validateArray_def)
  qed
qed

lemma validateRecord_Inr:
  assumes "validateRecord rs = Inr y"
  shows "\<exists>m. y = VMap m \<and> distinct (map fst m) \<and> (\<forall>(k, z) \<in> set m. \<exists>i. k = VStr i \<and> (i, Inr z) \<in> set rs)"
proof -
  from assms obtain kvs where y: "y = outMap kvs"
    and eq: "map (\<lambda>(k, r). wrapAt (Some [k]) (case r of Inl e \<Rightarrow> Inl e | Inr x \<Rightarrow> Inr (VStr k, x))) rs = map Inr kvs"
    by (auto simp: validateRecord_def collect_Inr split: sum.splits)
  have "\<exists>i. k = VStr i \<and> (i, Inr z) \<in> set rs" if "(k, z) \<in> set kvs" for k z
    using map_eq_InrD [OF eq that] by (auto split: sum.splits)
  moreover obtain m where "y = VMap m" "distinct (map fst m)" "set m \<subseteq> set kvs"
    using outMap_D [OF y [symmetric]] by blast
  ultimately show ?thesis by (intro exI [of _ m]) auto
qed

lemma validateMap_Inr:
  assumes "validateMap F rs = Inr y"
  shows "\<exists>m. y = VMap m \<and> distinct (map fst m) \<and> (\<forall>(k, z) \<in> set m. \<exists>key. (key, Inr k, Inr z) \<in> set rs)"
proof -
  from assms obtain kvs where y: "y = outMap kvs"
    and eq: "map (\<lambda>(key, rk, rv).
             case wrapAt None rk of
               Inl e \<Rightarrow> Inl e
             | Inr rkey \<Rightarrow>
                 (case wrapAt (Some [sprint F key]) rv of
                    Inl e \<Rightarrow> Inl e
                  | Inr rvalue \<Rightarrow> Inr (rkey, rvalue))) rs = map Inr kvs"
    by (auto simp: validateMap_def collect_Inr split: sum.splits)
  have "\<exists>key. (key, Inr k, Inr z) \<in> set rs" if "(k, z) \<in> set kvs" for k z
    using map_eq_InrD [OF eq that] by (auto split: sum.splits)
  moreover obtain m where "y = VMap m" "distinct (map fst m)" "set m \<subseteq> set kvs"
    using outMap_D [OF y [symmetric]] by blast
  ultimately show ?thesis by (intro exI [of _ m]) auto
qed

lemma scalars_conform:
  "validateAny x = Inr y \<Longrightarrow> conforms F AnyValidator y"
  "validateString F x = Inr y \<Longrightarrow> conforms F StringValidator y"
  "validateBoolean x = Inr y \<Longrightarrow> conforms F BooleanValidator y"
  "validateInteger x = Inr y \<Longrightarrow> conforms F IntegerValidator y"
  "validateNumber F x = Inr y \<Longrightarrow> conforms F NumberValidator y"
  by (auto simp: validateAny_def validateString_def validateBoolean_def validateInteger_def
      validateNumber_def Let_def split: gval.splits if_splits option.splits)

lemma Validate_sound: "proper v \<Longrightarrow> Validate F v x = Inr y \<Longrightarrow> conforms F v y"
proof (induction v arbitrary: x y)
  case (SequenceValidator vs)
  then obtain v where "v \<in> set vs" "Validate F v x = Inr y" by (auto dest!: firstOk_Inr)
  with SequenceValidator show ?case by auto
next
  case (AllowedValidator v allowed)
  then show ?case by (auto simp: validateAllowed_def split: sum.splits if_splits)
next
  case (ArrayValidator v)
  then obtain array out where out: "y = VList out" "map (Validate F v) array = map Inr out"
    by (auto simp: validateArray_Inr notA_def split: gval.splits)
  with ArrayValidator show ?case by (auto dest: map_eq_InrD [OF out(2)])
next
  case (RecordValidator items)
  from RecordValidator.prems obtain vmap where x: "x = VMap vmap" by (auto simp: notA_def split: gval.splits)
  obtain m where m: "y = VMap m" "distinct (map fst m)"
    and *: "\<And>k z. (k, z) \<in> set m \<Longrightarrow> \<exists>i item val. k = VStr i \<and> (i, item) \<in> set items \<and> Validate F item val = Inr z"
    using validateRecord_Inr RecordValidator.prems(2) unfolding x
    by (fastforce split: option.splits)
  have "\<exists>(i, v) \<in> set items. k = VStr i \<and> conforms F v z" if kz: "(k, z) \<in> set m" for k z
  proof -
    obtain i item val where i: "k = VStr i" "(i, item) \<in> set items" "Validate F item val = Inr z"
      using * [OF kz] by blast
    moreover have "proper item" using i(2) RecordValidator.prems(1) by auto
    ultimately show ?thesis using RecordValidator.IH [of "(i, item)" item val z] by force
  qed
  with m show ?case by auto
next
  case (MapValidator kv vv)
  from MapValidator.prems obtain vmap where x: "x = VMap vmap" by (auto simp: notA_def split: gval.splits)
  obtain m where m: "y = VMap m" "distinct (map fst m)"
    and "\<And>k z. (k, z) \<in> set m \<Longrightarrow> \<exists>key val. Validate F kv key = Inr k \<and> Validate F vv val = Inr z"
    using validateMap_Inr MapValidator.prems(2) unfolding x by fastforce
  with MapValidator show ?case by fastforce
qed (simp_all only: Validate.simps scalars_conform)

lemma Validate_not_nil: "proper v \<Longrightarrow> Validate F v x = Inr y \<Longrightarrow> y \<noteq> VNil"
  using Validate_sound conforms_not_nil by blast

lemma wf_err_collect:
  assumes "\<And>err. Inl err \<in> set rs \<Longrightarrow> wf_arg err" and "collect rs = Inl e"
  shows "wf_err e"
  using assms by (auto simp: collect_Inl intro: wrapValidateErrors_facts(1))

lemma firstOk_Inl:
  "firstOk v errs rs = Inl e \<Longrightarrow>
     errs @ errsOf rs \<noteq> [] \<and> e = wrapValidateErrors (Some []) (errs @ errsOf rs)"
  by (induction v errs rs rule: firstOk.induct) (auto split: if_splits)

lemma scalars_wf_err:
  "validateAny x = Inl e \<Longrightarrow> wf_err e"
  "validateString F x = Inl e \<Longrightarrow> wf_err e"
  "validateBoolean x = Inl e \<Longrightarrow> wf_err e"
  "validateInteger x = Inl e \<Longrightarrow> wf_err e"
  "validateNumber F x = Inl e \<Longrightarrow> wf_err e"
  by (auto simp: validateAny_def validateString_def validateBoolean_def validateInteger_def
      validateNumber_def Let_def split: gval.splits if_splits option.splits)

lemma notA_wf_err: "notA F v what = Inl e \<Longrightarrow> wf_err e"
  by (auto simp: notA_def)

lemma validateArray_wf_err:
  assumes "\<And>err. Inl err \<in> set rs \<Longrightarrow> wf_err err" and "validateArray rs = Inl e"
  shows "wf_err e"
proof (rule wf_err_collect)
  show "collect (map (wrapAt (Some [])) rs) = Inl e"
    using assms(2) by (auto simp: validateArray_def split: sum.splits)
  show "wf_arg err" if "Inl err \<in> set (map (wrapAt (Some [])) rs)" for err
    using that assms(1) by (auto simp: wrapAt_Inl dest!: sym [of "Inl _"] intro!: wf_err_arg wf_err_wrap1)
qed

lemma validateRecord_wf_err:
  assumes "\<And>k err. (k, Inl err) \<in> set rs \<Longrightarrow> wf_err err" and "validateRecord rs = Inl e"
  shows "wf_err e"
proof (rule wf_err_collect)
  show "collect (map (\<lambda>(k, r). wrapAt (Some [k]) (case r of Inl e \<Rightarrow> Inl e | Inr x \<Rightarrow> Inr (VStr k, x))) rs) = Inl e"
    using assms(2) by (auto simp: validateRecord_def split: sum.splits)
  show "wf_arg err" if in_rs: "Inl err \<in> set (map (\<lambda>(k, r). wrapAt (Some [k]) (case r of Inl e \<Rightarrow> Inl e | Inr x \<Rightarrow> Inr (VStr k, x))) rs)" for err
  proof -
    from in_rs obtain k r where r: "(k, r) \<in> set rs"
      and w: "wrapAt (Some [k]) (case r of Inl e \<Rightarrow> Inl e | Inr x \<Rightarrow> Inr (VStr k, x)) = Inl err" by auto
    then obtain err0 where "r = Inl err0" "err = wrapValidateErrors (Some [k]) [err0]"
      by (auto simp: wrapAt_Inl split: sum.splits)
    with r assms(1) show ?thesis by (auto intro!: wf_err_arg wf_err_wrap1)
  qed
qed

lemma validateMap_wf_err:
  assumes "\<And>key rk rv err. (key, rk, rv) \<in> set rs \<Longrightarrow> rk = Inl err \<or> rv = Inl err \<Longrightarrow> wf_err err"
    and "validateMap F rs = Inl e"
  shows "wf_err e"
proof (rule wf_err_collect)
  let ?f = "\<lambda>(key, rk, rv).
             case wrapAt None rk of
               Inl e \<Rightarrow> Inl e
             | Inr rkey \<Rightarrow>
                 (case wrapAt (Some [sprint F key]) rv of
                    Inl e \<Rightarrow> Inl e
                  | Inr rvalue \<Rightarrow> Inr (rkey, rvalue))"
  show "collect (map ?f rs) = Inl e"
    using assms(2) by (auto simp: validateMap_def split: sum.splits)
  show "wf_arg err" if in_rs: "Inl err \<in> set (map ?f rs)" for err
  proof -
    from in_rs obtain key rk rv where r: "(key, rk, rv) \<in> set rs" and w: "?f (key, rk, rv) = Inl err" by auto
    then obtain err0 p where "rk = Inl err0 \<or> rv = Inl err0" "err = wrapValidateErrors p [err0]"
      by (auto simp: wrapAt_Inl split: sum.splits)
    with r assms(1) show ?thesis by (blast intro!: wf_err_arg wf_err_wrap1)
  qed
qed

lemma Validate_wf: "proper v \<Longrightarrow> Validate F v x = Inl e \<Longrightarrow> wf_err e"
proof (induction v arbitrary: x e)
  case (SequenceValidator vs)
  then have "errsOf (map (\<lambda>v. Validate F v x) vs) \<noteq> []"
    "e = wrapValidateErrors (Some []) (errsOf (map (\<lambda>v. Validate F v x) vs))"
    by (auto dest!: firstOk_Inl)
  then show ?case using SequenceValidator
    by (auto intro!: wrapValidateErrors_facts(1) wf_err_arg dest!: sym [of "Inl _"])
next
  case (AllowedValidator v allowed)
  then show ?case using Validate_not_nil [of v F x]
    by (auto simp: validateAllowed_def split: sum.splits if_splits)
next
  case (ArrayValidator v)
  then show ?case
    by (auto split: gval.splits dest: notA_wf_err dest!: sym [of "Inl _"] elim!: validateArray_wf_err [rotated])
next
  case (RecordValidator items)
  show ?case
  proof (cases "is_map x")
    case True
    then obtain vmap where x: "x = VMap vmap" by (auto simp: is_map_iff)
    show ?thesis
    proof (rule validateRecord_wf_err)
      show "validateRecord (concat (map (\<lambda>(k, item).
            case map_of vmap (VStr k) of None \<Rightarrow> [] | Some val \<Rightarrow> [(k, Validate F item val)]) items)) = Inl e"
        using RecordValidator.prems(2) by (simp add: x)
      fix k err
      assume "(k, Inl err) \<in> set (concat (map (\<lambda>(k, item).
            case map_of vmap (VStr k) of None \<Rightarrow> [] | Some val \<Rightarrow> [(k, Validate F item val)]) items))"
      then obtain item val where i: "(k, item) \<in> set items" "Validate F item val = Inl err"
        by (auto split: option.splits)
      then show "wf_err err" using RecordValidator.IH [of "(k, item)" item val err] RecordValidator.prems(1) by auto
    qed
  next
    case False
    with RecordValidator.prems(2) show ?thesis by (cases x) (auto dest: notA_wf_err)
  qed
next
  case (MapValidator kv vv)
  show ?case
  proof (cases "is_map x")
    case True
    then obtain vmap where x: "x = VMap vmap" by (auto simp: is_map_iff)
    show ?thesis
      by (rule validateMap_wf_err [of "map (\<lambda>(k, x). (k, Validate F kv k, Validate F vv x)) vmap" F])
         (use MapValidator x in auto)
  next
    case False
    with MapValidator.prems(2) show ?thesis by (cases x) (auto dest: notA_wf_err)
  qed
qed (auto dest: scalars_wf_err)

section \<open>Integers and their text\<close>

lemma digitVal_digitChar [simp]: "d < 10 \<Longrightarrow> digitVal (digitChar d) = Some d"
  by (simp add: digitVal_def digitChar_def Let_def)

lemma digitChar_sign [simp]: "d < 10 \<Longrightarrow> digitChar d \<noteq> CHR ''-''" "d < 10 \<Longrightarrow> digitChar d \<noteq> CHR ''+''"
proof -
  assume d: "d < 10"
  show "digitChar d \<noteq> CHR ''-''" "digitChar d \<noteq> CHR ''+''"
    using digitVal_digitChar [OF d] by (auto simp: digitVal_def)
qed

lemma parseDigits_append:
  "parseDigits acc (xs @ ys) = (case parseDigits acc xs of None \<Rightarrow> None | Some a \<Rightarrow> parseDigits a ys)"
  by (induction acc xs rule: parseDigits.induct) (auto split: option.splits)

lemma parseDigits_showNat: "parseDigits 0 (showNat n) = Some n"
proof (induction n rule: showNat.induct)
  case (1 n)
  then show ?case by (subst showNat.simps) (simp add: parseDigits_append)
qed

lemma showNat_hd: "\<exists>c cs. showNat n = c # cs \<and> c \<noteq> CHR ''-'' \<and> c \<noteq> CHR ''+''"
proof (induction n rule: showNat.induct)
  case (1 n)
  then show ?case by (cases "n < 10") (auto simp: showNat.simps [of n])
qed

lemma parseNat_showNat: "parseNat (showNat n) = Some n"
  using showNat_hd [of n] by (auto simp: parseNat_def parseDigits_showNat)

lemma parseInt64_showInt:
  "parseInt64 (showInt i) = (if - (2 ^ 63) \<le> i \<and> i < 2 ^ 63 then Some i else None)"
proof (cases "i < 0")
  case True
  then show ?thesis by (simp add: parseInt64_def showInt_def parseNat_showNat Let_def)
next
  case False
  obtain c cs where c: "showNat (nat i) = c # cs" "c \<noteq> CHR ''-''" "c \<noteq> CHR ''+''"
    using showNat_hd [of "nat i"] by blast
  then have "parseNat (c # cs) = Some (nat i)" using parseNat_showNat [of "nat i"] by simp
  with False c show ?thesis by (simp add: parseInt64_def showInt_def Let_def)
qed

lemma sint_of_uint: "sint w = (if uint w < 2 ^ 63 then uint w else uint w - 2 ^ 64)" for w :: i64
proof -
  have w: "0 \<le> uint w" "uint w < 2 ^ 64" using uint_bounded [of w] by simp_all
  then have b: "bit (uint w) 63 \<longleftrightarrow> \<not> uint w < 2 ^ 63"
    by (cases "uint w < 2 ^ 63")
       (simp_all add: bit_iff_odd div_pos_pos_trivial, smt (verit) div_pos_geq div_pos_pos_trivial odd_one)
  have "sint w = take_bit 64 (uint w) - 2 ^ 64 * of_bool (bit (uint w) 63)"
    by (simp add: sint_uint signed_take_bit_eq_take_bit_minus)
  with w b show ?thesis by (simp add: take_bit_int_eq_self)
qed

section \<open>Properties\<close>

text \<open>
  Property C13: a validated value has the type its validator describes, all the way down: strings
  from a \<^verbatim>\<open>StringValidator\<close>, plain \<^verbatim>\<open>int\<close> from an \<^verbatim>\<open>IntegerValidator\<close>, only the
  declared keys from a \<^verbatim>\<open>RecordValidator\<close>, only listed values from an
  \<^verbatim>\<open>AllowedValidator\<close>, with distinct keys in every returned map.
\<close>

theorem Validate_conforms:
  assumes "proper v" and "Validate F v x = Inr y"
  shows "conforms F v y"
  using assms by (rule Validate_sound)

definition sampleValidator :: validator where
  "sampleValidator = RecordValidator
     [(''mode'', AllowedValidator StringValidator [VStr ''ro'', VStr ''rw'']),
      (''ports'', ArrayValidator (SequenceValidator [IntegerValidator, BooleanValidator]))]"

definition sampleValue :: gval where
  "sampleValue = VMap [(VStr ''mode'', VStr ''rw''), (VStr ''extra'', VNil),
     (VStr ''ports'', VList [VStr ''+301'', VStr ''TRUE''])]"

definition sampleOps :: fops where
  "sampleOps = \<lparr>parseFloat = (\<lambda>s. None), floatOfInt = id, floatOfUint = id, float64Of32 = (\<lambda>f. 0),
     float32Of64 = (\<lambda>f. 0), intOfFloat = id, uintOfFloat = id, floatEq = (=),
     fmtFloat32 = (\<lambda>f. []), fmtFloat64 = (\<lambda>f. []), fmtOther = (\<lambda>v. [])\<rparr>"

theorem Validate_conforms_witness:
  "conforms sampleOps sampleValidator
     (VMap [(VStr ''mode'', VStr ''rw''), (VStr ''ports'', VList [VInt KInt 301, VBool True])])"
  by (rule Validate_conforms [of _ _ sampleValue]; code_simp)

text \<open>
  An error of a validator is never empty: it joins validation errors, each with at
  least one plain error under it and none nested deeper, ordered by their paths.
\<close>

theorem Validate_error_shape:
  assumes "proper v" and "Validate F v x = Inl e"
  shows "wf_err e"
  using assms by (rule Validate_wf)

theorem Validate_error_shape_witness:
  "wf_err (Join [VErr (Some [''mode'']) [Raw (NotAllowed (VStr ''x'') [VStr ''ro'', VStr ''rw''])]])"
  by (rule Validate_error_shape [of sampleValidator sampleOps "VMap [(VStr ''mode'', VStr ''x'')]"]; code_simp)

text \<open>
  Property C15: wrapping errors under a path loses none of them and invents none: the plain errors
  of the result are those of the arguments, each at its own path with the given path in front,
  and the result is ordered by path.
\<close>

theorem wrapValidateErrors_leaves:
  assumes "\<forall>e \<in> set errs. wf_arg e" and "errs \<noteq> []"
  shows "errLeaves (wrapValidateErrors path errs) = (\<Sum>e \<leftarrow> errs. prefixLeaves path (errLeaves e))
    \<and> wf_err (wrapValidateErrors path errs)"
  using wrapValidateErrors_facts [OF assms] by simp

theorem wrapValidateErrors_leaves_witness:
  "errLeaves (wrapValidateErrors (Some [''a'']) [Raw NilValue, Raw (MustBe ''a map'')]) =
     {#([''a''], Raw NilValue), ([''a''], Raw (MustBe ''a map''))#}"
  using wrapValidateErrors_leaves [of "[Raw NilValue, Raw (MustBe ''a map'')]" "Some [''a'']"]
  by (simp add: wf_arg_def prefixLeaves_def pathList_def)

definition failing :: "fops \<Rightarrow> config \<Rightarrow> schemaPath list \<Rightarrow> (path \<times> gerr) list" where
  "failing F cfg schema =
     concat (map (\<lambda>p. case Get cfg (Path p) of
        Inl _ \<Rightarrow> []
      | Inr v \<Rightarrow> (case Validate F (Validator p) v of Inl err \<Rightarrow> [(Path p, err)] | Inr _ \<Rightarrow> [])) schema)"

lemma ValidateSchema_failing:
  "ValidateSchema F cfg schema =
     (let errs = map (\<lambda>(p, err). wrapValidateErrors (Some p) [err]) (failing F cfg schema)
      in if errs = [] then None else Some (wrapValidateErrors None errs))"
proof -
  have "concat (map (\<lambda>p. case Get cfg (Path p) of
              Inl _ \<Rightarrow> []
            | Inr v \<Rightarrow> (case Validate F (Validator p) v of
                   Inl err \<Rightarrow> [wrapValidateErrors (Some (Path p)) [err]] | Inr _ \<Rightarrow> [])) schema) =
      map (\<lambda>(p, err). wrapValidateErrors (Some p) [err]) (failing F cfg schema)"
    by (induction schema) (auto simp: failing_def split: sum.splits)
  then show ?thesis by (simp add: ValidateSchema_def)
qed

lemma failing_D:
  "(q, err) \<in> set (failing F cfg schema) \<longleftrightarrow>
     (\<exists>p v. p \<in> set schema \<and> q = Path p \<and> Get cfg q = Inr v \<and> Validate F (Validator p) v = Inl err)"
proof
  assume "(q, err) \<in> set (failing F cfg schema)"
  then show "\<exists>p v. p \<in> set schema \<and> q = Path p \<and> Get cfg q = Inr v \<and> Validate F (Validator p) v = Inl err"
    by (auto simp: failing_def split: sum.splits) metis
next
  assume "\<exists>p v. p \<in> set schema \<and> q = Path p \<and> Get cfg q = Inr v \<and> Validate F (Validator p) v = Inl err"
  then obtain p v where "p \<in> set schema" "q = Path p" "Get cfg q = Inr v" "Validate F (Validator p) v = Inl err"
    by blast
  then show "(q, err) \<in> set (failing F cfg schema)"
    unfolding failing_def by (auto intro!: bexI [of _ p])
qed

lemma failing_wf:
  assumes "\<forall>p \<in> set schema. proper (Validator p)" and "(q, err) \<in> set (failing F cfg schema)"
  shows "wf_err err"
  using assms Validate_wf by (auto simp: failing_D)

lemma prefixLeaves_None [simp]: "prefixLeaves None M = M"
  by (simp add: prefixLeaves_def pathList_def)

lemma ValidateSchema_leaves:
  assumes proper: "\<forall>p \<in> set schema. proper (Validator p)" and "failing F cfg schema \<noteq> []"
  shows "\<exists>e. ValidateSchema F cfg schema = Some e \<and> wf_err e \<and>
    errLeaves e = (\<Sum>(q, err) \<leftarrow> failing F cfg schema. prefixLeaves (Some q) (errLeaves err))"
proof -
  let ?errs = "map (\<lambda>(p, err). wrapValidateErrors (Some p) [err]) (failing F cfg schema)"
  have wf: "wf_arg err" if "(q, err) \<in> set (failing F cfg schema)" for q err
    using failing_wf [OF proper that] by (rule wf_err_arg)
  have "\<forall>e \<in> set ?errs. wf_arg e" using wf by (auto intro!: wf_err_arg [OF wf_err_wrap1])
  moreover have "errLeaves (wrapValidateErrors (Some q) [err]) = prefixLeaves (Some q) (errLeaves err)"
    if "(q, err) \<in> set (failing F cfg schema)" for q err
    using wrapValidateErrors_facts(2) [of "[err]" "Some q"] wf [OF that] by simp
  then have "(\<Sum>e \<leftarrow> ?errs. prefixLeaves None (errLeaves e)) =
      (\<Sum>(q, err) \<leftarrow> failing F cfg schema. prefixLeaves (Some q) (errLeaves err))"
    by (auto simp: comp_def intro!: arg_cong [of _ _ sum_list] map_cong)
  ultimately show ?thesis
    using assms(2) wrapValidateErrors_facts [of ?errs None] by (simp add: ValidateSchema_failing)
qed

text \<open>
  Property C14: validating a configuration against a schema succeeds exactly if every schema path
  that the configuration has holds a valid value; otherwise the error lists, for every failing
  schema path and nothing else, all errors of its validator under that path, ordered by path.
\<close>

theorem ValidateSchema_complete:
  assumes proper: "\<forall>p \<in> set schema. proper (Validator p)"
  shows "case ValidateSchema F cfg schema of
      None \<Rightarrow> \<forall>p \<in> set schema. \<forall>v. Get cfg (Path p) = Inr v \<longrightarrow>
        (\<exists>y. Validate F (Validator p) v = Inr y \<and> conforms F (Validator p) y)
    | Some e \<Rightarrow> failing F cfg schema \<noteq> [] \<and> wf_err e \<and>
        errLeaves e = (\<Sum>(q, err) \<leftarrow> failing F cfg schema. prefixLeaves (Some q) (errLeaves err))"
proof (cases "failing F cfg schema = []")
  case True
  have "\<exists>y. Validate F (Validator p) v = Inr y \<and> conforms F (Validator p) y"
    if "p \<in> set schema" "Get cfg (Path p) = Inr v" for p v
    using that True failing_D [of "Path p" _ F cfg schema] proper Validate_sound
    by (cases "Validate F (Validator p) v") fastforce+
  with True show ?thesis by (simp add: ValidateSchema_failing)
next
  case False
  from ValidateSchema_leaves [OF proper this] False show ?thesis by auto
qed

definition sampleSchema :: "schemaPath list" where
  "sampleSchema = [\<lparr>Path = [''a'', ''b''], Validator = IntegerValidator\<rparr>,
     \<lparr>Path = [''c''], Validator = StringValidator\<rparr>]"

definition sampleConfig :: config where
  "sampleConfig = \<lparr>paths = VMap [(VStr ''a'', VMap [(VStr ''b'', VStr ''x'')]), (VStr ''c'', VInt KInt 1)]\<rparr>"

theorem ValidateSchema_complete_witness:
  "case ValidateSchema sampleOps sampleConfig sampleSchema of
      None \<Rightarrow> False
    | Some e \<Rightarrow> errLeaves e = {#([''a'', ''b''], Raw (ParseFailed (VStr ''x'') ''integer''))#}"
proof -
  have "ValidateSchema sampleOps sampleConfig sampleSchema =
      Some (Join [VErr (Some [''a'', ''b'']) [Raw (ParseFailed (VStr ''x'') ''integer'')]])"
    and "failing sampleOps sampleConfig sampleSchema =
      [([''a'', ''b''], Join [VErr (Some []) [Raw (ParseFailed (VStr ''x'') ''integer'')]])]"
    by code_simp+
  with ValidateSchema_complete [of sampleSchema sampleConfig sampleOps] show ?thesis
    by (simp add: sampleSchema_def prefixLeaves_def vLeaves_def pathList_def)
qed

text \<open>
  The text a \<^verbatim>\<open>StringValidator\<close> makes of an integer of any kind is read back by an
  \<^verbatim>\<open>IntegerValidator\<close> as the same number, without loss for all 64-bit values.
\<close>

theorem integer_text_roundtrip:
  "\<exists>s. Validate F StringValidator (VInt k w) = Inr (VStr s) \<and>
       Validate F IntegerValidator (VStr s) = Inr (VInt KInt w)"
proof -
  have "- (2 ^ 63) \<le> sint w" "sint w < 2 ^ 63"
    using sint_greater_eq [of w] sint_less [of w] by simp_all
  then show ?thesis
    by (simp add: validateString_def validateInteger_def parseInt64_showInt)
qed

text \<open>
  Property C16: an \<^verbatim>\<open>IntegerValidator\<close> accepts every unsigned value, keeps it if it is below
  2 to the 63 and turns it into the negative number 2 to the 64 lower otherwise; the text of
  the same value is accepted only in the first case.
\<close>

theorem unsigned_bounds:
  "\<exists>i. Validate F IntegerValidator (VUint k w) = Inr (VInt KInt i) \<and>
       sint i = (if uint w < 2 ^ 63 then uint w else uint w - 2 ^ 64) \<and>
       (is_ok (Validate F IntegerValidator (VStr (sprint F (VUint k w)))) \<longleftrightarrow> uint w < 2 ^ 63)"
proof -
  have "- (2 ^ 63) \<le> uint w" by (rule order_trans [OF _ uint_ge_0]) simp
  then show ?thesis by (auto simp: validateInteger_def parseInt64_showInt sint_of_uint fail_def split: option.splits)
qed

end
