(* ===== verification/Tarantool.thy ===== *)
theory Tarantool
  imports Data Values
begin

text \<open>
  The collectors and publishers of \<^verbatim>\<open>lib/cluster/tarantool.go\<close>, which keep a cluster
  configuration in a Tarantool config storage. The connector of \<^verbatim>\<open>go-tarantool\<close> and the
  decoder \<^verbatim>\<open>mapstructure.Decode\<close> are not part of the repository: they are the fields of the
  record \<open>tarantool\<close>, an argument of every definition that reaches them. A call of the connector
  takes the state \<open>'s\<close> of the world and returns it changed.
\<close>

section \<open>Calls\<close>

record request =
  reqFun :: string
  reqArgs :: "gval list"
  reqTimeout :: "int option"

text \<open>\<^verbatim>\<open>tarantoolGetResponse\<close> and \<^verbatim>\<open>tarantoolTxnGetResponse\<close>.\<close>

record getItem =
  itemPath :: string
  itemValue :: string
  itemModRevision :: int

type_synonym txnRows = "(string \<times> string) list list"

record 's tarantool =
  conn :: "'s \<Rightarrow> request \<Rightarrow> (string + gval list list) \<times> 's"
  decodeGet :: "gval \<Rightarrow> getItem list option"
  decodeTxn :: "gval \<Rightarrow> txnRows option"

definition tarantoolCall ::
  "'s tarantool \<Rightarrow> string \<Rightarrow> gval list \<Rightarrow> int \<Rightarrow> 's \<Rightarrow> (string + gval list list) \<times> 's"
where
  "tarantoolCall T func args timeout s =
     conn T s \<lparr>reqFun = func, reqArgs = args,
       reqTimeout = (if timeout \<noteq> 0 then Some timeout else None)\<rparr>"

definition tarantoolGet ::
  "'s tarantool \<Rightarrow> string \<Rightarrow> int \<Rightarrow> 's \<Rightarrow> (derr + getItem list) \<times> 's"
where
  "tarantoolGet T path timeout s =
     (case tarantoolCall T ''config.storage.get'' [VStr path] timeout s of
        (Inl err, s') \<Rightarrow> (Inl (FetchFailed err), s')
      | (Inr rows, s') \<Rightarrow>
          (case rows of
             [x # xs] \<Rightarrow>
               (case decodeGet T x of
                  None \<Rightarrow> (Inl MapFailed, s')
                | Some resp \<Rightarrow> (Inr resp, s'))
           | _ \<Rightarrow> (Inl UnexpectedResponse, s')))"

definition tarantoolTxnGet ::
  "'s tarantool \<Rightarrow> string list \<Rightarrow> int \<Rightarrow> 's \<Rightarrow> (derr + txnRows) \<times> 's"
where
  "tarantoolTxnGet T keys timeout s =
     (let onSuccess = map (\<lambda>path. VList [VStr ''get'', VStr path]) keys;
          args = [VMap [(VStr ''on_success'', VList onSuccess)]]
      in case tarantoolCall T ''config.storage.txn'' args timeout s of
           (Inl err, s') \<Rightarrow> (Inl (FetchFailed err), s')
         | (Inr rows, s') \<Rightarrow>
             (case rows of
                [x # xs] \<Rightarrow>
                  (case decodeTxn T x of
                     None \<Rightarrow> (Inl MapFailed, s')
                   | Some responses \<Rightarrow>
                       (if responses = [] then (Inl UnexpectedResponse, s')
                        else (Inr responses, s')))
              | _ \<Rightarrow> (Inl UnexpectedResponse, s')))"

section \<open>Collectors\<close>

record tarantoolAllCollector =
  tacPrefix :: string
  tacTimeout :: int

record integrityTarantoolAllCollector =
  itacCheckFunc :: check_func
  itacPrefix :: string
  itacTimeout :: int

record tarantoolKeyCollector =
  tkcPrefix :: string
  tkcKey :: string
  tkcTimeout :: int

record integrityTarantoolKeyCollector =
  itkcCheckFunc :: check_func
  itkcPrefix :: string
  itkcKey :: string
  itkcTimeout :: int

definition NewTarantoolAllCollector :: "string \<Rightarrow> int \<Rightarrow> tarantoolAllCollector" where
  "NewTarantoolAllCollector pref timeout = \<lparr>tacPrefix = pref, tacTimeout = timeout\<rparr>"

definition NewIntegrityTarantoolAllCollector ::
  "check_func \<Rightarrow> string \<Rightarrow> int \<Rightarrow> integrityTarantoolAllCollector"
where
  "NewIntegrityTarantoolAllCollector checkFunc pref timeout =
     \<lparr>itacCheckFunc = checkFunc, itacPrefix = pref, itacTimeout = timeout\<rparr>"

definition NewTarantoolKeyCollector :: "string \<Rightarrow> string \<Rightarrow> int \<Rightarrow> tarantoolKeyCollector" where
  "NewTarantoolKeyCollector pref key timeout =
     \<lparr>tkcPrefix = pref, tkcKey = key, tkcTimeout = timeout\<rparr>"

definition NewIntegrityTarantoolKeyCollector ::
  "check_func \<Rightarrow> string \<Rightarrow> string \<Rightarrow> int \<Rightarrow> integrityTarantoolKeyCollector"
where
  "NewIntegrityTarantoolKeyCollector checkFunc pref key timeout =
     \<lparr>itkcCheckFunc = checkFunc, itkcPrefix = pref, itkcKey = key, itkcTimeout = timeout\<rparr>"

definition CollectTarantoolAll ::
  "'s tarantool \<Rightarrow> tarantoolAllCollector \<Rightarrow> 's \<Rightarrow> (derr + data list) \<times> 's"
where
  "CollectTarantoolAll T collector s =
     (let pref = getConfigPrefix (tacPrefix collector)
      in case tarantoolGet T pref (tacTimeout collector) s of
           (Inl err, s') \<Rightarrow> (Inl err, s')
         | (Inr resp, s') \<Rightarrow>
             (if resp = [] then (Inl (NotFoundPrefix pref), s')
              else (Inr (map (\<lambda>d. \<lparr>Source = itemPath d, Value = itemValue d,
                       Revision = itemModRevision d\<rparr>) resp), s')))"

definition CollectTarantoolKey ::
  "'s tarantool \<Rightarrow> tarantoolKeyCollector \<Rightarrow> 's \<Rightarrow> (derr + data list) \<times> 's"
where
  "CollectTarantoolKey T collector s =
     (let key = getConfigPrefix (tkcPrefix collector) @ tkcKey collector
      in case tarantoolGet T key (tkcTimeout collector) s of
           (Inl err, s') \<Rightarrow> (Inl err, s')
         | (Inr resp, s') \<Rightarrow>
             (case resp of
                [] \<Rightarrow> (Inl (NotFoundKey key), s')
              | [d] \<Rightarrow>
                  (Inr [\<lparr>Source = key, Value = itemValue d, Revision = itemModRevision d\<rparr>], s')
              | _ \<Rightarrow> (Inl (TooManyResponses key), s')))"

text \<open>
  The first loop of the integrity collector: the key of a row and what the row says about it;
  rows of none of the three key spaces are skipped (\<open>None\<close>).
\<close>

definition rowUpdate :: "string \<Rightarrow> string \<times> string \<Rightarrow> (string \<times> valueNode) option" where
  "rowUpdate pref row =
     (case cutPrefix (fst row) (getConfigPrefix pref) of
        Some key \<Rightarrow> Some (key, emptyNode\<lparr>nodeValue := snd row\<rparr>)
      | None \<Rightarrow>
          (case parseHashPath (fst row) pref of
             Some (hash, key) \<Rightarrow> Some (key, emptyNode\<lparr>nodeHashes := [(hash, snd row)]\<rparr>)
           | None \<Rightarrow>
               (case cutPrefix (fst row) (getSignPrefix pref) of
                  Some key \<Rightarrow> Some (key, emptyNode\<lparr>nodeSig := snd row\<rparr>)
                | None \<Rightarrow> None)))"

definition updateNode :: "valueNode \<Rightarrow> valueNode \<Rightarrow> valueNode" where
  "updateNode node upd =
     \<lparr>nodeValue = (if nodeValue upd \<noteq> [] then nodeValue upd else nodeValue node),
      nodeHashes = foldl (\<lambda>hs (k, v). AList.update k v hs) (nodeHashes node) (nodeHashes upd),
      nodeSig = (if nodeSig upd \<noteq> [] then nodeSig upd else nodeSig node)\<rparr>"

definition rowStep ::
  "string \<Rightarrow> string list \<times> (string \<Rightarrow> valueNode option) \<Rightarrow> string \<times> string \<Rightarrow>
   string list \<times> (string \<Rightarrow> valueNode option)"
where
  "rowStep pref kn row =
     (case rowUpdate pref row of
        None \<Rightarrow> kn
      | Some (key, upd) \<Rightarrow>
          (case snd kn key of
             Some node \<Rightarrow> (fst kn, (snd kn)(key \<mapsto> updateNode node upd))
           | None \<Rightarrow> (fst kn @ [key], (snd kn)(key \<mapsto> upd))))"

definition CollectIntegrityTarantoolAll ::
  "'s tarantool \<Rightarrow> integrityTarantoolAllCollector \<Rightarrow> 's \<Rightarrow> (derr + data list) \<times> 's"
where
  "CollectIntegrityTarantoolAll T collector s =
     (let pref = itacPrefix collector
      in case tarantoolTxnGet T [getConfigPrefix pref, getHashesPrefix pref, getSignPrefix pref]
                (itacTimeout collector) s of
           (Inl err, s') \<Rightarrow> (Inl err, s')
         | (Inr responses, s') \<Rightarrow>
             (case foldl (rowStep pref) ([], Map.empty) (concat responses) of
                (keys, nodes) \<Rightarrow>
                  (checkNodes (itacCheckFunc collector) pref nodes
                     (filter (\<lambda>key. nodeValue (node_of nodes key) \<noteq> []) keys), s')))"

text \<open>The loop of the key collector: value, hashes and signature of the one key.\<close>

definition keyRowStep :: "string \<Rightarrow> string \<Rightarrow> valueNode \<Rightarrow> string \<times> string \<Rightarrow> valueNode" where
  "keyRowStep pref wanted acc row =
     (if fst row = getConfigKey pref wanted then acc\<lparr>nodeValue := snd row\<rparr>
      else if fst row = getSignKey pref wanted then acc\<lparr>nodeSig := snd row\<rparr>
      else (case parseHashPath (fst row) pref of
              Some (hash, key) \<Rightarrow>
                (if key = wanted
                 then acc\<lparr>nodeHashes := AList.update hash (snd row) (nodeHashes acc)\<rparr>
                 else acc)
            | None \<Rightarrow> acc))"

definition CollectIntegrityTarantoolKey ::
  "'s tarantool \<Rightarrow> integrityTarantoolKeyCollector \<Rightarrow> 's \<Rightarrow> (derr + data list) \<times> 's"
where
  "CollectIntegrityTarantoolKey T collector s =
     (let pref = itkcPrefix collector;
          valueKey = getConfigKey pref (itkcKey collector)
      in case tarantoolTxnGet T
                [valueKey, getHashesPrefix pref, getSignKey pref (itkcKey collector)]
                (itkcTimeout collector) s of
           (Inl err, s') \<Rightarrow> (Inl err, s')
         | (Inr responses, s') \<Rightarrow>
             (let node = foldl (keyRowStep pref (itkcKey collector)) emptyNode (concat responses)
              in if nodeValue node = [] then (Inl (ValueNotFound valueKey), s')
                 else
                   (case itkcCheckFunc collector (nodeValue node) (nodeHashes node)
                           (nodeSig node) of
                      Some err \<Rightarrow> (Inl (IntegrityFailed valueKey err), s')
                    | None \<Rightarrow>
                        (Inr [\<lparr>Source = valueKey, Value = nodeValue node, Revision = 0\<rparr>], s'))))"

section \<open>Publishers\<close>

record tarantoolAllDataPublisher =
  tapPrefix :: string
  tapSignFunc :: "sign_func option"
  tapTimeout :: int

record tarantoolKeyDataPublisher =
  tkpPrefix :: string
  tkpKey :: string
  tkpSignFunc :: "sign_func option"
  tkpTimeout :: int

definition NewTarantoolAllDataPublisher :: "string \<Rightarrow> int \<Rightarrow> tarantoolAllDataPublisher" where
  "NewTarantoolAllDataPublisher pref timeout =
     \<lparr>tapPrefix = pref, tapSignFunc = None, tapTimeout = timeout\<rparr>"

definition NewIntegrityTarantoolAllDataPublisher ::
  "sign_func \<Rightarrow> string \<Rightarrow> int \<Rightarrow> tarantoolAllDataPublisher"
where
  "NewIntegrityTarantoolAllDataPublisher signFunc pref timeout =
     \<lparr>tapPrefix = pref, tapSignFunc = Some signFunc, tapTimeout = timeout\<rparr>"

definition NewTarantoolKeyDataPublisher ::
  "string \<Rightarrow> string \<Rightarrow> int \<Rightarrow> tarantoolKeyDataPublisher"
where
  "NewTarantoolKeyDataPublisher pref key timeout =
     \<lparr>tkpPrefix = pref, tkpKey = key, tkpSignFunc = None, tkpTimeout = timeout\<rparr>"

definition NewIntegrityTarantoolKeyDataPublisher ::
  "sign_func \<Rightarrow> string \<Rightarrow> string \<Rightarrow> int \<Rightarrow> tarantoolKeyDataPublisher"
where
  "NewIntegrityTarantoolKeyDataPublisher signFunc pref key timeout =
     \<lparr>tkpPrefix = pref, tkpKey = key, tkpSignFunc = Some signFunc, tkpTimeout = timeout\<rparr>"

text \<open>The operations of a storage transaction, as the code writes them into the request.\<close>

datatype sop = OpPut string string | OpDelete string | OpGet string

fun opVal :: "sop \<Rightarrow> gval" where
  "opVal (OpPut key v) = VList [VStr ''put'', VStr key, VStr v]"
| "opVal (OpDelete key) = VList [VStr ''delete'', VStr key]"
| "opVal (OpGet key) = VList [VStr ''get'', VStr key]"

definition allOps ::
  "tarantoolAllDataPublisher \<Rightarrow> string \<Rightarrow> derr + sop list"
where
  "allOps publisher dat =
     (let pref = tapPrefix publisher; key = ''all'';
          onSuccess = [OpDelete (getConfigPrefix pref), OpPut (getConfigKey pref ''all'') dat]
      in case tapSignFunc publisher of
           None \<Rightarrow> Inr onSuccess
         | Some signFunc \<Rightarrow>
             (case signFunc dat of
                Inl err \<Rightarrow> Inl (SignFailed err)
              | Inr (hs, sign) \<Rightarrow>
                  Inr (onSuccess @ [OpDelete (getHashesPrefix pref)] @
                    map (\<lambda>(hash, v). OpPut (getHashesKey pref hash key) v) hs @
                    [OpDelete (getSignPrefix pref), OpPut (getSignKey pref key) sign])))"

definition PublishTarantoolAll ::
  "'s tarantool \<Rightarrow> tarantoolAllDataPublisher \<Rightarrow> int \<Rightarrow> string \<Rightarrow> 's \<Rightarrow> derr option \<times> 's"
where
  "PublishTarantoolAll T publisher revision dat s =
     (if revision \<noteq> 0 then (Some (RevisionNotSupported revision), s)
      else
        (case allOps publisher dat of
           Inl err \<Rightarrow> (Some err, s)
         | Inr onSuccess \<Rightarrow>
             (case tarantoolCall T ''config.storage.txn''
                     [VMap [(VStr ''on_success'', VList (map opVal onSuccess))]]
                     (tapTimeout publisher) s of
                (Inl err, s') \<Rightarrow> (Some (PutFailed err), s')
              | (Inr _, s') \<Rightarrow> (None, s'))))"

definition keyOps :: "tarantoolKeyDataPublisher \<Rightarrow> string \<Rightarrow> derr + sop list" where
  "keyOps publisher dat =
     (let pref = tkpPrefix publisher;
          onSuccess = [OpPut (getConfigKey pref (tkpKey publisher)) dat]
      in case tkpSignFunc publisher of
           None \<Rightarrow> Inr onSuccess
         | Some signFunc \<Rightarrow>
             (case signFunc dat of
                Inl err \<Rightarrow> Inl (SignFailed err)
              | Inr (hs, sign) \<Rightarrow>
                  Inr (onSuccess @
                    map (\<lambda>(hash, v). OpPut (getHashesKey pref hash (tkpKey publisher)) v) hs @
                    [OpPut (getSignKey pref (tkpKey publisher)) sign])))"

definition PublishTarantoolKey ::
  "'s tarantool \<Rightarrow> tarantoolKeyDataPublisher \<Rightarrow> int \<Rightarrow> string \<Rightarrow> 's \<Rightarrow> derr option \<times> 's"
where
  "PublishTarantoolKey T publisher revision dat s =
     (let key = getConfigKey (tkpPrefix publisher) (tkpKey publisher)
      in case keyOps publisher dat of
           Inl err \<Rightarrow> (Some err, s)
         | Inr onSuccess \<Rightarrow>
             (let txn = [(VStr ''on_success'', VList (map opVal onSuccess))];
                  txn' = (if revision \<noteq> 0
                    then txn @ [(VStr ''predicates'',
                           VList [VList [VStr ''mod_revision'', VStr ''=='',
                             VInt KInt64 (word_of_int revision), VStr key]])]
                    else txn)
              in case tarantoolCall T ''config.storage.txn'' [VMap txn']
                        (tkpTimeout publisher) s of
                   (Inl err, s') \<Rightarrow> (Some (PutFailed err), s')
                 | (Inr _, s') \<Rightarrow> (None, s')))"

section \<open>Grouping the rows by key\<close>

text \<open>What the rows say about one key, in the order of the rows.\<close>

fun updatesFor :: "string \<Rightarrow> string \<Rightarrow> (string \<times> string) list \<Rightarrow> valueNode list" where
  "updatesFor pref key [] = []"
| "updatesFor pref key (row # rows) =
     (case rowUpdate pref row of
        None \<Rightarrow> updatesFor pref key rows
      | Some (k, upd) \<Rightarrow>
          (if k = key then upd # updatesFor pref key rows else updatesFor pref key rows))"

lemma updateNode_empty: "rowUpdate pref row = Some (k, upd) \<Longrightarrow> updateNode emptyNode upd = upd"
  by (auto simp: rowUpdate_def updateNode_def emptyNode_def split: option.splits prod.splits)

lemma node_of_rowStep:
  "node_of (snd (rowStep pref kn row)) key =
     (case rowUpdate pref row of
        None \<Rightarrow> node_of (snd kn) key
      | Some (k, upd) \<Rightarrow>
          (if k = key then updateNode (node_of (snd kn) key) upd else node_of (snd kn) key))"
  by (auto simp: rowStep_def node_of_def updateNode_empty split: option.splits)

lemma node_of_rows:
  "node_of (snd (foldl (rowStep pref) kn rows)) key =
     foldl updateNode (node_of (snd kn) key) (updatesFor pref key rows)"
  by (induction rows arbitrary: kn) (auto simp: node_of_rowStep split: option.splits)

lemma keys_rows:
  assumes "distinct (fst kn)" and "set (fst kn) = dom (snd kn)"
  shows "distinct (fst (foldl (rowStep pref) kn rows)) \<and>
    set (fst (foldl (rowStep pref) kn rows)) = dom (snd (foldl (rowStep pref) kn rows))"
  using assms
proof (induction rows arbitrary: kn)
  case (Cons row rows)
  have "distinct (fst (rowStep pref kn row)) \<and>
      set (fst (rowStep pref kn row)) = dom (snd (rowStep pref kn row))"
    using Cons.prems by (auto simp: rowStep_def split: option.splits)
  then show ?case using Cons.IH by simp
qed simp

text \<open>An update of a key comes from a row of one of the key's three places.\<close>

lemma rowUpdate_Some:
  assumes "rowUpdate pref row = Some (key, upd)"
  shows "fst row = getConfigKey pref key \<and> upd = emptyNode\<lparr>nodeValue := snd row\<rparr> \<or>
    (\<exists>h. fst row = getHashesKey pref h key \<and> CHR ''/'' \<notin> set h \<and>
       upd = emptyNode\<lparr>nodeHashes := [(h, snd row)]\<rparr>) \<or>
    fst row = getSignKey pref key \<and> upd = emptyNode\<lparr>nodeSig := snd row\<rparr>"
  using assms
  by (auto simp: rowUpdate_def cutPrefix_Some getConfigKey_def getSignKey_def
      parseHashPath_def getHashesKey_def splitOnce_Some split: option.splits)

lemma rowUpdate_keys [simp]:
  "rowUpdate pref (getConfigKey pref key, v) = Some (key, emptyNode\<lparr>nodeValue := v\<rparr>)"
  "CHR ''/'' \<notin> set h \<Longrightarrow>
     rowUpdate pref (getHashesKey pref h key, v) = Some (key, emptyNode\<lparr>nodeHashes := [(h, v)]\<rparr>)"
  "rowUpdate pref (getSignKey pref key, v) = Some (key, emptyNode\<lparr>nodeSig := v\<rparr>)"
  by (simp_all add: rowUpdate_def)

lemma set_updatesFor:
  "upd \<in> set (updatesFor pref key rows) \<longleftrightarrow> (\<exists>row \<in> set rows. rowUpdate pref row = Some (key, upd))"
  by (induction rows) (auto split: option.splits)

lemma nodeValue_foldl:
  "nodeValue (foldl updateNode n upds) =
     foldl (\<lambda>v u. if nodeValue u \<noteq> [] then nodeValue u else v) (nodeValue n) upds"
  by (induction upds arbitrary: n) (auto simp: updateNode_def)

lemma nodeSig_foldl:
  "nodeSig (foldl updateNode n upds) =
     foldl (\<lambda>v u. if nodeSig u \<noteq> [] then nodeSig u else v) (nodeSig n) upds"
  by (induction upds arbitrary: n) (auto simp: updateNode_def)

lemma foldl_last_nonempty:
  "foldl (\<lambda>v u. if f u \<noteq> [] then f u else v) v0 us = v0 \<or>
     (\<exists>u \<in> set us. f u \<noteq> [] \<and> foldl (\<lambda>v u. if f u \<noteq> [] then f u else v) v0 us = f u)"
  by (induction us arbitrary: v0) auto

lemma foldl_nonempty:
  "\<exists>u \<in> set us. f u \<noteq> [] \<Longrightarrow> foldl (\<lambda>v u. if f u \<noteq> [] then f u else v) v0 us \<noteq> []"
proof (induction us arbitrary: v0)
  case (Cons u us)
  have keep: "v1 \<noteq> [] \<Longrightarrow> foldl (\<lambda>v u. if f u \<noteq> [] then f u else v) v1 us \<noteq> []" for v1
    using foldl_last_nonempty [of f v1 us] by auto
  show ?case
  proof (cases "f u = []")
    case True
    with Cons show ?thesis by simp
  next
    case False
    then show ?thesis using keep [of "f u"] by simp
  qed
qed simp

lemma set_foldl_update:
  "set (foldl (\<lambda>hs (k, v). AList.update k v hs) hs kvs) \<subseteq> set hs \<union> set kvs"
proof (induction kvs arbitrary: hs)
  case (Cons kv kvs)
  obtain k v where "kv = (k, v)" by (cases kv)
  with Cons.IH [of "AList.update k v hs"] set_update_subset [of k v hs] show ?case by auto
qed simp

lemma fst_foldl_update:
  "fst ` set (foldl (\<lambda>hs (k, v). AList.update k v hs) hs kvs) = fst ` set hs \<union> fst ` set kvs"
  by (induction kvs arbitrary: hs) (simp_all add: case_prod_beta dom_update)

lemma nodeHashes_foldl:
  "set (nodeHashes (foldl updateNode n upds)) \<subseteq>
     set (nodeHashes n) \<union> (\<Union>u \<in> set upds. set (nodeHashes u))"
proof (induction upds arbitrary: n)
  case (Cons u upds)
  have "set (nodeHashes (updateNode n u)) \<subseteq> set (nodeHashes n) \<union> set (nodeHashes u)"
    using set_foldl_update by (simp add: updateNode_def)
  with Cons.IH [of "updateNode n u"] show ?case by auto
qed simp

lemma fst_nodeHashes_foldl:
  "fst ` set (nodeHashes (foldl updateNode n upds)) =
     fst ` set (nodeHashes n) \<union> (\<Union>u \<in> set upds. fst ` set (nodeHashes u))"
  by (induction upds arbitrary: n) (auto simp: updateNode_def fst_foldl_update)

text \<open>The node of a key, read off the rows.\<close>

definition rowsNode :: "string \<Rightarrow> (string \<times> string) list \<Rightarrow> string \<Rightarrow> valueNode" where
  "rowsNode pref rows key = node_of (snd (foldl (rowStep pref) ([], Map.empty) rows)) key"

lemma rowsNode_eq: "rowsNode pref rows key = foldl updateNode emptyNode (updatesFor pref key rows)"
  by (simp add: rowsNode_def node_of_rows) (simp add: node_of_def)

lemma emptyNode_simps [simp]:
  "nodeValue emptyNode = []" "nodeHashes emptyNode = []" "nodeSig emptyNode = []"
  by (simp_all add: emptyNode_def)

lemma rowsNode_value:
  "nodeValue (rowsNode pref rows key) \<noteq> [] \<Longrightarrow>
     (getConfigKey pref key, nodeValue (rowsNode pref rows key)) \<in> set rows"
  using foldl_last_nonempty [of nodeValue "[]" "updatesFor pref key rows"]
  by (auto simp: rowsNode_eq nodeValue_foldl set_updatesFor dest!: rowUpdate_Some)

lemma rowsNode_sig:
  "nodeSig (rowsNode pref rows key) \<noteq> [] \<Longrightarrow>
     (getSignKey pref key, nodeSig (rowsNode pref rows key)) \<in> set rows"
  using foldl_last_nonempty [of nodeSig "[]" "updatesFor pref key rows"]
  by (auto simp: rowsNode_eq nodeSig_foldl set_updatesFor dest!: rowUpdate_Some)

lemma rowsNode_hashes:
  assumes "(h, v) \<in> set (nodeHashes (rowsNode pref rows key))"
  shows "(getHashesKey pref h key, v) \<in> set rows"
proof -
  from assms nodeHashes_foldl [of emptyNode "updatesFor pref key rows"]
  obtain u where u: "u \<in> set (updatesFor pref key rows)" "(h, v) \<in> set (nodeHashes u)"
    by (auto simp: rowsNode_eq)
  then obtain row where row: "row \<in> set rows" "rowUpdate pref row = Some (key, u)"
    by (auto simp: set_updatesFor)
  with rowUpdate_Some [OF row(2)] u(2) show ?thesis by (cases row) auto
qed

lemma rowsNode_hash_name:
  assumes "(h, v) \<in> set (nodeHashes (rowsNode pref rows key))"
  shows "CHR ''/'' \<notin> set h"
proof -
  from assms nodeHashes_foldl [of emptyNode "updatesFor pref key rows"]
  obtain u where u: "u \<in> set (updatesFor pref key rows)" "(h, v) \<in> set (nodeHashes u)"
    by (auto simp: rowsNode_eq)
  then obtain row where "rowUpdate pref row = Some (key, u)" by (auto simp: set_updatesFor)
  with u(2) show ?thesis by (auto dest: rowUpdate_Some)
qed

lemma rowsNode_all_hashes:
  assumes "(getHashesKey pref h key, v) \<in> set rows" and "CHR ''/'' \<notin> set h"
  shows "h \<in> fst ` set (nodeHashes (rowsNode pref rows key))"
proof -
  have "emptyNode\<lparr>nodeHashes := [(h, v)]\<rparr> \<in> set (updatesFor pref key rows)"
    using assms by (force simp: set_updatesFor)
  then show ?thesis by (force simp: rowsNode_eq fst_nodeHashes_foldl)
qed

lemma rowsNode_has_value:
  assumes "(getConfigKey pref key, v) \<in> set rows" and "v \<noteq> []"
  shows "nodeValue (rowsNode pref rows key) \<noteq> []"
proof -
  have "emptyNode\<lparr>nodeValue := v\<rparr> \<in> set (updatesFor pref key rows)"
    using assms(1) by (force simp: set_updatesFor)
  with assms(2) show ?thesis
    unfolding rowsNode_eq nodeValue_foldl by (intro foldl_nonempty) force
qed

lemma keys_of_rows:
  "key \<in> set (fst (foldl (rowStep pref) ([], Map.empty) rows)) \<longleftrightarrow>
     snd (foldl (rowStep pref) ([], Map.empty) rows) key \<noteq> None"
  using keys_rows [of "([], Map.empty)" pref rows] by auto

lemma CollectIntegrityTarantoolAll_eq:
  assumes "tarantoolTxnGet T [getConfigPrefix (itacPrefix c), getHashesPrefix (itacPrefix c),
      getSignPrefix (itacPrefix c)] (itacTimeout c) s = (Inr responses, s')"
  shows "\<exists>keys. distinct keys \<and>
    (\<forall>key. key \<in> set keys \<longleftrightarrow> nodeValue (rowsNode (itacPrefix c) (concat responses) key) \<noteq> []) \<and>
    CollectIntegrityTarantoolAll T c s =
      (checkNodes (itacCheckFunc c) (itacPrefix c)
         (\<lambda>key. Some (rowsNode (itacPrefix c) (concat responses) key)) keys, s')"
proof -
  let ?kn = "foldl (rowStep (itacPrefix c)) ([], Map.empty) (concat responses)"
  let ?keys = "filter (\<lambda>key. nodeValue (node_of (snd ?kn) key) \<noteq> []) (fst ?kn)"
  have d: "distinct ?keys"
    using keys_rows [of "([], Map.empty)" "itacPrefix c" "concat responses"] by simp
  have k: "key \<in> set ?keys \<longleftrightarrow> nodeValue (rowsNode (itacPrefix c) (concat responses) key) \<noteq> []" for key
    using keys_of_rows [of key "itacPrefix c" "concat responses"]
    by (auto simp: rowsNode_def node_of_def split: option.splits)
  have ch: "checkNodes chk p (snd ?kn) ks =
      checkNodes chk p (\<lambda>key. Some (rowsNode (itacPrefix c) (concat responses) key)) ks" for chk p ks
    by (rule checkNodes_cong) (simp add: rowsNode_def)
  have "CollectIntegrityTarantoolAll T c s =
      (checkNodes (itacCheckFunc c) (itacPrefix c) (snd ?kn) ?keys, s')"
    by (simp add: CollectIntegrityTarantoolAll_def Let_def assms case_prod_beta)
  note eq = this [unfolded ch]
  show ?thesis by (rule exI [of _ ?keys], intro conjI allI) (rule d, rule k, rule eq)
qed

section \<open>What the storage is documented to do\<close>

text \<open>
  The config storage keeps a map of keys to values. A key of a request that ends with a slash
  stands for all keys it is a prefix of. A transaction without predicates executes its operations
  in order; a \<^verbatim>\<open>get\<close> answers with the entries it matches, one row per key.
\<close>

definition matches :: "string \<Rightarrow> string \<Rightarrow> bool" where
  "matches key k = (if key \<noteq> [] \<and> last key = CHR ''/'' then prefix key k else key = k)"

fun applyOp :: "(string \<Rightarrow> string option) \<Rightarrow> sop \<Rightarrow> (string \<Rightarrow> string option)" where
  "applyOp m (OpPut key v) = m(key \<mapsto> v)"
| "applyOp m (OpDelete key) = (\<lambda>k. if matches key k then None else m k)"
| "applyOp m (OpGet key) = m"

definition txnRequest :: "sop list \<Rightarrow> int option \<Rightarrow> request" where
  "txnRequest ops t =
     \<lparr>reqFun = ''config.storage.txn'',
      reqArgs = [VMap [(VStr ''on_success'', VList (map opVal ops))]], reqTimeout = t\<rparr>"

definition storage_writes :: "'s tarantool \<Rightarrow> ('s \<Rightarrow> string \<Rightarrow> string option) \<Rightarrow> bool" where
  "storage_writes T view \<longleftrightarrow>
     (\<forall>s ops t. \<exists>r s'. conn T s (txnRequest ops t) = (Inr r, s') \<and>
        view s' = foldl applyOp (view s) ops)"

definition storage_reads :: "'s tarantool \<Rightarrow> ('s \<Rightarrow> string \<Rightarrow> string option) \<Rightarrow> bool" where
  "storage_reads T view \<longleftrightarrow>
     (\<forall>s keys t. \<exists>r responses s'. conn T s (txnRequest (map OpGet keys) t) = (Inr [[r]], s') \<and>
        decodeTxn T r = Some responses \<and>
        list_all2 (\<lambda>key rows. distinct (map fst rows) \<and>
          set rows = {(k, v). view s k = Some v \<and> matches key k}) keys responses)"

lemma applyOps_put:
  "foldl applyOp m (map (\<lambda>(h, v). OpPut (f h) v) hs) =
     (\<lambda>k. case map_of (rev (map (\<lambda>(h, v). (f h, v)) hs)) k of Some v \<Rightarrow> Some v | None \<Rightarrow> m k)"
  by (induction hs arbitrary: m) (auto simp: fun_eq_iff map_add_def split: option.splits)

lemma prefixes_end [simp]:
  "getConfigPrefix p \<noteq> []" "last (getConfigPrefix p) = CHR ''/''"
  "getHashesPrefix p \<noteq> []" "last (getHashesPrefix p) = CHR ''/''"
  "getSignPrefix p \<noteq> []" "last (getSignPrefix p) = CHR ''/''"
  by (simp_all add: getConfigPrefix_def getHashesPrefix_def getSignPrefix_def)

lemma matches_prefix:
  "matches (getConfigPrefix p) k \<longleftrightarrow> (\<exists>key. k = getConfigKey p key)"
  "matches (getHashesPrefix p) k \<longleftrightarrow> (\<exists>r. k = getHashesPrefix p @ r)"
  "matches (getSignPrefix p) k \<longleftrightarrow> (\<exists>key. k = getSignKey p key)"
  by (auto simp: matches_def getConfigKey_def getSignKey_def prefix_def)

lemma rowsNode_has_sig:
  assumes "(getSignKey pref key, v) \<in> set rows" and "v \<noteq> []"
  shows "nodeSig (rowsNode pref rows key) \<noteq> []"
proof -
  have "emptyNode\<lparr>nodeSig := v\<rparr> \<in> set (updatesFor pref key rows)"
    using assms(1) by (force simp: set_updatesFor)
  with assms(2) show ?thesis
    unfolding rowsNode_eq nodeSig_foldl by (intro foldl_nonempty) force
qed

lemma rowsNode_signature:
  "if \<exists>v. v \<noteq> [] \<and> (getSignKey pref key, v) \<in> set rows
   then nodeSig (rowsNode pref rows key) \<noteq> [] \<and>
     (getSignKey pref key, nodeSig (rowsNode pref rows key)) \<in> set rows
   else nodeSig (rowsNode pref rows key) = []"
  using rowsNode_sig [of pref rows key] rowsNode_has_sig [of pref key _ rows] by auto

lemma distinct_nodeHashes: "distinct (map fst (nodeHashes (rowsNode pref rows key)))"
proof -
  have upd: "distinct (map fst hs) \<Longrightarrow>
      distinct (map fst (foldl (\<lambda>hs (k, v). AList.update k v hs) hs kvs))"
    for hs :: "(string \<times> string) list" and kvs
    by (induction kvs arbitrary: hs) (auto simp: distinct_update split: prod.splits)
  have "distinct (map fst (nodeHashes n)) \<Longrightarrow> distinct (map fst (nodeHashes (foldl updateNode n upds)))"
    for n upds
    by (induction upds arbitrary: n) (auto simp: updateNode_def upd)
  then show ?thesis by (simp add: rowsNode_eq)
qed

text \<open>What the storage holds under the prefix after the transaction of a signing publisher.\<close>

lemma allOps_view:
  assumes "allOps \<lparr>tapPrefix = p, tapSignFunc = Some signFunc, tapTimeout = t\<rparr> dat = Inr ops"
    and "signFunc dat = Inr (hs, sign)"
    and "distinct (map fst hs)" and "\<forall>(h, v) \<in> set hs. CHR ''/'' \<notin> set h"
  shows "foldl applyOp m ops (getConfigKey p key) = (if key = ''all'' then Some dat else None)"
    and "foldl applyOp m ops (getSignKey p key) = (if key = ''all'' then Some sign else None)"
    and "foldl applyOp m ops (getHashesPrefix p @ r) = Some v \<longleftrightarrow>
      (\<exists>h. (h, v) \<in> set hs \<and> getHashesPrefix p @ r = getHashesKey p h ''all'')"
proof -
  let ?puts = "map (\<lambda>(hash, v). OpPut (getHashesKey p hash ''all'') v) hs"
  let ?kvs = "map (\<lambda>(hash, v). (getHashesKey p hash ''all'', v)) hs"
  have ops: "ops = [OpDelete (getConfigPrefix p), OpPut (getConfigKey p ''all'') dat,
      OpDelete (getHashesPrefix p)] @ ?puts @
      [OpDelete (getSignPrefix p), OpPut (getSignKey p ''all'') sign]"
    using assms(1,2) by (simp add: allOps_def Let_def)
  have hp: "getHashesPrefix p @ x \<noteq> getConfigKey p y" "getHashesPrefix p @ x \<noteq> getSignKey p y"
    "getConfigKey p y \<noteq> getHashesPrefix p @ x" "getSignKey p y \<noteq> getHashesPrefix p @ x" for x y
    by (metis cutPrefix_append cutPrefix_cross(3,4) option.distinct(1))+
  have none: "map_of (rev ?kvs) (getConfigKey p x) = None" "map_of (rev ?kvs) (getSignKey p x) = None" for x
    by (auto simp: map_of_eq_None_iff)
  show "foldl applyOp m ops (getConfigKey p key) = (if key = ''all'' then Some dat else None)"
    by (auto simp: ops applyOps_put matches_prefix getConfigKey_inj none hp)
  show "foldl applyOp m ops (getSignKey p key) = (if key = ''all'' then Some sign else None)"
    by (auto simp: ops applyOps_put matches_prefix getSignKey_inj none hp)
  have "distinct (map fst ?kvs)"
  proof -
    have "inj_on (\<lambda>h. getHashesKey p h ''all'') (fst ` set hs)"
    proof (rule inj_onI)
      fix h h' assume "h \<in> fst ` set hs" "h' \<in> fst ` set hs"
        and eq: "getHashesKey p h ''all'' = getHashesKey p h' ''all''"
      then have "CHR ''/'' \<notin> set h" "CHR ''/'' \<notin> set h'" using assms(4) by auto
      from getHashesKey_inj [OF this] eq show "h = h'" by blast
    qed
    with assms(3) have "distinct (map (\<lambda>h. getHashesKey p h ''all'') (map fst hs))"
      by (simp add: distinct_map comp_inj_on)
    then show ?thesis by (simp add: comp_def case_prod_beta)
  qed
  then have "distinct (rev (map fst ?kvs))" by (simp only: distinct_rev)
  then have "distinct (map fst (rev ?kvs))" by (simp only: rev_map)
  then have kv: "map_of (rev ?kvs) k = Some v \<longleftrightarrow> (\<exists>h. (h, v) \<in> set hs \<and> k = getHashesKey p h ''all'')" for k v
    by (auto simp: map_of_eq_Some_iff)
  have "foldl applyOp m ops (getHashesPrefix p @ r) = map_of (rev ?kvs) (getHashesPrefix p @ r)"
    by (auto simp: ops applyOps_put matches_prefix hp split: option.splits)
  then show "foldl applyOp m ops (getHashesPrefix p @ r) = Some v \<longleftrightarrow>
      (\<exists>h. (h, v) \<in> set hs \<and> getHashesPrefix p @ r = getHashesKey p h ''all'')"
    by (simp only: kv)
qed

lemma hashKey_split: "getHashesKey p h key = getHashesPrefix p @ (h @ ''/'' @ key)"
  by (simp add: getHashesKey_def)

text \<open>What a read of the whole prefix returns after that transaction.\<close>

lemma published_rows:
  assumes "allOps \<lparr>tapPrefix = p, tapSignFunc = Some signFunc, tapTimeout = t\<rparr> dat = Inr ops"
    and "signFunc dat = Inr (hs, sign)"
    and "distinct (map fst hs)" and "\<forall>(h, v) \<in> set hs. CHR ''/'' \<notin> set h"
    and "list_all2 (\<lambda>key rws. distinct (map fst rws) \<and>
          set rws = {(k, v). foldl applyOp m ops k = Some v \<and> matches key k})
          [getConfigPrefix p, getHashesPrefix p, getSignPrefix p] rows"
  shows "(getConfigKey p k, x) \<in> set (concat rows) \<longleftrightarrow> k = ''all'' \<and> x = dat"
    and "(getSignKey p k, x) \<in> set (concat rows) \<longleftrightarrow> k = ''all'' \<and> x = sign"
    and "CHR ''/'' \<notin> set h \<Longrightarrow>
      (getHashesKey p h ''all'', x) \<in> set (concat rows) \<longleftrightarrow> (h, x) \<in> set hs"
proof -
  note v = allOps_view [OF assms(1-4), of m]
  have mem: "(k, x) \<in> set (concat rows) \<longleftrightarrow> foldl applyOp m ops k = Some x \<and>
      (matches (getConfigPrefix p) k \<or> matches (getHashesPrefix p) k \<or> matches (getSignPrefix p) k)"
    for k x using assms(5) by (auto simp: list_all2_Cons1)
  show "(getConfigKey p k, x) \<in> set (concat rows) \<longleftrightarrow> k = ''all'' \<and> x = dat"
    unfolding mem v matches_prefix by auto
  show "(getSignKey p k, x) \<in> set (concat rows) \<longleftrightarrow> k = ''all'' \<and> x = sign"
    unfolding mem v matches_prefix by auto
  assume h: "CHR ''/'' \<notin> set h"
  have "matches (getHashesPrefix p) (getHashesKey p h ''all'')"
    by (auto simp: matches_prefix hashKey_split)
  then have "(getHashesKey p h ''all'', x) \<in> set (concat rows) \<longleftrightarrow>
      (\<exists>h'. (h', x) \<in> set hs \<and> getHashesKey p h ''all'' = getHashesKey p h' ''all'')"
    using v(3) [of "h @ ''/'' @ ''all''" x] unfolding mem hashKey_split by blast
  also have "\<dots> \<longleftrightarrow> (h, x) \<in> set hs"
    using h assms(4) getHashesKey_inj by blast
  finally show "(getHashesKey p h ''all'', x) \<in> set (concat rows) \<longleftrightarrow> (h, x) \<in> set hs" .
qed

text \<open>The nodes the integrity collector builds from such rows.\<close>

lemma published_node:
  assumes val: "\<And>k x. (getConfigKey p k, x) \<in> set rows \<longleftrightarrow> k = ''all'' \<and> x = dat"
    and sig: "\<And>k x. (getSignKey p k, x) \<in> set rows \<longleftrightarrow> k = ''all'' \<and> x = sign"
    and hsh: "\<And>h x. CHR ''/'' \<notin> set h \<Longrightarrow>
      (getHashesKey p h ''all'', x) \<in> set rows \<longleftrightarrow> (h, x) \<in> set hs"
    and "dat \<noteq> []" and hs: "distinct (map fst hs)" "\<forall>(h, v) \<in> set hs. CHR ''/'' \<notin> set h"
  shows "nodeValue (rowsNode p rows k) \<noteq> [] \<longleftrightarrow> k = ''all''"
    and "nodeValue (rowsNode p rows ''all'') = dat"
    and "nodeSig (rowsNode p rows ''all'') = sign"
    and "set (nodeHashes (rowsNode p rows ''all'')) = set hs"
proof -
  let ?n = "rowsNode p rows ''all''"
  show nv: "nodeValue (rowsNode p rows k) \<noteq> [] \<longleftrightarrow> k = ''all''" for k
    using rowsNode_value [of p rows k] rowsNode_has_value [of p "''all''" dat rows]
      val \<open>dat \<noteq> []\<close> by auto
  show "nodeValue ?n = dat" using rowsNode_value [of p rows "''all''"] nv val by auto
  show "nodeSig ?n = sign"
    using rowsNode_sig [of p rows "''all''"] rowsNode_has_sig [of p "''all''" sign rows] sig
    by (cases "sign = []") auto
  have noslash: "CHR ''/'' \<notin> set h" if "(h, x) \<in> set (nodeHashes ?n)" for h x
    using that rowsNode_hash_name by blast
  show "set (nodeHashes ?n) = set hs"
  proof (intro equalityI subsetI; clarify)
    fix h x assume "(h, x) \<in> set (nodeHashes ?n)"
    then show "(h, x) \<in> set hs" using rowsNode_hashes hsh noslash by blast
  next
    fix h x assume hx: "(h, x) \<in> set hs"
    then have s: "CHR ''/'' \<notin> set h" using hs(2) by blast
    then have "(getHashesKey p h ''all'', x) \<in> set rows" using hx hsh by blast
    then obtain y where y: "(h, y) \<in> set (nodeHashes ?n)" using rowsNode_all_hashes s by fastforce
    then have "(h, y) \<in> set hs" using rowsNode_hashes hsh s by blast
    then show "(h, x) \<in> set (nodeHashes ?n)" using hx hs(1) y eq_key_imp_eq_value by fastforce
  qed
qed

section \<open>An in-memory storage\<close>

text \<open>
  A storage that behaves as documented exists: an association list with the requests decoded
  back to operations. It shows that \<open>storage_writes\<close> and \<open>storage_reads\<close> can hold together.
\<close>

fun valOp :: "gval \<Rightarrow> sop option" where
  "valOp (VList [VStr c, VStr key, VStr v]) = (if c = ''put'' then Some (OpPut key v) else None)"
| "valOp (VList [VStr c, VStr key]) =
     (if c = ''delete'' then Some (OpDelete key) else if c = ''get'' then Some (OpGet key) else None)"
| "valOp _ = None"

definition memRows :: "(string \<times> string) list \<Rightarrow> string \<Rightarrow> (string \<times> string) list" where
  "memRows m key = filter (\<lambda>kv. matches key (fst kv)) (AList.clearjunk m)"

fun memOp :: "(string \<times> string) list \<Rightarrow> sop \<Rightarrow> (string \<times> string) list" where
  "memOp m (OpPut key v) = (key, v) # m"
| "memOp m (OpDelete key) = filter (\<lambda>kv. \<not> matches key (fst kv)) m"
| "memOp m (OpGet key) = m"

fun opRows :: "(string \<times> string) list \<Rightarrow> sop list \<Rightarrow> txnRows" where
  "opRows m [] = []"
| "opRows m (OpGet key # ops) = memRows m key # opRows m ops"
| "opRows m (op # ops) = [] # opRows (memOp m op) ops"

definition rowsVal :: "txnRows \<Rightarrow> gval" where
  "rowsVal rows = VList (map (\<lambda>rs. VList (map (\<lambda>(k, v). VList [VStr k, VStr v]) rs)) rows)"

fun valRow :: "gval \<Rightarrow> (string \<times> string)" where
  "valRow (VList [VStr k, VStr v]) = (k, v)"
| "valRow _ = ([], [])"

fun valList :: "gval \<Rightarrow> gval list" where
  "valList (VList vs) = vs"
| "valList _ = []"

definition memConn ::
  "(string \<times> string) list \<Rightarrow> request \<Rightarrow> (string + gval list list) \<times> (string \<times> string) list"
where
  "memConn m req =
     (case reqArgs req of
        [VMap [(_, VList ops)]] \<Rightarrow>
          (let os = List.map_filter valOp ops
           in (Inr [[rowsVal (opRows m os)]], foldl memOp m os))
      | _ \<Rightarrow> (Inl ''bad request'', m))"

definition memStorage :: "(string \<times> string) list tarantool" where
  "memStorage = \<lparr>conn = memConn, decodeGet = (\<lambda>_. None),
     decodeTxn = (\<lambda>v. Some (map (\<lambda>rs. map valRow (valList rs)) (valList v)))\<rparr>"

lemma valOp_opVal [simp]: "valOp (opVal op) = Some op"
  by (cases op) auto

lemma map_filter_opVal: "List.map_filter valOp (map opVal ops) = ops"
  by (induction ops) (auto simp: List.map_filter_def)

lemma decode_rowsVal: "map (\<lambda>rs. map valRow (valList rs)) (valList (rowsVal rows)) = rows"
  by (induction rows) (auto simp: rowsVal_def comp_def case_prod_beta)

lemma map_of_memOp: "map_of (memOp m op) = applyOp (map_of m) op"
proof (cases op)
  case (OpDelete key)
  have "map_of (filter (\<lambda>kv. \<not> matches key (fst kv)) m) k =
      (if matches key k then None else map_of m k)" for k
    by (induction m) auto
  with OpDelete show ?thesis by auto
qed auto

lemma map_of_memOps: "map_of (foldl memOp m ops) = foldl applyOp (map_of m) ops"
  by (induction ops arbitrary: m) (auto simp: map_of_memOp)

lemma memConn_txn:
  "memConn m (txnRequest ops t) = (Inr [[rowsVal (opRows m ops)]], foldl memOp m ops)"
  by (simp add: memConn_def txnRequest_def map_filter_opVal Let_def)

lemma memStorage_writes: "storage_writes memStorage map_of"
  by (simp add: storage_writes_def memStorage_def memConn_txn map_of_memOps)

lemma opRows_get: "opRows m (map OpGet keys) = map (memRows m) keys"
  by (induction keys) auto

lemma memRows_correct:
  "distinct (map fst (memRows m key)) \<and>
     set (memRows m key) = {(k, v). map_of m k = Some v \<and> matches key k}"
proof -
  have d: "distinct (map fst (AList.clearjunk m))" by (rule distinct_clearjunk)
  have "(k, v) \<in> set (AList.clearjunk m) \<longleftrightarrow> map_of m k = Some v" for k v
    using map_of_eq_Some_iff [OF d] by (simp add: map_of_clearjunk)
  with d show ?thesis by (auto simp: memRows_def distinct_map_filter)
qed

lemma memStorage_reads: "storage_reads memStorage map_of"
proof -
  have dec: "decodeTxn memStorage (rowsVal rows) = Some rows" for rows
    by (simp add: memStorage_def decode_rowsVal del: map_map)
  show ?thesis unfolding storage_reads_def
  proof (intro allI exI conjI)
    show "conn memStorage s (txnRequest (map OpGet keys) t) =
        (Inr [[rowsVal (map (memRows s) keys)]], foldl memOp s (map OpGet keys))" for s keys t
      by (simp add: memStorage_def memConn_txn opRows_get)
    show "decodeTxn memStorage (rowsVal (map (memRows s) keys)) = Some (map (memRows s) keys)"
      for s keys by (rule dec)
    show "list_all2 (\<lambda>key rows. distinct (map fst rows) \<and>
          set rows = {(k, v). map_of s k = Some v \<and> matches key k}) keys (map (memRows s) keys)"
      for s keys unfolding list_all2_map2 list_all2_same using memRows_correct by blast
  qed
qed

section \<open>Properties\<close>

text \<open>
  Property C4: the integrity collector of a whole prefix returns only values that passed the
  check together with exactly the hashes and the signature stored for the same key: every hash
  handed to the check is a stored row of that key and none is missing, and the signature is the
  stored one whenever the key has a signature and empty only if it has none. It leaves out no key
  with a non-empty value. Only an empty signature counts as absent, and where the storage answers
  with several rows of one key, which it does not for a prefix, one of them is taken.
\<close>

theorem CollectIntegrityTarantoolAll_checked:
  assumes "tarantoolTxnGet T [getConfigPrefix p, getHashesPrefix p, getSignPrefix p] t s =
      (Inr responses, s')"
    and "CollectIntegrityTarantoolAll T (NewIntegrityTarantoolAllCollector check p t) s = (Inr ds, s'')"
  shows "(\<forall>d \<in> set ds. \<exists>key hs sign.
      Source d = getConfigKey p key \<and> Value d \<noteq> [] \<and>
      (Source d, Value d) \<in> set (concat responses) \<and>
      check (Value d) hs sign = None \<and>
      (\<forall>(h, v) \<in> set hs. (getHashesKey p h key, v) \<in> set (concat responses)) \<and>
      (\<forall>h v. CHR ''/'' \<notin> set h \<and> (getHashesKey p h key, v) \<in> set (concat responses) \<longrightarrow>
         h \<in> fst ` set hs) \<and> distinct (map fst hs) \<and>
      (if \<exists>v. v \<noteq> [] \<and> (getSignKey p key, v) \<in> set (concat responses)
       then sign \<noteq> [] \<and> (getSignKey p key, sign) \<in> set (concat responses)
       else sign = [])) \<and>
    (\<forall>key v. (getConfigKey p key, v) \<in> set (concat responses) \<and> v \<noteq> [] \<longrightarrow>
      getConfigKey p key \<in> Source ` set ds)"
proof -
  let ?node = "rowsNode p (concat responses)"
  let ?c = "NewIntegrityTarantoolAllCollector check p t"
  obtain keys where keys: "\<forall>key. key \<in> set keys \<longleftrightarrow> nodeValue (?node key) \<noteq> []"
    "checkNodes check p (\<lambda>key. Some (?node key)) keys = Inr ds"
    using CollectIntegrityTarantoolAll_eq [of T ?c s responses s'] assms
    by (auto simp: NewIntegrityTarantoolAllCollector_def)
  from keys(2) have ds: "ds = map (\<lambda>k. \<lparr>Source = getConfigKey p k, Value = nodeValue (?node k),
        Revision = 0\<rparr>) keys"
    and ok: "\<And>k. k \<in> set keys \<Longrightarrow>
        check (nodeValue (?node k)) (nodeHashes (?node k)) (nodeSig (?node k)) = None"
    by (simp_all add: checkNodes_Inr)
  have "\<exists>key hs sign. Source d = getConfigKey p key \<and> Value d \<noteq> [] \<and>
      (Source d, Value d) \<in> set (concat responses) \<and> check (Value d) hs sign = None \<and>
      (\<forall>(h, v) \<in> set hs. (getHashesKey p h key, v) \<in> set (concat responses)) \<and>
      (\<forall>h v. CHR ''/'' \<notin> set h \<and> (getHashesKey p h key, v) \<in> set (concat responses) \<longrightarrow>
         h \<in> fst ` set hs) \<and> distinct (map fst hs) \<and>
      (if \<exists>v. v \<noteq> [] \<and> (getSignKey p key, v) \<in> set (concat responses)
       then sign \<noteq> [] \<and> (getSignKey p key, sign) \<in> set (concat responses)
       else sign = [])"
    if "d \<in> set ds" for d
  proof -
    from that ds obtain k where k: "k \<in> set keys" "Source d = getConfigKey p k"
      "Value d = nodeValue (?node k)" by auto
    have "\<forall>(h, v) \<in> set (nodeHashes (?node k)). (getHashesKey p h k, v) \<in> set (concat responses)"
      using rowsNode_hashes by blast
    moreover have "\<forall>h v. CHR ''/'' \<notin> set h \<and> (getHashesKey p h k, v) \<in> set (concat responses) \<longrightarrow>
        h \<in> fst ` set (nodeHashes (?node k))" using rowsNode_all_hashes by blast
    moreover note distinct_nodeHashes [of p "concat responses" k]
    moreover note rowsNode_signature [of p k "concat responses"]
    moreover have "nodeValue (?node k) \<noteq> []" using keys(1) k(1) by simp
    moreover from this have "(getConfigKey p k, nodeValue (?node k)) \<in> set (concat responses)"
      by (rule rowsNode_value)
    ultimately show ?thesis using ok [OF k(1)] k(2,3) by (intro exI) (auto simp only: )
  qed
  moreover have "getConfigKey p key \<in> Source ` set ds"
    if "(getConfigKey p key, v) \<in> set (concat responses)" "v \<noteq> []" for key v
    using rowsNode_has_value [OF that] keys(1) by (force simp: ds)
  ultimately show ?thesis by blast
qed

definition demoStore :: "(string \<times> string) list" where
  "demoStore = [(''/config/a'', ''x''), (''/hashes/h/a'', ''y''), (''/sig/a'', ''z'')]"

theorem CollectIntegrityTarantoolAll_checked_witness:
  "\<exists>ds. CollectIntegrityTarantoolAll memStorage
       (NewIntegrityTarantoolAllCollector (\<lambda>_ _ _. None) ''/'' 0) demoStore = (Inr ds, demoStore) \<and>
     ''/config/a'' \<in> Source ` set ds"
proof -
  let ?r = "[[(''/config/a'', ''x'')], [(''/hashes/h/a'', ''y'')], [(''/sig/a'', ''z'')]]"
  let ?ds = "[\<lparr>Source = ''/config/a'', Value = ''x'', Revision = 0\<rparr>]"
  have g: "tarantoolTxnGet memStorage [getConfigPrefix ''/'', getHashesPrefix ''/'', getSignPrefix ''/''] 0
      demoStore = (Inr ?r, demoStore)"
    by code_simp
  have c: "CollectIntegrityTarantoolAll memStorage
      (NewIntegrityTarantoolAllCollector (\<lambda>_ _ _. None) ''/'' 0) demoStore = (Inr ?ds, demoStore)"
    by code_simp
  have k: "getConfigKey ''/'' ''a'' = ''/config/a''" by code_simp
  have "(getConfigKey ''/'' ''a'', ''x'') \<in> set (concat ?r) \<and> ''x'' \<noteq> []" by (simp add: k)
  then have "getConfigKey ''/'' ''a'' \<in> Source ` set ?ds"
    using CollectIntegrityTarantoolAll_checked [OF g c] by blast
  then show ?thesis using c unfolding k by blast
qed

text \<open>
  On a storage that behaves as documented, a configuration published with its
  hashes and signature is what the integrity collector of the same prefix returns afterwards, whatever
  was stored before, provided the check accepts what was signed.
\<close>

theorem publish_collect_tarantool:
  assumes "storage_writes T view" and "storage_reads T view"
    and "signFunc dat = Inr (hs, sign)" and "dat \<noteq> []"
    and "distinct (map fst hs)" and "\<forall>(h, v) \<in> set hs. CHR ''/'' \<notin> set h"
    and "\<forall>hs'. distinct (map fst hs') \<and> set hs' = set hs \<longrightarrow> check dat hs' sign = None"
  shows "\<exists>s1 s2.
    PublishTarantoolAll T (NewIntegrityTarantoolAllDataPublisher signFunc p t) 0 dat s = (None, s1) \<and>
    CollectIntegrityTarantoolAll T (NewIntegrityTarantoolAllCollector check p t') s1 =
      (Inr [\<lparr>Source = getConfigKey p ''all'', Value = dat, Revision = 0\<rparr>], s2)"
proof -
  let ?pub = "\<lparr>tapPrefix = p, tapSignFunc = Some signFunc, tapTimeout = t\<rparr>"
  let ?pre = "[getConfigPrefix p, getHashesPrefix p, getSignPrefix p]"
  obtain ops where ops: "allOps ?pub dat = Inr ops"
    using assms(3) by (auto simp: allOps_def Let_def)
  obtain r s1 where w: "conn T s (txnRequest ops (if t \<noteq> 0 then Some t else None)) = (Inr r, s1)"
      "view s1 = foldl applyOp (view s) ops"
    using assms(1) unfolding storage_writes_def by blast
  have pub: "PublishTarantoolAll T (NewIntegrityTarantoolAllDataPublisher signFunc p t) 0 dat s = (None, s1)"
    using w(1) by (simp add: PublishTarantoolAll_def NewIntegrityTarantoolAllDataPublisher_def ops
        tarantoolCall_def txnRequest_def)
  obtain r2 rows s2 where rd: "conn T s1 (txnRequest (map OpGet ?pre) (if t' \<noteq> 0 then Some t' else None)) =
        (Inr [[r2]], s2)" "decodeTxn T r2 = Some rows"
      "list_all2 (\<lambda>key rws. distinct (map fst rws) \<and>
          set rws = {(k, v). view s1 k = Some v \<and> matches key k}) ?pre rows"
    using assms(2) [unfolded storage_reads_def, rule_format, of s1 ?pre] by blast
  note r = published_rows [OF ops assms(3,5,6) rd(3) [unfolded w(2)]]
  note n = published_node [where p = p and rows = "concat rows", OF r(1) r(2) r(3) assms(4-6)]
  have get: "tarantoolTxnGet T ?pre t' s1 = (Inr rows, s2)"
    using rd by (auto simp: tarantoolTxnGet_def tarantoolCall_def txnRequest_def Let_def comp_def)
  obtain keys where keys: "distinct keys" "\<forall>k. k \<in> set keys \<longleftrightarrow> k = ''all''"
      "CollectIntegrityTarantoolAll T (NewIntegrityTarantoolAllCollector check p t') s1 =
        (checkNodes check p (\<lambda>k. Some (rowsNode p (concat rows) k)) keys, s2)"
    using CollectIntegrityTarantoolAll_eq [of T "NewIntegrityTarantoolAllCollector check p t'" s1 rows s2]
      get n(1) by (auto simp: NewIntegrityTarantoolAllCollector_def)
  then have "keys = [''all'']" by (intro singleton_list)
  moreover have "check dat (nodeHashes (rowsNode p (concat rows) ''all'')) sign = None"
    using assms(7) distinct_nodeHashes n(4) by blast
  ultimately have "checkNodes check p (\<lambda>k. Some (rowsNode p (concat rows) k)) keys =
      Inr [\<lparr>Source = getConfigKey p ''all'', Value = dat, Revision = 0\<rparr>]"
    by (simp add: checkNodes_Inr n(2,3))
  with pub keys(3) show ?thesis by auto
qed

theorem publish_collect_tarantool_witness:
  "\<exists>s1 s2.
    PublishTarantoolAll memStorage
      (NewIntegrityTarantoolAllDataPublisher (\<lambda>d. Inr ([(''h'', d)], ''sig'')) ''/p'' 5) 0 ''cfg'' demoStore =
      (None, s1) \<and>
    CollectIntegrityTarantoolAll memStorage (NewIntegrityTarantoolAllCollector
        (\<lambda>d hs sign. if hs = [(''h'', d)] \<and> sign = ''sig'' then None else Some ''bad'') ''/p'' 5) s1 =
      (Inr [\<lparr>Source = getConfigKey ''/p'' ''all'', Value = ''cfg'', Revision = 0\<rparr>], s2)"
  by (rule publish_collect_tarantool [OF memStorage_writes memStorage_reads,
        where hs = "[(''h'', ''cfg'')]" and sign = "''sig''"])
     (auto simp: set_eq_singleton_distinct)

end
