(* ===== verification/Etcd.thy ===== *)
theory Etcd
  imports Data
begin

text \<open>
  The collectors and publishers of \<^verbatim>\<open>lib/cluster/etcd.go\<close>. The client of etcd is not part of
  the repository: \<open>eget\<close>, \<open>etxn\<close> and the polling of the context are the fields of the record
  \<open>etcd\<close>, an argument of every definition that reaches them. A call takes the state \<open>'s\<close> of the
  world and returns it changed, so that what other clients do before, between and after the calls
  is part of the state the calls return. The two loops that
  retry until a transaction succeeds are \<open>go_loop\<close> of one round: not returning is \<open>None\<close>.
\<close>

section \<open>The client\<close>

record kv =
  kvKey :: string
  kvValue :: string
  kvModRevision :: int

datatype ecmp = ModRevEq string int

text \<open>The flag of \<open>EGet\<close> is \<^verbatim>\<open>clientv3.WithPrefix()\<close>.\<close>

datatype eop = EGet string bool | EPut string string | EDelete string

text \<open>
  A transaction response: an entry of \<open>responses\<close> is what \<^verbatim>\<open>GetResponseRange()\<close> returns for
  it, \<open>None\<close> for \<^verbatim>\<open>nil\<close>, the response to an operation that is not a get.
\<close>

record txnResponse =
  succeeded :: bool
  responses :: "kv list option list"

text \<open>The second argument of a call is the timeout of its context, 0 for none.\<close>

record 's etcd =
  eget :: "'s \<Rightarrow> int \<Rightarrow> string \<Rightarrow> bool \<Rightarrow> (string + kv list) \<times> 's"
  etxn :: "'s \<Rightarrow> int \<Rightarrow> ecmp list \<Rightarrow> eop list \<Rightarrow> eop list \<Rightarrow>
    (string + txnResponse option) \<times> 's"
  edone :: "'s \<Rightarrow> string option \<times> 's"

text \<open>\<^verbatim>\<open>select\<close> on \<^verbatim>\<open>ctx.Done()\<close> with a default: a background context is never done.\<close>

definition ctxPoll :: "'s etcd \<Rightarrow> int \<Rightarrow> 's \<Rightarrow> string option \<times> 's" where
  "ctxPoll E timeout s = (if timeout \<noteq> 0 then edone E s else (None, s))"

text \<open>The three ranges the integrity code takes out of a response.\<close>

definition ranges3 :: "txnResponse option \<Rightarrow> derr + (kv list \<times> kv list \<times> kv list)" where
  "ranges3 resp =
     (case resp of
        None \<Rightarrow> Inl NilDereference
      | Some r \<Rightarrow>
          (case responses r of
             [a, b, c] \<Rightarrow>
               (case (a, b, c) of
                  (Some x, Some y, Some z) \<Rightarrow> Inr (x, y, z)
                | _ \<Rightarrow> Inl NilDereference)
           | _ \<Rightarrow> Inl MissingResponses))"

section \<open>Collectors\<close>

record etcdAllCollector =
  eacPrefix :: string
  eacTimeout :: int

record integrityEtcdAllCollector =
  ieacPrefix :: string
  ieacCheckFunc :: check_func
  ieacTimeout :: int

record etcdKeyCollector =
  ekcPrefix :: string
  ekcKey :: string
  ekcTimeout :: int

record integrityEtcdKeyCollector =
  iekcPrefix :: string
  iekcKey :: string
  iekcCheckFunc :: check_func
  iekcTimeout :: int

definition NewEtcdAllCollector :: "string \<Rightarrow> int \<Rightarrow> etcdAllCollector" where
  "NewEtcdAllCollector pref timeout = \<lparr>eacPrefix = pref, eacTimeout = timeout\<rparr>"

definition NewIntegrityEtcdAllCollector ::
  "check_func \<Rightarrow> string \<Rightarrow> int \<Rightarrow> integrityEtcdAllCollector"
where
  "NewIntegrityEtcdAllCollector checkFunc pref timeout =
     \<lparr>ieacPrefix = pref, ieacCheckFunc = checkFunc, ieacTimeout = timeout\<rparr>"

definition NewEtcdKeyCollector :: "string \<Rightarrow> string \<Rightarrow> int \<Rightarrow> etcdKeyCollector" where
  "NewEtcdKeyCollector pref key timeout =
     \<lparr>ekcPrefix = pref, ekcKey = key, ekcTimeout = timeout\<rparr>"

definition NewIntegrityEtcdKeyCollector ::
  "check_func \<Rightarrow> string \<Rightarrow> string \<Rightarrow> int \<Rightarrow> integrityEtcdKeyCollector"
where
  "NewIntegrityEtcdKeyCollector checkFunc pref key timeout =
     \<lparr>iekcPrefix = pref, iekcKey = key, iekcCheckFunc = checkFunc, iekcTimeout = timeout\<rparr>"

definition kvData :: "kv \<Rightarrow> data" where
  "kvData d = \<lparr>Source = kvKey d, Value = kvValue d, Revision = kvModRevision d\<rparr>"

definition CollectEtcdAll ::
  "'s etcd \<Rightarrow> etcdAllCollector \<Rightarrow> 's \<Rightarrow> (derr + data list) \<times> 's"
where
  "CollectEtcdAll E collector s =
     (let pref = getConfigPrefix (eacPrefix collector)
      in case eget E s (eacTimeout collector) pref True of
           (Inl err, s') \<Rightarrow> (Inl (FetchFailed err), s')
         | (Inr kvs, s') \<Rightarrow>
             (if kvs = [] then (Inl (NotFoundPrefix pref), s')
              else (Inr (map kvData kvs), s')))"

definition CollectEtcdKey ::
  "'s etcd \<Rightarrow> etcdKeyCollector \<Rightarrow> 's \<Rightarrow> (derr + data list) \<times> 's"
where
  "CollectEtcdKey E collector s =
     (let key = getConfigPrefix (ekcPrefix collector) @ ekcKey collector
      in case eget E s (ekcTimeout collector) key False of
           (Inl err, s') \<Rightarrow> (Inl (FetchFailed err), s')
         | (Inr kvs, s') \<Rightarrow>
             (case kvs of
                [] \<Rightarrow> (Inl (NotFoundKey key), s')
              | [d] \<Rightarrow> (Inr [kvData d], s')
              | _ \<Rightarrow> (Inl (TooManyResponses key), s')))"

text \<open>The three loops of the integrity collector: over the values, the hashes, the signatures.\<close>

definition valuesStep ::
  "string \<Rightarrow> string list \<times> (string \<Rightarrow> valueNode option) \<Rightarrow> kv \<Rightarrow>
   string list \<times> (string \<Rightarrow> valueNode option)"
where
  "valuesStep pref kn d =
     (case cutPrefix (kvKey d) (getConfigPrefix pref) of
        Some key \<Rightarrow> (fst kn @ [key], (snd kn)(key \<mapsto> emptyNode\<lparr>nodeValue := kvValue d\<rparr>))
      | None \<Rightarrow> kn)"

definition hashesStep ::
  "string \<Rightarrow> (string \<Rightarrow> valueNode option) \<Rightarrow> kv \<Rightarrow> (string \<Rightarrow> valueNode option)"
where
  "hashesStep pref nodes d =
     (case parseHashPath (kvKey d) pref of
        Some (hash, key) \<Rightarrow>
          (case nodes key of
             Some node \<Rightarrow>
               nodes(key \<mapsto> node\<lparr>nodeHashes := AList.update hash (kvValue d) (nodeHashes node)\<rparr>)
           | None \<Rightarrow> nodes)
      | None \<Rightarrow> nodes)"

fun sigsLoop ::
  "string \<Rightarrow> (string \<Rightarrow> valueNode option) \<Rightarrow> kv list \<Rightarrow> derr + (string \<Rightarrow> valueNode option)"
where
  "sigsLoop pref nodes [] = Inr nodes"
| "sigsLoop pref nodes (d # ds) =
     (case cutPrefix (kvKey d) (getSignPrefix pref) of
        Some key \<Rightarrow>
          (case nodes key of
             Some node \<Rightarrow> sigsLoop pref (nodes(key \<mapsto> node\<lparr>nodeSig := kvValue d\<rparr>)) ds
           | None \<Rightarrow> sigsLoop pref nodes ds)
      | None \<Rightarrow> Inl (MissingSignature (getConfigKey pref (kvKey d))))"

definition CollectIntegrityEtcdAll ::
  "'s etcd \<Rightarrow> integrityEtcdAllCollector \<Rightarrow> 's \<Rightarrow> (derr + data list) \<times> 's"
where
  "CollectIntegrityEtcdAll E collector s =
     (let pref = ieacPrefix collector
      in case etxn E s (ieacTimeout collector) []
                [EGet (getConfigPrefix pref) True, EGet (getHashesPrefix pref) True,
                 EGet (getSignPrefix pref) True] [] of
           (Inl err, s') \<Rightarrow> (Inl (FetchFailed err), s')
         | (Inr resp, s') \<Rightarrow>
             (case ranges3 resp of
                Inl err \<Rightarrow> (Inl err, s')
              | Inr (vals, hashs, sigs) \<Rightarrow>
                  (case foldl (valuesStep pref) ([], Map.empty) vals of
                     (keys, nodes) \<Rightarrow>
                       (case sigsLoop pref (foldl (hashesStep pref) nodes hashs) sigs of
                          Inl err \<Rightarrow> (Inl err, s')
                        | Inr nodes' \<Rightarrow>
                            (checkNodes (ieacCheckFunc collector) pref nodes' keys, s')))))"

definition keyHashes :: "string \<Rightarrow> string \<Rightarrow> hashes \<Rightarrow> kv \<Rightarrow> hashes" where
  "keyHashes pref wanted hashMap d =
     (case parseHashPath (kvKey d) pref of
        Some (hash, key) \<Rightarrow>
          (if key = wanted then AList.update hash (kvValue d) hashMap else hashMap)
      | None \<Rightarrow> hashMap)"

definition CollectIntegrityEtcdKey ::
  "'s etcd \<Rightarrow> integrityEtcdKeyCollector \<Rightarrow> 's \<Rightarrow> (derr + data list) \<times> 's"
where
  "CollectIntegrityEtcdKey E collector s =
     (let pref = iekcPrefix collector;
          valueKey = getConfigKey pref (iekcKey collector)
      in case etxn E s (iekcTimeout collector) []
                [EGet valueKey False, EGet (getHashesPrefix pref) True,
                 EGet (getSignKey pref (iekcKey collector)) False] [] of
           (Inl err, s') \<Rightarrow> (Inl (FetchFailed err), s')
         | (Inr resp, s') \<Rightarrow>
             (case ranges3 resp of
                Inl err \<Rightarrow> (Inl err, s')
              | Inr (vals, hashs, sigs) \<Rightarrow>
                  (if vals = [] then (Inl (NotFoundKey valueKey), s')
                   else if length vals > 1 then (Inl (TooManyResponses valueKey), s')
                   else if hashs = [] then (Inl HashesNotFound, s')
                   else if sigs = [] then (Inl (SigNotFound valueKey), s')
                   else if length sigs > 1 then (Inl (TooManySigs valueKey), s')
                   else
                     (let val = kvValue (hd vals);
                          hashMap = foldl (keyHashes pref (iekcKey collector)) [] hashs;
                          sig = kvValue (hd sigs)
                      in case iekcCheckFunc collector val hashMap sig of
                           Some err \<Rightarrow> (Inl (IntegrityFailed valueKey err), s')
                         | None \<Rightarrow>
                             (Inr [\<lparr>Source = valueKey, Value = val, Revision = 0\<rparr>], s')))))"

section \<open>Publishers\<close>

record etcdAllDataPublisher =
  eapPrefix :: string
  eapTimeout :: int

record integrityEtcdAllDataPublisher =
  ieapPrefix :: string
  ieapSignFunc :: sign_func
  ieapTimeout :: int

record etcdKeyDataPublisher =
  ekpPrefix :: string
  ekpKey :: string
  ekpSignFunc :: "sign_func option"
  ekpTimeout :: int

definition NewEtcdAllDataPublisher :: "string \<Rightarrow> int \<Rightarrow> etcdAllDataPublisher" where
  "NewEtcdAllDataPublisher pref timeout = \<lparr>eapPrefix = pref, eapTimeout = timeout\<rparr>"

definition NewIntegrityEtcdAllDataPublisher ::
  "sign_func \<Rightarrow> string \<Rightarrow> int \<Rightarrow> integrityEtcdAllDataPublisher"
where
  "NewIntegrityEtcdAllDataPublisher signFunc pref timeout =
     \<lparr>ieapPrefix = pref, ieapSignFunc = signFunc, ieapTimeout = timeout\<rparr>"

definition NewEtcdKeyDataPublisher :: "string \<Rightarrow> string \<Rightarrow> int \<Rightarrow> etcdKeyDataPublisher" where
  "NewEtcdKeyDataPublisher pref key timeout =
     \<lparr>ekpPrefix = pref, ekpKey = key, ekpSignFunc = None, ekpTimeout = timeout\<rparr>"

definition NewIntegrityEtcdKeyDataPublisher ::
  "sign_func \<Rightarrow> string \<Rightarrow> string \<Rightarrow> int \<Rightarrow> etcdKeyDataPublisher"
where
  "NewIntegrityEtcdKeyDataPublisher signFunc pref key timeout =
     \<lparr>ekpPrefix = pref, ekpKey = key, ekpSignFunc = Some signFunc, ekpTimeout = timeout\<rparr>"

definition revCmps :: "kv list \<Rightarrow> ecmp list" where
  "revCmps stale = map (\<lambda>d. ModRevEq (kvKey d) (kvModRevision d)) stale"

definition delOps :: "kv list \<Rightarrow> eop list" where
  "delOps stale = map (\<lambda>d. EDelete (kvKey d)) stale"

definition txnSucceeded :: "txnResponse option \<Rightarrow> bool" where
  "txnSucceeded tresp = (case tresp of None \<Rightarrow> False | Some r \<Rightarrow> succeeded r)"

text \<open>One iteration of the loop: return, or go round again.\<close>

definition publishEtcdAllRound ::
  "'s etcd \<Rightarrow> int \<Rightarrow> string \<Rightarrow> string \<Rightarrow> string \<Rightarrow> 's \<Rightarrow> (derr option \<times> 's) + 's"
where
  "publishEtcdAllRound E timeout pref key dat s =
     (case ctxPoll E timeout s of
        (Some err, s1) \<Rightarrow> Inl (Some (CtxDone err), s1)
      | (None, s1) \<Rightarrow>
          (case eget E s1 timeout pref True of
             (Inl err, s2) \<Rightarrow> Inl (Some (FetchFailed err), s2)
           | (Inr kvs, s2) \<Rightarrow>
               (let stale = filter (\<lambda>d. kvKey d \<noteq> key) kvs
                in case etxn E s2 timeout (revCmps stale) (delOps stale @ [EPut key dat]) [] of
                     (Inl err, s3) \<Rightarrow> Inl (Some (PutFailed err), s3)
                   | (Inr tresp, s3) \<Rightarrow>
                       (if txnSucceeded tresp then Inl (None, s3) else Inr s3))))"

definition PublishEtcdAll ::
  "'s etcd \<Rightarrow> etcdAllDataPublisher \<Rightarrow> int \<Rightarrow> string option \<Rightarrow> 's \<Rightarrow> (derr option \<times> 's) option"
where
  "PublishEtcdAll E publisher revision dat s =
     (if revision \<noteq> 0 then Some (Some (RevisionNotSupported revision), s)
      else
        (case dat of
           None \<Rightarrow> Some (Some DataNotExist, s)
         | Some bytes \<Rightarrow>
             (let pref = getConfigPrefix (eapPrefix publisher)
              in go_loop (publishEtcdAllRound E (eapTimeout publisher) pref (pref @ ''all'') bytes) s)))"

text \<open>The keys the integrity publisher deletes: those it is not about to write.\<close>

definition staleKeys ::
  "string \<Rightarrow> hashes \<Rightarrow> string \<Rightarrow> kv list \<Rightarrow> kv list \<Rightarrow> kv list \<Rightarrow> kv list"
where
  "staleKeys valueKey hashKeys sigKey vals hashs sigs =
     filter (\<lambda>d. kvKey d \<noteq> valueKey) vals @
     filter (\<lambda>d. \<not> list_ex (\<lambda>(k, _). kvKey d = k) hashKeys) hashs @
     filter (\<lambda>d. kvKey d \<noteq> sigKey) sigs"

definition integrityGetOps :: "string \<Rightarrow> eop list" where
  "integrityGetOps pref =
     [EGet (getConfigPrefix pref) True, EGet (getHashesPrefix pref) True,
      EGet (getSignPrefix pref) True]"

definition publishIntegrityEtcdAllRound ::
  "'s etcd \<Rightarrow> int \<Rightarrow> string \<Rightarrow> string \<Rightarrow> hashes \<Rightarrow> string \<Rightarrow> (string + txnResponse option) \<times> 's \<Rightarrow>
   (derr option \<times> 's) + ((string + txnResponse option) \<times> 's)"
where
  "publishIntegrityEtcdAllRound E timeout pref dat hashKeys sig rs =
     (case ctxPoll E timeout (snd rs) of
        (Some err, s1) \<Rightarrow> Inl (Some (CtxDone err), s1)
      | (None, s1) \<Rightarrow>
          (case fst rs of
             Inl err \<Rightarrow> Inl (Some (FetchFailed err), s1)
           | Inr r \<Rightarrow>
               (case ranges3 r of
                  Inl err \<Rightarrow> Inl (Some err, s1)
                | Inr (vals, hashs, sigs) \<Rightarrow>
                    (let valueKey = getConfigKey pref ''all'';
                         sigKey = getSignKey pref ''all'';
                         stale = staleKeys valueKey hashKeys sigKey vals hashs sigs;
                         putOps = delOps stale @ [EPut valueKey dat, EPut sigKey sig] @
                           map (\<lambda>(k, v). EPut k v) hashKeys
                     in case etxn E s1 timeout (revCmps stale) putOps (integrityGetOps pref) of
                          (Inl err, s2) \<Rightarrow> Inl (Some (PutFailed err), s2)
                        | (Inr None, s2) \<Rightarrow> Inl (Some NilDereference, s2)
                        | (Inr (Some tresp), s2) \<Rightarrow>
                            (if succeeded tresp then Inl (None, s2)
                             else Inr (Inr (Some tresp), s2))))))"

definition PublishIntegrityEtcdAll ::
  "'s etcd \<Rightarrow> integrityEtcdAllDataPublisher \<Rightarrow> int \<Rightarrow> string option \<Rightarrow> 's \<Rightarrow>
   (derr option \<times> 's) option"
where
  "PublishIntegrityEtcdAll E publisher revision dat s =
     (if revision \<noteq> 0 then Some (Some (RevisionNotSupported revision), s)
      else
        (case dat of
           None \<Rightarrow> Some (Some DataNotExist, s)
         | Some bytes \<Rightarrow>
             (case ieapSignFunc publisher bytes of
                Inl err \<Rightarrow> Some (Some (SignErr err), s)
              | Inr (hs, sig) \<Rightarrow>
                  (let pref = ieapPrefix publisher;
                       hashKeys = map (\<lambda>(k, v). (getHashesKey pref k ''all'', v)) hs
                   in go_loop (publishIntegrityEtcdAllRound E (ieapTimeout publisher) pref bytes
                        hashKeys sig)
                        (etxn E s (ieapTimeout publisher) [] (integrityGetOps pref) [])))))"

definition etcdKeyOps :: "etcdKeyDataPublisher \<Rightarrow> string \<Rightarrow> derr + eop list" where
  "etcdKeyOps publisher bytes =
     (let pref = ekpPrefix publisher;
          putOps = [EPut (getConfigPrefix pref @ ekpKey publisher) bytes]
      in case ekpSignFunc publisher of
           None \<Rightarrow> Inr putOps
         | Some signFunc \<Rightarrow>
             (case signFunc bytes of
                Inl err \<Rightarrow> Inl (SignFailed err)
              | Inr (hs, sign) \<Rightarrow>
                  Inr (putOps @
                    map (\<lambda>(hash, v). EPut (getHashesKey pref hash (ekpKey publisher)) v) hs @
                    [EPut (getSignKey pref (ekpKey publisher)) sign])))"

definition PublishEtcdKey ::
  "'s etcd \<Rightarrow> etcdKeyDataPublisher \<Rightarrow> int \<Rightarrow> string option \<Rightarrow> 's \<Rightarrow> derr option \<times> 's"
where
  "PublishEtcdKey E publisher revision dat s =
     (case dat of
        None \<Rightarrow> (Some DataNotExist, s)
      | Some bytes \<Rightarrow>
          (let key = getConfigPrefix (ekpPrefix publisher) @ ekpKey publisher;
               cmps = (if revision \<noteq> 0 then [ModRevEq key revision] else [])
           in case etcdKeyOps publisher bytes of
                Inl err \<Rightarrow> (Some err, s)
              | Inr putOps \<Rightarrow>
                  (case etxn E s (ekpTimeout publisher) cmps putOps [] of
                     (Inl err, s') \<Rightarrow> (Some (PutFailed err), s')
                   | (Inr None, s') \<Rightarrow> (Some NilDereference, s')
                   | (Inr (Some tresp), s') \<Rightarrow>
                       (if succeeded tresp then (None, s') else (Some WrongRevision, s')))))"

section \<open>Connecting\<close>

text \<open>
  \<^verbatim>\<open>transport.TLSInfo.ClientConfig\<close> and \<^verbatim>\<open>clientv3.New\<close> are arguments, and so is the file
  system: the entries of a directory with their symlink flag, what a link in a directory points
  to, the content of a readable file. A pool of certificates is the list of the files appended.
\<close>

record etcdOpts =
  Endpoints :: "string list"
  Username :: string
  Password :: string
  KeyFile :: string
  CertFile :: string
  CaPath :: string
  CaFile :: string
  SkipHostVerify :: bool
  Timeout :: int

record 't tlsConfig =
  tlsBase :: 't
  RootCAs :: "string list option"
  InsecureSkipVerify :: bool

record 't clientConfig =
  cfgEndpoints :: "string list"
  cfgDialTimeout :: int
  cfgUsername :: string
  cfgPassword :: string
  cfgTLS :: "'t tlsConfig option"

record dirFs =
  readDir :: "string \<Rightarrow> string + (string \<times> bool) list"
  readLink :: "string \<Rightarrow> string \<Rightarrow> string option"
  readFile :: "string \<Rightarrow> string option"

definition isSameDirSymlink :: "dirFs \<Rightarrow> string \<times> bool \<Rightarrow> string \<Rightarrow> bool" where
  "isSameDirSymlink F f dir =
     (if \<not> snd f then False
      else (case readLink F dir (fst f) of
              None \<Rightarrow> False
            | Some target \<Rightarrow> CHR ''/'' \<notin> set target))"

definition readUniqueDirectoryEntries :: "dirFs \<Rightarrow> string \<Rightarrow> string + (string \<times> bool) list" where
  "readUniqueDirectoryEntries F dir =
     (case readDir F dir of
        Inl err \<Rightarrow> Inl err
      | Inr files \<Rightarrow> Inr (filter (\<lambda>f. \<not> isSameDirSymlink F f dir) files))"

definition loadRootCA :: "dirFs \<Rightarrow> string \<Rightarrow> string + string list" where
  "loadRootCA F path =
     (case readUniqueDirectoryEntries F path of
        Inl err \<Rightarrow> Inl err
      | Inr fis \<Rightarrow> Inr (List.map_filter (\<lambda>fi. readFile F (path @ ''/'' @ fst fi)) fis))"

definition ConnectEtcd ::
  "(string \<Rightarrow> string \<Rightarrow> string \<Rightarrow> string + 't) \<Rightarrow> dirFs \<Rightarrow> ('t clientConfig \<Rightarrow> string + 'c) \<Rightarrow>
   etcdOpts \<Rightarrow> derr + 'c"
where
  "ConnectEtcd newTls F newClient opts =
     (let client = (\<lambda>tls. case newClient \<lparr>cfgEndpoints = Endpoints opts, cfgDialTimeout = Timeout opts,
              cfgUsername = Username opts, cfgPassword = Password opts, cfgTLS = tls\<rparr> of
            Inl err \<Rightarrow> Inl (ClientFailed err) | Inr c \<Rightarrow> Inr c)
      in if KeyFile opts \<noteq> [] \<or> CertFile opts \<noteq> [] \<or> CaFile opts \<noteq> [] \<or> CaPath opts \<noteq> [] \<or>
            SkipHostVerify opts
         then
           (case newTls (CertFile opts) (KeyFile opts) (CaFile opts) of
              Inl err \<Rightarrow> Inl (TlsFailed err)
            | Inr base \<Rightarrow>
                (let tls = \<lparr>tlsBase = base, RootCAs = None, InsecureSkipVerify = False\<rparr>
                 in case (if CaPath opts \<noteq> [] then
                            (case loadRootCA F (CaPath opts) of
                               Inl err \<Rightarrow> Inl (CaDirFailed err)
                             | Inr roots \<Rightarrow> Inr (tls\<lparr>RootCAs := Some roots\<rparr>))
                          else Inr tls) of
                      Inl err \<Rightarrow> Inl err
                    | Inr tls' \<Rightarrow>
                        client (Some (if SkipHostVerify opts
                          then tls'\<lparr>InsecureSkipVerify := True\<rparr> else tls'))))
         else client None)"

section \<open>What etcd is documented to do\<close>

text \<open>
  etcd keeps a map of keys to values, each with the revision of its last change, 0 standing for a
  key that is not there. A get reads a snapshot. A transaction compares, writes and reads
  atomically. \<open>hist m m'\<close> says that the store may change from \<open>m\<close> to \<open>m'\<close> by the work of other
  clients before or after a request takes effect; with equality for \<open>hist\<close> nobody interferes.
\<close>

type_synonym estore = "string \<Rightarrow> (string \<times> int) option"

definition modRev :: "estore \<Rightarrow> string \<Rightarrow> int" where
  "modRev m k = (case m k of None \<Rightarrow> 0 | Some (_, r) \<Rightarrow> r)"

fun cmpHolds :: "estore \<Rightarrow> ecmp \<Rightarrow> bool" where
  "cmpHolds m (ModRevEq k r) = (modRev m k = r)"

fun applyEOp :: "int \<Rightarrow> estore \<Rightarrow> eop \<Rightarrow> estore" where
  "applyEOp rv m (EPut k v) = m(k \<mapsto> (v, rv))"
| "applyEOp rv m (EDelete k) = m(k := None)"
| "applyEOp rv m (EGet k pfx) = m"

definition keyMatches :: "string \<Rightarrow> bool \<Rightarrow> string \<Rightarrow> bool" where
  "keyMatches key pfx k = (if pfx then prefix key k else k = key)"

definition lists :: "estore \<Rightarrow> string \<Rightarrow> bool \<Rightarrow> kv list \<Rightarrow> bool" where
  "lists m key pfx kvs \<longleftrightarrow> distinct (map kvKey kvs) \<and>
     (\<forall>d. d \<in> set kvs \<longleftrightarrow>
        m (kvKey d) = Some (kvValue d, kvModRevision d) \<and> keyMatches key pfx (kvKey d))"

fun isGet :: "eop \<Rightarrow> bool" where
  "isGet (EGet k pfx) = True"
| "isGet _ = False"

fun opAnswer :: "estore \<Rightarrow> eop \<Rightarrow> kv list option \<Rightarrow> bool" where
  "opAnswer m (EGet key pfx) x = (\<exists>kvs. x = Some kvs \<and> lists m key pfx kvs)"
| "opAnswer m _ x = True"

definition get_law ::
  "'s etcd \<Rightarrow> ('s \<Rightarrow> estore) \<Rightarrow> (estore \<Rightarrow> estore \<Rightarrow> bool) \<Rightarrow> bool"
where
  "get_law E view hist \<longleftrightarrow>
     (\<forall>s t key pfx kvs s'. eget E s t key pfx = (Inr kvs, s') \<longrightarrow>
        (\<exists>m. hist (view s) m \<and> lists m key pfx kvs \<and> hist m (view s')))"

definition txn_law ::
  "'s etcd \<Rightarrow> ('s \<Rightarrow> estore) \<Rightarrow> (estore \<Rightarrow> estore \<Rightarrow> bool) \<Rightarrow> bool"
where
  "txn_law E view hist \<longleftrightarrow>
     (\<forall>s t cmps thens elses r s'. etxn E s t cmps thens elses = (Inr (Some r), s') \<longrightarrow>
        (\<exists>m rv. hist (view s) m \<and>
           (succeeded r \<longleftrightarrow> list_all (cmpHolds m) cmps) \<and>
           (let ops = (if succeeded r then thens else elses)
            in hist (foldl (applyEOp rv) m ops) (view s') \<and>
               (list_all isGet ops \<longrightarrow> list_all2 (opAnswer m) ops (responses r)))))"

fun written :: "eop \<Rightarrow> string list" where
  "written (EPut k v) = [k]"
| "written (EDelete k) = [k]"
| "written (EGet k pfx) = []"

text \<open>
  A server that answers every request, that does not let a context expire, and that accepts
  every transaction that writes no key twice.
\<close>

definition etcd_up :: "'s etcd \<Rightarrow> ('s \<Rightarrow> estore) \<Rightarrow> bool" where
  "etcd_up E view \<longleftrightarrow>
     (\<forall>s t key pfx. \<exists>kvs s'. eget E s t key pfx = (Inr kvs, s')) \<and>
     (\<forall>s t cmps thens elses.
        distinct (concat (map written thens)) \<and> distinct (concat (map written elses)) \<longrightarrow>
        (\<exists>r s'. etxn E s t cmps thens elses = (Inr (Some r), s'))) \<and>
     (\<forall>s. \<exists>s'. edone E s = (None, s') \<and> view s' = view s)"


lemma get_lawD:
  "get_law E view hist \<Longrightarrow> eget E s t key pfx = (Inr kvs, s') \<Longrightarrow>
     \<exists>m. hist (view s) m \<and> lists m key pfx kvs \<and> hist m (view s')"
  unfolding get_law_def by blast

lemma txn_lawD:
  assumes "txn_law E view hist" and "etxn E s t cmps thens elses = (Inr (Some r), s')"
  shows "\<exists>m rv. hist (view s) m \<and> (succeeded r \<longleftrightarrow> list_all (cmpHolds m) cmps) \<and>
    hist (foldl (applyEOp rv) m (if succeeded r then thens else elses)) (view s') \<and>
    (list_all isGet (if succeeded r then thens else elses) \<longrightarrow>
       list_all2 (opAnswer m) (if succeeded r then thens else elses) (responses r))"
  using assms unfolding txn_law_def Let_def by blast

lemma up_poll: "etcd_up E view \<Longrightarrow> \<exists>s1. ctxPoll E t s = (None, s1) \<and> view s1 = view s"
  by (cases "t = 0") (simp_all add: ctxPoll_def etcd_up_def)

lemma up_get: "etcd_up E view \<Longrightarrow> \<exists>kvs s'. eget E s t key pfx = (Inr kvs, s')"
  unfolding etcd_up_def by blast

lemma up_txn:
  "etcd_up E view \<Longrightarrow> distinct (concat (map written thens)) \<Longrightarrow>
     distinct (concat (map written elses)) \<Longrightarrow>
     \<exists>r s'. etxn E s t cmps thens elses = (Inr (Some r), s')"
  unfolding etcd_up_def by blast

lemma lists_find:
  assumes "lists m key pfx kvs" and "keyMatches key pfx k"
  shows "find (\<lambda>d. kvKey d = k) kvs =
    map_option (\<lambda>(v, r). \<lparr>kvKey = k, kvValue = v, kvModRevision = r\<rparr>) (m k)"
proof (cases "m k")
  case None
  then have "\<forall>d \<in> set kvs. kvKey d \<noteq> k" using assms by (auto simp: lists_def)
  with None show ?thesis by (simp add: find_None_iff)
next
  case (Some vr)
  obtain v r where vr: "vr = (v, r)" by (cases vr)
  let ?d = "\<lparr>kvKey = k, kvValue = v, kvModRevision = r\<rparr>"
  have d: "?d \<in> set kvs" using assms Some vr by (simp add: lists_def)
  then obtain e where e: "find (\<lambda>d. kvKey d = k) kvs = Some e"
    by (cases "find (\<lambda>d. kvKey d = k) kvs") (auto simp: find_None_iff)
  then have "e \<in> set kvs" "kvKey e = k" by (auto simp: find_Some_iff)
  with d have "e = ?d" using assms(1) by (auto simp: lists_def distinct_map inj_on_def)
  with e Some vr show ?thesis by simp
qed

lemma foldl_dels:
  "foldl (applyEOp rv) m (delOps stale) = (\<lambda>k. if k \<in> kvKey ` set stale then None else m k)"
  by (induction stale arbitrary: m) (auto simp: delOps_def)

lemma cmps_hold:
  "list_all (cmpHolds m) (revCmps stale) \<longleftrightarrow> (\<forall>d \<in> set stale. modRev m (kvKey d) = kvModRevision d)"
  by (auto simp: revCmps_def list_all_iff)

lemma written_delOps: "concat (map written (delOps stale)) = map kvKey stale"
  by (induction stale) (auto simp: delOps_def)

lemma lists_revs:
  "lists m key pfx kvs \<Longrightarrow> d \<in> set kvs \<Longrightarrow> modRev m (kvKey d) = kvModRevision d"
  by (auto simp: lists_def modRev_def)

section \<open>Publishing a whole prefix\<close>

text \<open>
  What one committed round leaves in the store: the target written, the other keys that the round
  had read deleted, everything else as it was when the transaction took effect.
\<close>

definition afterRound :: "estore \<Rightarrow> kv list \<Rightarrow> string \<Rightarrow> string \<Rightarrow> int \<Rightarrow> estore" where
  "afterRound m kvs key dat rv =
     (\<lambda>k. if k = key then Some (dat, rv)
          else if k \<in> kvKey ` set kvs then None else m k)"

lemma round_store:
  "foldl (applyEOp rv) m (delOps (filter (\<lambda>d. kvKey d \<noteq> key) kvs) @ [EPut key dat]) =
     afterRound m kvs key dat rv"
  by (auto simp: foldl_dels afterRound_def fun_eq_iff)





lemma publishEtcdAllRound_quiet:
  assumes "get_law E view (=)" and "txn_law E view (=)" and "etcd_up E view"
  shows "\<exists>kvs s' rv. publishEtcdAllRound E t pref key dat s = Inl (None, s') \<and>
    lists (view s) pref True kvs \<and> view s' = afterRound (view s) kvs key dat rv"
proof -
  let ?stale = "\<lambda>kvs. filter (\<lambda>d. kvKey d \<noteq> key) kvs"
  obtain s1 where s1: "ctxPoll E t s = (None, s1)" "view s1 = view s"
    using up_poll [OF assms(3)] by blast
  obtain kvs s2 where g: "eget E s1 t pref True = (Inr kvs, s2)"
    using up_get [OF assms(3)] by blast
  have l: "lists (view s) pref True kvs" and s2: "view s2 = view s"
    using get_lawD [OF assms(1) g] s1(2) by auto
  let ?ops = "delOps (?stale kvs) @ [EPut key dat]"
  have dw: "distinct (concat (map written ?ops))"
    using l by (auto simp: written_delOps lists_def distinct_map_filter)
  obtain r s3 where x: "etxn E s2 t (revCmps (?stale kvs)) ?ops [] = (Inr (Some r), s3)"
    using up_txn [OF assms(3) dw, of "[]" s2 t "revCmps (?stale kvs)"] by auto
  from txn_lawD [OF assms(2) x] s2 obtain rv where
    c: "succeeded r \<longleftrightarrow> list_all (cmpHolds (view s)) (revCmps (?stale kvs))"
    and st: "succeeded r \<longrightarrow> foldl (applyEOp rv) (view s) ?ops = view s3"
    by (auto split: if_splits)
  have "succeeded r" using lists_revs [OF l] by (simp add: c cmps_hold)
  then have "publishEtcdAllRound E t pref key dat s = Inl (None, s3)"
    by (simp add: publishEtcdAllRound_def s1(1) g x Let_def txnSucceeded_def)
  moreover have "view s3 = afterRound (view s) kvs key dat rv"
    using st \<open>succeeded r\<close> by (simp only: round_store)
  ultimately show ?thesis using l by blast
qed

section \<open>Reading a whole prefix with its hashes and signatures\<close>

definition sigOf :: "estore \<Rightarrow> string \<Rightarrow> string \<Rightarrow> string" where
  "sigOf m p key = (case m (getSignKey p key) of None \<Rightarrow> [] | Some (sg, _) \<Rightarrow> sg)"

definition hashesOf :: "estore \<Rightarrow> string \<Rightarrow> string \<Rightarrow> (string \<times> string) set" where
  "hashesOf m p key =
     {(h, v). CHR ''/'' \<notin> set h \<and> (\<exists>r. m (getHashesKey p h key) = Some (v, r))}"

lemma matches_prefixes [simp]:
  "keyMatches (getConfigPrefix p) True (getConfigKey p key)"
  "keyMatches (getSignPrefix p) True (getSignKey p key)"
  "keyMatches (getHashesPrefix p) True (getHashesKey p h key)"
  by (simp_all add: keyMatches_def getConfigKey_def getSignKey_def getHashesKey_def)

lemma find_fresh: "kvKey d \<notin> kvKey ` set xs \<Longrightarrow> find (\<lambda>e. kvKey e = kvKey d) xs = None"
  unfolding find_None_iff by (metis imageI)

lemma values_keys:
  "fst (foldl (valuesStep p) kn vals) =
     fst kn @ List.map_filter (\<lambda>d. cutPrefix (kvKey d) (getConfigPrefix p)) vals"
  by (induction vals arbitrary: kn) (auto simp: valuesStep_def List.map_filter_def split: option.splits)

lemma cutPrefix_config_iff: "cutPrefix k (getConfigPrefix p) = Some key \<longleftrightarrow> k = getConfigKey p key"
  by (simp add: cutPrefix_Some getConfigKey_def)

lemma cutPrefix_sign_iff: "cutPrefix k (getSignPrefix p) = Some key \<longleftrightarrow> k = getSignKey p key"
  by (simp add: cutPrefix_Some getSignKey_def)

lemma valuesStep_at:
  "snd (valuesStep p kn d) key =
     (if kvKey d = getConfigKey p key then Some (emptyNode\<lparr>nodeValue := kvValue d\<rparr>) else snd kn key)"
  by (cases "cutPrefix (kvKey d) (getConfigPrefix p)")
     (auto simp: valuesStep_def cutPrefix_config_iff getConfigKey_inj)

lemma values_nodes:
  "distinct (map kvKey vals) \<Longrightarrow> snd (foldl (valuesStep p) kn vals) key =
     (case find (\<lambda>d. kvKey d = getConfigKey p key) vals of
        Some d \<Rightarrow> Some (emptyNode\<lparr>nodeValue := kvValue d\<rparr>)
      | None \<Rightarrow> snd kn key)"
proof (induction vals arbitrary: kn)
  case (Cons d vals)
  have "find (\<lambda>e. kvKey e = kvKey d) vals = None" using Cons.prems by (simp add: find_fresh)
  with Cons show ?case by (auto simp: valuesStep_at split: option.split)
qed simp

lemma hashesStep_at:
  "hashesStep p nodes d key =
     map_option (\<lambda>n. n\<lparr>nodeHashes := keyHashes p key (nodeHashes n) d\<rparr>) (nodes key)"
  by (cases "nodes key") (auto simp: hashesStep_def keyHashes_def split: option.splits)

lemma hashes_nodes:
  "foldl (hashesStep p) nodes hashs key =
     map_option (\<lambda>n. n\<lparr>nodeHashes := foldl (keyHashes p key) (nodeHashes n) hashs\<rparr>) (nodes key)"
proof (induction hashs arbitrary: nodes)
  case Nil
  then show ?case by (cases "nodes key") auto
next
  case (Cons d hashs)
  then show ?case by (cases "nodes key") (simp_all add: hashesStep_at)
qed

lemma sigs_nodes:
  assumes "distinct (map kvKey sigs)" and "\<forall>d \<in> set sigs. prefix (getSignPrefix p) (kvKey d)"
  shows "\<exists>nodes'. sigsLoop p nodes sigs = Inr nodes' \<and>
    (\<forall>key. nodes' key = map_option (\<lambda>n. n\<lparr>nodeSig :=
       (case find (\<lambda>d. kvKey d = getSignKey p key) sigs of
          Some d \<Rightarrow> kvValue d | None \<Rightarrow> nodeSig n)\<rparr>) (nodes key))"
  using assms
proof (induction sigs arbitrary: nodes)
  case Nil
  then show ?case by (auto simp: option.map_ident)
next
  case (Cons d sigs)
  obtain key where key: "kvKey d = getSignKey p key"
    using Cons.prems(2) by (auto simp: prefix_def getSignKey_def)
  let ?nodes = "case nodes key of Some n \<Rightarrow> nodes(key \<mapsto> n\<lparr>nodeSig := kvValue d\<rparr>) | None \<Rightarrow> nodes"
  have "find (\<lambda>e. kvKey e = kvKey d) sigs = None" using Cons.prems(1) by (simp add: find_fresh)
  moreover from Cons obtain nodes' where "sigsLoop p ?nodes sigs = Inr nodes'"
    "\<forall>key. nodes' key = map_option (\<lambda>n. n\<lparr>nodeSig :=
       (case find (\<lambda>d. kvKey d = getSignKey p key) sigs of
          Some d \<Rightarrow> kvValue d | None \<Rightarrow> nodeSig n)\<rparr>) (?nodes key)" by fastforce
  ultimately show ?case using key
    by (auto simp: getSignKey_inj option.map_comp split: option.splits)
qed

lemma keyHashes_at:
  "map_of (keyHashes p key hm d) h =
     (if kvKey d = getHashesKey p h key \<and> CHR ''/'' \<notin> set h then Some (kvValue d) else map_of hm h)"
  by (cases "parseHashPath (kvKey d) p")
     (auto simp: keyHashes_def parseHashPath_Some map_of_update getHashesKey_inj)

lemma keyHashes_map_of:
  "distinct (map kvKey hashs) \<Longrightarrow> CHR ''/'' \<notin> set h \<Longrightarrow>
     map_of (foldl (keyHashes p key) hm hashs) h =
     (case find (\<lambda>d. kvKey d = getHashesKey p h key) hashs of
        Some d \<Rightarrow> Some (kvValue d) | None \<Rightarrow> map_of hm h)"
proof (induction hashs arbitrary: hm)
  case (Cons d hashs)
  have "find (\<lambda>e. kvKey e = kvKey d) hashs = None" using Cons.prems by (simp add: find_fresh)
  with Cons show ?case by (auto simp: keyHashes_at split: option.split)
qed simp

lemma keyHashes_distinct:
  "distinct (map fst hm) \<Longrightarrow> distinct (map fst (foldl (keyHashes p key) hm hashs))"
proof (induction hashs arbitrary: hm)
  case (Cons d hashs)
  have "distinct (map fst (keyHashes p key hm d))"
    using Cons.prems by (auto simp: keyHashes_def distinct_update split: option.splits)
  with Cons.IH show ?case by simp
qed simp

lemma keyHashes_names:
  "\<forall>h \<in> fst ` set hm. CHR ''/'' \<notin> set h \<Longrightarrow>
   \<forall>h \<in> fst ` set (foldl (keyHashes p key) hm hashs). CHR ''/'' \<notin> set h"
proof (induction hashs arbitrary: hm)
  case (Cons d hashs)
  have "\<forall>h \<in> fst ` set (keyHashes p key hm d). CHR ''/'' \<notin> set h"
  proof (cases "parseHashPath (kvKey d) p")
    case (Some hk)
    then obtain h k where "hk = (h, k)" "CHR ''/'' \<notin> set h"
      by (cases hk) (auto simp: parseHashPath_Some)
    with Some Cons.prems set_update_subset [of h "kvValue d" hm] show ?thesis
      by (auto simp: keyHashes_def)
  qed (use Cons.prems in \<open>simp add: keyHashes_def\<close>)
  with Cons.IH show ?case by simp
qed simp

lemma keyHashes_snapshot:
  assumes "lists m (getHashesPrefix p) True hashs"
  shows "distinct (map fst (foldl (keyHashes p key) [] hashs))"
    and "set (foldl (keyHashes p key) [] hashs) = hashesOf m p key"
proof -
  let ?hs = "foldl (keyHashes p key) [] hashs"
  show d: "distinct (map fst ?hs)" by (rule keyHashes_distinct) simp
  have n: "\<forall>h \<in> fst ` set ?hs. CHR ''/'' \<notin> set h" by (rule keyHashes_names) simp
  have "(h, v) \<in> set ?hs \<longleftrightarrow> CHR ''/'' \<notin> set h \<and> map_of ?hs h = Some v" for h v
    using n d map_of_eq_Some_iff [OF d, of h v] by force
  moreover have "map_of ?hs h = map_option fst (m (getHashesKey p h key))"
    if "CHR ''/'' \<notin> set h" for h
    using keyHashes_map_of [OF _ that, of hashs p key "[]"] assms lists_find [OF assms, of "getHashesKey p h key"]
    by (auto simp: lists_def split: option.splits)
  ultimately show "set ?hs = hashesOf m p key" by (force simp: hashesOf_def)
qed

lemma ranges3_gets:
  assumes "list_all2 (opAnswer m) (integrityGetOps p) (responses r)"
  obtains vals hashs sigs where "ranges3 (Some r) = Inr (vals, hashs, sigs)"
    "lists m (getConfigPrefix p) True vals" "lists m (getHashesPrefix p) True hashs"
    "lists m (getSignPrefix p) True sigs"
  using assms by (auto simp: integrityGetOps_def list_all2_Cons1 ranges3_def)

text \<open>The nodes the integrity collector builds are those of the snapshot.\<close>

lemma snapshot_nodes:
  assumes v: "lists m (getConfigPrefix p) True vals" and h: "lists m (getHashesPrefix p) True hashs"
    and sg: "lists m (getSignPrefix p) True sigs"
  shows "\<exists>nodes. sigsLoop p (foldl (hashesStep p) (snd (foldl (valuesStep p) ([], Map.empty) vals)) hashs)
      sigs = Inr nodes \<and>
    (\<forall>key v r. m (getConfigKey p key) = Some (v, r) \<longrightarrow> nodes key =
       Some \<lparr>nodeValue = v, nodeHashes = foldl (keyHashes p key) [] hashs, nodeSig = sigOf m p key\<rparr>)"
proof -
  let ?n0 = "snd (foldl (valuesStep p) ([], Map.empty) vals)"
  have "\<forall>d \<in> set sigs. prefix (getSignPrefix p) (kvKey d)" "distinct (map kvKey sigs)"
    using sg by (auto simp: lists_def keyMatches_def)
  then obtain nodes where n: "sigsLoop p (foldl (hashesStep p) ?n0 hashs) sigs = Inr nodes"
    "\<forall>key. nodes key = map_option (\<lambda>n. n\<lparr>nodeSig :=
       (case find (\<lambda>d. kvKey d = getSignKey p key) sigs of
          Some d \<Rightarrow> kvValue d | None \<Rightarrow> nodeSig n)\<rparr>) (foldl (hashesStep p) ?n0 hashs key)"
    using sigs_nodes by blast
  have "nodes key = Some \<lparr>nodeValue = v, nodeHashes = foldl (keyHashes p key) [] hashs,
      nodeSig = sigOf m p key\<rparr>" if mk: "m (getConfigKey p key) = Some (v, r)" for key v r
  proof -
    have "?n0 key = Some (emptyNode\<lparr>nodeValue := v\<rparr>)"
      using values_nodes [of vals p "([], Map.empty)" key] lists_find [OF v, of "getConfigKey p key"] v mk
      by (simp add: lists_def)
    then show ?thesis using n(2) lists_find [OF sg, of "getSignKey p key"]
      by (auto simp: hashes_nodes sigOf_def emptyNode_def split: option.splits)
  qed
  with n(1) show ?thesis by blast
qed

lemma distinct_map_filter_Some:
  "distinct (map g xs) \<Longrightarrow> (\<And>x y. x \<in> set xs \<Longrightarrow> f x = Some y \<Longrightarrow> g x = c y) \<Longrightarrow>
     distinct (List.map_filter f xs)"
  for c :: "'y \<Rightarrow> 'z"
proof (induction xs)
  case (Cons x xs)
  have "y \<notin> set (List.map_filter f xs)" if "f x = Some y" for y
  proof
    assume "y \<in> set (List.map_filter f xs)"
    then obtain z where "z \<in> set xs" "f z = Some y"
      by (force simp: List.map_filter_def split: option.splits)
    with Cons.prems that have "g x \<in> g ` set xs" by (metis image_eqI list.set_intros)
    with Cons.prems(1) show False by simp
  qed
  with Cons show ?case by (auto simp: List.map_filter_simps split: option.splits)
qed (simp add: List.map_filter_simps)

lemma snapshot_keys:
  assumes v: "lists m (getConfigPrefix p) True vals"
  shows "distinct (fst (foldl (valuesStep p) ([], Map.empty) vals))"
    and "set (fst (foldl (valuesStep p) ([], Map.empty) vals)) = {key. m (getConfigKey p key) \<noteq> None}"
proof -
  let ?cut = "\<lambda>d. cutPrefix (kvKey d) (getConfigPrefix p)"
  show "distinct (fst (foldl (valuesStep p) ([], Map.empty) vals))"
    unfolding values_keys using v
    by (auto simp: lists_def cutPrefix_config_iff
        intro!: distinct_map_filter_Some [where g = kvKey and c = "getConfigKey p"])
  have "key \<in> set (List.map_filter ?cut vals) \<longleftrightarrow> (\<exists>d \<in> set vals. kvKey d = getConfigKey p key)" for key
    by (force simp: List.map_filter_def cutPrefix_config_iff split: option.splits)
  also have "(\<exists>d \<in> set vals. kvKey d = getConfigKey p key) \<longleftrightarrow> m (getConfigKey p key) \<noteq> None" for key
    using lists_find [OF v, of "getConfigKey p key"]
      find_None_iff [of "\<lambda>d. kvKey d = getConfigKey p key" vals] by auto
  finally show "set (fst (foldl (valuesStep p) ([], Map.empty) vals)) = {key. m (getConfigKey p key) \<noteq> None}"
    by (auto simp: values_keys)
qed

lemma CollectIntegrityEtcdAll_eq:
  assumes law: "txn_law E view hist"
    and x: "etxn E s t [] (integrityGetOps p) [] = (Inr (Some r), s')"
  shows "\<exists>m keys nodes. hist (view s) m \<and> hist m (view s') \<and>
    CollectIntegrityEtcdAll E (NewIntegrityEtcdAllCollector check p t) s =
      (checkNodes check p nodes keys, s') \<and>
    distinct keys \<and> set keys = {key. m (getConfigKey p key) \<noteq> None} \<and>
    (\<forall>key v rv. m (getConfigKey p key) = Some (v, rv) \<longrightarrow>
       (\<exists>hs. distinct (map fst hs) \<and> set hs = hashesOf m p key \<and>
          node_of nodes key = \<lparr>nodeValue = v, nodeHashes = hs, nodeSig = sigOf m p key\<rparr>))"
proof -
  have get: "list_all isGet (integrityGetOps p)" "foldl (applyEOp rv) m (integrityGetOps p) = m" for rv m
    by (simp_all add: integrityGetOps_def)
  from txn_lawD [OF law x] get obtain m where m: "hist (view s) m" "hist m (view s')"
    "list_all2 (opAnswer m) (integrityGetOps p) (responses r)" by auto
  from m(3) obtain vals hashs sigs where r3: "ranges3 (Some r) = Inr (vals, hashs, sigs)"
    and l: "lists m (getConfigPrefix p) True vals" "lists m (getHashesPrefix p) True hashs"
      "lists m (getSignPrefix p) True sigs"
    by (rule ranges3_gets)
  let ?kn = "foldl (valuesStep p) ([], Map.empty) vals"
  from snapshot_nodes [OF l] obtain nodes where
    n: "sigsLoop p (foldl (hashesStep p) (snd ?kn) hashs) sigs = Inr nodes"
    and at: "\<And>key v r. m (getConfigKey p key) = Some (v, r) \<Longrightarrow> nodes key =
       Some \<lparr>nodeValue = v, nodeHashes = foldl (keyHashes p key) [] hashs, nodeSig = sigOf m p key\<rparr>"
    by blast
  have "CollectIntegrityEtcdAll E (NewIntegrityEtcdAllCollector check p t) s =
      (checkNodes check p nodes (fst ?kn), s')"
    using x r3 n
    by (simp add: CollectIntegrityEtcdAll_def NewIntegrityEtcdAllCollector_def integrityGetOps_def
        Let_def case_prod_beta)
  moreover have "\<exists>hs. distinct (map fst hs) \<and> set hs = hashesOf m p key \<and>
      node_of nodes key = \<lparr>nodeValue = v, nodeHashes = hs, nodeSig = sigOf m p key\<rparr>"
    if "m (getConfigKey p key) = Some (v, rv)" for key v rv
    using keyHashes_snapshot [OF l(2), of key] at [OF that] by (auto simp: node_of_def)
  ultimately show ?thesis using m(1,2) snapshot_keys [OF l(1)] by blast
qed


section \<open>Publishing a whole prefix with its hashes and signature\<close>

definition hashPuts :: "string \<Rightarrow> hashes \<Rightarrow> hashes" where
  "hashPuts p hs = map (\<lambda>(k, v). (getHashesKey p k ''all'', v)) hs"

lemma hashPuts_distinct: "distinct (map fst hs) \<Longrightarrow> distinct (map fst (hashPuts p hs))"
  by (induction hs) (auto simp: hashPuts_def getHashesKey_inj_hash rev_image_eqI)

lemma foldl_eputs:
  "distinct (map fst hk) \<Longrightarrow> foldl (applyEOp rv) m (map (\<lambda>(k, v). EPut k v) hk) =
     (\<lambda>k. case map_of hk k of Some v \<Rightarrow> Some (v, rv) | None \<Rightarrow> m k)"
proof (induction hk arbitrary: m)
  case (Cons kv hk)
  obtain k v where kv: "kv = (k, v)" by (cases kv)
  have "map_of hk k = None" using Cons.prems kv by (simp add: map_of_eq_None_iff)
  with Cons kv show ?case by (auto simp: fun_eq_iff split: option.splits)
qed auto

lemma lists_keys:
  "lists m (getConfigPrefix p) True vals \<Longrightarrow>
     k \<in> kvKey ` set vals \<longleftrightarrow> m k \<noteq> None \<and> (\<exists>key. k = getConfigKey p key)"
  "lists m (getHashesPrefix p) True hashs \<Longrightarrow>
     k \<in> kvKey ` set hashs \<longleftrightarrow> m k \<noteq> None \<and> (\<exists>x. k = getHashesPrefix p @ x)"
  "lists m (getSignPrefix p) True sigs \<Longrightarrow>
     k \<in> kvKey ` set sigs \<longleftrightarrow> m k \<noteq> None \<and> (\<exists>key. k = getSignKey p key)"
proof -
  have *: "k \<in> kvKey ` set kvs \<longleftrightarrow> m k \<noteq> None \<and> prefix pre k" if "lists m pre True kvs" for pre kvs
  proof -
    have "k \<in> kvKey ` set kvs" if "m k = Some (v, r)" "prefix pre k" for v r
      using that \<open>lists m pre True kvs\<close>
      by (intro image_eqI [of _ _ "\<lparr>kvKey = k, kvValue = v, kvModRevision = r\<rparr>"])
         (auto simp: lists_def keyMatches_def)
    with that show ?thesis by (auto simp: lists_def keyMatches_def)
  qed
  show "lists m (getConfigPrefix p) True vals \<Longrightarrow>
     k \<in> kvKey ` set vals \<longleftrightarrow> m k \<noteq> None \<and> (\<exists>key. k = getConfigKey p key)"
    "lists m (getHashesPrefix p) True hashs \<Longrightarrow>
     k \<in> kvKey ` set hashs \<longleftrightarrow> m k \<noteq> None \<and> (\<exists>x. k = getHashesPrefix p @ x)"
    "lists m (getSignPrefix p) True sigs \<Longrightarrow>
     k \<in> kvKey ` set sigs \<longleftrightarrow> m k \<noteq> None \<and> (\<exists>key. k = getSignKey p key)"
    by (auto simp: * prefix_def getConfigKey_def getSignKey_def)
qed

definition integrityOps ::
  "string \<Rightarrow> string \<Rightarrow> hashes \<Rightarrow> string \<Rightarrow> kv list \<Rightarrow> eop list"
where
  "integrityOps p dat hk sig stale = delOps stale @
     [EPut (getConfigKey p ''all'') dat, EPut (getSignKey p ''all'') sig] @
     map (\<lambda>(k, v). EPut k v) hk"

lemma kvKey_filter:
  "kvKey ` set (filter (\<lambda>d. kvKey d \<noteq> x) kvs) = {k \<in> kvKey ` set kvs. k \<noteq> x}"
  "kvKey ` set (filter (\<lambda>d. kvKey d \<notin> X) kvs) = {k \<in> kvKey ` set kvs. k \<notin> X}"
  by auto

text \<open>The keys to delete, in a snapshot: everything under the three prefixes but what is written.\<close>

lemma staleKeys_snapshot:
  fixes hk :: hashes
  assumes v: "lists m (getConfigPrefix p) True vals" and h: "lists m (getHashesPrefix p) True hashs"
    and sg: "lists m (getSignPrefix p) True sigs"
  defines "stale \<equiv> staleKeys (getConfigKey p ''all'') hk (getSignKey p ''all'') vals hashs sigs"
  shows "k \<in> kvKey ` set stale \<longleftrightarrow> m k \<noteq> None \<and>
      ((\<exists>key. k = getConfigKey p key \<and> key \<noteq> ''all'') \<or>
       (\<exists>x. k = getHashesPrefix p @ x \<and> k \<notin> fst ` set hk) \<or>
       (\<exists>key. k = getSignKey p key \<and> key \<noteq> ''all''))"
    and "distinct (map kvKey stale)"
    and "\<forall>d \<in> set stale. modRev m (kvKey d) = kvModRevision d"
proof -
  have hk: "list_ex (\<lambda>(k, _). x = k) hk \<longleftrightarrow> x \<in> fst ` set hk" for x
    by (induction hk) auto
  note defs = stale_def staleKeys_def hk
  note keys = lists_keys(1) [of m p, OF v] lists_keys(2) [of m p, OF h] lists_keys(3) [of m p, OF sg]
  show "k \<in> kvKey ` set stale \<longleftrightarrow> m k \<noteq> None \<and>
      ((\<exists>key. k = getConfigKey p key \<and> key \<noteq> ''all'') \<or>
       (\<exists>x. k = getHashesPrefix p @ x \<and> k \<notin> fst ` set hk) \<or>
       (\<exists>key. k = getSignKey p key \<and> key \<noteq> ''all''))"
    unfolding defs set_append image_Un kvKey_filter
    unfolding keys mem_Collect_eq Un_iff by (auto simp: getConfigKey_inj getSignKey_inj)
  have d: "distinct (map kvKey (filter (\<lambda>d. P (kvKey d)) kvs))" if "lists m' pre pf kvs" for P kvs m' pre pf
    using that by (simp add: lists_def distinct_map_filter)
  show "distinct (map kvKey stale)"
    unfolding defs map_append distinct_append set_map set_append image_Un kvKey_filter
    by (intro conjI d [OF v] d [OF h] d [OF sg]) (auto simp: keys simp del: image_iff)
  show "\<forall>d \<in> set stale. modRev m (kvKey d) = kvModRevision d"
    using lists_revs [OF v] lists_revs [OF h] lists_revs [OF sg] by (auto simp: defs)
qed

lemma integrityOps_store:
  fixes dat sig :: string and rv :: int
  assumes "distinct (map fst hs)"
    and stale: "\<And>k. k \<in> kvKey ` set stale \<longleftrightarrow> m k \<noteq> None \<and>
      ((\<exists>key. k = getConfigKey p key \<and> key \<noteq> ''all'') \<or>
       (\<exists>x. k = getHashesPrefix p @ x \<and> k \<notin> fst ` set (hashPuts p hs)) \<or>
       (\<exists>key. k = getSignKey p key \<and> key \<noteq> ''all''))"
  defines "m' \<equiv> foldl (applyEOp rv) m (integrityOps p dat (hashPuts p hs) sig stale)"
  shows "m' (getConfigKey p key) = (if key = ''all'' then Some (dat, rv) else None)"
    and "m' (getSignKey p key) = (if key = ''all'' then Some (sig, rv) else None)"
    and "m' (getHashesPrefix p @ x) = map_option (\<lambda>v. (v, rv)) (map_of (hashPuts p hs) (getHashesPrefix p @ x))"
proof -
  have none: "map_of (hashPuts p hs) (getConfigKey p key) = None"
    "map_of (hashPuts p hs) (getSignKey p key) = None" for key
    by (auto simp: map_of_eq_None_iff hashPuts_def)
  have m': "m' = (\<lambda>k. case map_of (hashPuts p hs) k of Some v \<Rightarrow> Some (v, rv) | None \<Rightarrow>
      if k = getSignKey p ''all'' then Some (sig, rv) else if k = getConfigKey p ''all'' then Some (dat, rv)
      else if k \<in> kvKey ` set stale then None else m k)"
    using foldl_eputs [OF hashPuts_distinct [OF assms(1)]]
    by (auto simp: m'_def integrityOps_def foldl_dels fun_eq_iff split: option.split)
  show "m' (getConfigKey p key) = (if key = ''all'' then Some (dat, rv) else None)"
    unfolding m' stale by (cases "m (getConfigKey p key)") (auto simp: none getConfigKey_inj)
  show "m' (getSignKey p key) = (if key = ''all'' then Some (sig, rv) else None)"
    unfolding m' stale by (cases "m (getSignKey p key)") (auto simp: none getSignKey_inj)
  show "m' (getHashesPrefix p @ x) = map_option (\<lambda>v. (v, rv)) (map_of (hashPuts p hs) (getHashesPrefix p @ x))"
    unfolding m' stale
    by (cases "m (getHashesPrefix p @ x)") (auto split: option.split simp: map_of_eq_None_iff)
qed


lemma distinct_three:
  "distinct xs \<Longrightarrow> distinct ys \<Longrightarrow> a \<noteq> b \<Longrightarrow> a \<notin> set xs \<Longrightarrow> b \<notin> set xs \<Longrightarrow> a \<notin> set ys \<Longrightarrow> b \<notin> set ys \<Longrightarrow>
   (\<And>k. k \<in> set xs \<Longrightarrow> k \<notin> set ys) \<Longrightarrow> distinct (xs @ [a, b] @ ys)"
  by auto

lemma publishIntegrityRound_quiet:
  assumes law: "txn_law E view (=)" and up: "etcd_up E view" and hs: "distinct (map fst hs)"
    and r: "list_all2 (opAnswer (view s)) (integrityGetOps p) (responses r)"
  shows "\<exists>s' rv stale. publishIntegrityEtcdAllRound E t p dat (hashPuts p hs) sig (Inr (Some r), s) =
      Inl (None, s') \<and>
    view s' = foldl (applyEOp rv) (view s) (integrityOps p dat (hashPuts p hs) sig stale) \<and>
    (\<forall>k. k \<in> kvKey ` set stale \<longleftrightarrow> view s k \<noteq> None \<and>
      ((\<exists>key. k = getConfigKey p key \<and> key \<noteq> ''all'') \<or>
       (\<exists>x. k = getHashesPrefix p @ x \<and> k \<notin> fst ` set (hashPuts p hs)) \<or>
       (\<exists>key. k = getSignKey p key \<and> key \<noteq> ''all'')))"
proof -
  obtain s1 where s1: "ctxPoll E t s = (None, s1)" "view s1 = view s"
    using up_poll [OF up] by blast
  from r obtain vals hashs sigs where r3: "ranges3 (Some r) = Inr (vals, hashs, sigs)"
    and l: "lists (view s) (getConfigPrefix p) True vals" "lists (view s) (getHashesPrefix p) True hashs"
      "lists (view s) (getSignPrefix p) True sigs"
    by (rule ranges3_gets)
  let ?stale = "staleKeys (getConfigKey p ''all'') (hashPuts p hs) (getSignKey p ''all'') vals hashs sigs"
  let ?ops = "integrityOps p dat (hashPuts p hs) sig ?stale"
  note st = staleKeys_snapshot [where hk = "hashPuts p hs", OF l]
  have hk: "k \<in> fst ` set (hashPuts p hs) \<Longrightarrow> \<exists>h. k = getHashesKey p h ''all''" for k
    by (auto simp: hashPuts_def)
  have puts: "concat (map written (map (\<lambda>(k, v). EPut k v) xs)) = map fst xs" for xs
    by (induction xs) auto
  have "concat (map written ?ops) = map kvKey ?stale @ [getConfigKey p ''all'', getSignKey p ''all''] @
      map fst (hashPuts p hs)"
    unfolding integrityOps_def map_append concat_append written_delOps puts by simp
  moreover have "distinct \<dots>"
  proof -
    have a: "getConfigKey p ''all'' \<notin> kvKey ` set ?stale" "getSignKey p ''all'' \<notin> kvKey ` set ?stale"
      unfolding st(1) by (auto simp: getConfigKey_inj getSignKey_inj)
    have b: "k \<notin> fst ` set (hashPuts p hs)" if "k \<in> kvKey ` set ?stale" for k
    proof
      assume k: "k \<in> fst ` set (hashPuts p hs)"
      then obtain h where "k = getHashesKey p h ''all''" using hk by blast
      with that k show False unfolding st(1) by (auto simp: keys_disjoint)
    qed
    have c: "getConfigKey p ''all'' \<notin> fst ` set (hashPuts p hs)"
      "getSignKey p ''all'' \<notin> fst ` set (hashPuts p hs)" by (auto simp: hashPuts_def)
    from a b c show ?thesis
      by (intro distinct_three hashPuts_distinct [OF hs] st(2)) (simp_all only: set_map keys_disjoint not_False_eq_True)
  qed
  moreover have "distinct (concat (map written (integrityGetOps p)))" by (simp add: integrityGetOps_def)
  ultimately obtain r' s2 where x: "etxn E s1 t (revCmps ?stale) ?ops (integrityGetOps p) = (Inr (Some r'), s2)"
    using up_txn [OF up, of ?ops "integrityGetOps p" s1 t "revCmps ?stale"] by metis
  have c: "list_all (cmpHolds (view s)) (revCmps ?stale)" using st(3) by (simp add: cmps_hold)
  from txn_lawD [OF law x] s1(2) c obtain rv where
    rv: "succeeded r'" "foldl (applyEOp rv) (view s) ?ops = view s2" by auto
  have "publishIntegrityEtcdAllRound E t p dat (hashPuts p hs) sig (Inr (Some r), s) = Inl (None, s2)"
    using x rv(1) by (simp add: publishIntegrityEtcdAllRound_def s1(1) r3 Let_def integrityOps_def)
  with rv(2) [symmetric] st(1) show ?thesis by blast
qed

lemma PublishIntegrityEtcdAll_quiet:
  assumes law: "txn_law E view (=)" and up: "etcd_up E view"
    and sf: "signFunc dat = Inr (hs, sig)" and hs: "distinct (map fst hs)"
  shows "\<exists>s' rv.
    PublishIntegrityEtcdAll E (NewIntegrityEtcdAllDataPublisher signFunc p t) 0 (Some dat) s =
      Some (None, s') \<and>
    (\<forall>key. view s' (getConfigKey p key) = (if key = ''all'' then Some (dat, rv) else None)) \<and>
    (\<forall>key. view s' (getSignKey p key) = (if key = ''all'' then Some (sig, rv) else None)) \<and>
    (\<forall>x. view s' (getHashesPrefix p @ x) =
       map_option (\<lambda>v. (v, rv)) (map_of (hashPuts p hs) (getHashesPrefix p @ x)))"
proof -
  have gets: "distinct (concat (map written (integrityGetOps p)))" "list_all isGet (integrityGetOps p)"
    "foldl (applyEOp rv) m (integrityGetOps p) = m" for rv m
    by (simp_all add: integrityGetOps_def)
  obtain r s1 where x: "etxn E s t [] (integrityGetOps p) [] = (Inr (Some r), s1)"
    using up_txn [OF up gets(1), of "[]" s t "[]"] by auto
  from txn_lawD [OF law x] gets(2,3) have s1: "view s1 = view s"
    and r: "list_all2 (opAnswer (view s1)) (integrityGetOps p) (responses r)" by auto
  from publishIntegrityRound_quiet [OF law up hs r, of t dat sig] obtain s' rv stale where
    p: "publishIntegrityEtcdAllRound E t p dat (hashPuts p hs) sig (Inr (Some r), s1) = Inl (None, s')"
    and v: "view s' = foldl (applyEOp rv) (view s1) (integrityOps p dat (hashPuts p hs) sig stale)"
    and st: "\<forall>k. k \<in> kvKey ` set stale \<longleftrightarrow> view s1 k \<noteq> None \<and>
      ((\<exists>key. k = getConfigKey p key \<and> key \<noteq> ''all'') \<or>
       (\<exists>x. k = getHashesPrefix p @ x \<and> k \<notin> fst ` set (hashPuts p hs)) \<or>
       (\<exists>key. k = getSignKey p key \<and> key \<noteq> ''all''))" by (elim exE conjE) (rule that)
  have "PublishIntegrityEtcdAll E (NewIntegrityEtcdAllDataPublisher signFunc p t) 0 (Some dat) s =
      Some (None, s')"
    using go_loop_return [where body = "publishIntegrityEtcdAllRound E t p dat (hashPuts p hs) sig", OF p]
    by (simp add: PublishIntegrityEtcdAll_def NewIntegrityEtcdAllDataPublisher_def sf x Let_def hashPuts_def)
  with integrityOps_store [OF hs st [rule_format], of rv dat sig, folded v] show ?thesis by blast
qed

section \<open>An in-memory etcd\<close>

text \<open>A server that satisfies the laws: an association list with a revision counter.\<close>

type_synonym mem = "(string \<times> string \<times> int) list \<times> int"

definition memKvs :: "mem \<Rightarrow> string \<Rightarrow> bool \<Rightarrow> kv list" where
  "memKvs m key pfx =
     map (\<lambda>(k, v, r). \<lparr>kvKey = k, kvValue = v, kvModRevision = r\<rparr>)
       (filter (\<lambda>(k, _). keyMatches key pfx k) (AList.clearjunk (fst m)))"

fun memApply :: "int \<Rightarrow> (string \<times> string \<times> int) list \<Rightarrow> eop \<Rightarrow> (string \<times> string \<times> int) list" where
  "memApply rv m (EPut k v) = AList.update k (v, rv) m"
| "memApply rv m (EDelete k) = AList.delete k m"
| "memApply rv m (EGet k pfx) = m"

fun memAnswer :: "mem \<Rightarrow> eop \<Rightarrow> kv list option" where
  "memAnswer m (EGet key pfx) = Some (memKvs m key pfx)"
| "memAnswer m _ = None"

definition memTxn ::
  "mem \<Rightarrow> int \<Rightarrow> ecmp list \<Rightarrow> eop list \<Rightarrow> eop list \<Rightarrow> (string + txnResponse option) \<times> mem"
where
  "memTxn m t cmps thens elses =
     (let ok = list_all (cmpHolds (map_of (fst m))) cmps;
          ops = (if ok then thens else elses)
      in (Inr (Some \<lparr>succeeded = ok, responses = map (memAnswer m) ops\<rparr>),
          (foldl (memApply (snd m + 1)) (fst m) ops, snd m + 1)))"

definition memEtcd :: "mem etcd" where
  "memEtcd = \<lparr>eget = (\<lambda>m t key pfx. (Inr (memKvs m key pfx), m)), etxn = memTxn,
     edone = (\<lambda>m. (None, m))\<rparr>"

definition memView :: "mem \<Rightarrow> estore" where
  "memView m = map_of (fst m)"

lemma memKvs_lists: "lists (memView m) key pfx (memKvs m key pfx)"
proof -
  let ?c = "AList.clearjunk (fst m)"
  have d: "distinct (map fst ?c)" by (rule distinct_clearjunk)
  have "kvKey \<circ> (\<lambda>(k, v, r). \<lparr>kvKey = k, kvValue = v, kvModRevision = r\<rparr>) = fst" by auto
  then have "distinct (map kvKey (memKvs m key pfx))"
    using d by (simp add: memKvs_def distinct_map_filter)
  moreover have mem: "(k, v, r) \<in> set ?c \<longleftrightarrow> memView m k = Some (v, r)" for k v r
    using map_of_eq_Some_iff [OF d] by (simp add: map_of_clearjunk memView_def)
  moreover have "e \<in> set (memKvs m key pfx) \<longleftrightarrow>
      memView m (kvKey e) = Some (kvValue e, kvModRevision e) \<and> keyMatches key pfx (kvKey e)" for e
    by (cases e) (auto simp: memKvs_def mem image_iff)
  ultimately show ?thesis by (simp add: lists_def)
qed

lemma memEtcd_get_law: "get_law memEtcd memView (=)"
  by (simp add: get_law_def memEtcd_def memKvs_lists)

lemma memApply_view: "map_of (foldl (memApply rv) m ops) = foldl (applyEOp rv) (map_of m) ops"
proof (induction ops arbitrary: m)
  case (Cons op ops)
  have "map_of (memApply rv m op) = applyEOp rv (map_of m) op"
    by (cases op) (auto simp: update_conv' delete_conv')
  with Cons show ?case by simp
qed simp

lemma memEtcd_txn_law: "txn_law memEtcd memView (=)"
proof -
  have ans: "opAnswer (memView m) op (memAnswer m op)" for m op
    using memKvs_lists by (cases op) auto
  have "list_all2 (opAnswer (memView m)) ops (map (memAnswer m) ops)" for m ops
    unfolding list_all2_map2 list_all2_same using ans by blast
  then show ?thesis
    by (auto simp: txn_law_def memEtcd_def memTxn_def Let_def memApply_view memView_def)
qed

lemma memEtcd_up: "etcd_up memEtcd memView"
  by (simp add: etcd_up_def memEtcd_def memTxn_def Let_def)


section \<open>Properties\<close>


text \<open>
  Property C7: with nobody interfering and the server up, publishing to a whole prefix ends and
  succeeds, and afterwards the prefix holds the key \<^verbatim>\<open>all\<close> with the data and nothing else,
  while every key outside the prefix is as it was.
\<close>

theorem PublishEtcdAll_quiet:
  assumes "get_law E view (=)" and "txn_law E view (=)" and "etcd_up E view"
  shows "\<exists>s' rv. PublishEtcdAll E (NewEtcdAllDataPublisher p t) 0 (Some dat) s = Some (None, s') \<and>
    view s' = (\<lambda>k. if k = getConfigKey p ''all'' then Some (dat, rv)
                   else if prefix (getConfigPrefix p) k then None else view s k)"
proof -
  let ?round = "publishEtcdAllRound E t (getConfigPrefix p) (getConfigKey p ''all'') dat"
  from publishEtcdAllRound_quiet [OF assms, of t "getConfigPrefix p" "getConfigKey p ''all''" dat s]
  obtain kvs s' rv where r: "?round s = Inl (None, s')" "lists (view s) (getConfigPrefix p) True kvs"
    "view s' = afterRound (view s) kvs (getConfigKey p ''all'') dat rv" by blast
  have "PublishEtcdAll E (NewEtcdAllDataPublisher p t) 0 (Some dat) s = Some (None, s')"
    using go_loop_return [where body = ?round, OF r(1)]
    by (simp add: PublishEtcdAll_def NewEtcdAllDataPublisher_def Let_def getConfigKey_def)
  moreover have "k \<in> kvKey ` set kvs \<longleftrightarrow> view s k \<noteq> None \<and> prefix (getConfigPrefix p) k" for k
    using lists_keys(1) [OF r(2)] by (auto simp: getConfigKey_def prefix_def)
  then have "view s' = (\<lambda>k. if k = getConfigKey p ''all'' then Some (dat, rv)
      else if prefix (getConfigPrefix p) k then None else view s k)"
    unfolding r(3) afterRound_def by (intro ext) (case_tac "view s k"; simp)
  ultimately show ?thesis by blast
qed

text \<open>
  Property C8: the integrity collector of a whole prefix returns one snapshot of the store: every
  key under the prefix exactly once, with the value it had, and only if the check accepted that
  value together with exactly the hashes and the signature the snapshot holds for the key.
\<close>

theorem CollectIntegrityEtcdAll_snapshot:
  assumes "txn_law E view hist"
    and "CollectIntegrityEtcdAll E (NewIntegrityEtcdAllCollector check p t) s = (Inr ds, s')"
  shows "\<exists>m. hist (view s) m \<and> hist m (view s') \<and> distinct (map Source ds) \<and>
    Source ` set ds = {k. prefix (getConfigPrefix p) k \<and> m k \<noteq> None} \<and>
    (\<forall>d \<in> set ds. \<exists>key r hs. Source d = getConfigKey p key \<and> m (Source d) = Some (Value d, r) \<and>
       distinct (map fst hs) \<and> set hs = hashesOf m p key \<and>
       check (Value d) hs (sigOf m p key) = None)"
proof -
  obtain r where x: "etxn E s t [] (integrityGetOps p) [] = (Inr (Some r), s')"
    using assms(2) by (auto simp: CollectIntegrityEtcdAll_def NewIntegrityEtcdAllCollector_def
        integrityGetOps_def Let_def ranges3_def split: prod.splits sum.splits option.splits)
  from CollectIntegrityEtcdAll_eq [OF assms(1) x, of check] assms(2) obtain m keys nodes where
    m: "hist (view s) m" "hist m (view s')" "checkNodes check p nodes keys = Inr ds" "distinct keys"
    "set keys = {key. m (getConfigKey p key) \<noteq> None}"
    and node: "\<And>key v rv. m (getConfigKey p key) = Some (v, rv) \<Longrightarrow>
       (\<exists>hs. distinct (map fst hs) \<and> set hs = hashesOf m p key \<and>
          node_of nodes key = \<lparr>nodeValue = v, nodeHashes = hs, nodeSig = sigOf m p key\<rparr>)"
    by auto
  note ds = m(3) [unfolded checkNodes_Inr]
  have src: "map Source ds = map (getConfigKey p) keys" using ds by simp
  then have "distinct (map Source ds)" using m(4) by (simp add: distinct_map inj_on_def getConfigKey_inj)
  moreover have "Source ` set ds = {k. prefix (getConfigPrefix p) k \<and> m k \<noteq> None}"
    using arg_cong [OF src, of set] m(5) by (auto simp: prefix_def getConfigKey_def image_def)
  moreover have "\<exists>key r hs. Source d = getConfigKey p key \<and> m (Source d) = Some (Value d, r) \<and>
       distinct (map fst hs) \<and> set hs = hashesOf m p key \<and> check (Value d) hs (sigOf m p key) = None"
    if "d \<in> set ds" for d
  proof -
    from that ds obtain key where k: "key \<in> set keys" "Source d = getConfigKey p key"
      "Value d = nodeValue (node_of nodes key)" "check (nodeValue (node_of nodes key))
         (nodeHashes (node_of nodes key)) (nodeSig (node_of nodes key)) = None" by auto
    with m(5) obtain v r where "m (getConfigKey p key) = Some (v, r)" by auto
    with node [OF this] k(2-4) show ?thesis by (intro exI [of _ key] exI [of _ r]) auto
  qed
  ultimately show ?thesis using m(1,2) by blast
qed


text \<open>
  With nobody interfering, a configuration published to a whole prefix with its
  hashes and signature is the one thing the integrity collector of that prefix returns
  afterwards, whatever was stored before, provided the check accepts what was signed.
\<close>

theorem publish_collect_etcd:
  assumes "txn_law E view (=)" and "etcd_up E view"
    and "signFunc dat = Inr (hs, sig)"
    and "distinct (map fst hs)" and "\<forall>(h, v) \<in> set hs. CHR ''/'' \<notin> set h"
    and "\<forall>hs'. distinct (map fst hs') \<and> set hs' = set hs \<longrightarrow> check dat hs' sig = None"
  shows "\<exists>s1 s2.
    PublishIntegrityEtcdAll E (NewIntegrityEtcdAllDataPublisher signFunc p t) 0 (Some dat) s =
      Some (None, s1) \<and>
    CollectIntegrityEtcdAll E (NewIntegrityEtcdAllCollector check p t') s1 =
      (Inr [\<lparr>Source = getConfigKey p ''all'', Value = dat, Revision = 0\<rparr>], s2)"
proof -
  from PublishIntegrityEtcdAll_quiet [where p = p and t = t and s = s and signFunc = signFunc, OF assms(1-4)] obtain s1 rv where
    pub: "PublishIntegrityEtcdAll E (NewIntegrityEtcdAllDataPublisher signFunc p t) 0 (Some dat) s =
      Some (None, s1)"
    and v: "\<forall>key. view s1 (getConfigKey p key) = (if key = ''all'' then Some (dat, rv) else None)"
      "\<forall>key. view s1 (getSignKey p key) = (if key = ''all'' then Some (sig, rv) else None)"
      "\<forall>x. view s1 (getHashesPrefix p @ x) =
         map_option (\<lambda>v. (v, rv)) (map_of (hashPuts p hs) (getHashesPrefix p @ x))"
    by (elim exE conjE) (rule that)
  have "map_of (hashPuts p hs) (getHashesKey p h ''all'') = map_of hs h" for h
    by (induction hs) (auto simp: hashPuts_def getHashesKey_inj_hash)
  then have "view s1 (getHashesKey p h ''all'') = map_option (\<lambda>v. (v, rv)) (map_of hs h)" for h
    using v(3) by (simp add: getHashesKey_prefix)
  then have hs: "hashesOf (view s1) p ''all'' = set hs"
    using map_of_eq_Some_iff [OF assms(4)] assms(5) by (auto simp: hashesOf_def)
  have sg: "sigOf (view s1) p ''all'' = sig" by (simp add: sigOf_def v(2))
  have gets: "distinct (concat (map written (integrityGetOps p)))" by (simp add: integrityGetOps_def)
  obtain r s2 where x: "etxn E s1 t' [] (integrityGetOps p) [] = (Inr (Some r), s2)"
    using up_txn [OF assms(2) gets, of "[]" s1 t' "[]"] by auto
  from CollectIntegrityEtcdAll_eq [OF assms(1) x, of check] obtain keys nodes where
    c: "CollectIntegrityEtcdAll E (NewIntegrityEtcdAllCollector check p t') s1 =
      (checkNodes check p nodes keys, s2)" "distinct keys"
      "set keys = {key. view s1 (getConfigKey p key) \<noteq> None}"
    and nd: "\<forall>key v rv. view s1 (getConfigKey p key) = Some (v, rv) \<longrightarrow>
      (\<exists>hs. distinct (map fst hs) \<and> set hs = hashesOf (view s1) p key \<and>
        node_of nodes key = \<lparr>nodeValue = v, nodeHashes = hs, nodeSig = sigOf (view s1) p key\<rparr>)"
    by blast
  from nd v(1) obtain hs' where n: "distinct (map fst hs')" "set hs' = hashesOf (view s1) p ''all''"
    "node_of nodes ''all'' = \<lparr>nodeValue = dat, nodeHashes = hs', nodeSig = sigOf (view s1) p ''all''\<rparr>"
    by (metis (full_types))
  have ks: "\<forall>key. key \<in> set keys \<longleftrightarrow> key = ''all''" using c(3) v(1) by simp
  have "keys = [''all'']" using singleton_list [OF c(2) ks] .
  moreover have "check dat hs' sig = None" using assms(6) n(1,2) hs by blast
  ultimately show ?thesis using pub c(1) n(3) sg by (auto simp: checkNodes_Inr)
qed

text \<open>
  Property C9: publishing a single key with a revision is a compare-and-set, whatever other
  clients do: success means that the key had that revision at the moment the transaction took
  effect and that exactly the requested writes were made; the error of a wrong revision means
  that it did not have it and that nothing was written.
\<close>

theorem PublishEtcdKey_revision:
  assumes "txn_law E view hist" and "revision \<noteq> 0"
    and "PublishEtcdKey E publisher revision (Some dat) s = (res, s')"
    and "res = None \<or> res = Some WrongRevision"
  shows "\<exists>m rv putOps. hist (view s) m \<and> etcdKeyOps publisher dat = Inr putOps \<and>
    (res = None \<longleftrightarrow>
       modRev m (getConfigKey (ekpPrefix publisher) (ekpKey publisher)) = revision) \<and>
    hist (if res = None then foldl (applyEOp rv) m putOps else m) (view s')"
proof -
  let ?key = "getConfigKey (ekpPrefix publisher) (ekpKey publisher)"
  from assms(2-4) obtain putOps r where p: "etcdKeyOps publisher dat = Inr putOps"
    and x: "etxn E s (ekpTimeout publisher) [ModRevEq ?key revision] putOps [] = (Inr (Some r), s')"
    and res: "res = None \<longleftrightarrow> succeeded r"
    by (auto simp: PublishEtcdKey_def getConfigKey_def etcdKeyOps_def Let_def
        split: sum.splits prod.splits option.splits if_splits)
  from txn_lawD [OF assms(1) x] obtain m rv where "hist (view s) m"
    "succeeded r \<longleftrightarrow> modRev m ?key = revision"
    "hist (foldl (applyEOp rv) m (if succeeded r then putOps else [])) (view s')" by auto
  with p res show ?thesis by (intro exI [of _ m] exI [of _ rv] exI [of _ putOps]) auto
qed

definition demoMem :: mem where
  "demoMem = ([(''/config/a'', ''x'', 3), (''/config/all'', ''y'', 4), (''/other'', ''z'', 5)], 7)"



text \<open>
  A server on which another client creates a key directly after the prefix was read: the publisher
  reports success and the prefix holds that key besides \<^verbatim>\<open>all\<close>.
\<close>

definition lateEtcd :: "mem etcd" where
  "lateEtcd = memEtcd\<lparr>eget := (\<lambda>s t key pfx. case eget memEtcd s t key pfx of
     (r, s1) \<Rightarrow> (r, snd (etxn memEtcd s1 t [] [EPut ''/config/late'' ''w''] [])))\<rparr>"

lemma PublishEtcdAll_late_key:
  "\<exists>s'. PublishEtcdAll lateEtcd (NewEtcdAllDataPublisher ''/'' 0) 0 (Some ''cfg'') demoMem = Some (None, s') \<and>
     memView s' ''/config/late'' \<noteq> None"
proof -
  let ?s = "the (map_option snd (PublishEtcdAll lateEtcd (NewEtcdAllDataPublisher ''/'' 0) 0 (Some ''cfg'') demoMem))"
  have "PublishEtcdAll lateEtcd (NewEtcdAllDataPublisher ''/'' 0) 0 (Some ''cfg'') demoMem = Some (None, ?s)"
    by code_simp
  moreover have "memView ?s ''/config/late'' \<noteq> None" by code_simp
  ultimately show ?thesis by blast
qed

theorem PublishEtcdAll_quiet_witness:
  "\<exists>s' rv. PublishEtcdAll memEtcd (NewEtcdAllDataPublisher ''/'' 5) 0 (Some ''cfg'') demoMem =
      Some (None, s') \<and>
    memView s' = (\<lambda>k. if k = getConfigKey ''/'' ''all'' then Some (''cfg'', rv)
                   else if prefix (getConfigPrefix ''/'') k then None else memView demoMem k)"
  by (rule PublishEtcdAll_quiet [OF memEtcd_get_law memEtcd_txn_law memEtcd_up])

theorem CollectIntegrityEtcdAll_snapshot_witness:
  "\<exists>ds s'. CollectIntegrityEtcdAll memEtcd (NewIntegrityEtcdAllCollector (\<lambda>_ _ _. None) ''/'' 0) demoMem =
      (Inr ds, s') \<and> distinct (map Source ds)"
proof -
  have c: "CollectIntegrityEtcdAll memEtcd (NewIntegrityEtcdAllCollector (\<lambda>_ _ _. None) ''/'' 0) demoMem =
      (Inr [\<lparr>Source = ''/config/a'', Value = ''x'', Revision = 0\<rparr>,
            \<lparr>Source = ''/config/all'', Value = ''y'', Revision = 0\<rparr>], (fst demoMem, 8))"
    by code_simp
  from CollectIntegrityEtcdAll_snapshot [OF memEtcd_txn_law c] c show ?thesis by blast
qed

theorem publish_collect_etcd_witness:
  "\<exists>s1 s2.
    PublishIntegrityEtcdAll memEtcd
      (NewIntegrityEtcdAllDataPublisher (\<lambda>d. Inr ([(''h'', d)], ''sig'')) ''/p'' 5) 0 (Some ''cfg'') demoMem =
      Some (None, s1) \<and>
    CollectIntegrityEtcdAll memEtcd (NewIntegrityEtcdAllCollector
        (\<lambda>d hs sign. if hs = [(''h'', d)] \<and> sign = ''sig'' then None else Some ''bad'') ''/p'' 5) s1 =
      (Inr [\<lparr>Source = getConfigKey ''/p'' ''all'', Value = ''cfg'', Revision = 0\<rparr>], s2)"
  by (rule publish_collect_etcd [OF memEtcd_txn_law memEtcd_up,
        where hs = "[(''h'', ''cfg'')]" and sig = "''sig''"])
     (auto simp: set_eq_singleton_distinct)

theorem PublishEtcdKey_revision_witness:
  "\<exists>s'. PublishEtcdKey memEtcd (NewEtcdKeyDataPublisher ''/'' ''a'' 0) 4 (Some ''new'') demoMem =
      (Some WrongRevision, s') \<and> memView demoMem = memView s'"
proof -
  let ?pub = "NewEtcdKeyDataPublisher ''/'' ''a'' 0"
  have c: "PublishEtcdKey memEtcd ?pub 4 (Some ''new'') demoMem = (Some WrongRevision, (fst demoMem, 8))"
    by code_simp
  have "\<exists>m rv putOps. memView demoMem = m \<and> etcdKeyOps ?pub ''new'' = Inr putOps \<and>
    (Some WrongRevision = None \<longleftrightarrow> modRev m (getConfigKey (ekpPrefix ?pub) (ekpKey ?pub)) = 4) \<and>
    (if Some WrongRevision = None then foldl (applyEOp rv) m putOps else m) = memView (fst demoMem, 8)"
    by (rule PublishEtcdKey_revision [OF memEtcd_txn_law _ c]) simp_all
  with c show ?thesis by auto
qed


end
