(* ===== verification/EnvPaths.thy ===== *)
theory EnvPaths
  imports Config
begin

text \<open>
  The table \<^verbatim>\<open>ConfigEnvPaths\<close> of \<^verbatim>\<open>lib/cluster/paths.go\<close>: the configuration paths that can
  be set with environment variables, in the order of the source, in two halves.
\<close>

definition ConfigEnvPaths1 :: "path list" where
  "ConfigEnvPaths1 = [
     [''app'', ''cfg''],
     [''app'', ''file''],
     [''app'', ''module''],
     [''audit_log'', ''extract_key''],
     [''audit_log'', ''file''],
     [''audit_log'', ''filter''],
     [''audit_log'', ''format''],
     [''audit_log'', ''nonblock''],
     [''audit_log'', ''pipe''],
     [''audit_log'', ''spaces''],
     [''audit_log'', ''syslog'', ''facility''],
     [''audit_log'', ''syslog'', ''identity''],
     [''audit_log'', ''syslog'', ''server''],
     [''audit_log'', ''to''],
     [''compat'', ''binary_data_decoding''],
     [''compat'', ''box_cfg_replication_sync_timeout''],
     [''compat'', ''box_error_serialize_verbose''],
     [''compat'', ''box_error_unpack_type_and_code''],
     [''compat'', ''box_info_cluster_meaning''],
     [''compat'', ''box_session_push_deprecation''],
     [''compat'', ''box_space_execute_priv''],
     [''compat'', ''box_space_max''],
     [''compat'', ''box_tuple_extension''],
     [''compat'', ''box_tuple_new_vararg''],
     [''compat'', ''c_func_iproto_multireturn''],
     [''compat'', ''fiber_channel_close_mode''],
     [''compat'', ''fiber_slice_default''],
     [''compat'', ''json_escape_forward_slash''],
     [''compat'', ''sql_priv''],
     [''compat'', ''sql_seq_scan_default''],
     [''compat'', ''yaml_pretty_multiline''],
     [''config'', ''context''],
     [''config'', ''etcd'', ''endpoints''],
     [''config'', ''etcd'', ''http'', ''request'', ''timeout''],
     [''config'', ''etcd'', ''http'', ''request'', ''unix_socket''],
     [''config'', ''etcd'', ''password''],
     [''config'', ''etcd'', ''prefix''],
     [''config'', ''etcd'', ''ssl'', ''ca_file''],
     [''config'', ''etcd'', ''ssl'', ''ca_path''],
     [''config'', ''etcd'', ''ssl'', ''ssl_key''],
     [''config'', ''etcd'', ''ssl'', ''verify_host''],
     [''config'', ''etcd'', ''ssl'', ''verify_peer''],
     [''config'', ''etcd'', ''username''],
     [''config'', ''etcd'', ''watchers'', ''reconnect_max_attempts''],
     [''config'', ''etcd'', ''watchers'', ''reconnect_timeout''],
     [''config'', ''reload''],
     [''config'', ''storage'', ''endpoints''],
     [''config'', ''storage'', ''prefix''],
     [''config'', ''storage'', ''reconnect_after''],
     [''config'', ''storage'', ''timeout''],
     [''console'', ''enabled''],
     [''console'', ''socket''],
     [''credentials'', ''roles''],
     [''credentials'', ''users''],
     [''database'', ''hot_standby''],
     [''database'', ''instance_uuid''],
     [''database'', ''mode''],
     [''database'', ''replicaset_uuid''],
     [''database'', ''txn_isolation''],
     [''database'', ''txn_timeout''],
     [''database'', ''use_mvcc_engine''],
     [''failover'', ''call_timeout''],
     [''failover'', ''connect_timeout''],
     [''failover'', ''lease_interval''],
     [''failover'', ''probe_interval''],
     [''failover'', ''renew_interval''],
     [''feedback'', ''crashinfo''],
     [''feedback'', ''enabled''],
     [''feedback'', ''host''],
     [''feedback'', ''interval''],
     [''feedback'', ''metrics_collect_interval''],
     [''feedback'', ''metrics_limit''],
     [''feedback'', ''send_metrics''],
     [''fiber'', ''io_collect_interval''],
     [''fiber'', ''slice'', ''err''],
     [''fiber'', ''slice'', ''warn''],
     [''fiber'', ''too_long_threshold''],
     [''fiber'', ''top'', ''enabled''],
     [''fiber'', ''worker_pool_threads''],
     [''flightrec'', ''enabled''],
     [''flightrec'', ''logs_log_level''],
     [''flightrec'', ''logs_max_msg_size''],
     [''flightrec'', ''logs_size''],
     [''flightrec'', ''metrics_interval''],
     [''flightrec'', ''metrics_period''],
     [''flightrec'', ''requests_max_req_size''],
     [''flightrec'', ''requests_max_res_size''],
     [''flightrec'', ''requests_size''],
     [''iproto'', ''advertise'', ''client''],
     [''iproto'', ''advertise'', ''peer'', ''login''],
     [''iproto'', ''advertise'', ''peer'', ''params'', ''ssl_ca_file''],
     [''iproto'', ''advertise'', ''peer'', ''params'', ''ssl_cert_file''],
     [''iproto'', ''advertise'', ''peer'', ''params'', ''ssl_ciphers''],
     [''iproto'', ''advertise'', ''peer'', ''params'', ''ssl_key_file''],
     [''iproto'', ''advertise'', ''peer'', ''params'', ''ssl_password''],
     [''iproto'', ''advertise'', ''peer'', ''params'', ''ssl_password_file''],
     [''iproto'', ''advertise'', ''peer'', ''params'', ''transport''],
     [''iproto'', ''advertise'', ''peer'', ''password''],
     [''iproto'', ''advertise'', ''peer'', ''uri''],
     [''iproto'', ''advertise'', ''sharding'', ''login''],
     [''iproto'', ''advertise'', ''sharding'', ''params'', ''ssl_ca_file''],
     [''iproto'', ''advertise'', ''sharding'', ''params'', ''ssl_cert_file''],
     [''iproto'', ''advertise'', ''sharding'', ''params'', ''ssl_ciphers''],
     [''iproto'', ''advertise'', ''sharding'', ''params'', ''ssl_key_file''],
     [''iproto'', ''advertise'', ''sharding'', ''params'', ''ssl_password''],
     [''iproto'', ''advertise'', ''sharding'', ''params'', ''ssl_password_file''],
     [''iproto'', ''advertise'', ''sharding'', ''params'', ''transport'']]"

definition ConfigEnvPaths2 :: "path list" where
  "ConfigEnvPaths2 = [
     [''iproto'', ''advertise'', ''sharding'', ''password''],
     [''iproto'', ''advertise'', ''sharding'', ''uri''],
     [''iproto'', ''listen''],
     [''iproto'', ''net_msg_max''],
     [''iproto'', ''readahead''],
     [''iproto'', ''threads''],
     [''log'', ''file''],
     [''log'', ''format''],
     [''log'', ''level''],
     [''log'', ''modules''],
     [''log'', ''nonblock''],
     [''log'', ''pipe''],
     [''log'', ''syslog'', ''facility''],
     [''log'', ''syslog'', ''identity''],
     [''log'', ''syslog'', ''server''],
     [''log'', ''to''],
     [''memtx'', ''allocator''],
     [''memtx'', ''max_tuple_size''],
     [''memtx'', ''memory''],
     [''memtx'', ''min_tuple_size''],
     [''memtx'', ''slab_alloc_factor''],
     [''memtx'', ''slab_alloc_granularity''],
     [''memtx'', ''sort_threads''],
     [''metrics'', ''exclude''],
     [''metrics'', ''include''],
     [''metrics'', ''labels''],
     [''process'', ''background''],
     [''process'', ''coredump''],
     [''process'', ''pid_file''],
     [''process'', ''strip_core''],
     [''process'', ''title''],
     [''process'', ''username''],
     [''process'', ''work_dir''],
     [''replication'', ''anon''],
     [''replication'', ''bootstrap_strategy''],
     [''replication'', ''connect_timeout''],
     [''replication'', ''election_fencing_mode''],
     [''replication'', ''election_mode''],
     [''replication'', ''election_timeout''],
     [''replication'', ''failover''],
     [''replication'', ''peers''],
     [''replication'', ''skip_conflict''],
     [''replication'', ''sync_lag''],
     [''replication'', ''sync_timeout''],
     [''replication'', ''synchro_quorum''],
     [''replication'', ''synchro_timeout''],
     [''replication'', ''threads''],
     [''replication'', ''timeout''],
     [''roles''],
     [''roles_cfg''],
     [''security'', ''auth_delay''],
     [''security'', ''auth_retries''],
     [''security'', ''auth_type''],
     [''security'', ''disable_guest''],
     [''security'', ''password_enforce_digits''],
     [''security'', ''password_enforce_lowercase''],
     [''security'', ''password_enforce_specialchars''],
     [''security'', ''password_enforce_uppercase''],
     [''security'', ''password_history_length''],
     [''security'', ''password_lifetime_days''],
     [''security'', ''password_min_length''],
     [''security'', ''secure_erasing''],
     [''sharding'', ''bucket_count''],
     [''sharding'', ''connection_outdate_delay''],
     [''sharding'', ''discovery_mode''],
     [''sharding'', ''failover_ping_timeout''],
     [''sharding'', ''lock''],
     [''sharding'', ''rebalancer_disbalance_threshold''],
     [''sharding'', ''rebalancer_max_receiving''],
     [''sharding'', ''rebalancer_max_sending''],
     [''sharding'', ''rebalancer_mode''],
     [''sharding'', ''roles''],
     [''sharding'', ''sched_move_quota''],
     [''sharding'', ''sched_ref_quota''],
     [''sharding'', ''shard_index''],
     [''sharding'', ''sync_timeout''],
     [''sharding'', ''weight''],
     [''sharding'', ''zone''],
     [''snapshot'', ''by'', ''interval''],
     [''snapshot'', ''by'', ''wal_size''],
     [''snapshot'', ''count''],
     [''snapshot'', ''dir''],
     [''snapshot'', ''snap_io_rate_limit''],
     [''sql'', ''cache_size''],
     [''vinyl'', ''bloom_fpr''],
     [''vinyl'', ''cache''],
     [''vinyl'', ''defer_deletes''],
     [''vinyl'', ''dir''],
     [''vinyl'', ''max_tuple_size''],
     [''vinyl'', ''memory''],
     [''vinyl'', ''page_size''],
     [''vinyl'', ''range_size''],
     [''vinyl'', ''read_threads''],
     [''vinyl'', ''run_count_per_level''],
     [''vinyl'', ''run_size_ratio''],
     [''vinyl'', ''timeout''],
     [''vinyl'', ''write_threads''],
     [''wal'', ''cleanup_delay''],
     [''wal'', ''dir''],
     [''wal'', ''dir_rescan_delay''],
     [''wal'', ''ext'', ''new''],
     [''wal'', ''ext'', ''old''],
     [''wal'', ''ext'', ''spaces''],
     [''wal'', ''max_size''],
     [''wal'', ''mode''],
     [''wal'', ''queue_max_size''],
     [''wal'', ''retention_period'']]"

definition ConfigEnvPaths :: "path list" where
  "ConfigEnvPaths = ConfigEnvPaths1 @ ConfigEnvPaths2"

section \<open>No path of the table is a prefix of another one\<close>

text \<open>
  A check that splits a list of paths by their first keys, level by level, so that it compares
  only neighbours of the table.
\<close>

fun groups :: "path list \<Rightarrow> (string \<times> path list) list" where
  "groups [] = []"
| "groups ([] # ps) = groups ps"
| "groups ((k # ks) # ps) =
     (case groups ps of
        [] \<Rightarrow> [(k, [ks])]
      | (k', g) # gs \<Rightarrow> if k = k' then (k, ks # g) # gs else (k, [ks]) # (k', g) # gs)"

fun prefix_free :: "nat \<Rightarrow> path list \<Rightarrow> bool" where
  "prefix_free 0 ps = (length ps \<le> 1)"
| "prefix_free (Suc n) ps =
     (length ps \<le> 1 \<or>
      list_all (\<lambda>p. p \<noteq> []) ps \<and> distinct (map fst (groups ps)) \<and>
      list_all (\<lambda>(k, g). prefix_free n g) (groups ps))"

lemma concat_groups:
  "list_all (\<lambda>p. p \<noteq> []) ps \<Longrightarrow> concat (map (\<lambda>(k, g). map ((#) k) g) (groups ps)) = ps"
  by (induction ps rule: groups.induct) (auto split: list.splits if_splits)

lemma incomparable_Cons: "incomparable (k # p) (k # q) = incomparable p q"
  by (simp add: incomparable_def)

lemma sorted_groups:
  "distinct (map fst gs) \<Longrightarrow> \<forall>(k, g) \<in> set gs. sorted_wrt incomparable g \<Longrightarrow>
     sorted_wrt incomparable (concat (map (\<lambda>(k, g). map ((#) k) g) gs))"
proof (induction gs)
  case (Cons kg gs)
  obtain k g where kg: "kg = (k, g)" by (cases kg)
  let ?rest = "concat (map (\<lambda>(k, g). map ((#) k) g) gs)"
  have g: "sorted_wrt incomparable (map ((#) k) g)"
    using Cons.prems(2) by (simp add: kg sorted_wrt_map incomparable_Cons)
  have "incomparable p q" if "p \<in> set (map ((#) k) g)" "q \<in> set ?rest" for p q
  proof -
    from that obtain p' k' q' where "p = k # p'" "q = k' # q'" "k' \<in> fst ` set gs"
      by force
    moreover from this have "k' \<noteq> k" using Cons.prems(1) by (auto simp: kg)
    ultimately show ?thesis by (simp add: incomparable_def)
  qed
  moreover have "sorted_wrt incomparable ?rest" using Cons by (simp add: kg)
  ultimately show ?case using g by (simp add: kg sorted_wrt_append)
qed simp

lemma prefix_free_sound: "prefix_free n ps \<Longrightarrow> sorted_wrt incomparable ps"
proof (induction n ps rule: prefix_free.induct)
  case (1 ps)
  then show ?case by (cases ps; cases "tl ps") auto
next
  case (2 n ps)
  show ?case
  proof (cases "length ps \<le> 1")
    case True
    then show ?thesis by (cases ps; cases "tl ps") auto
  next
    case False
    with 2 have "sorted_wrt incomparable (concat (map (\<lambda>(k, g). map ((#) k) g) (groups ps)))"
      by (intro sorted_groups) (auto simp: list_all_iff)
    with False 2 show ?thesis by (simp add: concat_groups)
  qed
qed

lemma sorted_incomparable:
  "sorted_wrt incomparable ps \<Longrightarrow> p \<in> set ps \<Longrightarrow> q \<in> set ps \<Longrightarrow> p \<noteq> q \<Longrightarrow> incomparable p q"
  by (induction ps) (auto simp: incomparable_def)

lemma ConfigEnvPaths_check: "prefix_free 8 ConfigEnvPaths"
  by code_simp

lemma ConfigEnvPaths_incomparable: "sorted_wrt incomparable ConfigEnvPaths"
  using ConfigEnvPaths_check by (rule prefix_free_sound)

end
