(* ===== verification/Collectors.thy ===== *)
theory Collectors
  imports Tarantool Etcd EnvPaths
begin

text \<open>
  The sources and sinks of configurations that \<^verbatim>\<open>lib/cluster\<close> puts together:
  \<^verbatim>\<open>datacollector.go\<close> and \<^verbatim>\<open>datapublisher.go\<close> with their factories, \<^verbatim>\<open>file.go\<close>,
  \<^verbatim>\<open>env.go\<close>, \<^verbatim>\<open>yaml.go\<close>, \<^verbatim>\<open>collector.go\<close> and \<^verbatim>\<open>publisher.go\<close>. The interfaces
  \<^verbatim>\<open>DataCollector\<close> and \<^verbatim>\<open>DataPublisher\<close> are datatypes with a constructor per
  implementation. What a collector reaches of the world (etcd, Tarantool, the files, the
  environment variables) is the record \<open>world\<close>.
\<close>

section \<open>Files\<close>

record 's world =
  wEtcd :: "'s etcd"
  wTarantool :: "'s tarantool"
  osOpen :: "'s \<Rightarrow> string \<Rightarrow> string + string"
  osWriteFile :: "'s \<Rightarrow> string \<Rightarrow> string \<Rightarrow> string option \<times> 's"
  osLookupEnv :: "'s \<Rightarrow> string \<Rightarrow> string option"

record 's fileCollector =
  fcPath :: string
  fcFileReadFunc :: "'s read_func"

definition defaultFileReadFunc :: "'s world \<Rightarrow> 's read_func" where
  "defaultFileReadFunc W s path = osOpen W s path"

definition NewFileCollector :: "'s world \<Rightarrow> string \<Rightarrow> 's fileCollector" where
  "NewFileCollector W path = \<lparr>fcPath = path, fcFileReadFunc = defaultFileReadFunc W\<rparr>"

definition NewIntegrityFileCollector :: "'s read_func \<Rightarrow> string \<Rightarrow> 's fileCollector" where
  "NewIntegrityFileCollector fileReadFunc path = \<lparr>fcPath = path, fcFileReadFunc = fileReadFunc\<rparr>"

definition CollectFile :: "'s fileCollector \<Rightarrow> 's \<Rightarrow> (derr + data list) \<times> 's" where
  "CollectFile collector s =
     (case fcFileReadFunc collector s (fcPath collector) of
        Inl err \<Rightarrow> (Inl (ReadFailed (fcPath collector) err), s)
      | Inr dat \<Rightarrow> (Inr [\<lparr>Source = fcPath collector, Value = dat, Revision = 0\<rparr>], s))"

record fileDataPublisher =
  fpPath :: string

definition NewFileDataPublisher :: "string \<Rightarrow> fileDataPublisher" where
  "NewFileDataPublisher path = \<lparr>fpPath = path\<rparr>"

definition PublishFile ::
  "'s world \<Rightarrow> fileDataPublisher \<Rightarrow> int \<Rightarrow> string option \<Rightarrow> 's \<Rightarrow> derr option \<times> 's"
where
  "PublishFile W publisher revision dat s =
     (if revision \<noteq> 0 then (Some (RevisionNotSupported revision), s)
      else if fpPath publisher = [] then (Some PathEmpty, s)
      else
        (case dat of
           None \<Rightarrow> (Some DataNotExist, s)
         | Some bytes \<Rightarrow>
             (case osWriteFile W s (fpPath publisher) bytes of
                (Some err, s') \<Rightarrow> (Some (WriteFailed (fpPath publisher) err), s')
              | (None, s') \<Rightarrow> (None, s'))))"

section \<open>Data collectors\<close>

datatype 's dataCollector =
    FileCollector "'s fileCollector"
  | EtcdAllCollector etcdAllCollector
  | EtcdKeyCollector etcdKeyCollector
  | TarantoolAllCollector tarantoolAllCollector
  | TarantoolKeyCollector tarantoolKeyCollector
  | IntegrityEtcdAllCollector integrityEtcdAllCollector
  | IntegrityEtcdKeyCollector integrityEtcdKeyCollector
  | IntegrityTarantoolAllCollector integrityTarantoolAllCollector
  | IntegrityTarantoolKeyCollector integrityTarantoolKeyCollector

fun CollectData :: "'s world \<Rightarrow> 's dataCollector \<Rightarrow> 's \<Rightarrow> (derr + data list) \<times> 's" where
  "CollectData W (FileCollector c) s = CollectFile c s"
| "CollectData W (EtcdAllCollector c) s = CollectEtcdAll (wEtcd W) c s"
| "CollectData W (EtcdKeyCollector c) s = CollectEtcdKey (wEtcd W) c s"
| "CollectData W (TarantoolAllCollector c) s = CollectTarantoolAll (wTarantool W) c s"
| "CollectData W (TarantoolKeyCollector c) s = CollectTarantoolKey (wTarantool W) c s"
| "CollectData W (IntegrityEtcdAllCollector c) s = CollectIntegrityEtcdAll (wEtcd W) c s"
| "CollectData W (IntegrityEtcdKeyCollector c) s = CollectIntegrityEtcdKey (wEtcd W) c s"
| "CollectData W (IntegrityTarantoolAllCollector c) s =
     CollectIntegrityTarantoolAll (wTarantool W) c s"
| "CollectData W (IntegrityTarantoolKeyCollector c) s =
     CollectIntegrityTarantoolKey (wTarantool W) c s"

datatype 's dataCollectorFactory =
    CollectorsFactory
  | IntegrityCollectorsFactory check_func "'s read_func"

definition NewDataCollectorFactory :: "'s dataCollectorFactory" where
  "NewDataCollectorFactory = CollectorsFactory"

definition NewIntegrityDataCollectorFactory ::
  "check_func \<Rightarrow> 's read_func \<Rightarrow> 's dataCollectorFactory"
where
  "NewIntegrityDataCollectorFactory checkFunc fileReadFunc =
     IntegrityCollectorsFactory checkFunc fileReadFunc"

definition factoryNewFile :: "'s world \<Rightarrow> string \<Rightarrow> 's dataCollector" where
  "factoryNewFile W path = FileCollector (NewFileCollector W path)"

definition factoryNewEtcd :: "string \<Rightarrow> string \<Rightarrow> int \<Rightarrow> 's dataCollector" where
  "factoryNewEtcd pref key timeout =
     (if key = [] then EtcdAllCollector (NewEtcdAllCollector pref timeout)
      else EtcdKeyCollector (NewEtcdKeyCollector pref key timeout))"

definition factoryNewTarantool :: "string \<Rightarrow> string \<Rightarrow> int \<Rightarrow> 's dataCollector" where
  "factoryNewTarantool pref key timeout =
     (if key = [] then TarantoolAllCollector (NewTarantoolAllCollector pref timeout)
      else TarantoolKeyCollector (NewTarantoolKeyCollector pref key timeout))"

definition integrityFactoryNewFile :: "'s read_func \<Rightarrow> string \<Rightarrow> 's dataCollector" where
  "integrityFactoryNewFile fileReadFunc path =
     FileCollector (NewIntegrityFileCollector fileReadFunc path)"

definition integrityFactoryNewEtcd ::
  "check_func \<Rightarrow> string \<Rightarrow> string \<Rightarrow> int \<Rightarrow> 's dataCollector"
where
  "integrityFactoryNewEtcd checkFunc pref key timeout =
     (if key = []
      then IntegrityEtcdAllCollector (NewIntegrityEtcdAllCollector checkFunc pref timeout)
      else IntegrityEtcdKeyCollector (NewIntegrityEtcdKeyCollector checkFunc pref key timeout))"

definition integrityFactoryNewTarantool ::
  "check_func \<Rightarrow> string \<Rightarrow> string \<Rightarrow> int \<Rightarrow> 's dataCollector"
where
  "integrityFactoryNewTarantool checkFunc pref key timeout =
     (if key = []
      then IntegrityTarantoolAllCollector (NewIntegrityTarantoolAllCollector checkFunc pref timeout)
      else IntegrityTarantoolKeyCollector
        (NewIntegrityTarantoolKeyCollector checkFunc pref key timeout))"

text \<open>The methods of the interface \<^verbatim>\<open>DataCollectorFactory\<close>.\<close>

fun CollectorNewFile :: "'s world \<Rightarrow> 's dataCollectorFactory \<Rightarrow> string \<Rightarrow> 's dataCollector" where
  "CollectorNewFile W CollectorsFactory path = factoryNewFile W path"
| "CollectorNewFile W (IntegrityCollectorsFactory checkFunc fileReadFunc) path =
     integrityFactoryNewFile fileReadFunc path"

fun CollectorNewEtcd ::
  "'s dataCollectorFactory \<Rightarrow> string \<Rightarrow> string \<Rightarrow> int \<Rightarrow> 's dataCollector"
where
  "CollectorNewEtcd CollectorsFactory pref key timeout = factoryNewEtcd pref key timeout"
| "CollectorNewEtcd (IntegrityCollectorsFactory checkFunc fileReadFunc) pref key timeout =
     integrityFactoryNewEtcd checkFunc pref key timeout"

fun CollectorNewTarantool ::
  "'s dataCollectorFactory \<Rightarrow> string \<Rightarrow> string \<Rightarrow> int \<Rightarrow> 's dataCollector"
where
  "CollectorNewTarantool CollectorsFactory pref key timeout = factoryNewTarantool pref key timeout"
| "CollectorNewTarantool (IntegrityCollectorsFactory checkFunc fileReadFunc) pref key timeout =
     integrityFactoryNewTarantool checkFunc pref key timeout"

section \<open>Data publishers\<close>

datatype dataPublisher =
    FileDataPublisher fileDataPublisher
  | EtcdAllDataPublisher etcdAllDataPublisher
  | IntegrityEtcdAllDataPublisher integrityEtcdAllDataPublisher
  | EtcdKeyDataPublisher etcdKeyDataPublisher
  | TarantoolAllDataPublisher tarantoolAllDataPublisher
  | TarantoolKeyDataPublisher tarantoolKeyDataPublisher

text \<open>
  The Tarantool publishers do not tell \<^verbatim>\<open>nil\<close> data from empty data: they convert it to a
  string.
\<close>

fun PublishData ::
  "'s world \<Rightarrow> dataPublisher \<Rightarrow> int \<Rightarrow> string option \<Rightarrow> 's \<Rightarrow> (derr option \<times> 's) option"
where
  "PublishData W (FileDataPublisher p) revision dat s = Some (PublishFile W p revision dat s)"
| "PublishData W (EtcdAllDataPublisher p) revision dat s =
     PublishEtcdAll (wEtcd W) p revision dat s"
| "PublishData W (IntegrityEtcdAllDataPublisher p) revision dat s =
     PublishIntegrityEtcdAll (wEtcd W) p revision dat s"
| "PublishData W (EtcdKeyDataPublisher p) revision dat s =
     Some (PublishEtcdKey (wEtcd W) p revision dat s)"
| "PublishData W (TarantoolAllDataPublisher p) revision dat s =
     Some (PublishTarantoolAll (wTarantool W) p revision (case dat of None \<Rightarrow> [] | Some d \<Rightarrow> d) s)"
| "PublishData W (TarantoolKeyDataPublisher p) revision dat s =
     Some (PublishTarantoolKey (wTarantool W) p revision (case dat of None \<Rightarrow> [] | Some d \<Rightarrow> d) s)"

datatype dataPublisherFactory = PublishersFactory | IntegrityPublishersFactory sign_func

definition NewDataPublisherFactory :: dataPublisherFactory where
  "NewDataPublisherFactory = PublishersFactory"

definition NewIntegrityDataPublisherFactory :: "sign_func \<Rightarrow> dataPublisherFactory" where
  "NewIntegrityDataPublisherFactory signFunc = IntegrityPublishersFactory signFunc"

definition publishersNewFile :: "string \<Rightarrow> derr + dataPublisher" where
  "publishersNewFile path = Inr (FileDataPublisher (NewFileDataPublisher path))"

definition publishersNewEtcd :: "string \<Rightarrow> string \<Rightarrow> int \<Rightarrow> dataPublisher" where
  "publishersNewEtcd pref key timeout =
     (if key = [] then EtcdAllDataPublisher (NewEtcdAllDataPublisher pref timeout)
      else EtcdKeyDataPublisher (NewEtcdKeyDataPublisher pref key timeout))"

definition publishersNewTarantool :: "string \<Rightarrow> string \<Rightarrow> int \<Rightarrow> dataPublisher" where
  "publishersNewTarantool pref key timeout =
     (if key = [] then TarantoolAllDataPublisher (NewTarantoolAllDataPublisher pref timeout)
      else TarantoolKeyDataPublisher (NewTarantoolKeyDataPublisher pref key timeout))"

definition integrityPublishersNewFile :: "string \<Rightarrow> derr + dataPublisher" where
  "integrityPublishersNewFile path = Inl FilePublishUnsupported"

definition integrityPublishersNewEtcd ::
  "sign_func \<Rightarrow> string \<Rightarrow> string \<Rightarrow> int \<Rightarrow> dataPublisher"
where
  "integrityPublishersNewEtcd signFunc pref key timeout =
     (if key = []
      then IntegrityEtcdAllDataPublisher (NewIntegrityEtcdAllDataPublisher signFunc pref timeout)
      else EtcdKeyDataPublisher (NewIntegrityEtcdKeyDataPublisher signFunc pref key timeout))"

definition integrityPublishersNewTarantool ::
  "sign_func \<Rightarrow> string \<Rightarrow> string \<Rightarrow> int \<Rightarrow> dataPublisher"
where
  "integrityPublishersNewTarantool signFunc pref key timeout =
     (if key = []
      then TarantoolAllDataPublisher (NewIntegrityTarantoolAllDataPublisher signFunc pref timeout)
      else TarantoolKeyDataPublisher (NewIntegrityTarantoolKeyDataPublisher signFunc pref key timeout))"

text \<open>The methods of the interface \<^verbatim>\<open>DataPublisherFactory\<close>.\<close>

fun PublisherNewFile :: "dataPublisherFactory \<Rightarrow> string \<Rightarrow> derr + dataPublisher" where
  "PublisherNewFile PublishersFactory path = publishersNewFile path"
| "PublisherNewFile (IntegrityPublishersFactory signFunc) path = integrityPublishersNewFile path"

fun PublisherNewEtcd :: "dataPublisherFactory \<Rightarrow> string \<Rightarrow> string \<Rightarrow> int \<Rightarrow> dataPublisher" where
  "PublisherNewEtcd PublishersFactory pref key timeout = publishersNewEtcd pref key timeout"
| "PublisherNewEtcd (IntegrityPublishersFactory signFunc) pref key timeout =
     integrityPublishersNewEtcd signFunc pref key timeout"

fun PublisherNewTarantool ::
  "dataPublisherFactory \<Rightarrow> string \<Rightarrow> string \<Rightarrow> int \<Rightarrow> dataPublisher"
where
  "PublisherNewTarantool PublishersFactory pref key timeout = publishersNewTarantool pref key timeout"
| "PublisherNewTarantool (IntegrityPublishersFactory signFunc) pref key timeout =
     integrityPublishersNewTarantool signFunc pref key timeout"

section \<open>YAML\<close>

text \<open>
  The decoder of \<^verbatim>\<open>yaml.v3\<close> is the argument \<open>unyaml\<close>: a syntax error, no value (an empty
  or null document, for which it does not call \<^verbatim>\<open>UnmarshalYAML\<close>), or what decoding the
  document into an \<^verbatim>\<open>any\<close> returns. The encoder is the argument \<open>encode\<close> of \<open>ConfigString\<close>.
\<close>

type_synonym unyaml = "string \<Rightarrow> string + (string + gval) option"

definition CollectYaml :: "unyaml \<Rightarrow> string \<Rightarrow> yerr + config" where
  "CollectYaml unyaml bytes =
     (case unyaml bytes of
        Inl err \<Rightarrow> Inl (YamlSyntax err)
      | Inr None \<Rightarrow> Inr NewConfig
      | Inr (Some raw) \<Rightarrow>
          (case UnmarshalYAML raw NewConfig of
             (Some err, _) \<Rightarrow> Inl (YamlConfig err)
           | (None, cfg) \<Rightarrow> Inr cfg))"

fun CollectYamlDataMerge :: "unyaml \<Rightarrow> data list \<Rightarrow> config \<Rightarrow> derr + config" where
  "CollectYamlDataMerge unyaml [] cconfig = Inr cconfig"
| "CollectYamlDataMerge unyaml (src # rest) cconfig =
     (case CollectYaml unyaml (Value src) of
        Inl err \<Rightarrow> Inl (DecodeFailed (Source src) err)
      | Inr cfg \<Rightarrow> CollectYamlDataMerge unyaml rest (Merge cconfig cfg))"

definition CollectYamlDecorator ::
  "unyaml \<Rightarrow> 's world \<Rightarrow> 's dataCollector \<Rightarrow> 's \<Rightarrow> (derr + config) \<times> 's"
where
  "CollectYamlDecorator unyaml W rawCollector s =
     (case CollectData W rawCollector s of
        (Inl err, s') \<Rightarrow> (Inl err, s')
      | (Inr raw, s') \<Rightarrow> (CollectYamlDataMerge unyaml raw NewConfig, s'))"

text \<open>
  \<^verbatim>\<open>NewCollectorFactory\<close> wraps a factory: what its collectors return is decoded as YAML.
\<close>

datatype 's collector = YamlCollectorDecorator "'s dataCollector"

definition NewYamlCollectorDecorator :: "'s dataCollector \<Rightarrow> 's collector" where
  "NewYamlCollectorDecorator c = YamlCollectorDecorator c"

datatype 's collectorFactory = YamlDataCollectorFactoryDecorator "'s dataCollectorFactory"

definition NewCollectorFactory :: "'s dataCollectorFactory \<Rightarrow> 's collectorFactory" where
  "NewCollectorFactory f = YamlDataCollectorFactoryDecorator f"

fun YamlNewFile :: "'s world \<Rightarrow> 's collectorFactory \<Rightarrow> string \<Rightarrow> 's collector" where
  "YamlNewFile W (YamlDataCollectorFactoryDecorator rawFactory) path =
     NewYamlCollectorDecorator (CollectorNewFile W rawFactory path)"

fun YamlNewEtcd :: "'s collectorFactory \<Rightarrow> string \<Rightarrow> string \<Rightarrow> int \<Rightarrow> 's collector" where
  "YamlNewEtcd (YamlDataCollectorFactoryDecorator rawFactory) pref key timeout =
     NewYamlCollectorDecorator (CollectorNewEtcd rawFactory pref key timeout)"

fun YamlNewTarantool :: "'s collectorFactory \<Rightarrow> string \<Rightarrow> string \<Rightarrow> int \<Rightarrow> 's collector" where
  "YamlNewTarantool (YamlDataCollectorFactoryDecorator rawFactory) pref key timeout =
     NewYamlCollectorDecorator (CollectorNewTarantool rawFactory pref key timeout)"

text \<open>A nil configuration is \<open>None\<close>; the encoder of \<^verbatim>\<open>String\<close> panics on an error.\<close>

definition PublishYamlConfig ::
  "(gval \<Rightarrow> string option) \<Rightarrow> 's world \<Rightarrow> dataPublisher \<Rightarrow> config option \<Rightarrow> 's \<Rightarrow>
   (derr option \<times> 's) option"
where
  "PublishYamlConfig encode W publisher cfg s =
     (case cfg of
        None \<Rightarrow> Some (Some ConfigNotExist, s)
      | Some c \<Rightarrow>
          (case ConfigString encode c of
             None \<Rightarrow> Some (Some EncodePanic, s)
           | Some text \<Rightarrow> PublishData W publisher 0 (Some text) s))"

section \<open>Environment variables\<close>

fun collectEnv ::
  "(path \<Rightarrow> string) \<Rightarrow> (string \<Rightarrow> string option) \<Rightarrow> path list \<Rightarrow> config \<Rightarrow> derr + config"
where
  "collectEnv formatter env [] cfg = Inr cfg"
| "collectEnv formatter env (p # ps) cfg =
     (case env (formatter p) of
        None \<Rightarrow> collectEnv formatter env ps cfg
      | Some v \<Rightarrow>
          (case Set cfg p (VStr v) of
             (Some err, _) \<Rightarrow> Inl (EnvFailed err)
           | (None, cfg') \<Rightarrow> collectEnv formatter env ps cfg'))"

definition CollectEnv :: "'s world \<Rightarrow> (path \<Rightarrow> string) \<Rightarrow> 's \<Rightarrow> derr + config" where
  "CollectEnv W formatter s = collectEnv formatter (osLookupEnv W s) ConfigEnvPaths NewConfig"

text \<open>The loop stores the variables that are set, one after the other.\<close>

definition envSettings :: "(path \<Rightarrow> string) \<Rightarrow> (string \<Rightarrow> string option) \<Rightarrow> path list \<Rightarrow> (path \<times> gval) list" where
  "envSettings formatter env ps =
     List.map_filter (\<lambda>p. map_option (\<lambda>v. (p, VStr v)) (env (formatter p))) ps"

lemma collectEnv_storeAll:
  "storeAll setOpt cfg (envSettings formatter env ps) = Some cfg' \<Longrightarrow>
     collectEnv formatter env ps cfg = Inr cfg'"
proof (induction ps arbitrary: cfg)
  case Nil
  then show ?case by (simp add: envSettings_def List.map_filter_simps)
next
  case (Cons p ps)
  then show ?case
    by (auto simp: envSettings_def List.map_filter_simps setOpt_def split: option.splits prod.splits)
qed

lemma envSettings_mem:
  "(p, v) \<in> set (envSettings formatter env ps) \<longleftrightarrow> p \<in> set ps \<and> (\<exists>s. env (formatter p) = Some s \<and> v = VStr s)"
  by (force simp: envSettings_def List.map_filter_def)

lemma envSettings_sorted:
  "sorted_wrt incomparable ps \<Longrightarrow>
     sorted_wrt (\<lambda>a b. incomparable (fst a) (fst b)) (envSettings formatter env ps)"
proof (induction ps)
  case (Cons p ps)
  have "\<forall>(q, v) \<in> set (envSettings formatter env ps). incomparable p q"
    using Cons.prems by (auto simp: envSettings_mem)
  moreover have "sorted_wrt (\<lambda>a b. incomparable (fst a) (fst b)) (envSettings formatter env ps)"
    using Cons by simp
  ultimately show ?case
    by (auto simp: envSettings_def List.map_filter_simps split: option.split)
qed (simp add: envSettings_def List.map_filter_simps)

section \<open>Decoding and merging\<close>

text \<open>What the decoder returns is made of Go maps, whose keys are distinct.\<close>

definition decodes_wf :: "unyaml \<Rightarrow> bool" where
  "decodes_wf unyaml \<longleftrightarrow> (\<forall>bytes v. unyaml bytes = Inr (Some (Inr v)) \<longrightarrow> wf_val v)"

lemma wf_deepCast: "wf_val v \<Longrightarrow> wf_val (deepCastStringMapToAnyMap v)"
proof (induction v rule: deepCastStringMapToAnyMap.induct)
  case (1 x)
  have "distinct (map fst (map (\<lambda>(k, v2). (VStr k, deepCastStringMapToAnyMap v2)) x))"
    using "1.prems" by (simp add: comp_def case_prod_beta distinct_map inj_on_def)
  with 1 show ?case by (auto simp del: map_map)
next
  case (2 x)
  have "map fst (map (\<lambda>(k, v2). (k, deepCastStringMapToAnyMap v2)) x) = map fst x"
    by (simp add: comp_def case_prod_beta)
  with 2 show ?case by (auto simp del: map_map)
qed auto

lemma CollectYaml_wf: "decodes_wf unyaml \<Longrightarrow> CollectYaml unyaml bytes = Inr cfg \<Longrightarrow> wf_val (paths cfg)"
  by (auto simp: CollectYaml_def UnmarshalYAML_def NewConfig_def decodes_wf_def wf_deepCast
      split: sum.splits option.splits)

lemma CollectYamlDataMerge_Inr:
  "CollectYamlDataMerge unyaml ds c = Inr c' \<longleftrightarrow>
     (\<exists>cfgs. list_all2 (\<lambda>d cfg. CollectYaml unyaml (Value d) = Inr cfg) ds cfgs \<and> c' = foldl Merge c cfgs)"
  by (induction ds arbitrary: c) (auto simp: list_all2_Cons1 split: sum.splits)

lemma CollectYamlDataMerge_Inl:
  "CollectYamlDataMerge unyaml ds c = Inl e \<Longrightarrow>
     \<exists>pre d post err. ds = pre @ d # post \<and> (\<forall>x \<in> set pre. is_ok (CollectYaml unyaml (Value x))) \<and>
        CollectYaml unyaml (Value d) = Inl err \<and> e = DecodeFailed (Source d) err"
proof (induction ds arbitrary: c)
  case (Cons d ds)
  show ?case
  proof (cases "CollectYaml unyaml (Value d)")
    case (Inl err)
    with Cons.prems show ?thesis
      by (intro exI [of _ "[]"] exI [of _ d] exI [of _ ds] exI [of _ err]) auto
  next
    case (Inr cfg)
    with Cons.prems have "CollectYamlDataMerge unyaml ds (Merge c cfg) = Inl e" by simp
    from Cons.IH [OF this] obtain pre x post err where "ds = pre @ x # post"
      "\<forall>y \<in> set pre. is_ok (CollectYaml unyaml (Value y))"
      "CollectYaml unyaml (Value x) = Inl err" "e = DecodeFailed (Source x) err" by blast
    with Inr show ?thesis
      by (intro exI [of _ "d # pre"] exI [of _ x] exI [of _ post] exI [of _ err]) auto
  qed
qed simp

lemma CollectEnv_gets:
  "\<exists>cfg. CollectEnv W formatter s = Inr cfg \<and>
     map (getOpt cfg) ConfigEnvPaths =
       map (\<lambda>p. map_option VStr (osLookupEnv W s (formatter p))) ConfigEnvPaths"
proof -
  let ?L = "envSettings formatter (osLookupEnv W s) ConfigEnvPaths"
  have srt: "sorted_wrt (\<lambda>a b. incomparable (fst a) (fst b)) ?L"
    by (rule envSettings_sorted) (rule ConfigEnvPaths_incomparable)
  have "\<forall>(p, v) \<in> set ?L. plain_val v" by (auto simp: envSettings_mem plain_val_def)
  from cfg.storeAll_new [OF srt this] obtain cfg where
    cfg: "storeAll setOpt NewConfig ?L = Some cfg" "\<forall>(p, v) \<in> set ?L. getOpt cfg p = Some v"
      "\<forall>q. (\<forall>(p, v) \<in> set ?L. incomparable p q) \<longrightarrow> getOpt cfg q = None" by blast
  have "getOpt cfg p = map_option VStr (osLookupEnv W s (formatter p))" if p: "p \<in> set ConfigEnvPaths" for p
  proof (cases "osLookupEnv W s (formatter p)")
    case None
    have "incomparable q p" if "(q, v) \<in> set ?L" for q v
    proof -
      from that None have "q \<noteq> p" "q \<in> set ConfigEnvPaths" by (auto simp: envSettings_mem)
      with p show ?thesis by (intro sorted_incomparable [OF ConfigEnvPaths_incomparable])
    qed
    with cfg(3) None show ?thesis by auto
  next
    case (Some x)
    with p cfg(2) show ?thesis by (auto simp: envSettings_mem)
  qed
  with collectEnv_storeAll [OF cfg(1)] show ?thesis by (auto simp: CollectEnv_def)
qed

section \<open>Properties\<close>

text \<open>
  Property C10: collecting from the environment never fails, whatever the variables hold and
  however they are named; every path of the table whose variable is set has that string, every
  other path of the table has no value.
\<close>

theorem CollectEnv_complete:
  "\<exists>cfg. CollectEnv W formatter s = Inr cfg \<and>
     map (getOpt cfg) ConfigEnvPaths =
       map (\<lambda>p. map_option VStr (osLookupEnv W s (formatter p))) ConfigEnvPaths"
  by (rule CollectEnv_gets)

text \<open>
  A collector that decodes every collected document as YAML and merges them fails
  with the first document that does not decode. Otherwise every value of the result comes from a
  document, and at every path the first document that has a value there wins, provided the
  documents before it have nothing at the path and no value that is not a map above it.
\<close>

theorem CollectYamlDecorator_merge:
  assumes "decodes_wf unyaml" and "CollectData W rawCollector s = (Inr ds, s')"
  shows "case CollectYamlDecorator unyaml W rawCollector s of
    (Inl e, s'') \<Rightarrow> s'' = s' \<and> (\<exists>pre d post err. ds = pre @ d # post \<and>
        (\<forall>x \<in> set pre. is_ok (CollectYaml unyaml (Value x))) \<and>
        CollectYaml unyaml (Value d) = Inl err \<and> e = DecodeFailed (Source d) err)
  | (Inr cfg, s'') \<Rightarrow> s'' = s' \<and> wf_val (paths cfg) \<and>
      (\<forall>q x. leaf (paths cfg) q = Some x \<longrightarrow>
         (\<exists>d \<in> set ds. \<exists>c. CollectYaml unyaml (Value d) = Inr c \<and> leaf (paths c) q = Some x)) \<and>
      (\<forall>pre d post c q x. ds = pre @ d # post \<and> CollectYaml unyaml (Value d) = Inr c \<and>
         leaf (paths c) q = Some x \<and>
         (\<forall>d' \<in> set pre. \<forall>c'. CollectYaml unyaml (Value d') = Inr c' \<longrightarrow> silent c' q) \<longrightarrow>
         leaf (paths cfg) q = Some x)"
proof (cases "CollectYamlDataMerge unyaml ds NewConfig")
  case (Inl e)
  from CollectYamlDataMerge_Inl [OF Inl] assms(2) Inl show ?thesis
    by (simp add: CollectYamlDecorator_def)
next
  case (Inr cfg)
  then obtain cfgs where cfgs: "list_all2 (\<lambda>d c. CollectYaml unyaml (Value d) = Inr c) ds cfgs"
    "cfg = foldl Merge NewConfig cfgs" by (auto simp: CollectYamlDataMerge_Inr)
  have new: "leaf (paths NewConfig) q = None" for q by (simp add: leaf_def NewConfig_def)
  have wf: "\<forall>c \<in> set cfgs. wf_val (paths c)"
    using list_all2_in2 [OF cfgs(1)] CollectYaml_wf [OF assms(1)] by blast
  then have "wf_val (paths cfg)" unfolding cfgs(2) by (rule wf_Merges) (simp add: NewConfig_def)
  moreover have "\<exists>d \<in> set ds. \<exists>c. CollectYaml unyaml (Value d) = Inr c \<and> leaf (paths c) q = Some x"
    if "leaf (paths cfg) q = Some x" for q x
    using Merges_source [OF wf, of NewConfig q x] that new cfgs(2) list_all2_in2 [OF cfgs(1)] by fastforce
  moreover have "leaf (paths cfg) q = Some x"
    if d: "ds = pre @ d # post" "CollectYaml unyaml (Value d) = Inr c" "leaf (paths c) q = Some x"
      "\<forall>d' \<in> set pre. \<forall>c'. CollectYaml unyaml (Value d') = Inr c' \<longrightarrow> silent c' q" for pre d post c q x
  proof -
    from cfgs(1) d(1,2) obtain pre' post' where p: "cfgs = pre' @ c # post'"
      "list_all2 (\<lambda>d c. CollectYaml unyaml (Value d) = Inr c) pre pre'"
      by (auto simp: list_all2_append1 list_all2_Cons1)
    then have "\<forall>c' \<in> set pre'. silent c' q"
      using d(4) list_all2_in2 [OF p(2)] by blast
    with wf d(3) show ?thesis unfolding cfgs(2) p(1) by (intro Merges_first) auto
  qed
  ultimately show ?thesis using Inr assms(2)
    by (simp add: CollectYamlDecorator_def)
qed

text \<open>A decoder for two documents, and a world with a file for each.\<close>

definition demoYaml :: unyaml where
  "demoYaml bytes =
     (if bytes = ''A'' then Inr (Some (Inr (VMap [(VStr ''a'', VStr ''first'')])))
      else if bytes = ''B'' then Inr (Some (Inr (VSMap [(''a'', VStr ''second''), (''b'', VBool True)])))
      else Inl ''syntax'')"

definition demoRead :: "unit read_func" where
  "demoRead s path = Inr ''B''"

lemma demoYaml_wf: "decodes_wf demoYaml"
  by (auto simp: decodes_wf_def demoYaml_def)

theorem CollectYamlDecorator_merge_witness:
  "\<forall>W. \<exists>cfg. CollectYamlDecorator demoYaml W
      (FileCollector (NewIntegrityFileCollector demoRead ''f'')) () = (Inr cfg, ()) \<and>
      leaf (paths cfg) [''b''] = Some (VBool True)"
proof
  fix W :: "unit world"
  let ?c = "FileCollector (NewIntegrityFileCollector demoRead ''f'')"
  let ?d = "\<lparr>Source = ''f'', Value = ''B'', Revision = 0\<rparr>"
  let ?thesis = "\<exists>cfg. CollectYamlDecorator demoYaml W ?c () = (Inr cfg, ()) \<and>
      leaf (paths cfg) [''b''] = Some (VBool True)"
  have d: "CollectData W ?c () = (Inr [?d], ())"
    by (simp add: CollectFile_def NewIntegrityFileCollector_def demoRead_def)
  have y: "CollectYaml demoYaml ''B'' = Inr \<lparr>paths = VMap [(VStr ''a'', VStr ''second''), (VStr ''b'', VBool True)]\<rparr>"
    by (simp add: CollectYaml_def demoYaml_def UnmarshalYAML_def NewConfig_def)
  then obtain cfg where c: "CollectYamlDecorator demoYaml W ?c () = (Inr cfg, ())"
    using d by (simp add: CollectYamlDecorator_def)
  have "\<forall>pre d post c q x. [?d] = pre @ d # post \<and> CollectYaml demoYaml (Value d) = Inr c \<and>
         leaf (paths c) q = Some x \<and>
         (\<forall>d' \<in> set pre. \<forall>c'. CollectYaml demoYaml (Value d') = Inr c' \<longrightarrow> silent c' q) \<longrightarrow>
         leaf (paths cfg) q = Some x"
    using CollectYamlDecorator_merge [OF demoYaml_wf d]
    unfolding c prod.case sum.case by (elim conjE)
  from this [rule_format, of "[]" ?d "[]" _ "[''b'']" "VBool True"] y
  have "leaf (paths cfg) [''b''] = Some (VBool True)" by (simp add: leaf_def mapIndex_def)
  with c show ?thesis by blast
qed

end
