(* ===== verification/Schema.thy ===== *)
theory Schema
  imports Validation Collectors
begin

text \<open>
  The table \<^verbatim>\<open>TarantoolSchema\<close> of \<^verbatim>\<open>lib/cluster/paths.go\<close>: the validator of every
  configuration option, in the order of the source, in parts. The literal table is followed by
  what holds of it: it can be checked in any order, no entry hides another one, and it covers
  the options that can be set from the environment.
\<close>

abbreviation schema :: "path \<Rightarrow> validator \<Rightarrow> schemaPath" where
  "schema p v \<equiv> \<lparr>Path = p, Validator = v\<rparr>"

definition TarantoolSchema1 :: "schemaPath list" where
  "TarantoolSchema1 = [
     schema [''app'', ''cfg'']
       (MapValidator StringValidator AnyValidator),
     schema [''app'', ''file''] StringValidator,
     schema [''app'', ''module''] StringValidator,
     schema [''audit_log'', ''extract_key''] BooleanValidator,
     schema [''audit_log'', ''file''] StringValidator,
     schema [''audit_log'', ''filter'']
       (ArrayValidator (AllowedValidator StringValidator [
           VStr ''audit_enable'', VStr ''custom'', VStr ''auth_ok'', VStr ''auth_fail'',
           VStr ''disconnect'', VStr ''user_create'', VStr ''user_drop'', VStr ''role_create'',
           VStr ''role_drop'', VStr ''user_enable'', VStr ''user_disable'',
           VStr ''user_grant_rights'', VStr ''user_revoke_rights'', VStr ''role_grant_rights'',
           VStr ''role_revoke_rights'', VStr ''password_change'', VStr ''access_denied'',
           VStr ''eval'', VStr ''call'', VStr ''space_select'', VStr ''space_create'',
           VStr ''space_alter'', VStr ''space_drop'', VStr ''space_insert'',
           VStr ''space_replace'', VStr ''space_delete'', VStr ''none'', VStr ''all'',
           VStr ''audit'', VStr ''auth'', VStr ''priv'', VStr ''ddl'', VStr ''dml'',
           VStr ''data_operations'', VStr ''compatibility''])),
     schema [''audit_log'', ''format'']
       (AllowedValidator StringValidator [
           VStr ''plain'', VStr ''json'', VStr ''csv'']),
     schema [''audit_log'', ''nonblock''] BooleanValidator,
     schema [''audit_log'', ''pipe''] StringValidator,
     schema [''audit_log'', ''spaces''] (ArrayValidator StringValidator),
     schema [''audit_log'', ''syslog'', ''facility''] StringValidator,
     schema [''audit_log'', ''syslog'', ''identity''] StringValidator,
     schema [''audit_log'', ''syslog'', ''server''] StringValidator,
     schema [''audit_log'', ''to'']
       (AllowedValidator StringValidator [
           VStr ''devnull'', VStr ''file'', VStr ''pipe'', VStr ''syslog'']),
     schema [''compat'', ''binary_data_decoding'']
       (AllowedValidator StringValidator [
           VStr ''old'', VStr ''new'']),
     schema [''compat'', ''box_cfg_replication_sync_timeout'']
       (AllowedValidator StringValidator [
           VStr ''old'', VStr ''new'']),
     schema [''compat'', ''box_error_serialize_verbose'']
       (AllowedValidator StringValidator [
           VStr ''old'', VStr ''new''])]"

definition TarantoolSchema2 :: "schemaPath list" where
  "TarantoolSchema2 = [
     schema [''compat'', ''box_error_unpack_type_and_code'']
       (AllowedValidator StringValidator [
           VStr ''old'', VStr ''new'']),
     schema [''compat'', ''box_info_cluster_meaning'']
       (AllowedValidator StringValidator [
           VStr ''old'', VStr ''new'']),
     schema [''compat'', ''box_session_push_deprecation'']
       (AllowedValidator StringValidator [
           VStr ''old'', VStr ''new'']),
     schema [''compat'', ''box_space_execute_priv'']
       (AllowedValidator StringValidator [
           VStr ''old'', VStr ''new'']),
     schema [''compat'', ''box_space_max'']
       (AllowedValidator StringValidator [
           VStr ''old'', VStr ''new'']),
     schema [''compat'', ''box_tuple_extension'']
       (AllowedValidator StringValidator [
           VStr ''old'', VStr ''new'']),
     schema [''compat'', ''box_tuple_new_vararg'']
       (AllowedValidator StringValidator [
           VStr ''old'', VStr ''new'']),
     schema [''compat'', ''c_func_iproto_multireturn'']
       (AllowedValidator StringValidator [
           VStr ''old'', VStr ''new'']),
     schema [''compat'', ''fiber_channel_close_mode'']
       (AllowedValidator StringValidator [
           VStr ''old'', VStr ''new'']),
     schema [''compat'', ''fiber_slice_default'']
       (AllowedValidator StringValidator [
           VStr ''old'', VStr ''new'']),
     schema [''compat'', ''json_escape_forward_slash'']
       (AllowedValidator StringValidator [
           VStr ''old'', VStr ''new'']),
     schema [''compat'', ''sql_priv'']
       (AllowedValidator StringValidator [
           VStr ''old'', VStr ''new'']),
     schema [''compat'', ''sql_seq_scan_default'']
       (AllowedValidator StringValidator [
           VStr ''old'', VStr ''new'']),
     schema [''compat'', ''yaml_pretty_multiline'']
       (AllowedValidator StringValidator [
           VStr ''old'', VStr ''new''])]"

definition TarantoolSchema3 :: "schemaPath list" where
  "TarantoolSchema3 = [
     schema [''config'', ''context'']
       (MapValidator StringValidator (RecordValidator [
           (''file'', StringValidator),
           (''from'', AllowedValidator StringValidator [
             VStr ''env'', VStr ''file'']),
           (''rstrip'', BooleanValidator),
           (''env'', StringValidator)])),
     schema [''config'', ''etcd'', ''endpoints''] (ArrayValidator StringValidator),
     schema [''config'', ''etcd'', ''http'', ''request'', ''timeout''] NumberValidator,
     schema [''config'', ''etcd'', ''http'', ''request'', ''unix_socket''] StringValidator,
     schema [''config'', ''etcd'', ''password''] StringValidator,
     schema [''config'', ''etcd'', ''prefix''] StringValidator,
     schema [''config'', ''etcd'', ''ssl'', ''ca_file''] StringValidator,
     schema [''config'', ''etcd'', ''ssl'', ''ca_path''] StringValidator,
     schema [''config'', ''etcd'', ''ssl'', ''ssl_key''] StringValidator,
     schema [''config'', ''etcd'', ''ssl'', ''verify_host''] BooleanValidator,
     schema [''config'', ''etcd'', ''ssl'', ''verify_peer''] BooleanValidator,
     schema [''config'', ''etcd'', ''username''] StringValidator,
     schema [''config'', ''etcd'', ''watchers'', ''reconnect_max_attempts''] IntegerValidator,
     schema [''config'', ''etcd'', ''watchers'', ''reconnect_timeout''] NumberValidator,
     schema [''config'', ''reload'']
       (AllowedValidator StringValidator [
           VStr ''auto'', VStr ''manual'']),
     schema [''config'', ''storage'', ''endpoints'']
       (ArrayValidator (RecordValidator [
           (''password'', StringValidator),
           (''params'', RecordValidator [
             (''ssl_password'', StringValidator),
             (''ssl_key_file'', StringValidator),
             (''transport'', AllowedValidator StringValidator [
               VStr ''plain'', VStr ''ssl'']),
             (''ssl_password_file'', StringValidator),
             (''ssl_cert_file'', StringValidator),
             (''ssl_ciphers'', StringValidator),
             (''ssl_ca_file'', StringValidator)]),
           (''uri'', StringValidator),
           (''login'', StringValidator)])),
     schema [''config'', ''storage'', ''prefix''] StringValidator,
     schema [''config'', ''storage'', ''reconnect_after''] NumberValidator,
     schema [''config'', ''storage'', ''timeout''] NumberValidator,
     schema [''console'', ''enabled''] BooleanValidator,
     schema [''console'', ''socket''] StringValidator]"

definition TarantoolSchema4 :: "schemaPath list" where
  "TarantoolSchema4 = [
     schema [''credentials'', ''roles'']
       (MapValidator StringValidator (RecordValidator [
           (''privileges'', ArrayValidator (RecordValidator [
             (''sequences'', ArrayValidator StringValidator),
             (''spaces'', ArrayValidator StringValidator),
             (''sql'', ArrayValidator (AllowedValidator StringValidator [
               VStr ''all''])),
             (''lua_call'', ArrayValidator (AllowedValidator StringValidator [
               VStr ''all''])),
             (''universe'', BooleanValidator),
             (''lua_eval'', BooleanValidator),
             (''permissions'', ArrayValidator (AllowedValidator StringValidator [
               VStr ''read'', VStr ''write'', VStr ''execute'', VStr ''create'', VStr ''alter'',
               VStr ''drop'', VStr ''usage'', VStr ''session''])),
             (''functions'', ArrayValidator StringValidator)])),
           (''roles'', ArrayValidator StringValidator)])),
     schema [''credentials'', ''users'']
       (MapValidator StringValidator (RecordValidator [
           (''password'', StringValidator),
           (''roles'', ArrayValidator StringValidator),
           (''privileges'', ArrayValidator (RecordValidator [
             (''sequences'', ArrayValidator StringValidator),
             (''spaces'', ArrayValidator StringValidator),
             (''sql'', ArrayValidator (AllowedValidator StringValidator [
               VStr ''all''])),
             (''lua_call'', ArrayValidator (AllowedValidator StringValidator [
               VStr ''all''])),
             (''universe'', BooleanValidator),
             (''lua_eval'', BooleanValidator),
             (''permissions'', ArrayValidator (AllowedValidator StringValidator [
               VStr ''read'', VStr ''write'', VStr ''execute'', VStr ''create'', VStr ''alter'',
               VStr ''drop'', VStr ''usage'', VStr ''session''])),
             (''functions'', ArrayValidator StringValidator)]))])),
     schema [''database'', ''hot_standby''] BooleanValidator,
     schema [''database'', ''instance_uuid''] StringValidator,
     schema [''database'', ''mode'']
       (AllowedValidator StringValidator [
           VStr ''ro'', VStr ''rw'']),
     schema [''database'', ''replicaset_uuid''] StringValidator,
     schema [''database'', ''txn_isolation'']
       (AllowedValidator StringValidator [
           VStr ''read-committed'', VStr ''read-confirmed'', VStr ''best-effort'']),
     schema [''database'', ''txn_timeout''] NumberValidator,
     schema [''database'', ''use_mvcc_engine''] BooleanValidator,
     schema [''failover'', ''call_timeout''] NumberValidator,
     schema [''failover'', ''connect_timeout''] NumberValidator]"

definition TarantoolSchema5 :: "schemaPath list" where
  "TarantoolSchema5 = [
     schema [''failover'', ''lease_interval''] NumberValidator,
     schema [''failover'', ''probe_interval''] NumberValidator,
     schema [''failover'', ''renew_interval''] NumberValidator,
     schema [''feedback'', ''crashinfo''] BooleanValidator,
     schema [''feedback'', ''enabled''] BooleanValidator,
     schema [''feedback'', ''host''] StringValidator,
     schema [''feedback'', ''interval''] NumberValidator,
     schema [''feedback'', ''metrics_collect_interval''] NumberValidator,
     schema [''feedback'', ''metrics_limit''] IntegerValidator,
     schema [''feedback'', ''send_metrics''] BooleanValidator,
     schema [''fiber'', ''io_collect_interval''] NumberValidator,
     schema [''fiber'', ''slice'', ''err''] NumberValidator,
     schema [''fiber'', ''slice'', ''warn''] NumberValidator,
     schema [''fiber'', ''too_long_threshold''] NumberValidator,
     schema [''fiber'', ''top'', ''enabled''] BooleanValidator,
     schema [''fiber'', ''worker_pool_threads''] NumberValidator,
     schema [''flightrec'', ''enabled''] BooleanValidator,
     schema [''flightrec'', ''logs_log_level'']
       (AllowedValidator IntegerValidator [
           VInt KInt 0, VInt KInt 1, VInt KInt 2, VInt KInt 3, VInt KInt 4, VInt KInt 5,
           VInt KInt 6, VInt KInt 7]),
     schema [''flightrec'', ''logs_max_msg_size''] IntegerValidator,
     schema [''flightrec'', ''logs_size''] IntegerValidator,
     schema [''flightrec'', ''metrics_interval''] NumberValidator,
     schema [''flightrec'', ''metrics_period''] NumberValidator,
     schema [''flightrec'', ''requests_max_req_size''] IntegerValidator,
     schema [''flightrec'', ''requests_max_res_size''] IntegerValidator,
     schema [''flightrec'', ''requests_size''] IntegerValidator,
     schema [''iproto'', ''advertise'', ''client''] StringValidator,
     schema [''iproto'', ''advertise'', ''peer'', ''login''] StringValidator,
     schema [''iproto'', ''advertise'', ''peer'', ''params'', ''ssl_ca_file''] StringValidator,
     schema [''iproto'', ''advertise'', ''peer'', ''params'', ''ssl_cert_file''] StringValidator,
     schema [''iproto'', ''advertise'', ''peer'', ''params'', ''ssl_ciphers''] StringValidator,
     schema [''iproto'', ''advertise'', ''peer'', ''params'', ''ssl_key_file''] StringValidator,
     schema [''iproto'', ''advertise'', ''peer'', ''params'', ''ssl_password''] StringValidator]"

definition TarantoolSchema6 :: "schemaPath list" where
  "TarantoolSchema6 = [
     schema [''iproto'', ''advertise'', ''peer'', ''params'', ''ssl_password_file''] StringValidator,
     schema [''iproto'', ''advertise'', ''peer'', ''params'', ''transport'']
       (AllowedValidator StringValidator [
           VStr ''plain'', VStr ''ssl'']),
     schema [''iproto'', ''advertise'', ''peer'', ''password''] StringValidator,
     schema [''iproto'', ''advertise'', ''peer'', ''uri''] StringValidator,
     schema [''iproto'', ''advertise'', ''sharding'', ''login''] StringValidator,
     schema [''iproto'', ''advertise'', ''sharding'', ''params'', ''ssl_ca_file''] StringValidator,
     schema [''iproto'', ''advertise'', ''sharding'', ''params'', ''ssl_cert_file''] StringValidator,
     schema [''iproto'', ''advertise'', ''sharding'', ''params'', ''ssl_ciphers''] StringValidator,
     schema [''iproto'', ''advertise'', ''sharding'', ''params'', ''ssl_key_file''] StringValidator,
     schema [''iproto'', ''advertise'', ''sharding'', ''params'', ''ssl_password''] StringValidator,
     schema [''iproto'', ''advertise'', ''sharding'', ''params'', ''ssl_password_file''] StringValidator,
     schema [''iproto'', ''advertise'', ''sharding'', ''params'', ''transport'']
       (AllowedValidator StringValidator [
           VStr ''plain'', VStr ''ssl'']),
     schema [''iproto'', ''advertise'', ''sharding'', ''password''] StringValidator,
     schema [''iproto'', ''advertise'', ''sharding'', ''uri''] StringValidator,
     schema [''iproto'', ''listen'']
       (ArrayValidator (RecordValidator [
           (''uri'', StringValidator),
           (''params'', RecordValidator [
             (''ssl_password'', StringValidator),
             (''ssl_key_file'', StringValidator),
             (''transport'', AllowedValidator StringValidator [
               VStr ''plain'', VStr ''ssl'']),
             (''ssl_password_file'', StringValidator),
             (''ssl_cert_file'', StringValidator),
             (''ssl_ciphers'', StringValidator),
             (''ssl_ca_file'', StringValidator)])])),
     schema [''iproto'', ''net_msg_max''] IntegerValidator,
     schema [''iproto'', ''readahead''] IntegerValidator,
     schema [''iproto'', ''threads''] IntegerValidator,
     schema [''log'', ''file''] StringValidator,
     schema [''log'', ''format'']
       (AllowedValidator StringValidator [
           VStr ''plain'', VStr ''json'']),
     schema [''log'', ''level'']
       (AllowedValidator (SequenceValidator [NumberValidator, StringValidator]) [
           VInt KInt 0, VStr ''fatal'', VInt KInt 1, VStr ''syserror'', VInt KInt 2,
           VStr ''error'', VInt KInt 3, VStr ''crit'', VInt KInt 4, VStr ''warn'', VInt KInt 5,
           VStr ''info'', VInt KInt 6, VStr ''verbose'', VInt KInt 7, VStr ''debug''])]"

definition TarantoolSchema7 :: "schemaPath list" where
  "TarantoolSchema7 = [
     schema [''log'', ''modules'']
       (MapValidator StringValidator (SequenceValidator [NumberValidator, StringValidator])),
     schema [''log'', ''nonblock''] BooleanValidator,
     schema [''log'', ''pipe''] StringValidator,
     schema [''log'', ''syslog'', ''facility''] StringValidator,
     schema [''log'', ''syslog'', ''identity''] StringValidator,
     schema [''log'', ''syslog'', ''server''] StringValidator,
     schema [''log'', ''to'']
       (AllowedValidator StringValidator [
           VStr ''stderr'', VStr ''file'', VStr ''pipe'', VStr ''syslog'']),
     schema [''memtx'', ''allocator'']
       (AllowedValidator StringValidator [
           VStr ''small'', VStr ''system'']),
     schema [''memtx'', ''max_tuple_size''] IntegerValidator,
     schema [''memtx'', ''memory''] IntegerValidator,
     schema [''memtx'', ''min_tuple_size''] IntegerValidator,
     schema [''memtx'', ''slab_alloc_factor''] NumberValidator,
     schema [''memtx'', ''slab_alloc_granularity''] IntegerValidator,
     schema [''memtx'', ''sort_threads''] IntegerValidator,
     schema [''metrics'', ''exclude'']
       (ArrayValidator (AllowedValidator StringValidator [
           VStr ''all'', VStr ''network'', VStr ''operations'', VStr ''system'',
           VStr ''replicas'', VStr ''info'', VStr ''slab'', VStr ''runtime'', VStr ''memory'',
           VStr ''spaces'', VStr ''fibers'', VStr ''cpu'', VStr ''vinyl'', VStr ''memtx'',
           VStr ''luajit'', VStr ''clock'', VStr ''event_loop''])),
     schema [''metrics'', ''include'']
       (ArrayValidator (AllowedValidator StringValidator [
           VStr ''all'', VStr ''network'', VStr ''operations'', VStr ''system'',
           VStr ''replicas'', VStr ''info'', VStr ''slab'', VStr ''runtime'', VStr ''memory'',
           VStr ''spaces'', VStr ''fibers'', VStr ''cpu'', VStr ''vinyl'', VStr ''memtx'',
           VStr ''luajit'', VStr ''clock'', VStr ''event_loop''])),
     schema [''metrics'', ''labels'']
       (MapValidator StringValidator StringValidator),
     schema [''process'', ''background''] BooleanValidator,
     schema [''process'', ''coredump''] BooleanValidator,
     schema [''process'', ''pid_file''] StringValidator]"

definition TarantoolSchema8 :: "schemaPath list" where
  "TarantoolSchema8 = [
     schema [''process'', ''strip_core''] BooleanValidator,
     schema [''process'', ''title''] StringValidator,
     schema [''process'', ''username''] StringValidator,
     schema [''process'', ''work_dir''] StringValidator,
     schema [''replication'', ''anon''] BooleanValidator,
     schema [''replication'', ''bootstrap_strategy'']
       (AllowedValidator StringValidator [
           VStr ''auto'', VStr ''config'', VStr ''supervised'', VStr ''legacy'']),
     schema [''replication'', ''connect_timeout''] NumberValidator,
     schema [''replication'', ''election_fencing_mode'']
       (AllowedValidator StringValidator [
           VStr ''off'', VStr ''soft'', VStr ''strict'']),
     schema [''replication'', ''election_mode'']
       (AllowedValidator StringValidator [
           VStr ''off'', VStr ''voter'', VStr ''manual'', VStr ''candidate'']),
     schema [''replication'', ''election_timeout''] NumberValidator,
     schema [''replication'', ''failover'']
       (AllowedValidator StringValidator [
           VStr ''off'', VStr ''manual'', VStr ''election'', VStr ''supervised'']),
     schema [''replication'', ''peers''] (ArrayValidator StringValidator),
     schema [''replication'', ''skip_conflict''] BooleanValidator,
     schema [''replication'', ''sync_lag''] NumberValidator,
     schema [''replication'', ''sync_timeout''] NumberValidator,
     schema [''replication'', ''synchro_quorum'']
       (SequenceValidator [NumberValidator, StringValidator]),
     schema [''replication'', ''synchro_timeout''] NumberValidator,
     schema [''replication'', ''threads''] IntegerValidator,
     schema [''replication'', ''timeout''] NumberValidator,
     schema [''roles''] (ArrayValidator StringValidator),
     schema [''roles_cfg'']
       (MapValidator StringValidator AnyValidator),
     schema [''security'', ''auth_delay''] NumberValidator,
     schema [''security'', ''auth_retries''] IntegerValidator,
     schema [''security'', ''auth_type'']
       (AllowedValidator StringValidator [
           VStr ''chap-sha1'', VStr ''pap-sha256'']),
     schema [''security'', ''disable_guest''] BooleanValidator,
     schema [''security'', ''password_enforce_digits''] BooleanValidator]"

definition TarantoolSchema9 :: "schemaPath list" where
  "TarantoolSchema9 = [
     schema [''security'', ''password_enforce_lowercase''] BooleanValidator,
     schema [''security'', ''password_enforce_specialchars''] BooleanValidator,
     schema [''security'', ''password_enforce_uppercase''] BooleanValidator,
     schema [''security'', ''password_history_length''] IntegerValidator,
     schema [''security'', ''password_lifetime_days''] IntegerValidator,
     schema [''security'', ''password_min_length''] IntegerValidator,
     schema [''security'', ''secure_erasing''] BooleanValidator,
     schema [''sharding'', ''bucket_count''] IntegerValidator,
     schema [''sharding'', ''connection_outdate_delay''] NumberValidator,
     schema [''sharding'', ''discovery_mode'']
       (AllowedValidator StringValidator [
           VStr ''on'', VStr ''off'', VStr ''once'']),
     schema [''sharding'', ''failover_ping_timeout''] NumberValidator,
     schema [''sharding'', ''lock''] BooleanValidator,
     schema [''sharding'', ''rebalancer_disbalance_threshold''] NumberValidator,
     schema [''sharding'', ''rebalancer_max_receiving''] IntegerValidator,
     schema [''sharding'', ''rebalancer_max_sending''] IntegerValidator,
     schema [''sharding'', ''rebalancer_mode'']
       (AllowedValidator StringValidator [
           VStr ''manual'', VStr ''auto'', VStr ''off'']),
     schema [''sharding'', ''roles'']
       (ArrayValidator (AllowedValidator StringValidator [
           VStr ''router'', VStr ''storage'', VStr ''rebalancer''])),
     schema [''sharding'', ''sched_move_quota''] NumberValidator,
     schema [''sharding'', ''sched_ref_quota''] NumberValidator,
     schema [''sharding'', ''shard_index''] StringValidator,
     schema [''sharding'', ''sync_timeout''] NumberValidator,
     schema [''sharding'', ''weight''] NumberValidator,
     schema [''sharding'', ''zone''] IntegerValidator,
     schema [''snapshot'', ''by'', ''interval''] NumberValidator,
     schema [''snapshot'', ''by'', ''wal_size''] IntegerValidator,
     schema [''snapshot'', ''count''] IntegerValidator,
     schema [''snapshot'', ''dir''] StringValidator,
     schema [''snapshot'', ''snap_io_rate_limit''] NumberValidator,
     schema [''sql'', ''cache_size''] IntegerValidator,
     schema [''vinyl'', ''bloom_fpr''] NumberValidator]"

definition TarantoolSchema10 :: "schemaPath list" where
  "TarantoolSchema10 = [
     schema [''vinyl'', ''cache''] IntegerValidator,
     schema [''vinyl'', ''defer_deletes''] BooleanValidator,
     schema [''vinyl'', ''dir''] StringValidator,
     schema [''vinyl'', ''max_tuple_size''] IntegerValidator,
     schema [''vinyl'', ''memory''] IntegerValidator,
     schema [''vinyl'', ''page_size''] IntegerValidator,
     schema [''vinyl'', ''range_size''] IntegerValidator,
     schema [''vinyl'', ''read_threads''] IntegerValidator,
     schema [''vinyl'', ''run_count_per_level''] IntegerValidator,
     schema [''vinyl'', ''run_size_ratio''] NumberValidator,
     schema [''vinyl'', ''timeout''] NumberValidator,
     schema [''vinyl'', ''write_threads''] IntegerValidator,
     schema [''wal'', ''cleanup_delay''] NumberValidator,
     schema [''wal'', ''dir''] StringValidator,
     schema [''wal'', ''dir_rescan_delay''] NumberValidator,
     schema [''wal'', ''ext'', ''new''] BooleanValidator,
     schema [''wal'', ''ext'', ''old''] BooleanValidator,
     schema [''wal'', ''ext'', ''spaces'']
       (MapValidator StringValidator (RecordValidator [
           (''old'', BooleanValidator),
           (''new'', BooleanValidator)])),
     schema [''wal'', ''max_size''] IntegerValidator,
     schema [''wal'', ''mode'']
       (AllowedValidator StringValidator [
           VStr ''none'', VStr ''write'', VStr ''fsync'']),
     schema [''wal'', ''queue_max_size''] IntegerValidator,
     schema [''wal'', ''retention_period''] NumberValidator]"

definition TarantoolSchema :: "schemaPath list" where
  "TarantoolSchema = concat [
     TarantoolSchema1, TarantoolSchema2, TarantoolSchema3,
     TarantoolSchema4, TarantoolSchema5, TarantoolSchema6,
     TarantoolSchema7, TarantoolSchema8, TarantoolSchema9,
     TarantoolSchema10]"

section \<open>The table and the environment\<close>

lemma TarantoolSchema_check: "list_all (\<lambda>p. proper (Validator p)) TarantoolSchema"
  by code_simp

lemma TarantoolSchema_proper: "\<forall>p \<in> set TarantoolSchema. proper (Validator p)"
  using TarantoolSchema_check by (simp add: list_all_iff)

lemma schema_paths: "map Path TarantoolSchema = ConfigEnvPaths"
  by code_simp

text \<open>
  The schema entries whose value is a string that the validator rejects, and the error of the
  validator for each of them.
\<close>

definition rejection :: "fops \<Rightarrow> (path \<Rightarrow> string option) \<Rightarrow> schemaPath \<Rightarrow> gerr option" where
  "rejection F env p =
     (case env (Path p) of
        None \<Rightarrow> None
      | Some t \<Rightarrow> (case Validate F (Validator p) (VStr t) of Inl err \<Rightarrow> Some err | Inr _ \<Rightarrow> None))"

definition rejected :: "fops \<Rightarrow> (path \<Rightarrow> string option) \<Rightarrow> schemaPath \<Rightarrow> bool" where
  "rejected F env p =
     (case env (Path p) of None \<Rightarrow> False | Some t \<Rightarrow> \<not> is_ok (Validate F (Validator p) (VStr t)))"

lemma rejected_iff: "rejected F env p \<longleftrightarrow> rejection F env p \<noteq> None"
  by (simp add: rejected_def rejection_def split: option.splits sum.splits)

lemma failing_strings:
  assumes "\<forall>p \<in> set tbl. getOpt cfg (Path p) = map_option VStr (env (Path p))"
  shows "failing F cfg tbl = map (\<lambda>p. (Path p, the (rejection F env p))) (filter (rejected F env) tbl)"
  using assms
proof (induction tbl)
  case (Cons p tbl)
  then have "getOpt cfg (Path p) = map_option VStr (env (Path p))" by simp
  then have "(case Get cfg (Path p) of
        Inl _ \<Rightarrow> []
      | Inr v \<Rightarrow> (case Validate F (Validator p) v of Inl err \<Rightarrow> [(Path p, err)] | Inr _ \<Rightarrow> [])) =
    (case rejection F env p of None \<Rightarrow> [] | Some err \<Rightarrow> [(Path p, err)])"
    by (cases "Get cfg (Path p)"; cases "env (Path p)") (auto simp: getOpt_def rejection_def split: sum.splits)
  with Cons show ?case by (auto simp: failing_def rejected_iff split: option.splits)
qed (simp add: failing_def)

text \<open>Lists and maps cannot come from an environment variable: its value is a string.\<close>

fun structured :: "validator \<Rightarrow> bool" where
  "structured (ArrayValidator v) = True"
| "structured (RecordValidator items) = True"
| "structured (MapValidator k v) = True"
| "structured _ = False"

lemma structured_rejected:
  "structured (Validator p) \<Longrightarrow> env (Path p) = Some t \<Longrightarrow> rejected F env p"
  by (cases "Validator p") (auto simp: rejected_def notA_def)

text \<open>The text of the variable of an option.\<close>

definition envText :: "'s world \<Rightarrow> 's \<Rightarrow> (path \<Rightarrow> string) \<Rightarrow> path \<Rightarrow> string option" where
  "envText W s formatter p = osLookupEnv W s (formatter p)"

section \<open>Properties\<close>

text \<open>
  The schema has an entry for every option that can be set from the environment and
  for nothing else, in the same order, and no option lies inside another one.
\<close>

theorem TarantoolSchema_options:
  "map Path TarantoolSchema = ConfigEnvPaths \<and> sorted_wrt incomparable (map Path TarantoolSchema)"
  using schema_paths ConfigEnvPaths_incomparable by simp

text \<open>
  Property C17: validating what was collected from the environment against the schema succeeds
  exactly if the validator of every option accepts the text of the variable of the option, where
  it is set; otherwise the error holds, for every option whose text is rejected and nothing else,
  all errors of its validator for that text, under the path of the option. A variable for a list
  or a map is always rejected.
\<close>

theorem env_validation:
  "\<exists>cfg. CollectEnv W formatter s = Inr cfg \<and>
     (case ValidateSchema F cfg TarantoolSchema of
        None \<Rightarrow> filter (rejected F (envText W s formatter)) TarantoolSchema = []
      | Some e \<Rightarrow> filter (rejected F (envText W s formatter)) TarantoolSchema \<noteq> [] \<and> wf_err e \<and>
          errLeaves e = (\<Sum>p \<leftarrow> filter (rejected F (envText W s formatter)) TarantoolSchema.
            prefixLeaves (Some (Path p)) (errLeaves (the (rejection F (envText W s formatter) p))))) \<and>
     filter (\<lambda>p. structured (Validator p) \<and> envText W s formatter (Path p) \<noteq> None \<and> \<not> rejected F (envText W s formatter) p) TarantoolSchema = []"
proof -
  obtain cfg where cfg: "CollectEnv W formatter s = Inr cfg" and
    "map (getOpt cfg) ConfigEnvPaths =
       map (\<lambda>p. map_option VStr (osLookupEnv W s (formatter p))) ConfigEnvPaths"
    using CollectEnv_gets [of W formatter s] by blast
  then have "\<forall>p \<in> set TarantoolSchema. getOpt cfg (Path p) = map_option VStr (envText W s formatter (Path p))"
    unfolding schema_paths [symmetric] envText_def by simp
  note f = failing_strings [OF this, of F]
  let ?bad = "filter (rejected F (envText W s formatter)) TarantoolSchema"
  have "case ValidateSchema F cfg TarantoolSchema of
      None \<Rightarrow> ?bad = []
    | Some e \<Rightarrow> ?bad \<noteq> [] \<and> wf_err e \<and>
        errLeaves e = (\<Sum>p \<leftarrow> ?bad. prefixLeaves (Some (Path p)) (errLeaves (the (rejection F (envText W s formatter) p))))"
  proof (cases "?bad = []")
    case True
    then show ?thesis by (simp add: ValidateSchema_failing f)
  next
    case False
    then have "failing F cfg TarantoolSchema \<noteq> []" by (simp add: f)
    from ValidateSchema_leaves [OF TarantoolSchema_proper this] False show ?thesis
      by (auto simp: f comp_def)
  qed
  moreover have "filter (\<lambda>p. structured (Validator p) \<and> envText W s formatter (Path p) \<noteq> None \<and>
      \<not> rejected F (envText W s formatter) p) TarantoolSchema = []"
    using structured_rejected by (fastforce simp: filter_empty_conv)
  ultimately show ?thesis using cfg by blast
qed

end
