(* ===== verification/Uri.thy ===== *)
theory Uri
  imports Prelude
begin

text \<open>
  The connection URIs of \<^verbatim>\<open>lib/connect/uri.go\<close>: which strings are URIs with and without
  credentials, and how they are taken apart. The regular expressions of the source are terms of
  \<open>rx\<close> over bytes with an executable matcher that is proved against their language.
\<close>

section \<open>Regular expressions\<close>

datatype rx = Eps | Cls "char \<Rightarrow> bool" | Seq rx rx | Alt rx rx | Star rx | Empty

fun nullable :: "rx \<Rightarrow> bool" where
  "nullable Eps = True"
| "nullable (Cls p) = False"
| "nullable (Seq r q) = (nullable r \<and> nullable q)"
| "nullable (Alt r q) = (nullable r \<or> nullable q)"
| "nullable (Star r) = True"
| "nullable Empty = False"

fun deriv :: "char \<Rightarrow> rx \<Rightarrow> rx" where
  "deriv c Eps = Empty"
| "deriv c (Cls p) = (if p c then Eps else Empty)"
| "deriv c (Seq r q) =
     (let d = (case deriv c r of Empty \<Rightarrow> Empty | Eps \<Rightarrow> q | r' \<Rightarrow> Seq r' q)
      in if nullable r then Alt d (deriv c q) else d)"
| "deriv c (Alt r q) = (case deriv c r of Empty \<Rightarrow> deriv c q | r' \<Rightarrow> Alt r' (deriv c q))"
| "deriv c (Star r) = (case deriv c r of Empty \<Rightarrow> Empty | Eps \<Rightarrow> Star r | r' \<Rightarrow> Seq r' (Star r))"
| "deriv c Empty = Empty"

text \<open>\<^verbatim>\<open>regexp.MatchString\<close> for an expression anchored at both ends.\<close>

fun matches :: "rx \<Rightarrow> string \<Rightarrow> bool" where
  "matches r [] = nullable r"
| "matches r (c # cs) = matches (deriv c r) cs"

text \<open>The language of an expression.\<close>

inductive lang :: "rx \<Rightarrow> string \<Rightarrow> bool" where
  Eps: "lang Eps []"
| Cls: "p c \<Longrightarrow> lang (Cls p) [c]"
| Seq: "lang r s \<Longrightarrow> lang q t \<Longrightarrow> lang (Seq r q) (s @ t)"
| AltL: "lang r s \<Longrightarrow> lang (Alt r q) s"
| AltR: "lang q s \<Longrightarrow> lang (Alt r q) s"
| StarNil: "lang (Star r) []"
| StarCons: "lang r s \<Longrightarrow> lang (Star r) t \<Longrightarrow> lang (Star r) (s @ t)"

inductive_cases lang_EpsE [elim!]: "lang Eps s"
inductive_cases lang_EmptyE [elim!]: "lang Empty s"
inductive_cases lang_ClsE [elim!]: "lang (Cls p) s"
inductive_cases lang_SeqE [elim!]: "lang (Seq r q) s"
inductive_cases lang_AltE [elim!]: "lang (Alt r q) s"

lemma lang_Seq_iff: "lang (Seq r q) u \<longleftrightarrow> (\<exists>s t. u = s @ t \<and> lang r s \<and> lang q t)"
  by (auto intro: lang.Seq)

lemma lang_Alt_iff: "lang (Alt r q) s \<longleftrightarrow> lang r s \<or> lang q s"
  by (auto intro: lang.AltL lang.AltR)

lemma lang_Cls_iff: "lang (Cls p) s \<longleftrightarrow> (\<exists>c. s = [c] \<and> p c)"
  by (auto intro: lang.Cls)

lemma lang_Eps_iff: "lang Eps s \<longleftrightarrow> s = []"
  by (auto intro: lang.Eps)

lemma lang_Empty_iff [simp]: "\<not> lang Empty s"
  by auto

lemma lang_nullable: "lang r [] \<longleftrightarrow> nullable r"
  by (induction r) (auto simp: lang_Seq_iff lang_Alt_iff lang_Cls_iff lang_Eps_iff intro: lang.StarNil)

text \<open>A word of a star that is not empty starts with a word that is not empty.\<close>

lemma lang_Star_Cons:
  "lang (Star r) (c # u) \<longleftrightarrow> (\<exists>s t. u = s @ t \<and> lang r (c # s) \<and> lang (Star r) t)"
proof
  assume "lang (Star r) (c # u)"
  then show "\<exists>s t. u = s @ t \<and> lang r (c # s) \<and> lang (Star r) t"
  proof (induction "Star r" "c # u" arbitrary: u)
    case (StarCons s t)
    then show ?case by (cases s) auto
  qed
next
  assume "\<exists>s t. u = s @ t \<and> lang r (c # s) \<and> lang (Star r) t"
  then show "lang (Star r) (c # u)" using lang.StarCons by fastforce
qed

lemma lang_Seq_cases:
  "lang (case r of Empty \<Rightarrow> Empty | Eps \<Rightarrow> q | r' \<Rightarrow> Seq r' q) s \<longleftrightarrow> lang (Seq r q) s"
  by (cases r) (auto simp: lang_Seq_iff lang_Eps_iff)

lemma lang_deriv: "lang (deriv c r) s \<longleftrightarrow> lang r (c # s)"
proof (induction r arbitrary: s)
  case (Seq r q)
  have "lang (Seq r q) (c # s) \<longleftrightarrow>
      (\<exists>u t. s = u @ t \<and> lang r (c # u) \<and> lang q t) \<or> lang r [] \<and> lang q (c # s)"
    by (auto simp: lang_Seq_iff Cons_eq_append_conv)
  with Seq show ?case
    by (auto simp: Let_def lang_Alt_iff lang_Seq_cases lang_Seq_iff lang_nullable)
next
  case (Alt r q)
  then show ?case by (cases "deriv c r") (auto simp: lang_Alt_iff)
next
  case (Star r)
  then show ?case by (simp add: lang_Seq_cases lang_Star_Cons lang_Seq_iff)
qed (auto simp: lang_Cls_iff lang_Eps_iff)

lemma matches_lang: "matches r s \<longleftrightarrow> lang r s"
  by (induction s arbitrary: r) (simp_all add: lang_nullable lang_deriv)

section \<open>The expressions of the source\<close>

definition rxLit :: "string \<Rightarrow> rx" where
  "rxLit s = foldr (\<lambda>c r. Seq (Cls (\<lambda>x. x = c)) r) s Eps"

definition rxOpt :: "rx \<Rightarrow> rx" where
  "rxOpt r = Alt r Eps"

definition rxPlus :: "rx \<Rightarrow> rx" where
  "rxPlus r = Seq r (Star r)"

definition byteIn :: "nat \<Rightarrow> nat \<Rightarrow> rx" where
  "byteIn a b = Cls (\<lambda>c. a \<le> of_char c \<and> of_char c \<le> b)"

definition noneOf :: "string \<Rightarrow> char \<Rightarrow> bool" where
  "noneOf cs c \<longleftrightarrow> c \<notin> set cs"

definition isDigit :: "char \<Rightarrow> bool" where
  "isDigit c \<longleftrightarrow> 48 \<le> (of_char c :: nat) \<and> (of_char c :: nat) \<le> 57"

definition isWord :: "char \<Rightarrow> bool" where
  "isWord c \<longleftrightarrow> isDigit c \<or> 65 \<le> (of_char c :: nat) \<and> (of_char c :: nat) \<le> 90 \<or>
     97 \<le> (of_char c :: nat) \<and> (of_char c :: nat) \<le> 122 \<or> c = CHR ''_''"

text \<open>
  A dot that is not under a star: one character of a UTF-8 text, other than a newline. Where the
  source has \<^verbatim>\<open>.*\<close> or a negated class under a star or plus, bytes and characters agree.
\<close>

definition anyRune :: rx where
  "anyRune =
     foldr Alt
       [Cls (\<lambda>c. (of_char c :: nat) < 128 \<and> c \<noteq> CHR 0x0A),
        Seq (byteIn 194 223) (byteIn 128 191),
        Seq (byteIn 224 224) (Seq (byteIn 160 191) (byteIn 128 191)),
        Seq (Alt (byteIn 225 236) (byteIn 238 239)) (Seq (byteIn 128 191) (byteIn 128 191)),
        Seq (byteIn 237 237) (Seq (byteIn 128 159) (byteIn 128 191)),
        Seq (byteIn 240 240) (Seq (byteIn 144 191) (Seq (byteIn 128 191) (byteIn 128 191))),
        Seq (byteIn 241 243) (Seq (byteIn 128 191) (Seq (byteIn 128 191) (byteIn 128 191))),
        Seq (byteIn 244 244) (Seq (byteIn 128 143) (Seq (byteIn 128 191) (byteIn 128 191)))]
       Empty"

definition dotStar :: rx where
  "dotStar = Star (Cls (noneOf [CHR 0x0A]))"

definition slashes :: rx where
  "slashes = rxPlus (Cls (\<lambda>c. c = CHR ''/''))"

definition upDirs :: rx where
  "upDirs = Seq anyRune (Seq anyRune slashes)"

definition special :: string where
  "special = ''@:/''"

definition userpassRe :: rx where
  "userpassRe = Seq (rxPlus (Cls (noneOf special))) (Seq (rxLit '':'') (rxPlus (Cls (noneOf special))))"

definition uriPathPrefixRe :: rx where
  "uriPathPrefixRe = rxOpt (Alt (Seq (rxOpt (Cls (\<lambda>c. c = CHR ''~''))) slashes) (Star upDirs))"

definition systemPathPrefixRe :: rx where
  "systemPathPrefixRe =
     Alt (Seq (rxOpt (Cls (\<lambda>c. c = CHR ''.'' \<or> c = CHR ''~''))) slashes) (rxPlus upDirs)"

definition pathTail :: rx where
  "pathTail = Seq systemPathPrefixRe (Seq (Cls (noneOf ''./'')) dotStar)"

definition hostPort :: "string \<Rightarrow> rx" where
  "hostPort extra =
     Seq (rxPlus (Cls (\<lambda>c. isWord c \<or> c \<in> set extra))) (Seq (rxLit '':'') (rxPlus (Cls isDigit)))"

definition baseTcpRe :: rx where
  "baseTcpRe = Seq (rxOpt (rxLit ''tcp://'')) (hostPort [CHR 0x5C, CHR ''.'', CHR ''-''])"

definition baseUnixRe :: rx where
  "baseUnixRe = Seq (rxLit ''unix://'') (Seq uriPathPrefixRe
     (Seq (rxPlus (Cls (noneOf ''./@''))) (Star (Cls (noneOf ''@'')))))"

definition IsBaseURI :: "string \<Rightarrow> bool" where
  "IsBaseURI str = matches (Alt baseTcpRe (Alt baseUnixRe pathTail)) str"

definition credTcpRe :: rx where
  "credTcpRe = Seq (rxOpt (rxLit ''tcp://'')) (Seq userpassRe (Seq (rxLit ''@'') (hostPort ''.-'')))"

definition credUnixRe :: rx where
  "credUnixRe = Seq (rxLit ''unix://'') (Seq userpassRe (Seq (rxLit ''@'') (Seq uriPathPrefixRe
     (Seq (rxPlus (Cls (noneOf ''./@''))) dotStar))))"

definition credPathRe :: rx where
  "credPathRe = Seq userpassRe (Seq (rxLit ''@'') pathTail)"

definition IsCredentialsURI :: "string \<Rightarrow> bool" where
  "IsCredentialsURI str = matches (Alt credTcpRe (Alt credUnixRe credPathRe)) str"

section \<open>Taking a URI apart\<close>

text \<open>
  \<^verbatim>\<open>filepath.Clean\<close> and \<^verbatim>\<open>filepath.Join\<close> of two parts on Unix: the components of the
  cleaned path, the last one first.
\<close>

definition cleanStep :: "bool \<Rightarrow> string list \<Rightarrow> string \<Rightarrow> string list" where
  "cleanStep rooted out c =
     (if c = [] \<or> c = ''.'' then out
      else if c = ''..'' then
        (case out of
           [] \<Rightarrow> if rooted then [] else [c]
         | d # ds \<Rightarrow> if d = ''..'' then c # out else ds)
      else c # out)"

definition clean :: "string \<Rightarrow> string" where
  "clean path =
     (let rooted = (path \<noteq> [] \<and> hd path = CHR ''/'');
          body = joinSep (CHR ''/'') (rev (foldl (cleanStep rooted) [] (splitAll (CHR ''/'') path)))
      in if rooted then CHR ''/'' # body else if body = [] then ''.'' else body)"

definition joinPath :: "string \<Rightarrow> string \<Rightarrow> string" where
  "joinPath a b =
     (if a = [] then (if b = [] then [] else clean b)
      else if b = [] then clean a
      else clean (a @ CHR ''/'' # b))"

text \<open>The home directory is an argument, \<open>None\<close> if \<^verbatim>\<open>os.UserHomeDir\<close> fails.\<close>

definition ParseBaseURI :: "string option \<Rightarrow> string \<Rightarrow> string \<times> string" where
  "ParseBaseURI homeDir uri =
     (let (network, address) =
        (if uri \<noteq> [] \<and> (hd uri = CHR ''.'' \<or> hd uri = CHR ''/'' \<or> hd uri = CHR ''~'')
         then (''unix'', uri)
         else
           (case cutPrefix uri ''unix://'' of
              Some rest \<Rightarrow> (''unix'', rest)
            | None \<Rightarrow>
                (case cutPrefix uri ''tcp://'' of
                   Some rest \<Rightarrow> (''tcp'', rest)
                 | None \<Rightarrow> (''tcp'', uri))))
      in if network = ''unix'' then
           (case (cutPrefix address ''~/'', homeDir) of
              (Some rest, Some home) \<Rightarrow> (network, joinPath home rest)
            | _ \<Rightarrow> (network, address))
         else (network, address))"

text \<open>
  The leftmost match of \<^verbatim>\<open>userpassRe + "@"\<close>: what is before it, the two parts and what is after
  it. The parts cannot hold the characters that delimit them, so nothing is tried twice.
\<close>

definition userpassAt :: "string \<Rightarrow> (string \<times> string \<times> string) option" where
  "userpassAt s =
     (let user = takeWhile (noneOf special) s; s1 = dropWhile (noneOf special) s
      in case s1 of
           [] \<Rightarrow> None
         | c # s2 \<Rightarrow>
             (let pass = takeWhile (noneOf special) s2; s3 = dropWhile (noneOf special) s2
              in case s3 of
                   [] \<Rightarrow> None
                 | d # s4 \<Rightarrow>
                     if user \<noteq> [] \<and> c = CHR '':'' \<and> pass \<noteq> [] \<and> d = CHR ''@''
                     then Some (user, pass, s4) else None))"

fun findUserpass :: "string \<Rightarrow> (string \<times> string \<times> string \<times> string) option" where
  "findUserpass s =
     (case userpassAt s of
        Some (user, pass, rest) \<Rightarrow> Some ([], user, pass, rest)
      | None \<Rightarrow>
          (case s of
             [] \<Rightarrow> None
           | c # cs \<Rightarrow>
               (case findUserpass cs of
                  None \<Rightarrow> None
                | Some (before, user, pass, rest) \<Rightarrow> Some (c # before, user, pass, rest))))"

declare findUserpass.simps [simp del]

text \<open>\<open>None\<close> is the panic of an index into the parts when there is no match.\<close>

definition ParseCredentialsURI :: "string \<Rightarrow> (string \<times> string \<times> string) option" where
  "ParseCredentialsURI str =
     (if \<not> IsCredentialsURI str then Some (str, [], [])
      else
        (case findUserpass str of
           None \<Rightarrow> None
         | Some (before, user, pass, rest) \<Rightarrow> Some (before @ rest, user, pass)))"

section \<open>Where the credentials are\<close>

lemma lang_lit: "lang (rxLit s) t \<longleftrightarrow> t = s"
  by (induction s arbitrary: t) (auto simp: rxLit_def lang_Seq_iff lang_Cls_iff lang_Eps_iff)

lemma lang_Star_Cls: "lang (Star (Cls p)) s \<longleftrightarrow> list_all p s"
  by (induction s) (auto simp: lang.StarNil lang_Star_Cons lang_Cls_iff)

lemma lang_plus_Cls: "lang (rxPlus (Cls p)) s \<longleftrightarrow> s \<noteq> [] \<and> list_all p s"
proof (cases s)
  case (Cons a l)
  have "lang (rxPlus (Cls p)) s" if "p a" "list_all p l"
    using that unfolding rxPlus_def lang_Seq_iff Cons
    by (intro exI [of _ "[a]"] exI [of _ l]) (simp add: lang_Cls_iff lang_Star_Cls)
  then show ?thesis by (auto simp: Cons rxPlus_def lang_Seq_iff lang_Cls_iff lang_Star_Cls)
qed (auto simp: rxPlus_def lang_Seq_iff lang_Cls_iff)

lemma lang_opt: "lang (rxOpt r) s \<longleftrightarrow> s = [] \<or> lang r s"
  by (auto simp: rxOpt_def lang_Alt_iff lang_Eps_iff)

lemmas lang_iffs = lang_Seq_iff lang_Alt_iff lang_Cls_iff lang_lit lang_Star_Cls lang_plus_Cls lang_opt

definition wordOk :: "string \<Rightarrow> bool" where
  "wordOk s \<longleftrightarrow> s \<noteq> [] \<and> list_all (noneOf special) s"

lemma lang_userpass: "lang userpassRe s \<longleftrightarrow> (\<exists>u p. s = u @ CHR '':'' # p \<and> wordOk u \<and> wordOk p)"
  by (force simp: userpassRe_def lang_iffs wordOk_def)

lemma takeWhile_word:
  "list_all P u \<Longrightarrow> \<not> P c \<Longrightarrow> takeWhile P (u @ c # s) = u \<and> dropWhile P (u @ c # s) = c # s"
  by (induction u) auto

lemma userpassAt_word:
  "wordOk u \<Longrightarrow> wordOk p \<Longrightarrow> userpassAt (u @ CHR '':'' # p @ CHR ''@'' # rest) = Some (u, p, rest)"
  using takeWhile_word [of "noneOf special" u "CHR '':''" "p @ CHR ''@'' # rest"]
    takeWhile_word [of "noneOf special" p "CHR ''@''" rest]
  by (auto simp: userpassAt_def wordOk_def special_def noneOf_def Let_def)

lemma findUserpass_word:
  "wordOk u \<Longrightarrow> wordOk p \<Longrightarrow>
   findUserpass (u @ CHR '':'' # p @ CHR ''@'' # rest) = Some ([], u, p, rest)"
  by (simp add: findUserpass.simps [of "u @ _"] userpassAt_word)

lemma findUserpass_skip:
  "userpassAt (c # cs) = None \<Longrightarrow> findUserpass cs = Some (b, u, p, r) \<Longrightarrow>
   findUserpass (c # cs) = Some (c # b, u, p, r)"
  by (simp add: findUserpass.simps [of "c # cs"])

text \<open>No match starts inside a scheme: after its colon comes a slash.\<close>

definition schemes :: "string list" where
  "schemes = [[], ''tcp://'', ''unix://'']"

lemma findUserpass_scheme:
  assumes "sch \<in> set schemes" and "wordOk u" and "wordOk p"
  shows "findUserpass (sch @ u @ CHR '':'' # p @ CHR ''@'' # rest) = Some (sch, u, p, rest)"
  using assms findUserpass_word [OF assms(2,3), of rest]
  by (auto simp: schemes_def intro!: findUserpass_skip) (simp_all add: userpassAt_def special_def noneOf_def split: list.split)

lemma lang_cred:
  "lang (Seq userpassRe (Seq (rxLit ''@'') r)) s \<longleftrightarrow>
     (\<exists>u p rest. s = u @ CHR '':'' # p @ CHR ''@'' # rest \<and> wordOk u \<and> wordOk p \<and> lang r rest)"
proof
  assume "lang (Seq userpassRe (Seq (rxLit ''@'') r)) s"
  then obtain u p rest where "s = (u @ CHR '':'' # p) @ ''@'' @ rest" "wordOk u" "wordOk p" "lang r rest"
    by (auto simp: lang_Seq_iff lang_userpass lang_lit)
  then show "\<exists>u p rest. s = u @ CHR '':'' # p @ CHR ''@'' # rest \<and> wordOk u \<and> wordOk p \<and> lang r rest"
    by auto
next
  assume "\<exists>u p rest. s = u @ CHR '':'' # p @ CHR ''@'' # rest \<and> wordOk u \<and> wordOk p \<and> lang r rest"
  then obtain u p rest where s: "s = u @ CHR '':'' # p @ CHR ''@'' # rest" "wordOk u" "wordOk p" "lang r rest"
    by blast
  then have "lang userpassRe (u @ CHR '':'' # p)" "lang (Seq (rxLit ''@'') r) (''@'' @ rest)"
    by (auto simp: lang_userpass) (use lang.Seq [of "rxLit ''@''" "''@''" r rest] in \<open>simp add: lang_lit\<close>)
  from lang.Seq [OF this] s(1) show "lang (Seq userpassRe (Seq (rxLit ''@'') r)) s" by simp
qed

lemma lang_scheme_cred:
  assumes "lang (Seq sr (Seq userpassRe (Seq (rxLit ''@'') r))) s"
  obtains sch u p rest where "s = sch @ u @ CHR '':'' # p @ CHR ''@'' # rest" "lang sr sch" "wordOk u" "wordOk p"
    "lang r rest"
proof -
  from assms obtain sch t where "s = sch @ t" "lang sr sch" "lang (Seq userpassRe (Seq (rxLit ''@'') r)) t"
    unfolding lang_Seq_iff [of sr] by (elim exE conjE)
  then show ?thesis using that unfolding lang_cred by (elim exE conjE) simp
qed

lemma credentials_parts:
  assumes "lang (Alt credTcpRe (Alt credUnixRe credPathRe)) s"
  shows "\<exists>sch u p rest. s = sch @ u @ CHR '':'' # p @ CHR ''@'' # rest \<and> sch \<in> set schemes \<and>
    wordOk u \<and> wordOk p \<and>
    (lang (Alt baseTcpRe (Alt baseUnixRe pathTail)) (sch @ rest) \<or> sch = ''unix://'' \<and> CHR ''@'' \<in> set rest)"
proof -
  from assms consider (t) "lang credTcpRe s" | (x) "lang credUnixRe s" | (y) "lang credPathRe s"
    unfolding lang_Alt_iff by blast
  then consider
      (tcp) sch u p rest where "s = sch @ u @ CHR '':'' # p @ CHR ''@'' # rest" "sch = [] \<or> sch = ''tcp://''"
        "wordOk u" "wordOk p" "lang (hostPort ''.-'') rest"
    | (unix) u p rest where "s = ''unix://'' @ u @ CHR '':'' # p @ CHR ''@'' # rest" "wordOk u" "wordOk p"
        "lang (Seq uriPathPrefixRe (Seq (rxPlus (Cls (noneOf ''./@''))) dotStar)) rest"
    | (path) u p rest where "s = u @ CHR '':'' # p @ CHR ''@'' # rest" "wordOk u" "wordOk p" "lang pathTail rest"
  proof cases
    case t
    from lang_scheme_cred [OF this [unfolded credTcpRe_def]] show ?thesis using that(1) by (metis lang_lit lang_opt)
  next
    case x
    from lang_scheme_cred [OF this [unfolded credUnixRe_def]] show ?thesis using that(2) by (metis lang_lit)
  next
    case y
    then show ?thesis using that(3) unfolding credPathRe_def lang_cred by (elim exE conjE) blast
  qed
  then show ?thesis
  proof cases
    case tcp
    have "lang (hostPort [CHR 0x5C, CHR ''.'', CHR ''-'']) rest"
      using tcp(5) unfolding hostPort_def by (auto simp: lang_iffs list_all_iff)
    then have "lang baseTcpRe (sch @ rest)"
      unfolding baseTcpRe_def lang_Seq_iff using tcp(2) by (auto simp: lang_opt lang_lit)
    with tcp show ?thesis
      by (intro exI [of _ sch] exI [of _ u] exI [of _ p] exI [of _ rest]) (auto simp: schemes_def lang_Alt_iff)
  next
    case unix
    have "lang baseUnixRe (''unix://'' @ rest)" if "CHR ''@'' \<notin> set rest"
    proof -
      from unix(4) obtain a b c where r: "rest = a @ b @ c" "lang uriPathPrefixRe a"
        "lang (rxPlus (Cls (noneOf ''./@''))) b" by (auto simp: lang_Seq_iff)
      with that have "lang (Star (Cls (noneOf ''@''))) c"
        by (auto simp: lang_Star_Cls list_all_iff noneOf_def)
      with r show ?thesis unfolding baseUnixRe_def by (auto simp: lang_Seq_iff lang_lit)
    qed
    with unix show ?thesis
      by (intro exI [of _ "''unix://''"] exI [of _ u] exI [of _ p] exI [of _ rest])
         (auto simp: schemes_def lang_Alt_iff)
  next
    case path
    then show ?thesis
      by (intro exI [of _ "[]"] exI [of _ u] exI [of _ p] exI [of _ rest]) (auto simp: schemes_def lang_Alt_iff)
  qed
qed

text \<open>The dots of \<^verbatim>\<open>../\<close> are not escaped in the source: any two characters do.\<close>

lemma IsBaseURI_two_characters:
  "IsBaseURI ''ab/x'' \<and> ParseBaseURI None ''ab/x'' = (''tcp'', ''ab/x'')"
  by code_simp

section \<open>Properties\<close>

text \<open>
  Property C40: a string that is accepted as a URI with credentials is one of the three schemes, a
  user, a colon, a password, an at sign and a rest, parsing it never panics and returns exactly
  these parts, and the URI without the credentials is a valid URI again, except for a Unix socket
  path that itself contains an at sign. Any other string is returned unchanged with no credentials.
\<close>

theorem ParseCredentialsURI_parts:
  "if IsCredentialsURI s then
     (\<exists>sch u p rest. s = sch @ u @ CHR '':'' # p @ CHR ''@'' # rest \<and> sch \<in> set schemes \<and>
       wordOk u \<and> wordOk p \<and> ParseCredentialsURI s = Some (sch @ rest, u, p) \<and>
       (IsBaseURI (sch @ rest) \<or> sch = ''unix://'' \<and> CHR ''@'' \<in> set rest))
   else ParseCredentialsURI s = Some (s, [], [])"
proof (cases "IsCredentialsURI s")
  case True
  then have "lang (Alt credTcpRe (Alt credUnixRe credPathRe)) s"
    by (simp add: IsCredentialsURI_def matches_lang)
  from credentials_parts [OF this, folded matches_lang IsBaseURI_def] obtain sch u p rest where
    s: "s = sch @ u @ CHR '':'' # p @ CHR ''@'' # rest" "sch \<in> set schemes" "wordOk u" "wordOk p"
      "IsBaseURI (sch @ rest) \<or> sch = ''unix://'' \<and> CHR ''@'' \<in> set rest"
    by (elim exE conjE) (rule that; simp add: IsBaseURI_def)
  then have "ParseCredentialsURI s = Some (sch @ rest, u, p)"
    using True findUserpass_scheme [OF s(2,3,4), of rest] by (simp add: ParseCredentialsURI_def)
  with True s show ?thesis by auto
qed (simp add: ParseCredentialsURI_def)

lemma clean_rooted: "clean (CHR ''/'' # s) = CHR ''/'' # tl (clean (CHR ''/'' # s))"
  by (simp add: clean_def Let_def)

lemma joinPath_rooted: "\<exists>t. joinPath (CHR ''/'' # h) rest = CHR ''/'' # t"
  using clean_rooted [of h] clean_rooted [of "h @ CHR ''/'' # rest"] unfolding joinPath_def
  by (cases "rest = []") auto

text \<open>
  What parsing returns is canonical: writing the network and the address of any
  string as a URI again and parsing that gives the same network and address, if the home
  directory is an absolute path.
\<close>

theorem ParseBaseURI_canonical:
  assumes "case home of None \<Rightarrow> True | Some h \<Rightarrow> h \<noteq> [] \<and> hd h = CHR ''/''"
  shows "let (network, address) = ParseBaseURI home uri
    in ParseBaseURI home (network @ ''://'' @ address) = (network, address)"
proof -
  have unix: "ParseBaseURI home (''unix://'' @ a) =
      (case (cutPrefix a ''~/'', home) of
         (Some rest, Some h) \<Rightarrow> (''unix'', joinPath h rest) | _ \<Rightarrow> (''unix'', a))" for a
    by (simp add: ParseBaseURI_def)
  have tcp: "ParseBaseURI home (''tcp://'' @ a) = (''tcp'', a)" for a
    by (simp add: ParseBaseURI_def)
  have joined: "cutPrefix (joinPath h rest) ''~/'' = None" if "home = Some h" for h rest
    using assms that joinPath_rooted [of "tl h" rest] by (cases h) auto
  have *: "n = ''tcp'' \<or> n = ''unix'' \<and> (cutPrefix a ''~/'' = None \<or> home = None)"
    if "ParseBaseURI home uri = (n, a)" for n a
    using that joined unfolding ParseBaseURI_def Let_def
    by (simp split: if_splits option.splits prod.splits del: cutPrefix.simps) auto
  obtain n a where na: "ParseBaseURI home uri = (n, a)" by (cases "ParseBaseURI home uri")
  from * [OF na] have "ParseBaseURI home (n @ ''://'' @ a) = (n, a)"
    using unix [of a] tcp [of a] by (auto split: option.splits)
  then show ?thesis by (simp add: na)
qed

theorem ParseBaseURI_canonical_witness:
  "ParseBaseURI (Some ''/home/u'') ''unix:///home/u/b'' = (''unix'', ''/home/u/b'')"
  using ParseBaseURI_canonical [of "Some ''/home/u''" "''~/a/../b''"]
  by (simp add: ParseBaseURI_def joinPath_def clean_def cleanStep_def)

end
