(* ===== verification/Sources.thy ===== *)
theory Sources
  imports Cluster Schema Uri
begin

text \<open>
  \<^verbatim>\<open>cli/cluster/cluster.go\<close>: the configuration of a cluster from all its sources, which are
  environment variables, a file, etcd, the Tarantool config storage and the variables with
  defaults, and the configuration of one instance. What the code reaches outside of the
  repository is the record \<open>sys\<close>: the world of the collectors, the clients that connecting to
  etcd and to Tarantool returns, the YAML decoder, the home directory and the conversion of
  floats to durations.
\<close>

section \<open>Options of the connections\<close>

record sslOpts =
  oKeyFile :: string
  oCertFile :: string
  oCaFile :: string
  oCiphers :: string

definition noSsl :: sslOpts where
  "noSsl = \<lparr>oKeyFile = [], oCertFile = [], oCaFile = [], oCiphers = []\<rparr>"

record tntOpts =
  oUser :: string
  oPass :: string
  oTransport :: string
  oSsl :: sslOpts
  oSkipSchema :: bool
  oTimeout :: int

record ('s, 't, 'n) sys =
  sysWorld :: "'s world"
  sysTls :: "string \<Rightarrow> string \<Rightarrow> string \<Rightarrow> string + 't"
  sysDir :: dirFs
  sysNewClient :: "'t clientConfig \<Rightarrow> string + 's etcd"
  sysConnect :: "string \<Rightarrow> tntOpts \<Rightarrow> string + 's tarantool"
  sysUnyaml :: unyaml
  sysYaml :: "'n yaml"
  sysDuration :: "64 word \<Rightarrow> string + int"
  sysSeconds :: "64 word \<Rightarrow> int"
  sysHome :: "string option"

datatype srcerr =
    NoConfigPath
  | EnvSource derr
  | FileSource string derr
  | ParseSource clerr
  | EtcdTimeout string
  | EtcdConnect derr
  | EtcdSource derr
  | TarantoolSource "(string \<times> derr) list"
  | DefaultEnvSource derr
  | MakeCluster clerr
  | InstanceNotFound string

section \<open>Environment variables\<close>

definition upperChar :: "char \<Rightarrow> char" where
  "upperChar c = (let n = of_char c :: nat in if 97 \<le> n \<and> n \<le> 122 then char_of (n - 32) else c)"

definition mainEnv :: "path \<Rightarrow> string" where
  "mainEnv p = ''TT_'' @ map upperChar (joinSep (CHR ''_'') p)"

definition defaultEnv :: "path \<Rightarrow> string" where
  "defaultEnv p = ''TT_'' @ map upperChar (joinSep (CHR ''_'') p) @ ''_DEFAULT''"

section \<open>Storages\<close>

fun Collect :: "unyaml \<Rightarrow> 's world \<Rightarrow> 's collector \<Rightarrow> 's \<Rightarrow> (derr + config) \<times> 's" where
  "Collect unyaml W (YamlCollectorDecorator raw) s = CollectYamlDecorator unyaml W raw s"

definition defaultEtcdTimeout :: int where
  "defaultEtcdTimeout = 3 * 10 ^ 9"

text \<open>A float differs from 0 if any bit but the sign is set.\<close>

definition floatZero :: "64 word \<Rightarrow> bool" where
  "floatZero f \<longleftrightarrow> f = 0 \<or> f = 2 ^ 63"

definition etcdOptsOf :: "etcdSection \<Rightarrow> int \<Rightarrow> etcdOpts" where
  "etcdOptsOf sec timeout =
     \<lparr>Endpoints = etcdEndpoints sec, Username = etcdUsername sec, Password = etcdPassword sec,
      KeyFile = sslKeyFile (etcdSslOpts sec), CertFile = sslCertFile (etcdSslOpts sec),
      CaPath = sslCaPath (etcdSslOpts sec), CaFile = sslCaFile (etcdSslOpts sec),
      SkipHostVerify = (\<not> sslVerifyPeer (etcdSslOpts sec) \<or> \<not> sslVerifyHost (etcdSslOpts sec)),
      Timeout = timeout\<rparr>"

definition collectEtcdConfig ::
  "('s, 't, 'n) sys \<Rightarrow> 's collectorFactory \<Rightarrow> clusterConfig \<Rightarrow> 's \<Rightarrow> (srcerr + config) \<times> 's"
where
  "collectEtcdConfig S collectors cc s =
     (let sec = ccEtcd cc;
          duration = (if floatZero (etcdRequestTimeout sec) then Inr defaultEtcdTimeout
                      else sysDuration S (etcdRequestTimeout sec))
      in case duration of
           Inl err \<Rightarrow> (Inl (EtcdTimeout err), s)
         | Inr timeout \<Rightarrow>
             (case ConnectEtcd (sysTls S) (sysDir S) (sysNewClient S) (etcdOptsOf sec timeout) of
                Inl err \<Rightarrow> (Inl (EtcdConnect err), s)
              | Inr etcd \<Rightarrow>
                  (case Collect (sysUnyaml S) ((sysWorld S)\<lparr>wEtcd := etcd\<rparr>)
                          (YamlNewEtcd collectors (etcdPrefix sec) [] timeout) s of
                     (Inl err, s') \<Rightarrow> (Inl (EtcdSource err), s')
                   | (Inr cfg, s') \<Rightarrow> (Inr cfg, s'))))"

definition endpointOpts :: "string option \<Rightarrow> storageEndpoint \<Rightarrow> string \<times> tntOpts" where
  "endpointOpts home ep =
     (let (network, address) =
            (if \<not> IsBaseURI (epUri ep) then (''tcp'', epUri ep) else ParseBaseURI home (epUri ep));
          base = \<lparr>oUser = epLogin ep, oPass = epPassword ep, oTransport = epTransport ep,
                  oSsl = noSsl, oSkipSchema = True, oTimeout = 0\<rparr>;
          addr = network @ ''://'' @ address
      in if epTransport ep = [] \<or> epTransport ep \<noteq> ''ssl'' then (addr, base)
         else (addr, base\<lparr>oSsl := \<lparr>oKeyFile = epSslKeyFile ep, oCertFile = epSslCertFile ep,
                 oCaFile = epSslCaFile ep, oCiphers = epSslCiphers ep\<rparr>\<rparr>))"

text \<open>One endpoint: connecting and collecting, with the error under its address.\<close>

definition collectEndpoint ::
  "('s, 't, 'n) sys \<Rightarrow> 's collectorFactory \<Rightarrow> storageSection \<Rightarrow> string \<times> tntOpts \<Rightarrow> 's \<Rightarrow>
   (string \<times> derr + config) \<times> 's"
where
  "collectEndpoint S collectors sec opt s =
     (case sysConnect S (fst opt) (snd opt) of
        Inl err \<Rightarrow> (Inl (fst opt, ClientFailed err), s)
      | Inr connected \<Rightarrow>
          (case Collect (sysUnyaml S) ((sysWorld S)\<lparr>wTarantool := connected\<rparr>)
                  (YamlNewTarantool collectors (storagePrefix sec) [] (sysSeconds S (storageTimeout sec))) s of
             (Inl err, s') \<Rightarrow> (Inl (fst opt, err), s')
           | (Inr cfg, s') \<Rightarrow> (Inr cfg, s')))"

definition endpointStep ::
  "('s, 't, 'n) sys \<Rightarrow> 's collectorFactory \<Rightarrow> storageSection \<Rightarrow>
   (string \<times> derr) list \<times> config \<times> 's \<Rightarrow> string \<times> tntOpts \<Rightarrow> (string \<times> derr) list \<times> config \<times> 's"
where
  "endpointStep S collectors sec acc opt =
     (case acc of (errs, cconfig, s) \<Rightarrow>
        (case collectEndpoint S collectors sec opt s of
           (Inl err, s') \<Rightarrow> (errs @ [err], cconfig, s')
         | (Inr cfg, s') \<Rightarrow> (errs, Merge cconfig cfg, s')))"

definition collectTarantoolConfig ::
  "('s, 't, 'n) sys \<Rightarrow> 's collectorFactory \<Rightarrow> clusterConfig \<Rightarrow> 's \<Rightarrow> (srcerr + config) \<times> 's"
where
  "collectTarantoolConfig S collectors cc s =
     (let sec = ccStorage cc;
          opts = map (endpointOpts (sysHome S)) (storageEndpoints sec)
      in case foldl (endpointStep S collectors sec) ([], NewConfig, s) opts of
           (errs, cconfig, s') \<Rightarrow>
             if errs \<noteq> [] then (Inl (TarantoolSource errs), s') else (Inr cconfig, s'))"

section \<open>All sources\<close>

text \<open>A storage is asked only if it has endpoints.\<close>

definition mergeStorage ::
  "bool \<Rightarrow> ('s \<Rightarrow> (srcerr + config) \<times> 's) \<Rightarrow> config \<Rightarrow> 's \<Rightarrow> (srcerr + config) \<times> 's"
where
  "mergeStorage asked source cfg s =
     (if asked then
        (case source s of
           (Inl err, s') \<Rightarrow> (Inl err, s')
         | (Inr c, s') \<Rightarrow> (Inr (Merge cfg c), s'))
      else (Inr cfg, s))"

definition GetClusterConfig ::
  "('s, 't, 'n) sys \<Rightarrow> 's collectorFactory \<Rightarrow> string \<Rightarrow> 's \<Rightarrow> (srcerr + clusterConfig) \<times> 's"
where
  "GetClusterConfig S collectors path s =
     (let W = sysWorld S
      in if path = [] then (Inl NoConfigPath, s)
         else
           (case CollectEnv W mainEnv s of
              Inl err \<Rightarrow> (Inl (EnvSource err), s)
            | Inr mainEnvConfig \<Rightarrow>
                (case Collect (sysUnyaml S) W (YamlNewFile W collectors path) s of
                   (Inl err, s1) \<Rightarrow> (Inl (FileSource path err), s1)
                 | (Inr fileConfig, s1) \<Rightarrow>
                     (let config0 = Merge (Merge NewConfig mainEnvConfig) fileConfig
                      in case MakeClusterConfig (sysYaml S) config0 of
                           Inl err \<Rightarrow> (Inl (ParseSource err), s1)
                         | Inr cc \<Rightarrow>
                             (case mergeStorage (etcdEndpoints (ccEtcd cc) \<noteq> [])
                                     (collectEtcdConfig S collectors cc) config0 s1 of
                                (Inl err, s2) \<Rightarrow> (Inl err, s2)
                              | (Inr config1, s2) \<Rightarrow>
                                  (case mergeStorage (storageEndpoints (ccStorage cc) \<noteq> [])
                                          (collectTarantoolConfig S collectors cc) config1 s2 of
                                     (Inl err, s3) \<Rightarrow> (Inl err, s3)
                                   | (Inr config2, s3) \<Rightarrow>
                                       (case CollectEnv W defaultEnv s3 of
                                          Inl err \<Rightarrow> (Inl (DefaultEnvSource err), s3)
                                        | Inr defaultEnvConfig \<Rightarrow>
                                            (case MakeClusterConfig (sysYaml S)
                                                    (Merge config2 defaultEnvConfig) of
                                               Inl err \<Rightarrow> (Inl (MakeCluster err), s3)
                                             | Inr cluster \<Rightarrow> (Inr cluster, s3)))))))))"

definition GetInstanceConfig ::
  "('s, 't, 'n) sys \<Rightarrow> clusterConfig \<Rightarrow> string \<Rightarrow> 's \<Rightarrow> srcerr + instanceConfig"
where
  "GetInstanceConfig S cluster instance s =
     (case HasInstance cluster instance of
        Inl err \<Rightarrow> Inl (MakeCluster err)
      | Inr False \<Rightarrow> Inl (InstanceNotFound instance)
      | Inr True \<Rightarrow>
          (case CollectEnv (sysWorld S) mainEnv s of
             Inl err \<Rightarrow> Inl (EnvSource err)
           | Inr mainEnvConfig \<Rightarrow>
               (case Instantiate cluster instance of
                  Inl err \<Rightarrow> Inl (MakeCluster err)
                | Inr icfg \<Rightarrow>
                    (case MakeInstanceConfig (sysYaml S)
                            (Merge (Merge NewConfig mainEnvConfig) icfg) of
                       Inl err \<Rightarrow> Inl (MakeCluster err)
                     | Inr ic \<Rightarrow> Inr ic))))"

section \<open>Collected configurations are well-formed\<close>

lemma Set_wf:
  assumes "Set cfg p x = (None, cfg')" and "wf_val (paths cfg)" and "wf_val x"
  shows "wf_val (paths cfg')"
proof (cases "p = []")
  case False
  then obtain v' where "setv (paths cfg) p (stored x) = Some v'" "cfg' = cfg\<lparr>paths := v'\<rparr>"
    using assms(1) Set_Some [of p cfg x] Set_None [of p cfg x] by (cases "setv (paths cfg) p (stored x)") auto
  with assms(2,3) show ?thesis by (simp add: wf_val_setv)
qed (use assms in auto)

lemma collectEnv_wf:
  "collectEnv formatter env ps cfg = Inr cfg' \<Longrightarrow> wf_val (paths cfg) \<Longrightarrow> wf_val (paths cfg')"
proof (induction ps arbitrary: cfg)
  case (Cons p ps)
  show ?case
  proof (cases "env (formatter p)")
    case (Some v)
    with Cons.prems obtain cfg1 where "Set cfg p (VStr v) = (None, cfg1)" "collectEnv formatter env ps cfg1 = Inr cfg'"
      by (auto split: prod.splits option.splits)
    with Cons Set_wf [of cfg p "VStr v" cfg1] show ?thesis by simp
  qed (use Cons in simp)
qed simp

lemma CollectEnv_wf: "CollectEnv W formatter s = Inr cfg \<Longrightarrow> wf_val (paths cfg)"
  by (auto simp: CollectEnv_def NewConfig_def dest: collectEnv_wf)

lemma CollectYamlDataMerge_wf:
  assumes "decodes_wf unyaml" and "CollectYamlDataMerge unyaml ds NewConfig = Inr cfg"
  shows "wf_val (paths cfg)"
proof -
  from assms(2) obtain cfgs where
    cfgs: "list_all2 (\<lambda>d cfg. CollectYaml unyaml (Value d) = Inr cfg) ds cfgs" "cfg = foldl Merge NewConfig cfgs"
    by (auto simp: CollectYamlDataMerge_Inr)
  then have "\<forall>c \<in> set cfgs. wf_val (paths c)"
    by (auto dest!: list_all2_in2 [OF cfgs(1)] CollectYaml_wf [OF assms(1)])
  then show ?thesis unfolding cfgs(2) by (rule wf_Merges) (simp add: NewConfig_def)
qed

lemma Collect_wf:
  "decodes_wf unyaml \<Longrightarrow> Collect unyaml W c s = (Inr cfg, s') \<Longrightarrow> wf_val (paths cfg)"
  by (cases c) (auto simp: CollectYamlDecorator_def CollectYamlDataMerge_wf split: prod.splits sum.splits)

lemma collectEtcdConfig_wf:
  "decodes_wf (sysUnyaml S) \<Longrightarrow> collectEtcdConfig S f cc s = (Inr cfg, s') \<Longrightarrow> wf_val (paths cfg)"
  by (auto simp: collectEtcdConfig_def Let_def Collect_wf split: sum.splits prod.splits)

lemma collectEndpoint_wf:
  "decodes_wf (sysUnyaml S) \<Longrightarrow> collectEndpoint S f sec eo s = (Inr cfg, s') \<Longrightarrow> wf_val (paths cfg)"
  by (auto simp: collectEndpoint_def Collect_wf split: sum.splits prod.splits)

lemma endpointStep_wf:
  "decodes_wf (sysUnyaml S) \<Longrightarrow> wf_val (paths (fst (snd acc))) \<Longrightarrow>
   wf_val (paths (fst (snd (endpointStep S f sec acc eo))))"
  by (auto simp: endpointStep_def wf_Merge collectEndpoint_wf split: prod.splits sum.splits)

lemma endpoints_wf:
  "decodes_wf (sysUnyaml S) \<Longrightarrow> wf_val (paths (fst (snd acc))) \<Longrightarrow>
   wf_val (paths (fst (snd (foldl (endpointStep S f sec) acc opts))))"
  by (induction opts arbitrary: acc) (simp_all add: endpointStep_wf)

lemma collectTarantoolConfig_wf:
  assumes "decodes_wf (sysUnyaml S)" and "collectTarantoolConfig S f cc s = (Inr cfg, s')"
  shows "wf_val (paths cfg)"
  using assms(2) endpoints_wf [OF assms(1), of "([], NewConfig, s)" f "ccStorage cc"
    "map (endpointOpts (sysHome S)) (storageEndpoints (ccStorage cc))"]
  by (auto simp: collectTarantoolConfig_def Let_def NewConfig_def split: prod.splits if_splits)

lemma mergeStorage_Inr:
  "mergeStorage asked src cfg s = (Inr cfg', s') \<longleftrightarrow>
     (\<exists>cs. cfg' = foldl Merge cfg cs \<and>
       (if asked then \<exists>c. cs = [c] \<and> src s = (Inr c, s') else cs = [] \<and> s' = s))"
  by (auto simp: mergeStorage_def split: prod.splits sum.splits)

section \<open>Properties\<close>

text \<open>The sources of a cluster configuration, in the order of their priority.\<close>

definition readSources ::
  "('s, 't, 'n) sys \<Rightarrow> 's collectorFactory \<Rightarrow> string \<Rightarrow> 's \<Rightarrow> config list \<Rightarrow> 's \<Rightarrow> bool"
where
  "readSources S f path s cfgs s' \<longleftrightarrow>
     (\<exists>env fil cc0 etcd tnt dflt s1 s2.
        cfgs = [env, fil] @ etcd @ tnt @ [dflt] \<and>
        CollectEnv (sysWorld S) mainEnv s = Inr env \<and>
        Collect (sysUnyaml S) (sysWorld S) (YamlNewFile (sysWorld S) f path) s = (Inr fil, s1) \<and>
        MakeClusterConfig (sysYaml S) (foldl Merge NewConfig [env, fil]) = Inr cc0 \<and>
        (if etcdEndpoints (ccEtcd cc0) \<noteq> [] then \<exists>c. etcd = [c] \<and> collectEtcdConfig S f cc0 s1 = (Inr c, s2)
         else etcd = [] \<and> s2 = s1) \<and>
        (if storageEndpoints (ccStorage cc0) \<noteq> [] then \<exists>c. tnt = [c] \<and> collectTarantoolConfig S f cc0 s2 = (Inr c, s')
         else tnt = [] \<and> s' = s2) \<and>
        CollectEnv (sysWorld S) defaultEnv s' = Inr dflt)"

lemma readSources_wf:
  "decodes_wf (sysUnyaml S) \<Longrightarrow> readSources S f path s cfgs s' \<Longrightarrow> \<forall>c \<in> set cfgs. wf_val (paths c)"
  by (auto simp: readSources_def CollectEnv_wf Collect_wf collectEtcdConfig_wf collectTarantoolConfig_wf
      split: if_splits)

lemma GetClusterConfig_sources:
  assumes "GetClusterConfig S f path s = (Inr cc, s')"
  shows "\<exists>cfgs. readSources S f path s cfgs s' \<and>
    MakeClusterConfig (sysYaml S) (foldl Merge NewConfig cfgs) = Inr cc"
proof -
  from assms obtain env fil cc0 config1 config2 dflt s1 s2 where
    g: "CollectEnv (sysWorld S) mainEnv s = Inr env"
      "Collect (sysUnyaml S) (sysWorld S) (YamlNewFile (sysWorld S) f path) s = (Inr fil, s1)"
      "MakeClusterConfig (sysYaml S) (foldl Merge NewConfig [env, fil]) = Inr cc0"
      "mergeStorage (etcdEndpoints (ccEtcd cc0) \<noteq> []) (collectEtcdConfig S f cc0)
         (foldl Merge NewConfig [env, fil]) s1 = (Inr config1, s2)"
      "mergeStorage (storageEndpoints (ccStorage cc0) \<noteq> []) (collectTarantoolConfig S f cc0) config1 s2 = (Inr config2, s')"
      "CollectEnv (sysWorld S) defaultEnv s' = Inr dflt"
      "MakeClusterConfig (sysYaml S) (Merge config2 dflt) = Inr cc"
    by (auto simp: GetClusterConfig_def Let_def split: if_splits sum.splits prod.splits)
  from g(4) obtain etcd where e: "config1 = foldl Merge NewConfig ([env, fil] @ etcd)"
    "if etcdEndpoints (ccEtcd cc0) \<noteq> [] then \<exists>c. etcd = [c] \<and> collectEtcdConfig S f cc0 s1 = (Inr c, s2)
     else etcd = [] \<and> s2 = s1" unfolding mergeStorage_Inr foldl_append by blast
  from g(5) obtain tnt where t: "config2 = foldl Merge NewConfig ([env, fil] @ etcd @ tnt)"
    "if storageEndpoints (ccStorage cc0) \<noteq> [] then \<exists>c. tnt = [c] \<and> collectTarantoolConfig S f cc0 s2 = (Inr c, s')
     else tnt = [] \<and> s' = s2" unfolding mergeStorage_Inr e(1) foldl_append by auto
  have "readSources S f path s ([env, fil] @ etcd @ tnt @ [dflt]) s'"
    unfolding readSources_def using g(1-3,6) e(2) t(2) by blast
  moreover have "MakeClusterConfig (sysYaml S) (foldl Merge NewConfig ([env, fil] @ etcd @ tnt @ [dflt])) = Inr cc"
    using g(7) t(1) by simp
  ultimately show ?thesis by blast
qed

text \<open>
  Property C19: a cluster configuration is read from the environment, the file, etcd and the
  Tarantool storage if the first two configure them, and the environment defaults, and merged in
  that priority: at every path the first source that speaks about it decides, and the merged
  configuration has no value that is not in a source.
\<close>

theorem GetClusterConfig_priority:
  assumes "decodes_wf (sysUnyaml S)" and "GetClusterConfig S f path s = (Inr cc, s')"
  shows "\<exists>cfgs raw. readSources S f path s cfgs s' \<and> MakeClusterConfig (sysYaml S) raw = Inr cc \<and>
    (\<forall>pre c post q x. cfgs = pre @ c # post \<and> (\<forall>d \<in> set pre. silent d q) \<and> leaf (paths c) q = Some x \<longrightarrow>
       leaf (paths raw) q = Some x) \<and>
    (\<forall>q x. leaf (paths raw) q = Some x \<longrightarrow> (\<exists>c \<in> set cfgs. leaf (paths c) q = Some x))"
proof -
  obtain cfgs where c: "readSources S f path s cfgs s'"
    "MakeClusterConfig (sysYaml S) (foldl Merge NewConfig cfgs) = Inr cc"
    using GetClusterConfig_sources [OF assms(2)] by blast
  have wf: "\<forall>c \<in> set cfgs. wf_val (paths c)" using readSources_wf [OF assms(1) c(1)] .
  have "leaf (paths (foldl Merge NewConfig cfgs)) q = Some x"
    if "cfgs = pre @ c # post" "\<forall>d \<in> set pre. silent d q" "leaf (paths c) q = Some x" for pre c post q x
    using Merges_first [of pre c post NewConfig q x] that wf by simp
  moreover have "\<exists>c \<in> set cfgs. leaf (paths c) q = Some x"
    if "leaf (paths (foldl Merge NewConfig cfgs)) q = Some x" for q x
    using Merges_source [OF wf that] by (simp add: leaf_def NewConfig_def split: option.splits)
  ultimately show ?thesis using c by blast
qed

text \<open>A system with one file, no variables and no storages, for the examples.\<close>

definition demoSys :: "unit etcd \<Rightarrow> unit tarantool \<Rightarrow> (unit, unit, gval) sys" where
  "demoSys E T =
     \<lparr>sysWorld = \<lparr>wEtcd = E, wTarantool = T, osOpen = (\<lambda>s p. Inr ''doc''),
        osWriteFile = (\<lambda>s p d. (None, s)), osLookupEnv = (\<lambda>s v. None)\<rparr>,
      sysTls = (\<lambda>a b c. Inl ''no''), sysDir = \<lparr>readDir = (\<lambda>d. Inl ''no''), readLink = (\<lambda>a b. None),
        readFile = (\<lambda>f. None)\<rparr>,
      sysNewClient = (\<lambda>c. Inl ''no''), sysConnect = (\<lambda>a b. Inl ''no''),
      sysUnyaml = (\<lambda>b. Inr (Some (Inr demoDoc))), sysYaml = docYaml demoDoc,
      sysDuration = (\<lambda>f. Inl ''no''), sysSeconds = (\<lambda>f. 0), sysHome = None\<rparr>"

lemma collectEnv_unset: "\<forall>v. env v = None \<Longrightarrow> collectEnv formatter env ps cfg = Inr cfg"
  by (induction ps) auto

lemma demoSys_sources:
  "CollectEnv (sysWorld (demoSys E T)) formatter () = Inr NewConfig"
  "Collect (sysUnyaml (demoSys E T)) (sysWorld (demoSys E T))
     (YamlNewFile (sysWorld (demoSys E T)) (NewCollectorFactory NewDataCollectorFactory) ''f'') () =
   (Inr (Merge NewConfig \<lparr>paths = demoDoc\<rparr>), ())"
proof -
  show "CollectEnv (sysWorld (demoSys E T)) formatter () = Inr NewConfig"
    unfolding CollectEnv_def by (rule collectEnv_unset) (simp add: demoSys_def)
  have "CollectYaml (\<lambda>b. Inr (Some (Inr demoDoc))) ''doc'' = Inr \<lparr>paths = demoDoc\<rparr>" by code_simp
  then show "Collect (sysUnyaml (demoSys E T)) (sysWorld (demoSys E T))
     (YamlNewFile (sysWorld (demoSys E T)) (NewCollectorFactory NewDataCollectorFactory) ''f'') () =
   (Inr (Merge NewConfig \<lparr>paths = demoDoc\<rparr>), ())"
    by (simp add: demoSys_def NewCollectorFactory_def NewDataCollectorFactory_def
        NewYamlCollectorDecorator_def factoryNewFile_def NewFileCollector_def CollectYamlDecorator_def
        CollectFile_def defaultFileReadFunc_def)
qed

lemma docYaml_cluster: "MakeClusterConfig (docYaml demoDoc) cfg = Inr demoCluster"
proof -
  have c: "\<exists>t. ConfigString (yEncode (docYaml demoDoc)) c = Some t" for c
    by (simp add: ConfigString_def docYaml_def)
  have p: "yParse (docYaml demoDoc) t = Inr (Some demoDoc)" for t by (simp add: docYaml_def)
  have "unmarshalText (docYaml demoDoc) zero unm c =
      (if yNull (docYaml demoDoc) demoDoc then Inr zero else unm demoDoc)" for zero :: clusterConfig and unm c
    using c [of c] by (auto simp: unmarshalText_def p)
  then show ?thesis using demoCluster_made unfolding MakeClusterConfig_def by simp
qed

lemma demoSys_cluster:
  "GetClusterConfig (demoSys E T) (NewCollectorFactory NewDataCollectorFactory) ''f'' () = (Inr demoCluster, ())"
proof -
  have m: "MakeClusterConfig (sysYaml (demoSys E T)) cfg = Inr demoCluster" for cfg
    using docYaml_cluster [of cfg] by (simp add: demoSys_def)
  have "etcdEndpoints (ccEtcd demoCluster) = []" "storageEndpoints (ccStorage demoCluster) = []" by code_simp+
  then show ?thesis by (simp add: GetClusterConfig_def demoSys_sources m mergeStorage_def)
qed

theorem GetClusterConfig_priority_witness:
  "\<forall>E T. \<exists>cfgs. readSources (demoSys E T) (NewCollectorFactory NewDataCollectorFactory) ''f'' () cfgs () \<and>
     (\<exists>c \<in> set cfgs. leaf (paths c) [''b''] = Some (VBool True))"
proof (intro allI)
  fix E :: "unit etcd" and T :: "unit tarantool"
  have wf: "decodes_wf (sysUnyaml (demoSys E T))" by (simp add: decodes_wf_def demoSys_def) code_simp
  from GetClusterConfig_priority [OF wf demoSys_cluster] obtain cfgs where
    r: "readSources (demoSys E T) (NewCollectorFactory NewDataCollectorFactory) ''f'' () cfgs ()" by blast
  then have "Merge NewConfig \<lparr>paths = demoDoc\<rparr> \<in> set cfgs"
    unfolding readSources_def demoSys_sources by auto
  moreover have "leaf (paths (Merge NewConfig \<lparr>paths = demoDoc\<rparr>)) [''b''] = Some (VBool True)" by code_simp
  ultimately show "\<exists>cfgs. readSources (demoSys E T) (NewCollectorFactory NewDataCollectorFactory) ''f'' () cfgs () \<and>
     (\<exists>c \<in> set cfgs. leaf (paths c) [''b''] = Some (VBool True))" using r by blast
qed

end
