(* ===== verification/Replicaset.thy ===== *)
theory Replicaset
  imports Sources
begin

text \<open>
  The replicasets of \<^verbatim>\<open>cli/replicaset\<close>: their data (\<^verbatim>\<open>replicaset.go\<close>, \<^verbatim>\<open>instance.go\<close>,
  \<^verbatim>\<open>failover.go\<close>, \<^verbatim>\<open>electionmode.go\<close>, \<^verbatim>\<open>mode.go\<close>, \<^verbatim>\<open>master.go\<close>), evaluating on
  instances (\<^verbatim>\<open>eval.go\<close>), the cache of \<^verbatim>\<open>discovery.go\<close> and the discovery of an application
  with the centralized config (\<^verbatim>\<open>cconfig.go\<close>), which merges what its instances report.
\<close>

section \<open>Data\<close>

datatype mode = ModeUnknown | ModeRead | ModeRW

datatype master = MasterUnknown | MasterNo | MasterSingle | MasterMulti

datatype failover =
    FailoverUnknown | FailoverOff | FailoverManual | FailoverEventual | FailoverElection
  | FailoverStateful | FailoverSupervised

datatype electionMode =
    ElectionModeUnknown | ElectionModeOff | ElectionModeVoter | ElectionModeCandidate
  | ElectionModeManual

definition ParseFailover :: "string \<Rightarrow> failover" where
  "ParseFailover str =
     (let s = toLower str
      in if s = ''off'' \<or> s = ''disabled'' then FailoverOff
         else if s = ''manual'' then FailoverManual
         else if s = ''eventual'' then FailoverEventual
         else if s = ''election'' \<or> s = ''raft'' then FailoverElection
         else if s = ''stateful'' then FailoverStateful
         else if s = ''supervised'' then FailoverSupervised
         else FailoverUnknown)"

definition ParseElectionMode :: "string \<Rightarrow> electionMode" where
  "ParseElectionMode str =
     (let s = toLower str
      in if s = ''off'' then ElectionModeOff
         else if s = ''voter'' then ElectionModeVoter
         else if s = ''candidate'' then ElectionModeCandidate
         else if s = ''manual'' then ElectionModeManual
         else ElectionModeUnknown)"

fun electionModeString :: "electionMode \<Rightarrow> string" where
  "electionModeString ElectionModeUnknown = ''unknown''"
| "electionModeString ElectionModeOff = ''off''"
| "electionModeString ElectionModeVoter = ''voter''"
| "electionModeString ElectionModeCandidate = ''candidate''"
| "electionModeString ElectionModeManual = ''manual''"

text \<open>What this package uses of \<^verbatim>\<open>running.InstanceCtx\<close>.\<close>

record instanceCtx =
  AppName :: string
  InstName :: string
  ConsoleSocket :: string
  ClusterConfigPath :: string

definition noCtx :: instanceCtx where
  "noCtx = \<lparr>AppName = [], InstName = [], ConsoleSocket = [], ClusterConfigPath = []\<rparr>"

record inst =
  Alias :: string
  UUID :: string
  URI :: string
  Mode :: mode
  InstanceCtx :: instanceCtx
  InstanceCtxFound :: bool

record replicaset =
  rsUUID :: string
  LeaderUUID :: string
  rsAlias :: string
  Roles :: "string list"
  Master :: master
  Failover :: failover
  rsInstances :: "inst list"

definition recalculateMaster :: "replicaset \<Rightarrow> replicaset" where
  "recalculateMaster rs =
     (let masters = length (filter (\<lambda>i. Mode i = ModeRW) (rsInstances rs));
          unknown = length (filter (\<lambda>i. Mode i = ModeUnknown) (rsInstances rs))
      in rs\<lparr>Master :=
           (if masters > 1 then MasterMulti
            else if masters = 1 then (if unknown = 0 then MasterSingle else MasterUnknown)
            else if unknown = 0 then MasterNo else MasterUnknown)\<rparr>)"

definition recalculateMasters :: "replicaset list \<Rightarrow> replicaset list" where
  "recalculateMasters rss = map recalculateMaster rss"

definition findInst :: "replicaset list \<Rightarrow> (inst \<Rightarrow> bool) \<Rightarrow> (replicaset \<times> inst) option" where
  "findInst rss P = find (\<lambda>(rs, i). P i) (concat (map (\<lambda>rs. map (Pair rs) (rsInstances rs)) rss))"

definition findInstanceByAlias :: "replicaset list \<Rightarrow> string \<Rightarrow> (replicaset \<times> inst) option" where
  "findInstanceByAlias rss alias = findInst rss (\<lambda>i. Alias i = alias)"

section \<open>Evaluating on instances\<close>

datatype 'e everr = NoInstances | ConnectErr string string string | NoneConnected | EvalErr 'e

text \<open>
  The loop over the instances: \<open>dial\<close> is the error of connecting to a socket, if any, and the
  evaluator returns whether to stop; both see the world and the evaluator may change it.
\<close>

fun evalLoop ::
  "('w \<Rightarrow> string \<Rightarrow> string option) \<Rightarrow> (instanceCtx \<Rightarrow> 'w \<Rightarrow> ('e + bool) \<times> 'w) \<Rightarrow> bool \<Rightarrow> nat \<Rightarrow>
   instanceCtx list \<Rightarrow> 'w \<Rightarrow> 'e everr option \<times> 'w"
where
  "evalLoop dial ievaler skipConnectError connected [] w =
     (if connected = 0 then Some NoneConnected else None, w)"
| "evalLoop dial ievaler skipConnectError connected (i # is) w =
     (case dial w (ConsoleSocket i) of
        Some err \<Rightarrow>
          if \<not> skipConnectError then (Some (ConnectErr (AppName i) (InstName i) err), w)
          else evalLoop dial ievaler skipConnectError connected is w
      | None \<Rightarrow>
          (case ievaler i w of
             (Inl err, w') \<Rightarrow> (Some (EvalErr err), w')
           | (Inr done', w') \<Rightarrow>
               if done' then (None, w')
               else evalLoop dial ievaler skipConnectError (Suc connected) is w'))"

definition evalForeach ::
  "('w \<Rightarrow> string \<Rightarrow> string option) \<Rightarrow> instanceCtx list \<Rightarrow>
   (instanceCtx \<Rightarrow> 'w \<Rightarrow> ('e + bool) \<times> 'w) \<Rightarrow> bool \<Rightarrow> 'w \<Rightarrow> 'e everr option \<times> 'w"
where
  "evalForeach dial is ievaler skipConnectError w =
     (if is = [] then (Some NoInstances, w) else evalLoop dial ievaler skipConnectError 0 is w)"

definition EvalForeach where
  "EvalForeach dial is ievaler w = evalForeach dial is ievaler False w"

definition EvalForeachAlive where
  "EvalForeachAlive dial is ievaler w = evalForeach dial is ievaler True w"

definition EvalAny where
  "EvalAny dial is ievaler w =
     EvalForeachAlive dial is
       (\<lambda>i w. case ievaler i w of (Inl err, w') \<Rightarrow> (Inl err, w') | (Inr _, w') \<Rightarrow> (Inr True, w')) w"

section \<open>Topologies\<close>

record topology =
  tUUID :: string
  tLeaderUUID :: string
  tAlias :: string
  tFailover :: string
  tInstances :: "inst list"
  tInstanceUUID :: string
  tInstanceRW :: bool

text \<open>
  What one instance reports: \<open>reply\<close> is the result of the Lua chunk on it and \<open>decode\<close> is
  \<^verbatim>\<open>mapstructure.Decode\<close>.
\<close>

datatype toperr = EvalFailed string | BadResponse | ParseResponse string

definition getCConfigInstanceTopology ::
  "(gval \<Rightarrow> string + topology) \<Rightarrow> string + gval list \<Rightarrow> toperr + topology"
where
  "getCConfigInstanceTopology decode reply =
     (case reply of
        Inl err \<Rightarrow> Inl (EvalFailed err)
      | Inr dat \<Rightarrow>
          (case dat of
             [d] \<Rightarrow>
               (case decode d of
                  Inl err \<Rightarrow> Inl (ParseResponse err)
                | Inr t \<Rightarrow>
                    Inr (t\<lparr>tInstances := map (\<lambda>i.
                      if UUID i = tInstanceUUID t
                      then i\<lparr>Mode := (if tInstanceRW t then ModeRW else ModeRead)\<rparr> else i)
                      (tInstances t)\<rparr>))
           | _ \<Rightarrow> Inl BadResponse))"

text \<open>An instance as one more topology describes it: what is missing is filled in.\<close>

definition fillInstance :: "inst \<Rightarrow> inst \<Rightarrow> inst" where
  "fillInstance i t =
     (let i1 = (if URI i = [] then i\<lparr>URI := URI t\<rparr> else i);
          i2 = (if Mode i1 = ModeUnknown then i1\<lparr>Mode := Mode t\<rparr> else i1)
      in if \<not> InstanceCtxFound i2
         then i2\<lparr>InstanceCtx := InstanceCtx t, InstanceCtxFound := InstanceCtxFound t\<rparr> else i2)"

text \<open>The inner loop has no break: the last instance with the UUID is the one that is updated.\<close>

definition lastIndex :: "('a \<Rightarrow> bool) \<Rightarrow> 'a list \<Rightarrow> nat option" where
  "lastIndex P xs =
     (case filter (\<lambda>k. P (xs ! k)) [0..<length xs] of [] \<Rightarrow> None | k # ks \<Rightarrow> Some (last (k # ks)))"

definition updateInstances :: "inst list \<Rightarrow> inst \<Rightarrow> inst list" where
  "updateInstances is t =
     (case lastIndex (\<lambda>i. UUID t = UUID i) is of
        Some k \<Rightarrow> is[k := fillInstance (is ! k) t]
      | None \<Rightarrow> is @ [t])"

definition updateCConfigInstances :: "replicaset \<Rightarrow> topology \<Rightarrow> replicaset" where
  "updateCConfigInstances rs t = rs\<lparr>rsInstances := foldl updateInstances (rsInstances rs) (tInstances t)\<rparr>"

fun mergeTopology :: "topology \<Rightarrow> replicaset list \<Rightarrow> replicaset list" where
  "mergeTopology t [] =
     [\<lparr>rsUUID = tUUID t, LeaderUUID = tLeaderUUID t, rsAlias = tAlias t, Roles = [],
       Master = MasterUnknown, Failover = ParseFailover (tFailover t), rsInstances = tInstances t\<rparr>]"
| "mergeTopology t (rs # rss) =
     (if tUUID t = rsUUID rs then updateCConfigInstances rs t # rss else rs # mergeTopology t rss)"

definition dropExpelled :: "replicaset \<Rightarrow> replicaset" where
  "dropExpelled rs = rs\<lparr>rsInstances := filter (\<lambda>i. URI i \<noteq> []) (rsInstances rs)\<rparr>"

definition mergeCConfigTopologies :: "topology list \<Rightarrow> replicaset list" where
  "mergeCConfigTopologies ts =
     recalculateMasters (map dropExpelled (foldl (\<lambda>rss t. mergeTopology t rss) [] ts))"

text \<open>The discovery asks every instance that can be reached and stops at the first error.\<close>

datatype discerr = DiscEval "toperr everr" | NoInstance

definition topologyOf ::
  "('w \<Rightarrow> instanceCtx \<Rightarrow> string + gval list) \<Rightarrow> (gval \<Rightarrow> string + topology) \<Rightarrow> instanceCtx \<Rightarrow>
   'w \<times> topology list \<Rightarrow> (toperr + bool) \<times> 'w \<times> topology list"
where
  "topologyOf eval decode ictx wts =
     (case getCConfigInstanceTopology decode (eval (fst wts) ictx) of
        Inl err \<Rightarrow> (Inl err, wts)
      | Inr t \<Rightarrow>
          (let t' = t\<lparr>tInstances := map (\<lambda>i.
                 if UUID i = tInstanceUUID t then i\<lparr>InstanceCtx := ictx, InstanceCtxFound := True\<rparr> else i)
                 (tInstances t)\<rparr>
           in (Inr False, fst wts, snd wts @ [t'])))"

definition discovery ::
  "('w \<Rightarrow> string \<Rightarrow> string option) \<Rightarrow> ('w \<Rightarrow> instanceCtx \<Rightarrow> string + gval list) \<Rightarrow>
   (gval \<Rightarrow> string + topology) \<Rightarrow> instanceCtx list \<Rightarrow> 'w \<Rightarrow> discerr + replicaset list"
where
  "discovery dial eval decode is w =
     (case EvalForeachAlive (\<lambda>wts. dial (fst wts)) is (topologyOf eval decode) (w, []) of
        (Some err, _) \<Rightarrow> Inl (DiscEval err)
      | (None, _, ts) \<Rightarrow> if ts = [] then Inl NoInstance else Inr (mergeCConfigTopologies ts))"

section \<open>The cache\<close>

record 'r cachedDiscoverer =
  cached :: bool
  replicasets :: "'r option"

text \<open>
  \<open>disc\<close> is what the discovery would return now. The cached replicasets are there from the first
  discovery on.
\<close>

definition DiscoveryCached ::
  "'e + 'r \<Rightarrow> bool \<Rightarrow> 'r cachedDiscoverer \<Rightarrow> ('e + 'r option) \<times> 'r cachedDiscoverer"
where
  "DiscoveryCached disc skipCache c =
     (if \<not> skipCache \<and> cached c then (Inr (replicasets c), c)
      else
        (case disc of
           Inl err \<Rightarrow> (Inl err, c\<lparr>cached := False, replicasets := None\<rparr>)
         | Inr rss \<Rightarrow> (Inr (Some rss), c\<lparr>cached := True, replicasets := Some rss\<rparr>)))"

section \<open>What merging topologies computes\<close>

text \<open>The elements of a list in the order of their first appearance.\<close>

definition dedup :: "'a list \<Rightarrow> 'a list" where
  "dedup xs = foldl (\<lambda>acc x. if x \<in> set acc then acc else acc @ [x]) [] xs"

lemma dedup_Nil [simp]: "dedup [] = []"
  by (simp add: dedup_def)

lemma set_dedup [simp]: "set (dedup xs) = set xs"
  by (induction xs rule: rev_induct) (auto simp: dedup_def)

lemma dedup_snoc: "dedup (xs @ [x]) = (if x \<in> set xs then dedup xs else dedup xs @ [x])"
  using set_dedup [of xs] by (simp add: dedup_def)

lemma distinct_dedup [simp]: "distinct (dedup xs)"
  by (induction xs rule: rev_induct) (auto simp: dedup_snoc)

lemma dedup_distinct: "distinct xs \<Longrightarrow> dedup xs = xs"
  by (induction xs rule: rev_induct) (auto simp: dedup_snoc)

text \<open>
  A list of groups, one per key in the order of first appearance, each computed from the elements
  with its key.
\<close>

definition grouped :: "('a \<Rightarrow> 'k) \<Rightarrow> ('a list \<Rightarrow> 'b) \<Rightarrow> 'a list \<Rightarrow> 'b list" where
  "grouped key f xs = map (\<lambda>u. f (filter (\<lambda>x. key x = u) xs)) (dedup (map key xs))"

lemma filter_key_snoc:
  "filter (\<lambda>x. key x = u) (xs @ [y]) = (if key y = u then filter (\<lambda>x. key x = u) xs @ [y] else filter (\<lambda>x. key x = u) xs)"
  by simp

lemma grouped_new:
  assumes "key y \<notin> key ` set xs"
  shows "grouped key f (xs @ [y]) = grouped key f xs @ [f [y]]"
proof -
  have "filter (\<lambda>x. key x = key y) xs = []" using assms by (auto simp: filter_empty_conv) (metis imageI)
  moreover have "map (\<lambda>u. f (filter (\<lambda>x. key x = u) (xs @ [y]))) (dedup (map key xs)) =
      map (\<lambda>u. f (filter (\<lambda>x. key x = u) xs)) (dedup (map key xs))"
    using assms by (intro map_cong) (auto simp: image_iff)
  ultimately show ?thesis using assms by (simp add: grouped_def dedup_snoc)
qed

lemma grouped_old:
  assumes "key y \<in> key ` set xs"
  shows "grouped key f (xs @ [y]) =
    map (\<lambda>u. f (filter (\<lambda>x. key x = u) xs @ (if u = key y then [y] else []))) (dedup (map key xs))"
  using assms by (auto simp: grouped_def dedup_snoc intro!: arg_cong [of _ _ f])

lemma grouped_distinct: "distinct (map key xs) \<Longrightarrow> \<forall>x. f [x] = x \<Longrightarrow> grouped key f xs = xs"
proof (induction xs rule: rev_induct)
  case (snoc y xs)
  then have "key y \<notin> key ` set xs" by auto
  with snoc show ?case by (simp add: grouped_new)
qed (simp add: grouped_def)

text \<open>Changing the elements of a list with distinct keys at one key.\<close>

lemma update_at_key:
  assumes "distinct (map g xs)" and "lastIndex (\<lambda>x. u = g x) xs = Some k"
  shows "xs[k := h (xs ! k)] = map (\<lambda>x. if g x = u then h x else x) xs"
proof -
  have k: "k < length xs" "g (xs ! k) = u"
  proof -
    obtain a as where f: "filter (\<lambda>j. u = g (xs ! j)) [0..<length xs] = a # as" "last (a # as) = k"
      using assms(2) by (auto simp: lastIndex_def split: list.splits if_splits)
    then have "k \<in> set (filter (\<lambda>j. u = g (xs ! j)) [0..<length xs])" by (metis last_in_set list.distinct(1))
    then show "k < length xs" "g (xs ! k) = u" by auto
  qed
  show ?thesis
  proof (rule nth_equalityI)
    fix j assume j: "j < length (xs[k := h (xs ! k)])"
    have "g (xs ! j) = u \<longleftrightarrow> j = k" using assms(1) j k by (metis length_list_update length_map nth_eq_iff_index_eq nth_map)
    with j k show "xs[k := h (xs ! k)] ! j = map (\<lambda>x. if g x = u then h x else x) xs ! j"
      by (auto simp: nth_list_update)
  qed simp
qed

lemma lastIndex_None: "lastIndex P xs = None \<longleftrightarrow> (\<forall>x \<in> set xs. \<not> P x)"
proof -
  have "lastIndex P xs = None \<longleftrightarrow> filter (\<lambda>k. P (xs ! k)) [0..<length xs] = []"
    by (auto simp: lastIndex_def split: list.splits)
  also have "\<dots> \<longleftrightarrow> (\<forall>x \<in> set xs. \<not> P x)" by (auto simp: filter_empty_conv all_set_conv_all_nth)
  finally show ?thesis .
qed

lemma filter_key_hd: "u \<in> g ` set xs \<Longrightarrow> \<exists>y ys. filter (\<lambda>x. g x = u) xs = y # ys \<and> g y = u"
  by (induction xs) auto

lemma UUID_fillInstance [simp]: "UUID (fillInstance i t) = UUID i"
  by (simp add: fillInstance_def Let_def)

text \<open>All reports about one instance combined, the first one first.\<close>

definition combine :: "inst list \<Rightarrow> inst" where
  "combine is = foldl fillInstance (hd is) (tl is)"

lemma UUID_foldl_fill [simp]: "UUID (foldl fillInstance i ts) = UUID i"
  by (induction ts arbitrary: i) simp_all

lemma combine_snoc: "is \<noteq> [] \<Longrightarrow> combine (is @ [t]) = fillInstance (combine is) t"
  by (cases "is") (simp_all add: combine_def)

lemma UUID_combine:
  "u \<in> UUID ` set xs \<Longrightarrow> UUID (combine (filter (\<lambda>x. UUID x = u) xs)) = u"
proof -
  assume "u \<in> UUID ` set xs"
  from filter_key_hd [OF this] obtain y ys where "filter (\<lambda>x. UUID x = u) xs = y # ys" "UUID y = u" by (elim exE conjE)
  then show ?thesis by (simp add: combine_def)
qed

lemma map_UUID_grouped: "map UUID (grouped UUID combine xs) = dedup (map UUID xs)"
  unfolding grouped_def map_map by (rule map_idI) (simp add: UUID_combine)

lemma updateInstances_grouped:
  "updateInstances (grouped UUID combine xs) t = grouped UUID combine (xs @ [t])"
proof (cases "lastIndex (\<lambda>i. UUID t = UUID i) (grouped UUID combine xs)")
  case None
  then have "UUID t \<notin> set (map UUID (grouped UUID combine xs))" by (auto simp: lastIndex_None)
  then have "UUID t \<notin> UUID ` set xs" unfolding map_UUID_grouped by simp
  then show ?thesis using None by (simp add: updateInstances_def grouped_new combine_def)
next
  case (Some k)
  have d: "distinct (map UUID (grouped UUID combine xs))" by (simp add: map_UUID_grouped)
  have "UUID t \<in> set (map UUID (grouped UUID combine xs))"
    using Some lastIndex_None [of "\<lambda>i. UUID t = UUID i" "grouped UUID combine xs"] by force
  then have t: "UUID t \<in> UUID ` set xs" unfolding map_UUID_grouped by simp
  have ne: "filter (\<lambda>x. UUID x = UUID t) xs \<noteq> []" using t by (auto simp: filter_empty_conv)
  have "updateInstances (grouped UUID combine xs) t =
      map (\<lambda>i. if UUID i = UUID t then fillInstance i t else i) (grouped UUID combine xs)"
    using update_at_key [OF d Some, of "\<lambda>i. fillInstance i t"] Some by (simp add: updateInstances_def)
  also have "\<dots> = grouped UUID combine (xs @ [t])"
    unfolding grouped_old [OF t] unfolding grouped_def map_map
    by (intro map_cong) (auto simp: UUID_combine combine_snoc [OF ne])
  finally show ?thesis .
qed

lemma foldl_updateInstances:
  "foldl updateInstances (grouped UUID combine xs) ts = grouped UUID combine (xs @ ts)"
proof (induction ts arbitrary: xs)
  case (Cons t ts)
  then show ?case using Cons.IH [of "xs @ [t]"] by (simp add: updateInstances_grouped)
qed simp

text \<open>One replicaset from all topologies with its UUID.\<close>

definition replicasetOf :: "topology list \<Rightarrow> replicaset" where
  "replicasetOf ts =
     \<lparr>rsUUID = tUUID (hd ts), LeaderUUID = tLeaderUUID (hd ts), rsAlias = tAlias (hd ts), Roles = [],
      Master = MasterUnknown, Failover = ParseFailover (tFailover (hd ts)),
      rsInstances = grouped UUID combine (concat (map tInstances ts))\<rparr>"

lemma replicasetOf_snoc:
  "ts \<noteq> [] \<Longrightarrow> replicasetOf (ts @ [t]) = updateCConfigInstances (replicasetOf ts) t"
  by (simp add: replicasetOf_def updateCConfigInstances_def foldl_updateInstances)

lemma rsUUID_replicasetOf:
  "u \<in> tUUID ` set ts \<Longrightarrow> rsUUID (replicasetOf (filter (\<lambda>t. tUUID t = u) ts)) = u"
proof -
  assume "u \<in> tUUID ` set ts"
  from filter_key_hd [OF this] obtain y ys where "filter (\<lambda>x. tUUID x = u) ts = y # ys" "tUUID y = u" by (elim exE conjE)
  then show ?thesis by (simp add: replicasetOf_def)
qed

lemma mergeTopology_distinct:
  "distinct (map rsUUID rss) \<Longrightarrow>
   mergeTopology t rss =
     (if tUUID t \<in> rsUUID ` set rss
      then map (\<lambda>rs. if rsUUID rs = tUUID t then updateCConfigInstances rs t else rs) rss
      else rss @ mergeTopology t [])"
proof (induction rss)
  case (Cons rs rss)
  then show ?case by (auto simp: image_iff intro!: map_idI [symmetric])
qed simp

lemma mergeTopology_grouped:
  assumes "distinct (map UUID (tInstances t))"
  shows "mergeTopology t (grouped tUUID replicasetOf ts) = grouped tUUID replicasetOf (ts @ [t])"
proof -
  have ids: "map rsUUID (grouped tUUID replicasetOf ts) = dedup (map tUUID ts)"
    unfolding grouped_def map_map by (rule map_idI) (simp add: rsUUID_replicasetOf)
  then have d: "distinct (map rsUUID (grouped tUUID replicasetOf ts))" by simp
  have mem: "tUUID t \<in> rsUUID ` set (grouped tUUID replicasetOf ts) \<longleftrightarrow> tUUID t \<in> tUUID ` set ts"
    using arg_cong [OF ids, of set] by simp
  show ?thesis
  proof (cases "tUUID t \<in> tUUID ` set ts")
    case True
    then have ne: "filter (\<lambda>x. tUUID x = tUUID t) ts \<noteq> []" by (auto simp: filter_empty_conv)
    have "mergeTopology t (grouped tUUID replicasetOf ts) =
        map (\<lambda>rs. if rsUUID rs = tUUID t then updateCConfigInstances rs t else rs) (grouped tUUID replicasetOf ts)"
      using mergeTopology_distinct [OF d] True mem by simp
    also have "\<dots> = grouped tUUID replicasetOf (ts @ [t])"
      unfolding grouped_old [OF True] unfolding grouped_def map_map
      by (intro map_cong) (auto simp: rsUUID_replicasetOf replicasetOf_snoc [OF ne])
    finally show ?thesis .
  next
    case False
    have "grouped UUID combine (tInstances t) = tInstances t"
      by (rule grouped_distinct [OF assms]) (simp add: combine_def)
    then have "mergeTopology t [] = [replicasetOf [t]]" by (simp add: replicasetOf_def)
    with False show ?thesis using mergeTopology_distinct [OF d] mem by (simp add: grouped_new)
  qed
qed

lemma mergeTopologies_grouped:
  "\<forall>t \<in> set ts. distinct (map UUID (tInstances t)) \<Longrightarrow>
   foldl (\<lambda>rss t. mergeTopology t rss) [] ts = grouped tUUID replicasetOf ts"
  by (induction ts rule: rev_induct) (simp_all add: mergeTopology_grouped, simp add: grouped_def)

section \<open>Properties\<close>

lemma length_filter_one: "length (filter P xs) = 1 \<longleftrightarrow> (\<exists>x. filter P xs = [x])"
  by (cases "filter P xs"; cases "tl (filter P xs)") auto

lemma master_single:
  "Master (recalculateMaster rs) = MasterSingle \<longleftrightarrow>
     (\<exists>m. filter (\<lambda>i. Mode i = ModeRW) (rsInstances rs) = [m]) \<and> (\<forall>i \<in> set (rsInstances rs). Mode i \<noteq> ModeUnknown)"
  by (auto simp: recalculateMaster_def Let_def length_filter_one [simplified] filter_empty_conv)

text \<open>
  Property C23: merging the topologies that the instances report gives one replicaset for every
  reported UUID, in the order in which they were first reported, with one instance for every UUID
  reported in it: the combination of all its reports. Instances without a URI are left out, and a
  replicaset is said to have a single master exactly if one of its instances is known to be
  writable and the mode of none is unknown.
\<close>

theorem mergeCConfigTopologies_grouped:
  assumes "\<forall>t \<in> set ts. distinct (map UUID (tInstances t))"
  shows "mergeCConfigTopologies ts =
      map (recalculateMaster \<circ> dropExpelled) (grouped tUUID replicasetOf ts) \<and>
    (\<forall>rs \<in> set (mergeCConfigTopologies ts). distinct (map UUID (rsInstances rs)) \<and>
       (Master rs = MasterSingle \<longleftrightarrow>
          (\<exists>m. filter (\<lambda>i. Mode i = ModeRW) (rsInstances rs) = [m]) \<and>
          (\<forall>i \<in> set (rsInstances rs). Mode i \<noteq> ModeUnknown)))"
proof -
  have eq: "mergeCConfigTopologies ts = map (recalculateMaster \<circ> dropExpelled) (grouped tUUID replicasetOf ts)"
    by (simp add: mergeCConfigTopologies_def recalculateMasters_def mergeTopologies_grouped [OF assms])
  have inst: "rsInstances (recalculateMaster rs) = rsInstances rs" for rs
    by (simp add: recalculateMaster_def Let_def)
  have "distinct (map UUID (rsInstances (dropExpelled rs)))" if "rs \<in> set (grouped tUUID replicasetOf ts)" for rs
  proof -
    have "distinct (map UUID (rsInstances rs))"
      using that by (auto simp: grouped_def [of tUUID] replicasetOf_def map_UUID_grouped)
    then show ?thesis by (simp add: dropExpelled_def distinct_map_filter)
  qed
  then show ?thesis unfolding eq by (auto simp: inst master_single)
qed

theorem mergeCConfigTopologies_grouped_witness:
  "map rsUUID (mergeCConfigTopologies
     [\<lparr>tUUID = ''r'', tLeaderUUID = [], tAlias = [], tFailover = [], tInstances =
         [\<lparr>Alias = ''a'', UUID = ''1'', URI = ''u'', Mode = ModeRW, InstanceCtx = noCtx, InstanceCtxFound = True\<rparr>,
          \<lparr>Alias = ''b'', UUID = ''2'', URI = [], Mode = ModeUnknown, InstanceCtx = noCtx, InstanceCtxFound = False\<rparr>],
       tInstanceUUID = ''1'', tInstanceRW = True\<rparr>]) = [''r'']"
proof -
  let ?t = "\<lparr>tUUID = ''r'', tLeaderUUID = [], tAlias = [], tFailover = [], tInstances =
         [\<lparr>Alias = ''a'', UUID = ''1'', URI = ''u'', Mode = ModeRW, InstanceCtx = noCtx, InstanceCtxFound = True\<rparr>,
          \<lparr>Alias = ''b'', UUID = ''2'', URI = [], Mode = ModeUnknown, InstanceCtx = noCtx, InstanceCtxFound = False\<rparr>],
       tInstanceUUID = ''1'', tInstanceRW = True\<rparr>"
  have "mergeCConfigTopologies [?t] = map (recalculateMaster \<circ> dropExpelled) (grouped tUUID replicasetOf [?t])"
    using mergeCConfigTopologies_grouped [of "[?t]"] by simp
  then show ?thesis
    by (simp add: grouped_def [of tUUID] dedup_def replicasetOf_def recalculateMaster_def dropExpelled_def Let_def)
qed

end
