(* ===== verification/ClusterCmd.thy ===== *)
theory ClusterCmd
  imports Sources
begin

text \<open>
  The commands of \<^verbatim>\<open>cli/cluster/cmd\<close> that validate, show and publish configurations:
  \<^verbatim>\<open>uri.go\<close>, \<^verbatim>\<open>common.go\<close>, \<^verbatim>\<open>publish.go\<close> and \<^verbatim>\<open>show.go\<close>. What a command prints is part
  of its result. A nil pointer that is dereferenced is the error \<open>Panic\<close>.
\<close>

section \<open>Options from a URI\<close>

text \<open>A parsed \<^verbatim>\<open>url.URL\<close>; the query is the function \<^verbatim>\<open>Get\<close> of its values.\<close>

record url =
  urlScheme :: string
  urlHost :: string
  urlPath :: string
  urlUser :: "(string \<times> string option) option"
  urlQuery :: "string \<Rightarrow> string"

record uriOpts =
  uEndpoint :: string
  uHost :: string
  uPrefix :: string
  uKey :: string
  uInstance :: string
  uUsername :: string
  uPassword :: string
  uKeyFile :: string
  uCertFile :: string
  uCaPath :: string
  uCaFile :: string
  uCiphers :: string
  uSkipHostVerify :: bool
  uSkipPeerVerify :: bool
  uTimeout :: int

datatype cmderr =
    NoSchemeOrHost
  | BadVerifyPeer
  | BadVerifyHost
  | BadTimeout
  | InvalidURL cmderr
  | BadCluster clerr
  | InvalidClusterConfig gerr
  | InvalidInstance string gerr
  | ValidateErrors "cmderr list"
  | NoSuchInstance string
  | GetConfig srcerr
  | ConnectFailed derr derr
  | CollectToUpdate string derr
  | CollectFailed derr
  | ParseTarget clerr
  | WrongReplicaset string string
  | WrongGroup string string
  | ReplaceFailed string clerr
  | NoReplicasetName string
  | NoGroupFor string
  | SetConfigFailed string clerr
  | PublisherFailed derr
  | PublishFailed derr
  | Panic

definition DefaultUriTimeout :: int where
  "DefaultUriTimeout = 3 * 10 ^ 9"

definition hexDigit :: "nat \<Rightarrow> char" where
  "hexDigit n = ''0123456789ABCDEF'' ! n"

text \<open>\<^verbatim>\<open>url.URL.String\<close> of a URL with a scheme and a host only.\<close>

definition escapeHost :: "string \<Rightarrow> string" where
  "escapeHost host =
     concat (map (\<lambda>c.
       if isWord c \<or> c \<in> set ''!$&()*+,;=:[]<>-.~'' \<or> c = CHR 0x27 \<or> c = CHR 0x22 then [c]
       else [CHR ''%'', hexDigit (of_char c div 16), hexDigit (of_char c mod 16)]) host)"

definition endpointString :: "string \<Rightarrow> string \<Rightarrow> string" where
  "endpointString scheme host = scheme @ ''://'' @ escapeHost host"

text \<open>\<^verbatim>\<open>strconv.ParseBool\<close> of a text in lower case.\<close>

definition parseBoolLower :: "string \<Rightarrow> bool option" where
  "parseBoolLower s =
     (if s \<in> {''1'', ''t'', ''true''} then Some True
      else if s \<in> {''0'', ''f'', ''false''} then Some False else None)"

text \<open>An option that is a boolean when it is there: whether the check is to be skipped.\<close>

definition skipVerify :: "string \<Rightarrow> bool option" where
  "skipVerify s =
     (if s = [] then Some False
      else (case parseBoolLower (toLower s) of None \<Rightarrow> None | Some verify \<Rightarrow> Some (\<not> verify)))"

definition ParseUriOpts ::
  "(string \<Rightarrow> 64 word option) \<Rightarrow> (64 word \<Rightarrow> int) \<Rightarrow> url \<Rightarrow> cmderr + uriOpts"
where
  "ParseUriOpts pFloat seconds uri =
     (if urlScheme uri = [] \<or> urlHost uri = [] then Inl NoSchemeOrHost
      else
        (let value = urlQuery uri;
             opts = \<lparr>uEndpoint = endpointString (urlScheme uri) (urlHost uri), uHost = urlHost uri,
               uPrefix = urlPath uri, uKey = value ''key'', uInstance = value ''name'',
               uUsername = (case urlUser uri of None \<Rightarrow> [] | Some (user, _) \<Rightarrow> user),
               uPassword = (case urlUser uri of Some (_, Some pass) \<Rightarrow> pass | _ \<Rightarrow> []),
               uKeyFile = value ''ssl_key_file'', uCertFile = value ''ssl_cert_file'',
               uCaPath = value ''ssl_ca_path'', uCaFile = value ''ssl_ca_file'',
               uCiphers = value ''ssl_ciphers'', uSkipHostVerify = False, uSkipPeerVerify = False,
               uTimeout = DefaultUriTimeout\<rparr>
         in case skipVerify (value ''verify_peer'') of
              None \<Rightarrow> Inl BadVerifyPeer
            | Some skipPeer \<Rightarrow>
                (case skipVerify (value ''verify_host'') of
                   None \<Rightarrow> Inl BadVerifyHost
                 | Some skipHost \<Rightarrow>
                     (let opts' = opts\<lparr>uSkipPeerVerify := skipPeer, uSkipHostVerify := skipHost\<rparr>
                      in if value ''timeout'' = [] then Inr opts'
                         else
                           (case pFloat (value ''timeout'') of
                              None \<Rightarrow> Inl BadTimeout
                            | Some f \<Rightarrow> Inr (opts'\<lparr>uTimeout := seconds f\<rparr>))))))"

definition MakeEtcdOptsFromUriOpts :: "uriOpts \<Rightarrow> etcdOpts" where
  "MakeEtcdOptsFromUriOpts src =
     \<lparr>Endpoints = (if uEndpoint src \<noteq> [] then [uEndpoint src] else []), Username = uUsername src,
      Password = uPassword src, KeyFile = uKeyFile src, CertFile = uCertFile src,
      CaPath = uCaPath src, CaFile = uCaFile src,
      SkipHostVerify = (uSkipHostVerify src \<or> uSkipPeerVerify src), Timeout = uTimeout src\<rparr>"

definition MakeConnectOptsFromUriOpts :: "uriOpts \<Rightarrow> string \<times> tntOpts" where
  "MakeConnectOptsFromUriOpts src =
     (let ssl = \<lparr>oKeyFile = uKeyFile src, oCertFile = uCertFile src, oCaFile = uCaFile src,
            oCiphers = uCiphers src\<rparr>
      in (''tcp://'' @ uHost src,
          \<lparr>oUser = uUsername src, oPass = uPassword src,
           oTransport = (if ssl \<noteq> noSsl then ''ssl'' else []), oSsl = ssl, oSkipSchema = False,
           oTimeout = uTimeout src\<rparr>))"

section \<open>Validating and printing\<close>

definition validateInstanceConfig :: "fops \<Rightarrow> config option \<Rightarrow> string \<Rightarrow> cmderr option" where
  "validateInstanceConfig F cfg name =
     (case cfg of
        None \<Rightarrow> Some Panic
      | Some c \<Rightarrow>
          (case ValidateSchema F c TarantoolSchema of
             None \<Rightarrow> None
           | Some err \<Rightarrow> Some (InvalidInstance name err)))"

text \<open>
  The configuration of one instance for the validation of a cluster: with the environment or
  without it.
\<close>

definition instanceConfigOf ::
  "('s, 't, 'n) sys \<Rightarrow> clusterConfig \<Rightarrow> bool \<Rightarrow> 's \<Rightarrow> string \<Rightarrow> cmderr + config option"
where
  "instanceConfigOf S cconfig full s name =
     (if full then
        (case GetInstanceConfig S cconfig name s of
           Inl err \<Rightarrow> Inl (GetConfig err)
         | Inr ic \<Rightarrow> Inr (iRaw ic))
      else
        (case Instantiate cconfig name of
           Inl err \<Rightarrow> Inl (BadCluster err)
         | Inr c \<Rightarrow> Inr (Some c)))"

fun validateInstances ::
  "fops \<Rightarrow> ('s, 't, 'n) sys \<Rightarrow> clusterConfig \<Rightarrow> bool \<Rightarrow> 's \<Rightarrow> cmderr list \<Rightarrow> string list \<Rightarrow> cmderr + cmderr list"
where
  "validateInstances F S cconfig full s errs [] = Inr errs"
| "validateInstances F S cconfig full s errs (name # names) =
     (case instanceConfigOf S cconfig full s name of
        Inl err \<Rightarrow> Inl err
      | Inr iconfig \<Rightarrow>
          (case validateInstanceConfig F iconfig name of
             None \<Rightarrow> validateInstances F S cconfig full s errs names
           | Some Panic \<Rightarrow> Inl Panic
           | Some err \<Rightarrow> validateInstances F S cconfig full s (errs @ [err]) names))"

definition validateClusterConfig ::
  "fops \<Rightarrow> ('s, 't, 'n) sys \<Rightarrow> clusterConfig \<Rightarrow> bool \<Rightarrow> 's \<Rightarrow> cmderr option"
where
  "validateClusterConfig F S cconfig full s =
     (case ccRaw cconfig of
        None \<Rightarrow> Some Panic
      | Some raw \<Rightarrow>
          (let errs0 = (case ValidateSchema F raw TarantoolSchema of
                          None \<Rightarrow> [] | Some err \<Rightarrow> [InvalidClusterConfig err])
           in case validateInstances F S cconfig full s errs0 (Instances cconfig) of
                Inl err \<Rightarrow> Some err
              | Inr errs \<Rightarrow> if errs = [] then None else Some (ValidateErrors errs)))"

definition validateRawClusterConfig ::
  "fops \<Rightarrow> ('s, 't, 'n) sys \<Rightarrow> config \<Rightarrow> 's \<Rightarrow> cmderr option"
where
  "validateRawClusterConfig F S cfg s =
     (case MakeClusterConfig (sysYaml S) cfg of
        Inl err \<Rightarrow> Some (BadCluster err)
      | Inr cconfig \<Rightarrow> validateClusterConfig F S cconfig False s)"

definition validateRawConfig ::
  "fops \<Rightarrow> ('s, 't, 'n) sys \<Rightarrow> config \<Rightarrow> string \<Rightarrow> 's \<Rightarrow> cmderr option"
where
  "validateRawConfig F S cfg name s =
     (if name = [] then validateRawClusterConfig F S cfg s
      else validateInstanceConfig F (Some cfg) name)"

text \<open>What is printed, \<open>None\<close> for the panic of a nil configuration or of the encoder.\<close>

definition printConfig :: "'n yaml \<Rightarrow> config option \<Rightarrow> string option" where
  "printConfig Y cfg = (case cfg of None \<Rightarrow> None | Some c \<Rightarrow> ConfigString (yEncode Y) c)"

definition printAnd :: "'n yaml \<Rightarrow> config option \<Rightarrow> cmderr option \<Rightarrow> string \<times> cmderr option" where
  "printAnd Y cfg err = (case printConfig Y cfg of None \<Rightarrow> ([], Some Panic) | Some out \<Rightarrow> (out, err))"

definition printInstanceConfig ::
  "fops \<Rightarrow> ('s, 't, 'n) sys \<Rightarrow> clusterConfig \<Rightarrow> string \<Rightarrow> bool \<Rightarrow> bool \<Rightarrow> 's \<Rightarrow> string \<times> cmderr option"
where
  "printInstanceConfig F S cconfig instance full validate s =
     (case HasInstance cconfig instance of
        Inl err \<Rightarrow> ([], Some (BadCluster err))
      | Inr False \<Rightarrow> ([], Some (NoSuchInstance instance))
      | Inr True \<Rightarrow>
          (case (if full then
                   (case GetInstanceConfig S cconfig instance s of Inl _ \<Rightarrow> Inr None | Inr ic \<Rightarrow> Inr (iRaw ic))
                 else
                   (case Instantiate cconfig instance of Inl err \<Rightarrow> Inl (BadCluster err) | Inr c \<Rightarrow> Inr (Some c))) of
             Inl err \<Rightarrow> ([], Some err)
           | Inr iconfig \<Rightarrow>
               (let err = (if validate then validateInstanceConfig F iconfig instance else None)
                in if err = Some Panic then ([], err) else printAnd (sysYaml S) iconfig err)))"

definition printClusterConfig ::
  "fops \<Rightarrow> ('s, 't, 'n) sys \<Rightarrow> clusterConfig \<Rightarrow> string \<Rightarrow> bool \<Rightarrow> 's \<Rightarrow> string \<times> cmderr option"
where
  "printClusterConfig F S cconfig instance validate s =
     (if instance = [] then
        (let err = (if validate then validateClusterConfig F S cconfig True s else None)
         in printAnd (sysYaml S) (ccRaw cconfig) err)
      else printInstanceConfig F S cconfig instance True validate s)"

definition printRawClusterConfig ::
  "fops \<Rightarrow> ('s, 't, 'n) sys \<Rightarrow> config \<Rightarrow> string \<Rightarrow> bool \<Rightarrow> 's \<Rightarrow> string \<times> cmderr option"
where
  "printRawClusterConfig F S cfg instance validate s =
     (case MakeClusterConfig (sysYaml S) cfg of
        Inl err \<Rightarrow> ([], Some (BadCluster err))
      | Inr cconfig \<Rightarrow>
          (if instance = [] then
             (let err = (if validate then validateClusterConfig F S cconfig False s else None)
              in printAnd (sysYaml S) (ccRaw cconfig) err)
           else printInstanceConfig F S cconfig instance False validate s))"

section \<open>Connecting\<close>

record connectOpts =
  cUsername :: string
  cPassword :: string

definition getenv :: "'s world \<Rightarrow> 's \<Rightarrow> string \<Rightarrow> string" where
  "getenv W s name = (case osLookupEnv W s name of None \<Rightarrow> [] | Some v \<Rightarrow> v)"

text \<open>
  User and password: those of the URI, if it has neither those of the command line, and for each
  that is still missing an environment variable.
\<close>

definition credentials ::
  "'s world \<Rightarrow> 's \<Rightarrow> string \<Rightarrow> string \<Rightarrow> string \<times> string \<Rightarrow> connectOpts \<Rightarrow> string \<times> string"
where
  "credentials W s userEnv passEnv fromUri connOpts =
     (if fst fromUri = [] \<and> snd fromUri = [] then
        (if cUsername connOpts = [] then getenv W s userEnv else cUsername connOpts,
         if cPassword connOpts = [] then getenv W s passEnv else cPassword connOpts)
      else fromUri)"

definition connectTarantool ::
  "('s, 't, 'n) sys \<Rightarrow> uriOpts \<Rightarrow> connectOpts \<Rightarrow> 's \<Rightarrow> derr + 's tarantool"
where
  "connectTarantool S opts connOpts s =
     (case MakeConnectOptsFromUriOpts opts of (addr, co) \<Rightarrow>
        (let (user, pass) = credentials (sysWorld S) s ''TT_CLI_USERNAME'' ''TT_CLI_PASSWORD''
               (oUser co, oPass co) connOpts
         in case sysConnect S addr (co\<lparr>oUser := user, oPass := pass\<rparr>) of
              Inl err \<Rightarrow> Inl (ClientFailed err)
            | Inr c \<Rightarrow> Inr c))"

definition connectEtcd ::
  "('s, 't, 'n) sys \<Rightarrow> uriOpts \<Rightarrow> connectOpts \<Rightarrow> 's \<Rightarrow> derr + 's etcd"
where
  "connectEtcd S opts connOpts s =
     (let eo = MakeEtcdOptsFromUriOpts opts;
          (user, pass) = credentials (sysWorld S) s ''TT_CLI_ETCD_USERNAME'' ''TT_CLI_ETCD_PASSWORD''
            (Username eo, Password eo) connOpts
      in ConnectEtcd (sysTls S) (sysDir S) (sysNewClient S) (eo\<lparr>Username := user, Password := pass\<rparr>))"

text \<open>The storage behind a URI: etcd if a client for it can be made, else Tarantool.\<close>

definition doOnStorage ::
  "('s, 't, 'n) sys \<Rightarrow> connectOpts \<Rightarrow> uriOpts \<Rightarrow> ('s tarantool \<Rightarrow> 'a) \<Rightarrow> ('s etcd \<Rightarrow> 'a) \<Rightarrow> 's \<Rightarrow> cmderr + 'a"
where
  "doOnStorage S connOpts opts tarantoolFunc etcdFunc s =
     (case connectEtcd S opts connOpts s of
        Inr etcdcli \<Rightarrow> Inr (etcdFunc etcdcli)
      | Inl errEtcd \<Rightarrow>
          (case connectTarantool S opts connOpts s of
             Inr connected \<Rightarrow> Inr (tarantoolFunc connected)
           | Inl errTarantool \<Rightarrow> Inl (ConnectFailed errTarantool errEtcd)))"

text \<open>The publisher and the collector, where factories are given, and the world they work in.\<close>

definition createPublisherAndCollector ::
  "('s, 't, 'n) sys \<Rightarrow> dataPublisherFactory option \<Rightarrow> 's collectorFactory option \<Rightarrow> connectOpts \<Rightarrow>
   uriOpts \<Rightarrow> 's \<Rightarrow> cmderr + dataPublisher option \<times> 's collector option \<times> 's world"
where
  "createPublisherAndCollector S publishers collectors connOpts opts s =
     (let pref = uPrefix opts; key = uKey opts; timeout = uTimeout opts
      in doOnStorage S connOpts opts
           (\<lambda>connected. (map_option (\<lambda>f. PublisherNewTarantool f pref key timeout) publishers,
              map_option (\<lambda>f. YamlNewTarantool f pref key timeout) collectors,
              (sysWorld S)\<lparr>wTarantool := connected\<rparr>))
           (\<lambda>client. (map_option (\<lambda>f. PublisherNewEtcd f pref key timeout) publishers,
              map_option (\<lambda>f. YamlNewEtcd f pref key timeout) collectors,
              (sysWorld S)\<lparr>wEtcd := client\<rparr>)) s)"

section \<open>Showing\<close>

record 's showCtx =
  showUsername :: string
  showPassword :: string
  showCollectors :: "'s collectorFactory"
  showValidate :: bool

definition ShowCluster ::
  "fops \<Rightarrow> ('s, 't, 'n) sys \<Rightarrow> 's showCtx \<Rightarrow> string \<Rightarrow> string \<Rightarrow> 's \<Rightarrow> (string \<times> cmderr option) \<times> 's"
where
  "ShowCluster F S ctx path name s =
     (case GetClusterConfig S (showCollectors ctx) path s of
        (Inl err, s') \<Rightarrow> (([], Some (GetConfig err)), s')
      | (Inr cconfig, s') \<Rightarrow> (printClusterConfig F S cconfig name (showValidate ctx) s', s'))"

text \<open>The result of the first validation is overwritten by what printing returns.\<close>

definition ShowUri ::
  "fops \<Rightarrow> ('s, 't, 'n) sys \<Rightarrow> 's showCtx \<Rightarrow> url \<Rightarrow> 's \<Rightarrow> (string \<times> cmderr option) \<times> 's"
where
  "ShowUri F S ctx uri s =
     (case ParseUriOpts (parseFloat F) (sysSeconds S) uri of
        Inl err \<Rightarrow> (([], Some (InvalidURL err)), s)
      | Inr opts \<Rightarrow>
          (case createPublisherAndCollector S None (Some (showCollectors ctx))
                  \<lparr>cUsername = showUsername ctx, cPassword = showPassword ctx\<rparr> opts s of
             Inl err \<Rightarrow> (([], Some err), s)
           | Inr (_, None, W) \<Rightarrow> (([], Some Panic), s)
           | Inr (_, Some collector, W) \<Rightarrow>
               (case Collect (sysUnyaml S) W collector s of
                  (Inl err, s') \<Rightarrow> (([], Some (CollectFailed err)), s')
                | (Inr cfg, s') \<Rightarrow>
                    (if showValidate ctx \<and> validateRawConfig F S cfg (uInstance opts) s' = Some Panic
                     then (([], Some Panic), s')
                     else (printRawClusterConfig F S cfg (uInstance opts) (showValidate ctx) s', s')))))"

section \<open>Publishing\<close>

record 's publishCtx =
  pubUsername :: string
  pubPassword :: string
  pubForce :: bool
  pubPublishers :: dataPublisherFactory
  pubCollectors :: "'s collectorFactory"
  pubSrc :: "string option"
  pubConfig :: config
  pubGroup :: string
  pubReplicaset :: string

definition publishCtxValidateConfig ::
  "fops \<Rightarrow> ('s, 't, 'n) sys \<Rightarrow> 's publishCtx \<Rightarrow> string \<Rightarrow> 's \<Rightarrow> cmderr option"
where
  "publishCtxValidateConfig F S ctx instance s =
     (if \<not> pubForce ctx then validateRawConfig F S (pubConfig ctx) instance s else None)"

text \<open>What publishing returns, as an error of the command.\<close>

definition published :: "(derr option \<times> 's) option \<Rightarrow> (cmderr option \<times> 's) option" where
  "published r = map_option (\<lambda>(e, s). (map_option PublishFailed e, s)) r"

text \<open>
  The new cluster configuration: the instance is replaced where it is, or set in the group and
  replicaset that the options name.
\<close>

definition newClusterConfig ::
  "'n yaml \<Rightarrow> string \<Rightarrow> string \<Rightarrow> string \<Rightarrow> config \<Rightarrow> clusterConfig \<Rightarrow> cmderr + clusterConfig"
where
  "newClusterConfig Y grp replicaset instance cfg cconfig =
     (case FindInstance cconfig instance of
        Some (gname, rname) \<Rightarrow>
          (if replicaset \<noteq> [] \<and> replicaset \<noteq> rname then Inl (WrongReplicaset rname replicaset)
           else if grp \<noteq> [] \<and> grp \<noteq> gname then Inl (WrongGroup gname grp)
           else
             (case ReplaceInstanceConfig Y cconfig instance cfg of
                Inl err \<Rightarrow> Inl (ReplaceFailed instance err)
              | Inr cconfig' \<Rightarrow> Inr cconfig'))
      | None \<Rightarrow>
          (if replicaset = [] then Inl (NoReplicasetName instance)
           else
             (case (if grp = [] then FindGroupByReplicaset cconfig replicaset else Some grp) of
                None \<Rightarrow> Inl (NoGroupFor replicaset)
              | Some g \<Rightarrow>
                  (case SetInstanceConfig Y cconfig g replicaset instance cfg of
                     Inl err \<Rightarrow> Inl (SetConfigFailed instance err)
                   | Inr cconfig' \<Rightarrow> Inr cconfig'))))"

definition setInstanceConfig ::
  "('s, 't, 'n) sys \<Rightarrow> 's world \<Rightarrow> string \<Rightarrow> string \<Rightarrow> string \<Rightarrow> config \<Rightarrow> 's collector \<Rightarrow>
   dataPublisher \<Rightarrow> 's \<Rightarrow> (cmderr option \<times> 's) option"
where
  "setInstanceConfig S W grp replicaset instance cfg collector publisher s =
     (case Collect (sysUnyaml S) W collector s of
        (Inl err, s') \<Rightarrow> Some (Some (CollectToUpdate instance err), s')
      | (Inr src, s') \<Rightarrow>
          (case MakeClusterConfig (sysYaml S) src of
             Inl err \<Rightarrow> Some (Some (ParseTarget err), s')
           | Inr cconfig \<Rightarrow>
               (case newClusterConfig (sysYaml S) grp replicaset instance cfg cconfig of
                  Inl err \<Rightarrow> Some (Some err, s')
                | Inr cconfig' \<Rightarrow>
                    published (PublishYamlConfig (yEncode (sysYaml S)) W publisher (ccRaw cconfig') s'))))"

definition PublishCluster ::
  "fops \<Rightarrow> ('s, 't, 'n) sys \<Rightarrow> 's publishCtx \<Rightarrow> string \<Rightarrow> string \<Rightarrow> 's \<Rightarrow> (cmderr option \<times> 's) option"
where
  "PublishCluster F S ctx path instance s =
     (case publishCtxValidateConfig F S ctx instance s of
        Some err \<Rightarrow> Some (Some err, s)
      | None \<Rightarrow>
          (case PublisherNewFile (pubPublishers ctx) path of
             Inl err \<Rightarrow> Some (Some (PublisherFailed err), s)
           | Inr publisher \<Rightarrow>
               (if instance = [] then published (PublishData (sysWorld S) publisher 0 (pubSrc ctx) s)
                else
                  setInstanceConfig S (sysWorld S) (pubGroup ctx) (pubReplicaset ctx) instance
                    (pubConfig ctx) (YamlNewFile (sysWorld S) (pubCollectors ctx) path) publisher s)))"

definition PublishUri ::
  "fops \<Rightarrow> ('s, 't, 'n) sys \<Rightarrow> 's publishCtx \<Rightarrow> url \<Rightarrow> 's \<Rightarrow> (cmderr option \<times> 's) option"
where
  "PublishUri F S ctx uri s =
     (case ParseUriOpts (parseFloat F) (sysSeconds S) uri of
        Inl err \<Rightarrow> Some (Some (InvalidURL err), s)
      | Inr opts \<Rightarrow>
          (case publishCtxValidateConfig F S ctx (uInstance opts) s of
             Some err \<Rightarrow> Some (Some err, s)
           | None \<Rightarrow>
               (case createPublisherAndCollector S (Some (pubPublishers ctx)) (Some (pubCollectors ctx))
                       \<lparr>cUsername = pubUsername ctx, cPassword = pubPassword ctx\<rparr> opts s of
                  Inr (Some publisher, Some collector, W) \<Rightarrow>
                    (if uInstance opts = [] then published (PublishData W publisher 0 (pubSrc ctx) s)
                     else
                       setInstanceConfig S W (pubGroup ctx) (pubReplicaset ctx) (uInstance opts)
                         (pubConfig ctx) collector publisher s)
                | Inr _ \<Rightarrow> Some (Some Panic, s)
                | Inl err \<Rightarrow> Some (Some err, s))))"

section \<open>What a successful validation means\<close>

definition schemaValid :: "fops \<Rightarrow> config \<Rightarrow> bool" where
  "schemaValid F c \<longleftrightarrow>
     (\<forall>p \<in> set TarantoolSchema. \<forall>v. Get c (Path p) = Inr v \<longrightarrow> is_ok (Validate F (Validator p) v))"

lemma ValidateSchema_None: "ValidateSchema F c TarantoolSchema = None \<longleftrightarrow> schemaValid F c"
proof -
  have "ValidateSchema F c TarantoolSchema = None \<longleftrightarrow> failing F c TarantoolSchema = []"
    by (simp add: ValidateSchema_failing)
  also have "\<dots> \<longleftrightarrow> (\<forall>q err. (q, err) \<notin> set (failing F c TarantoolSchema))"
    by (metis list.set_intros(1) neq_Nil_conv surj_pair empty_iff empty_set)
  also have "\<dots> \<longleftrightarrow> schemaValid F c"
    unfolding failing_D schemaValid_def is_ok_def by (auto split: sum.splits)
  finally show ?thesis .
qed

lemma validateInstanceConfig_None:
  "validateInstanceConfig F cfg name = None \<longleftrightarrow> (\<exists>c. cfg = Some c \<and> schemaValid F c)"
  by (cases cfg) (auto simp: validateInstanceConfig_def ValidateSchema_None [symmetric] split: option.splits)

lemma validateInstances_nil:
  "validateInstances F S cc full s errs names = Inr [] \<Longrightarrow>
     errs = [] \<and> (\<forall>name \<in> set names. \<exists>c. instanceConfigOf S cc full s name = Inr (Some c) \<and> schemaValid F c)"
proof (induction names arbitrary: errs)
  case (Cons name names)
  then obtain ic where ic: "instanceConfigOf S cc full s name = Inr ic" by (auto split: sum.splits)
  show ?case
  proof (cases "validateInstanceConfig F ic name")
    case None
    with Cons ic show ?thesis by (auto simp: validateInstanceConfig_None)
  next
    case (Some err)
    with Cons.prems ic have "validateInstances F S cc full s (errs @ [err]) names = Inr []"
      by (cases err) auto
    from Cons.IH [OF this] show ?thesis by simp
  qed
qed simp

lemma validateClusterConfig_None:
  assumes "validateClusterConfig F S cc full s = None"
  shows "\<exists>raw. ccRaw cc = Some raw \<and> schemaValid F raw \<and>
    (\<forall>name \<in> set (Instances cc). \<exists>c. instanceConfigOf S cc full s name = Inr (Some c) \<and> schemaValid F c)"
proof -
  from assms obtain raw where raw: "ccRaw cc = Some raw" by (auto simp: validateClusterConfig_def split: option.splits)
  let ?errs0 = "case ValidateSchema F raw TarantoolSchema of None \<Rightarrow> [] | Some err \<Rightarrow> [InvalidClusterConfig err]"
  have "validateInstances F S cc full s ?errs0 (Instances cc) = Inr []"
    using assms by (auto simp: validateClusterConfig_def raw Let_def split: sum.splits if_splits)
  from validateInstances_nil [OF this] raw show ?thesis
    using ValidateSchema_None [of F raw] by (auto split: option.splits)
qed

text \<open>The configuration to publish, of a whole cluster or of the named instance.\<close>

definition publishable :: "fops \<Rightarrow> ('s, 't, 'n) sys \<Rightarrow> config \<Rightarrow> string \<Rightarrow> bool" where
  "publishable F S cfg name \<longleftrightarrow>
     (if name = [] then
        (\<exists>cc raw. MakeClusterConfig (sysYaml S) cfg = Inr cc \<and> ccRaw cc = Some raw \<and> schemaValid F raw \<and>
          (\<forall>i \<in> set (Instances cc). \<exists>c. Instantiate cc i = Inr c \<and> schemaValid F c))
      else schemaValid F cfg)"

lemma validateRawConfig_None: "validateRawConfig F S cfg name s = None \<Longrightarrow> publishable F S cfg name"
proof (cases "name = []")
  case True
  assume "validateRawConfig F S cfg name s = None"
  with True obtain cc where cc: "MakeClusterConfig (sysYaml S) cfg = Inr cc" "validateClusterConfig F S cc False s = None"
    by (auto simp: validateRawConfig_def validateRawClusterConfig_def split: sum.splits)
  have "Instantiate cc i = Inr c" if "instanceConfigOf S cc False s i = Inr (Some c)" for i c
    using that by (auto simp: instanceConfigOf_def split: sum.splits)
  with validateClusterConfig_None [OF cc(2)] cc(1) True show ?thesis unfolding publishable_def by auto metis
qed (simp add: validateRawConfig_def publishable_def validateInstanceConfig_None)

section \<open>Properties\<close>

text \<open>
  Property C20: a configuration that is published without force, to a file or to a URI, is valid:
  the configuration of an instance satisfies the schema, and that of a cluster does so as a whole
  and, for each of its instances, merged over its scopes.
\<close>

theorem publish_validated:
  assumes "\<not> pubForce ctx"
    and "PublishCluster F S ctx path name s = Some (None, s') \<or>
      PublishUri F S ctx uri s = Some (None, s') \<and>
      (\<exists>opts. ParseUriOpts (parseFloat F) (sysSeconds S) uri = Inr opts \<and> uInstance opts = name)"
  shows "publishable F S (pubConfig ctx) name"
proof -
  have "publishCtxValidateConfig F S ctx name s = None"
    using assms(2)
  proof
    assume "PublishCluster F S ctx path name s = Some (None, s')"
    then show ?thesis by (auto simp: PublishCluster_def split: option.splits)
  next
    assume "PublishUri F S ctx uri s = Some (None, s') \<and>
      (\<exists>opts. ParseUriOpts (parseFloat F) (sysSeconds S) uri = Inr opts \<and> uInstance opts = name)"
    then show ?thesis by (auto simp: PublishUri_def split: option.splits)
  qed
  with assms(1) show ?thesis
    by (auto simp: publishCtxValidateConfig_def intro: validateRawConfig_None)
qed

text \<open>
  Property C21: a successful update of an instance collects the cluster, sets the configuration in
  exactly one group and replicaset and publishes the resulting cluster as YAML; that place is
  where the instance already is or, for a new instance, the named replicaset, and it is the named
  group and replicaset wherever names were given.
\<close>

theorem setInstanceConfig_target:
  assumes "setInstanceConfig S W grp replicaset name cfg collector publisher s = Some (None, s')"
  shows "\<exists>src cc g r cc' raw yml s1.
    Collect (sysUnyaml S) W collector s = (Inr src, s1) \<and> MakeClusterConfig (sysYaml S) src = Inr cc \<and>
    SetInstanceConfig (sysYaml S) cc g r name cfg = Inr cc' \<and> ccRaw cc' = Some raw \<and>
    ConfigString (yEncode (sysYaml S)) raw = Some yml \<and> PublishData W publisher 0 (Some yml) s1 = Some (None, s') \<and>
    (case FindInstance cc name of
       Some place \<Rightarrow> place = (g, r)
     | None \<Rightarrow> r = replicaset \<and> (grp = [] \<longrightarrow> FindGroupByReplicaset cc r = Some g)) \<and>
    (grp \<noteq> [] \<longrightarrow> g = grp) \<and> (replicaset \<noteq> [] \<longrightarrow> r = replicaset)"
proof -
  from assms obtain src s1 cc cc' where
    c: "Collect (sysUnyaml S) W collector s = (Inr src, s1)" "MakeClusterConfig (sysYaml S) src = Inr cc"
      "newClusterConfig (sysYaml S) grp replicaset name cfg cc = Inr cc'"
      "published (PublishYamlConfig (yEncode (sysYaml S)) W publisher (ccRaw cc') s1) = Some (None, s')"
    by (auto simp: setInstanceConfig_def split: prod.splits sum.splits)
  obtain raw yml where p: "ccRaw cc' = Some raw" "ConfigString (yEncode (sysYaml S)) raw = Some yml"
      "PublishData W publisher 0 (Some yml) s1 = Some (None, s')"
    using c(4) by (auto simp: published_def PublishYamlConfig_def split: option.splits)
  obtain g r where "SetInstanceConfig (sysYaml S) cc g r name cfg = Inr cc'"
    "case FindInstance cc name of
       Some place \<Rightarrow> place = (g, r)
     | None \<Rightarrow> r = replicaset \<and> (grp = [] \<longrightarrow> FindGroupByReplicaset cc r = Some g)"
    "grp \<noteq> [] \<longrightarrow> g = grp" "replicaset \<noteq> [] \<longrightarrow> r = replicaset"
    using c(3) by (auto simp: newClusterConfig_def Replace_is_Set split: option.splits sum.splits if_splits)
  with c(1,2) p show ?thesis by blast
qed

definition demoInstance :: config where
  "demoInstance = \<lparr>paths = VMap [(VStr ''app'', VMap [(VStr ''file'', VStr ''init.lua'')])]\<rparr>"

definition demoPublish :: "unit publishCtx" where
  "demoPublish = \<lparr>pubUsername = [], pubPassword = [], pubForce = False, pubPublishers = NewDataPublisherFactory,
     pubCollectors = NewCollectorFactory NewDataCollectorFactory, pubSrc = None, pubConfig = demoInstance,
     pubGroup = ''g'', pubReplicaset = []\<rparr>"

lemma demo_valid: "ValidateSchema sampleOps demoInstance TarantoolSchema = None"
  by code_simp

lemma demo_replaced: "newClusterConfig (docYaml demoDoc) ''g'' [] ''i'' demoInstance demoCluster = Inr demoCluster"
proof -
  have "FindInstance demoCluster ''i'' = Some (''g'', ''r'')"
    "is_ok (ReplaceInstanceConfig (docYaml demoDoc) demoCluster ''i'' demoInstance)" by code_simp+
  moreover from this have "ReplaceInstanceConfig (docYaml demoDoc) demoCluster ''i'' demoInstance = Inr demoCluster"
    unfolding Replace_is_Set SetInstanceConfig_def docYaml_cluster
    by (auto split: option.splits prod.splits)
  ultimately show ?thesis by (simp add: newClusterConfig_def)
qed

lemma demo_set:
  "setInstanceConfig (demoSys E T) (sysWorld (demoSys E T)) ''g'' [] ''i'' demoInstance
     (YamlNewFile (sysWorld (demoSys E T)) (NewCollectorFactory NewDataCollectorFactory) ''f'')
     (FileDataPublisher (NewFileDataPublisher ''f'')) () = Some (None, ())"
proof -
  have y: "sysYaml (demoSys E T) = docYaml demoDoc" by (simp add: demoSys_def)
  have "ccRaw demoCluster = Some \<lparr>paths = demoDoc\<rparr>" by code_simp
  then have "PublishYamlConfig (yEncode (docYaml demoDoc)) (sysWorld (demoSys E T))
      (FileDataPublisher (NewFileDataPublisher ''f'')) (ccRaw demoCluster) () = Some (None, ())"
    by (simp add: PublishYamlConfig_def ConfigString_def docYaml_def demoDoc_def PublishFile_def
        NewFileDataPublisher_def demoSys_def)
  then show ?thesis
    unfolding setInstanceConfig_def demoSys_sources y docYaml_cluster demo_replaced prod.case sum.case
    by (simp add: published_def)
qed

theorem publish_validated_witness:
  "\<forall>E T. publishable sampleOps (demoSys E T) demoInstance ''i''"
proof (intro allI)
  fix E :: "unit etcd" and T :: "unit tarantool"
  have "PublishCluster sampleOps (demoSys E T) demoPublish ''f'' ''i'' () = Some (None, ())"
    using demo_set [of E T] demo_valid
    by (simp add: PublishCluster_def demoPublish_def publishCtxValidateConfig_def validateRawConfig_def
        validateInstanceConfig_def NewDataPublisherFactory_def publishersNewFile_def)
  then show "publishable sampleOps (demoSys E T) demoInstance ''i''"
    using publish_validated [of demoPublish sampleOps "demoSys E T" "''f''" "''i''" "()" "()"]
    by (simp add: demoPublish_def)
qed

theorem setInstanceConfig_target_witness:
  "\<forall>E T. \<exists>cc cc'. SetInstanceConfig (sysYaml (demoSys E T)) cc ''g'' ''r'' ''i'' demoInstance = Inr cc'"
proof (intro allI)
  fix E :: "unit etcd" and T :: "unit tarantool"
  have f: "FindInstance demoCluster ''i'' = Some (''g'', ''r'')" by code_simp
  have y: "MakeClusterConfig (sysYaml (demoSys E T)) c = Inr demoCluster" for c
    using docYaml_cluster by (simp add: demoSys_def)
  from setInstanceConfig_target [OF demo_set [of E T]]
  show "\<exists>cc cc'. SetInstanceConfig (sysYaml (demoSys E T)) cc ''g'' ''r'' ''i'' demoInstance = Inr cc'"
    unfolding y by (auto simp: f)
qed

end
