(* ===== verification/CConfig.thy ===== *)
theory CConfig
  imports Replicaset ClusterCmd
begin

text \<open>
  Managing replicasets by patching the centralized configuration: the patches and the lookups of
  \<^verbatim>\<open>cli/replicaset/cconfig.go\<close>, the pipeline of \<^verbatim>\<open>configsource.go\<close> that patches one key of
  a config storage, the commands of \<^verbatim>\<open>cli/cluster/cmd/replicaset.go\<close> that run it, and the
  operations on a local application, which patch its file and reload its instances.
\<close>

section \<open>Errors and data\<close>

datatype ccerr =
    CollectCC derr
  | MakeCC clerr
  | NotInCluster string
  | GetFailover cerr
  | FailoverType
  | GetElectionMode cerr
  | ElectionModeType
  | UnsupportedFailover failover
  | UnknownFailover
  | UnexpectedFailover failover
  | DecodeKey string yerr
  | PathDepth cerr
  | PickFailed string
  | PatchFailed cerr
  | PublishCC derr
  | NoGroup string
  | GroupPath cerr
  | NoReplicaset string
  | NoInstanceAbove string
  | GetRoles cerr
  | NotASlice
  | NotAString
  | RoleExists string path
  | GetCluster srcerr
  | EvalCC "string everr"
  | UnexpectedElectionMode electionMode
  | NotLeader
  | CreatePublisher derr
  | CollectLocal derr
  | DiscoveryFailed discerr
  | NotConfigured string
  | Offline string
  | OthersOffline "string list"
  | LastInstance
  | ReloadFailed "string list"
  | ReloadEval "string everr"
  | JoinedCC ccerr ccerr
  | PanicCC

record cconfigInstance =
  ciFailover :: failover
  ciGroup :: string
  ciReplicaset :: string
  ciName :: string

section \<open>Looking an instance up\<close>

definition cconfigGetFailover :: "clusterConfig \<Rightarrow> string \<Rightarrow> ccerr + failover" where
  "cconfigGetFailover cc instName =
     (case Instantiate cc instName of
        Inl err \<Rightarrow> Inl (MakeCC err)
      | Inr instConfig \<Rightarrow>
          (case Get instConfig [''replication'', ''failover''] of
             Inl (NotExistError _) \<Rightarrow> Inr FailoverOff
           | Inl err \<Rightarrow> Inl (GetFailover err)
           | Inr (VStr s) \<Rightarrow> Inr (ParseFailover s)
           | Inr _ \<Rightarrow> Inl FailoverType))"

definition cconfigGetElectionMode :: "clusterConfig \<Rightarrow> string \<Rightarrow> ccerr + electionMode" where
  "cconfigGetElectionMode cc instName =
     (case Instantiate cc instName of
        Inl err \<Rightarrow> Inl (MakeCC err)
      | Inr instConfig \<Rightarrow>
          (case Get instConfig [''replication'', ''election_mode''] of
             Inl (NotExistError _) \<Rightarrow> Inr ElectionModeCandidate
           | Inl err \<Rightarrow> Inl (GetElectionMode err)
           | Inr (VStr s) \<Rightarrow> Inr (ParseElectionMode s)
           | Inr _ \<Rightarrow> Inl ElectionModeType))"

definition getCConfigInstance :: "clusterConfig \<Rightarrow> string \<Rightarrow> ccerr + cconfigInstance" where
  "getCConfigInstance cc instName =
     (case find (\<lambda>(_, _, _, _, iname, _). instName = iname) (flatInstances cc) of
        None \<Rightarrow> Inl (NotInCluster instName)
      | Some (gname, _, rname, _, _, _) \<Rightarrow>
          (case cconfigGetFailover cc instName of
             Inl err \<Rightarrow> Inl err
           | Inr fo \<Rightarrow>
               Inr \<lparr>ciFailover = fo, ciGroup = gname, ciReplicaset = rname, ciName = instName\<rparr>))"

section \<open>Patches\<close>

definition ccInstancePath :: "cconfigInstance \<Rightarrow> path" where
  "ccInstancePath inst = instancePath (ciGroup inst) (ciReplicaset inst) (ciName inst)"

definition leaderPath :: "cconfigInstance \<Rightarrow> path" where
  "leaderPath inst = [''groups'', ciGroup inst, ''replicasets'', ciReplicaset inst, ''leader'']"

definition patchSet :: "config \<Rightarrow> path \<Rightarrow> gval \<Rightarrow> ccerr + config" where
  "patchSet cfg p v =
     (case Set cfg p v of (Some err, _) \<Rightarrow> Inl (PatchFailed err) | (None, cfg') \<Rightarrow> Inr cfg')"

definition patchCConfigPromote :: "config \<Rightarrow> cconfigInstance \<Rightarrow> ccerr + config" where
  "patchCConfigPromote cfg inst =
     (case ciFailover inst of
        FailoverOff \<Rightarrow> patchSet cfg (ccInstancePath inst @ [''database'', ''mode'']) (VStr ''rw'')
      | FailoverManual \<Rightarrow> patchSet cfg (leaderPath inst) (VStr (ciName inst))
      | fo \<Rightarrow> Inl (UnexpectedFailover fo))"

definition patchCConfigExpel :: "config \<Rightarrow> cconfigInstance \<Rightarrow> ccerr + config" where
  "patchCConfigExpel cfg inst = patchSet cfg (ccInstancePath inst @ [''iproto'', ''listen'']) (VMap [])"

definition patchCConfigDemote :: "config \<Rightarrow> cconfigInstance \<Rightarrow> ccerr + config" where
  "patchCConfigDemote cfg inst =
     (if ciFailover inst \<noteq> FailoverOff then Inl (UnexpectedFailover (ciFailover inst))
      else patchSet cfg (ccInstancePath inst @ [''database'', ''mode'']) (VStr ''ro''))"

definition patchCConfigElectionMode :: "config \<Rightarrow> cconfigInstance \<Rightarrow> electionMode \<Rightarrow> ccerr + config" where
  "patchCConfigElectionMode cfg inst m =
     patchSet cfg (ccInstancePath inst @ [''replication'', ''election_mode'']) (VStr (electionModeString m))"

text \<open>The list of roles is a \<^verbatim>\<open>[]string\<close>; its YAML is that of the list of its strings.\<close>

definition patchCConfigAddRole :: "config \<Rightarrow> path \<Rightarrow> string list \<Rightarrow> ccerr + config" where
  "patchCConfigAddRole cfg p roleNames = patchSet cfg p (VList (map VStr roleNames))"

section \<open>Paths and targets\<close>

definition getCConfigPromotePath :: "cconfigInstance \<Rightarrow> ccerr + path \<times> nat" where
  "getCConfigPromotePath inst =
     (case ciFailover inst of
        FailoverOff \<Rightarrow>
          (let p = ccInstancePath inst @ [''database'', ''mode''] in Inr (p, length p - 2))
      | FailoverManual \<Rightarrow> (let p = leaderPath inst in Inr (p, length p - 1))
      | FailoverElection \<Rightarrow> Inl (UnsupportedFailover FailoverElection)
      | _ \<Rightarrow> Inl UnknownFailover)"

definition getCConfigDemotePath :: "cconfigInstance \<Rightarrow> ccerr + path \<times> nat" where
  "getCConfigDemotePath inst =
     (case ciFailover inst of
        FailoverOff \<Rightarrow>
          (let p = ccInstancePath inst @ [''database'', ''mode''] in Inr (p, length p - 2))
      | FailoverManual \<Rightarrow> Inl (UnsupportedFailover FailoverManual)
      | FailoverElection \<Rightarrow> Inl (UnsupportedFailover FailoverElection)
      | _ \<Rightarrow> Inl UnknownFailover)"

definition getCConfigExpelPath :: "cconfigInstance \<Rightarrow> ccerr + path \<times> nat" where
  "getCConfigExpelPath inst =
     (let p = ccInstancePath inst @ [''iproto'', ''listen''] in Inr (p, length p - 2))"

text \<open>
  The longest prefix of the path that is in the configuration, searched from the whole path down
  to the lower depth; \<open>None\<close> is \<^verbatim>\<open>noDepth\<close>. The argument \<open>i\<close> is the loop variable.
\<close>

fun pathDepthFrom :: "config \<Rightarrow> path \<Rightarrow> nat \<Rightarrow> nat \<Rightarrow> cerr + nat option" where
  "pathDepthFrom cfg p lowerDepth i =
     (if i < lowerDepth then Inr None
      else
        (case Get cfg (take i p) of
           Inr _ \<Rightarrow> Inr (Some i)
         | Inl (NotExistError _) \<Rightarrow>
             (case i of 0 \<Rightarrow> Inr None | Suc j \<Rightarrow> pathDepthFrom cfg p lowerDepth j)
         | Inl err \<Rightarrow> Inl err))"

declare pathDepthFrom.simps [simp del]

definition getCConfigPathDepth :: "config \<Rightarrow> path \<Rightarrow> nat \<Rightarrow> cerr + nat option" where
  "getCConfigPathDepth cfg p lowerDepth = pathDepthFrom cfg p lowerDepth (length p)"

record patchTarget =
  ptKey :: string
  ptRevision :: int
  ptConfig :: config
  ptPriority :: nat

definition targetGreater :: "patchTarget \<Rightarrow> patchTarget \<Rightarrow> bool" where
  "targetGreater target oth =
     (if ptPriority target \<noteq> ptPriority oth then ptPriority oth < ptPriority target
      else strLess (ptKey target) (ptKey oth))"

definition patchTargetOf :: "unyaml \<Rightarrow> path \<Rightarrow> nat \<Rightarrow> data \<Rightarrow> ccerr + patchTarget list" where
  "patchTargetOf unyaml p depth item =
     (case CollectYaml unyaml (Value item) of
        Inl err \<Rightarrow> Inl (DecodeKey (Source item) err)
      | Inr cfg \<Rightarrow>
          (case getCConfigPathDepth cfg p depth of
             Inl err \<Rightarrow> Inl (PathDepth err)
           | Inr None \<Rightarrow> Inr []
           | Inr (Some d) \<Rightarrow>
               Inr [\<lparr>ptKey = Source item, ptRevision = Revision item, ptConfig = cfg, ptPriority = d\<rparr>]))"

definition getCConfigPatchTargets :: "unyaml \<Rightarrow> data list \<Rightarrow> path \<Rightarrow> nat \<Rightarrow> ccerr + patchTarget list" where
  "getCConfigPatchTargets unyaml dat p depth =
     (case mapr (patchTargetOf unyaml p depth) dat of
        Inl err \<Rightarrow> Inl err
      | Inr targets \<Rightarrow> Inr (isort targetGreater (concat targets)))"

section \<open>The pipeline over a config storage\<close>

text \<open>
  A source: what collects the documents, what publishes a document under a key if its revision is
  still the given one, and what picks one of several keys.
\<close>

record 's ccSource =
  srcCollect :: "'s \<Rightarrow> (derr + data list) \<times> 's"
  srcPublish :: "string \<Rightarrow> int \<Rightarrow> string \<Rightarrow> 's \<Rightarrow> (derr option \<times> 's) option"
  srcPicker :: "string list \<Rightarrow> bool \<Rightarrow> string \<Rightarrow> string + nat"

definition collectCConfig ::
  "('s, 't, 'n) sys \<Rightarrow> 's ccSource \<Rightarrow> 's \<Rightarrow> (ccerr + data list \<times> clusterConfig) \<times> 's"
where
  "collectCConfig S src s =
     (case srcCollect src s of
        (Inl err, s') \<Rightarrow> (Inl (CollectCC err), s')
      | (Inr dat, s') \<Rightarrow>
          (case CollectYamlDataMerge (sysUnyaml S) dat NewConfig of
             Inl err \<Rightarrow> (Inl (CollectCC err), s')
           | Inr merged \<Rightarrow>
               (case MakeClusterConfig (sysYaml S) merged of
                  Inl err \<Rightarrow> (Inl (MakeCC err), s')
                | Inr cc \<Rightarrow> (Inr (dat, cc), s'))))"

definition pickTarget ::
  "'s ccSource \<Rightarrow> patchTarget list \<Rightarrow> bool \<Rightarrow> string \<Rightarrow> ccerr + patchTarget"
where
  "pickTarget src targets force pathMsg =
     (case srcPicker src (map ptKey targets) force pathMsg of
        Inl err \<Rightarrow> Inl (PickFailed err)
      | Inr dstIndex \<Rightarrow> if dstIndex < length targets then Inr (targets ! dstIndex) else Inl PanicCC)"

text \<open>Publishing the patched configuration under the key and revision of its target.\<close>

definition publishPatched ::
  "('s, 't, 'n) sys \<Rightarrow> 's ccSource \<Rightarrow> patchTarget \<Rightarrow> config \<Rightarrow> 's \<Rightarrow> (ccerr option \<times> 's) option"
where
  "publishPatched S src target patched s =
     (case ConfigString (yEncode (sysYaml S)) patched of
        None \<Rightarrow> Some (Some PanicCC, s)
      | Some bytes \<Rightarrow>
          map_option (\<lambda>(e, s'). (map_option PublishCC e, s'))
            (srcPublish src (ptKey target) (ptRevision target) bytes s))"

text \<open>What is to be published, given what was collected.\<close>

definition choosePatch ::
  "('s, 't, 'n) sys \<Rightarrow> 's ccSource \<Rightarrow> string \<Rightarrow> bool \<Rightarrow> (cconfigInstance \<Rightarrow> ccerr + path \<times> nat) \<Rightarrow>
   (config \<Rightarrow> cconfigInstance \<Rightarrow> ccerr + config) \<Rightarrow> data list \<Rightarrow> clusterConfig \<Rightarrow>
   ccerr + patchTarget \<times> config"
where
  "choosePatch S src instanceName force getPath patch dat cc =
     bindr (getCConfigInstance cc instanceName) (\<lambda>inst.
     bindr (getPath inst) (\<lambda>(p, depth).
     bindr (getCConfigPatchTargets (sysUnyaml S) dat p depth) (\<lambda>targets.
     bindr (pickTarget src targets force (joinSep (CHR ''/'') p)) (\<lambda>target.
     bindr (patch (ptConfig target) inst) (\<lambda>patched.
     Inr (target, patched))))))"

definition patchInstanceConfig ::
  "('s, 't, 'n) sys \<Rightarrow> 's ccSource \<Rightarrow> string \<Rightarrow> bool \<Rightarrow> (cconfigInstance \<Rightarrow> ccerr + path \<times> nat) \<Rightarrow>
   (config \<Rightarrow> cconfigInstance \<Rightarrow> ccerr + config) \<Rightarrow> 's \<Rightarrow> (ccerr option \<times> 's) option"
where
  "patchInstanceConfig S src instanceName force getPath patch s =
     (case collectCConfig S src s of
        (Inl err, s') \<Rightarrow> Some (Some err, s')
      | (Inr (dat, cc), s') \<Rightarrow>
          (case choosePatch S src instanceName force getPath patch dat cc of
             Inl err \<Rightarrow> Some (Some err, s')
           | Inr (target, patched) \<Rightarrow> publishPatched S src target patched s'))"

definition PromoteSource where
  "PromoteSource S src name force s =
     patchInstanceConfig S src name force getCConfigPromotePath patchCConfigPromote s"

definition DemoteSource where
  "DemoteSource S src name force s =
     patchInstanceConfig S src name force getCConfigDemotePath patchCConfigDemote s"

definition ExpelSource where
  "ExpelSource S src name force s =
     patchInstanceConfig S src name force getCConfigExpelPath patchCConfigExpel s"

section \<open>Adding roles\<close>

record rolesAddCtx =
  raInstName :: string
  raGroupName :: string
  raReplicasetName :: string
  raIsGlobal :: bool
  raRoleName :: string
  raForce :: bool

definition parseRoles :: "gval \<Rightarrow> ccerr + string list" where
  "parseRoles v =
     (case v of
        VList xs \<Rightarrow> mapr (\<lambda>x. case x of VStr s \<Rightarrow> Inr s | _ \<Rightarrow> Inl NotAString) xs
      | _ \<Rightarrow> Inl NotASlice)"

definition getCConfigRolesPath :: "clusterConfig \<Rightarrow> rolesAddCtx \<Rightarrow> ccerr + (path \<times> nat) list" where
  "getCConfigRolesPath cc ctx =
     (let global = (if raIsGlobal ctx then [([''roles''], 0)] else [])
      in bindr
           (if raGroupName ctx = [] then Inr global
            else
              (case ccRaw cc of
                 None \<Rightarrow> Inl PanicCC
               | Some raw \<Rightarrow>
                   (let p = [''groups'', raGroupName ctx]
                    in case Get raw p of
                         Inl (NotExistError _) \<Rightarrow> Inl (NoGroup (raGroupName ctx))
                       | Inl err \<Rightarrow> Inl (GroupPath err)
                       | Inr _ \<Rightarrow> Inr (global @ [(p @ [''roles''], length p)])))) (\<lambda>ps1.
         bindr
           (if raReplicasetName ctx = [] then Inr ps1
            else
              (case FindGroupByReplicaset cc (raReplicasetName ctx) of
                 None \<Rightarrow> Inl (NoReplicaset (raReplicasetName ctx))
               | Some g \<Rightarrow>
                   (let p = [''groups'', g, ''replicasets'', raReplicasetName ctx]
                    in Inr (ps1 @ [(p @ [''roles''], length p)])))) (\<lambda>ps2.
         if raInstName ctx = [] then Inr ps2
         else
           (case FindInstance cc (raInstName ctx) of
              None \<Rightarrow> Inl (NoInstanceAbove (raInstName ctx))
            | Some (g, r) \<Rightarrow>
                (let p = instancePath g r (raInstName ctx)
                 in Inr (ps2 @ [(p @ [''roles''], length p)]))))))"

text \<open>The new list of roles at a path of the merged configuration.\<close>

definition newRoles :: "config \<Rightarrow> string \<Rightarrow> path \<Rightarrow> ccerr + string list" where
  "newRoles raw role p =
     bindr
       (case Get raw p of
          Inl (NotExistError _) \<Rightarrow> Inr []
        | Inl err \<Rightarrow> Inl (GetRoles err)
        | Inr VNil \<Rightarrow> Inr []
        | Inr v \<Rightarrow> parseRoles v) (\<lambda>existing.
     if role \<in> set existing then Inl (RoleExists role p) else Inr (existing @ [role]))"

definition roleStep ::
  "('s, 't, 'n) sys \<Rightarrow> 's ccSource \<Rightarrow> rolesAddCtx \<Rightarrow> data list \<Rightarrow> config \<Rightarrow>
   (patchTarget \<times> config) option \<Rightarrow> path \<times> nat \<Rightarrow> ccerr + (patchTarget \<times> config) option"
where
  "roleStep S src ctx dat raw acc pd =
     bindr (newRoles raw (raRoleName ctx) (fst pd)) (\<lambda>roles.
     bindr (getCConfigPatchTargets (sysUnyaml S) dat (fst pd) (snd pd)) (\<lambda>targets.
     bindr (pickTarget src targets (raForce ctx) (joinSep (CHR ''/'') (fst pd))) (\<lambda>target.
     bindr (patchCConfigAddRole (ptConfig target) (fst pd) roles) (\<lambda>curPatched.
     case acc of
       None \<Rightarrow> Inr (Some (target, curPatched))
     | Some (_, patched) \<Rightarrow> Inr (Some (target, Merge patched curPatched))))))"

fun roleSteps ::
  "('s, 't, 'n) sys \<Rightarrow> 's ccSource \<Rightarrow> rolesAddCtx \<Rightarrow> data list \<Rightarrow> config \<Rightarrow>
   (patchTarget \<times> config) option \<Rightarrow> (path \<times> nat) list \<Rightarrow> ccerr + (patchTarget \<times> config) option"
where
  "roleSteps S src ctx dat raw acc [] = Inr acc"
| "roleSteps S src ctx dat raw acc (pd # pds) =
     bindr (roleStep S src ctx dat raw acc pd) (\<lambda>acc'. roleSteps S src ctx dat raw acc' pds)"

text \<open>
  The loop keeps the target of the last path only, and the configurations patched for all paths
  merged. Without any path there is nothing to publish and the nil configuration is dereferenced.
\<close>

definition AddRoleSource ::
  "('s, 't, 'n) sys \<Rightarrow> 's ccSource \<Rightarrow> rolesAddCtx \<Rightarrow> 's \<Rightarrow> (ccerr option \<times> 's) option"
where
  "AddRoleSource S src ctx s =
     (case collectCConfig S src s of
        (Inl err, s') \<Rightarrow> Some (Some err, s')
      | (Inr (dat, cc), s') \<Rightarrow>
          (case bindr (getCConfigRolesPath cc ctx) (\<lambda>ps.
                  case ccRaw cc of None \<Rightarrow> Inl PanicCC | Some raw \<Rightarrow> roleSteps S src ctx dat raw None ps) of
             Inl err \<Rightarrow> Some (Some err, s')
           | Inr None \<Rightarrow> Some (Some PanicCC, s')
           | Inr (Some (target, patched)) \<Rightarrow> publishPatched S src target patched s'))"

section \<open>The commands\<close>

text \<open>The prompt is an argument; with force, or for one key, the first one is taken.\<close>

definition pickPatchKey ::
  "(string list \<Rightarrow> string + nat) \<Rightarrow> string list \<Rightarrow> bool \<Rightarrow> string \<Rightarrow> string + nat"
where
  "pickPatchKey prompt keys force pathMsg =
     (if keys = [] then Inl ''no keys for the config patching''
      else if \<not> force \<and> length keys \<noteq> 1 then prompt keys
      else Inr 0)"

definition makeTarantoolPublisher ::
  "'s world \<Rightarrow> dataPublisherFactory \<Rightarrow> string \<Rightarrow> int \<Rightarrow> string \<Rightarrow> int \<Rightarrow> string \<Rightarrow> 's \<Rightarrow> (derr option \<times> 's) option"
where
  "makeTarantoolPublisher W factory pref timeout key revision dat s =
     (case GetStorageKey pref key of
        Inl err \<Rightarrow> Some (Some (BadStorageKey err), s)
      | Inr k \<Rightarrow> PublishData W (PublisherNewTarantool factory pref k timeout) revision (Some dat) s)"

definition makeEtcdPublisher ::
  "'s world \<Rightarrow> dataPublisherFactory \<Rightarrow> string \<Rightarrow> int \<Rightarrow> string \<Rightarrow> int \<Rightarrow> string \<Rightarrow> 's \<Rightarrow> (derr option \<times> 's) option"
where
  "makeEtcdPublisher W factory pref timeout key revision dat s =
     (case GetStorageKey pref key of
        Inl err \<Rightarrow> Some (Some (BadStorageKey err), s)
      | Inr k \<Rightarrow> PublishData W (PublisherNewEtcd factory pref k timeout) revision (Some dat) s)"

definition createDataCollectorAndKeyPublisher ::
  "('s, 't, 'n) sys \<Rightarrow> 's dataCollectorFactory \<Rightarrow> dataPublisherFactory \<Rightarrow> (string list \<Rightarrow> string + nat) \<Rightarrow>
   uriOpts \<Rightarrow> connectOpts \<Rightarrow> 's \<Rightarrow> cmderr + 's ccSource"
where
  "createDataCollectorAndKeyPublisher S collectors publishers prompt opts connOpts s =
     (let pref = uPrefix opts; key = uKey opts; timeout = uTimeout opts
      in doOnStorage S connOpts opts
           (\<lambda>connected. let W = (sysWorld S)\<lparr>wTarantool := connected\<rparr> in
              \<lparr>srcCollect = CollectData W (CollectorNewTarantool collectors pref key timeout),
               srcPublish = makeTarantoolPublisher W publishers pref timeout,
               srcPicker = pickPatchKey prompt\<rparr>)
           (\<lambda>client. let W = (sysWorld S)\<lparr>wEtcd := client\<rparr> in
              \<lparr>srcCollect = CollectData W (CollectorNewEtcd collectors pref key timeout),
               srcPublish = makeEtcdPublisher W publishers pref timeout,
               srcPicker = pickPatchKey prompt\<rparr>) s)"

text \<open>A command over the storage behind a URI.\<close>

definition onSource ::
  "fops \<Rightarrow> ('s, 't, 'n) sys \<Rightarrow> 's dataCollectorFactory \<Rightarrow> dataPublisherFactory \<Rightarrow> (string list \<Rightarrow> string + nat) \<Rightarrow>
   connectOpts \<Rightarrow> url \<Rightarrow> ('s ccSource \<Rightarrow> 's \<Rightarrow> (ccerr option \<times> 's) option) \<Rightarrow> 's \<Rightarrow>
   ((cmderr + ccerr) option \<times> 's) option"
where
  "onSource F S collectors publishers prompt connOpts uri act s =
     (case ParseUriOpts (parseFloat F) (sysSeconds S) uri of
        Inl err \<Rightarrow> Some (Some (Inl (InvalidURL err)), s)
      | Inr opts \<Rightarrow>
          (case createDataCollectorAndKeyPublisher S collectors publishers prompt opts connOpts s of
             Inl err \<Rightarrow> Some (Some (Inl err), s)
           | Inr src \<Rightarrow> map_option (\<lambda>(e, s'). (map_option Inr e, s')) (act src s)))"

definition Promote where
  "Promote F S collectors publishers prompt connOpts uri name force s =
     onSource F S collectors publishers prompt connOpts uri (\<lambda>src. PromoteSource S src name force) s"

definition Demote where
  "Demote F S collectors publishers prompt connOpts uri name force s =
     onSource F S collectors publishers prompt connOpts uri (\<lambda>src. DemoteSource S src name force) s"

definition Expel where
  "Expel F S collectors publishers prompt connOpts uri name force s =
     onSource F S collectors publishers prompt connOpts uri (\<lambda>src. ExpelSource S src name force) s"

definition AddRole where
  "AddRole F S collectors publishers prompt connOpts uri ctx s =
     onSource F S collectors publishers prompt connOpts uri (\<lambda>src. AddRoleSource S src ctx) s"

section \<open>A local application\<close>

text \<open>
  The chunks of Lua that are evaluated on an instance, and the application: how its instances are
  reached (\<open>appDial\<close>) and what evaluating on them does (\<open>appEval\<close>).
\<close>

datatype chunk = GetTopology | PromoteElection | WaitRW int | WaitRO int | ReloadConfig

record 's app =
  appInstances :: "instanceCtx list"
  appDial :: "'s \<Rightarrow> string \<Rightarrow> string option"
  appEval :: "instanceCtx \<Rightarrow> chunk \<Rightarrow> 's \<Rightarrow> (string + gval list) \<times> 's"
  appDecode :: "gval \<Rightarrow> string + topology"
  appCollectors :: "'s dataCollectorFactory"
  appPublishers :: dataPublisherFactory

definition evalChunk :: "'s app \<Rightarrow> chunk \<Rightarrow> instanceCtx \<Rightarrow> 's \<Rightarrow> string option \<times> 's" where
  "evalChunk A c i s =
     (case appEval A i c s of (Inl err, s') \<Rightarrow> (Some err, s') | (Inr _, s') \<Rightarrow> (None, s'))"

definition cconfigPromoteElection :: "'s app \<Rightarrow> int \<Rightarrow> instanceCtx \<Rightarrow> 's \<Rightarrow> string option \<times> 's" where
  "cconfigPromoteElection A timeout i s =
     (case evalChunk A PromoteElection i s of
        (Some err, s') \<Rightarrow> (Some err, s')
      | (None, s') \<Rightarrow> evalChunk A (WaitRW timeout) i s')"

definition evalAnyOf :: "'s app \<Rightarrow> instanceCtx \<Rightarrow> (instanceCtx \<Rightarrow> 's \<Rightarrow> string option \<times> 's) \<Rightarrow> 's \<Rightarrow> ccerr option \<times> 's"
where
  "evalAnyOf A i f s =
     (case EvalAny (appDial A) [i]
             (\<lambda>i s. case f i s of (Some err, s') \<Rightarrow> (Inl err, s') | (None, s') \<Rightarrow> (Inr True, s')) s of
        (Some err, s') \<Rightarrow> (Some (EvalCC err), s')
      | (None, s') \<Rightarrow> (None, s'))"

text \<open>An instance that fails to reload is remembered; one that cannot be reached stops the loop.\<close>

definition reloadOne :: "'s app \<Rightarrow> instanceCtx \<Rightarrow> 's \<times> string list \<Rightarrow> (string + bool) \<times> 's \<times> string list" where
  "reloadOne A i se =
     (case evalChunk A ReloadConfig i (fst se) of
        (Some err, s') \<Rightarrow> (Inr False, s', snd se @ [InstName i])
      | (None, s') \<Rightarrow> (Inr False, s', snd se))"

definition reloadCConfig :: "'s app \<Rightarrow> instanceCtx list \<Rightarrow> 's \<Rightarrow> ccerr option \<times> 's" where
  "reloadCConfig A is s =
     (case EvalForeach (\<lambda>se. appDial A (fst se)) is (reloadOne A) (s, []) of
        (Some err, s', errored) \<Rightarrow> (Some (ReloadEval err), s')
      | (None, s', errored) \<Rightarrow> (if errored \<noteq> [] then Some (ReloadFailed errored) else None, s'))"

definition patchLocalCConfig ::
  "('s, 't, 'n) sys \<Rightarrow> 's app \<Rightarrow> string \<Rightarrow> (config \<Rightarrow> ccerr + config) \<Rightarrow> 's \<Rightarrow> (ccerr option \<times> 's) option"
where
  "patchLocalCConfig S A path patch s =
     (let W = sysWorld S
      in case PublisherNewFile (appPublishers A) path of
           Inl err \<Rightarrow> Some (Some (CreatePublisher err), s)
         | Inr publisher \<Rightarrow>
             (case Collect (sysUnyaml S) W (YamlNewFile W (NewCollectorFactory (appCollectors A)) path) s of
                (Inl err, s') \<Rightarrow> Some (Some (CollectLocal err), s')
              | (Inr cfg, s') \<Rightarrow>
                  (case patch cfg of
                     Inl err \<Rightarrow> Some (Some err, s')
                   | Inr cfg' \<Rightarrow>
                       map_option (\<lambda>(e, s''). (map_option PublishCC e, s''))
                         (PublishYamlConfig (yEncode (sysYaml S)) W publisher (Some cfg') s'))))"

text \<open>An operation returns whether the configuration was published, and its error.\<close>

definition patchAnd ::
  "('s, 't, 'n) sys \<Rightarrow> 's app \<Rightarrow> string \<Rightarrow> (config \<Rightarrow> ccerr + config) \<Rightarrow> 's \<Rightarrow> (bool \<times> ccerr option \<times> 's) option"
where
  "patchAnd S A path patch s = map_option (\<lambda>(err, s'). (err = None, err, s')) (patchLocalCConfig S A path patch s)"

definition promote ::
  "('s, 't, 'n) sys \<Rightarrow> 's app \<Rightarrow> inst \<Rightarrow> string \<Rightarrow> int \<Rightarrow> 's \<Rightarrow> (bool \<times> ccerr option \<times> 's) option"
where
  "promote S A i name timeout s =
     (let path = ClusterConfigPath (InstanceCtx i)
      in case GetClusterConfig S (NewCollectorFactory (appCollectors A)) path s of
           (Inl err, s') \<Rightarrow> Some (False, Some (GetCluster err), s')
         | (Inr cc, s') \<Rightarrow>
             (case getCConfigInstance cc name of
                Inl err \<Rightarrow> Some (False, Some err, s')
              | Inr ci \<Rightarrow>
                  (if ciFailover ci = FailoverElection then
                     (case evalAnyOf A (InstanceCtx i) (cconfigPromoteElection A timeout) s' of
                        (err, s'') \<Rightarrow> Some (False, err, s''))
                   else patchAnd S A path (\<lambda>cfg. patchCConfigPromote cfg ci) s')))"

definition demoteElection ::
  "('s, 't, 'n) sys \<Rightarrow> 's app \<Rightarrow> instanceCtx \<Rightarrow> cconfigInstance \<Rightarrow> int \<Rightarrow> 's \<Rightarrow> (bool \<times> ccerr option \<times> 's) option"
where
  "demoteElection S A ictx ci timeout s =
     (case patchLocalCConfig S A (ClusterConfigPath ictx) (\<lambda>cfg. patchCConfigElectionMode cfg ci ElectionModeVoter) s of
        None \<Rightarrow> None
      | Some (Some err, s1) \<Rightarrow> Some (False, Some err, s1)
      | Some (None, s1) \<Rightarrow>
          (case reloadCConfig A [ictx] s1 of
             (Some err, s2) \<Rightarrow> Some (True, Some err, s2)
           | (None, s2) \<Rightarrow>
               (case evalAnyOf A ictx (evalChunk A (WaitRO timeout)) s2 of
                  (Some err, s3) \<Rightarrow> Some (True, Some err, s3)
                | (None, s3) \<Rightarrow>
                    map_option (\<lambda>(err, s4). (True, err, s4))
                      (patchLocalCConfig S A (ClusterConfigPath ictx)
                        (\<lambda>cfg. patchCConfigElectionMode cfg ci ElectionModeCandidate) s3))))"

definition demote ::
  "('s, 't, 'n) sys \<Rightarrow> 's app \<Rightarrow> inst \<Rightarrow> replicaset \<Rightarrow> string \<Rightarrow> int \<Rightarrow> 's \<Rightarrow> (bool \<times> ccerr option \<times> 's) option"
where
  "demote S A i rs name timeout s =
     (let path = ClusterConfigPath (InstanceCtx i)
      in case GetClusterConfig S (NewCollectorFactory (appCollectors A)) path s of
           (Inl err, s') \<Rightarrow> Some (False, Some (GetCluster err), s')
         | (Inr cc, s') \<Rightarrow>
             (case getCConfigInstance cc name of
                Inl err \<Rightarrow> Some (False, Some err, s')
              | Inr ci \<Rightarrow>
                  (if ciFailover ci = FailoverElection then
                     (case cconfigGetElectionMode cc name of
                        Inl err \<Rightarrow> Some (False, Some err, s')
                      | Inr m \<Rightarrow>
                          if m \<noteq> ElectionModeCandidate then Some (False, Some (UnexpectedElectionMode m), s')
                          else if LeaderUUID rs \<noteq> UUID i then Some (False, Some NotLeader, s')
                          else demoteElection S A (InstanceCtx i) ci timeout s')
                   else patchAnd S A path (\<lambda>cfg. patchCConfigDemote cfg ci) s')))"

definition expel ::
  "('s, 't, 'n) sys \<Rightarrow> 's app \<Rightarrow> instanceCtx \<Rightarrow> string \<Rightarrow> 's \<Rightarrow> (bool \<times> ccerr option \<times> 's) option"
where
  "expel S A ictx name s =
     (let path = ClusterConfigPath ictx
      in case GetClusterConfig S (NewCollectorFactory (appCollectors A)) path s of
           (Inl err, s') \<Rightarrow> Some (False, Some (GetCluster err), s')
         | (Inr cc, s') \<Rightarrow>
             (case getCConfigInstance cc name of
                Inl err \<Rightarrow> Some (False, Some err, s')
              | Inr ci \<Rightarrow> patchAnd S A path (\<lambda>cfg. patchCConfigExpel cfg ci) s'))"

text \<open>\<^verbatim>\<open>errors.Join\<close> of two errors.\<close>

fun joinErrs :: "ccerr option \<Rightarrow> ccerr option \<Rightarrow> ccerr option" where
  "joinErrs None e = e"
| "joinErrs (Some e) None = Some e"
| "joinErrs (Some e) (Some f) = Some (JoinedCC e f)"

text \<open>After an operation that published, the instances that can be reached reload.\<close>

definition thenReload ::
  "'s app \<Rightarrow> instanceCtx list \<Rightarrow> (bool \<times> ccerr option \<times> 's) option \<Rightarrow> (ccerr option \<times> 's) option"
where
  "thenReload A is r =
     map_option (\<lambda>(pub, err, s).
       if pub then (case reloadCConfig A is s of (err', s') \<Rightarrow> (joinErrs err err', s')) else (err, s)) r"

text \<open>
  The target of an operation in the discovered replicasets: it must be there and online, and
  without force so must all other instances of its replicaset.
\<close>

definition onlineTarget ::
  "(inst \<Rightarrow> bool) \<Rightarrow> replicaset list \<Rightarrow> string \<Rightarrow> bool \<Rightarrow> ccerr + replicaset \<times> inst \<times> instanceCtx list"
where
  "onlineTarget mayBeOffline rss name force =
     (case findInstanceByAlias rss name of
        None \<Rightarrow> Inl (NotConfigured name)
      | Some (rs, i) \<Rightarrow>
          (if \<not> InstanceCtxFound i then Inl (Offline name)
           else
             (let unfound = map Alias (filter (\<lambda>i. \<not> InstanceCtxFound i \<and> \<not> mayBeOffline i) (rsInstances rs));
                  is = map InstanceCtx (filter InstanceCtxFound (rsInstances rs))
              in if unfound \<noteq> [] \<and> \<not> force then Inl (OthersOffline unfound) else Inr (rs, i, is))))"

definition PromoteApp ::
  "('s, 't, 'n) sys \<Rightarrow> 's app \<Rightarrow> discerr + replicaset list \<Rightarrow> string \<Rightarrow> bool \<Rightarrow> int \<Rightarrow> 's \<Rightarrow> (ccerr option \<times> 's) option"
where
  "PromoteApp S A disc name force timeout s =
     (case disc of
        Inl err \<Rightarrow> Some (Some (DiscoveryFailed err), s)
      | Inr rss \<Rightarrow>
          (case onlineTarget (\<lambda>_. False) rss name force of
             Inl err \<Rightarrow> Some (Some err, s)
           | Inr (rs, i, is) \<Rightarrow> thenReload A is (promote S A i name timeout s)))"

definition DemoteApp ::
  "('s, 't, 'n) sys \<Rightarrow> 's app \<Rightarrow> discerr + replicaset list \<Rightarrow> string \<Rightarrow> bool \<Rightarrow> int \<Rightarrow> 's \<Rightarrow> (ccerr option \<times> 's) option"
where
  "DemoteApp S A disc name force timeout s =
     (case disc of
        Inl err \<Rightarrow> Some (Some (DiscoveryFailed err), s)
      | Inr rss \<Rightarrow>
          (case onlineTarget (\<lambda>_. False) rss name force of
             Inl err \<Rightarrow> Some (Some err, s)
           | Inr (rs, i, is) \<Rightarrow> thenReload A is (demote S A i rs name timeout s)))"

definition ExpelApp ::
  "('s, 't, 'n) sys \<Rightarrow> 's app \<Rightarrow> discerr + replicaset list \<Rightarrow> string \<Rightarrow> bool \<Rightarrow> 's \<Rightarrow> (ccerr option \<times> 's) option"
where
  "ExpelApp S A disc name force s =
     (case disc of
        Inl err \<Rightarrow> Some (Some (DiscoveryFailed err), s)
      | Inr rss \<Rightarrow>
          (case findInstanceByAlias rss name of
             None \<Rightarrow> Some (Some (NotConfigured name), s)
           | Some (rs, i) \<Rightarrow>
               (if \<not> InstanceCtxFound i then Some (Some (Offline name), s)
                else if length (rsInstances rs) = 1 then Some (Some LastInstance, s)
                else
                  (case onlineTarget (\<lambda>i. Alias i = name) rss name force of
                     Inl err \<Rightarrow> Some (Some err, s)
                   | Inr (_, _, is) \<Rightarrow> thenReload A is (expel S A (InstanceCtx i) name s)))))"

end
