(* ===== verification/CConfigFacts.thy ===== *)
theory CConfigFacts
  imports CConfig
begin

text \<open>
  What patching the centralized configuration guarantees: which documents are offered as targets
  and in which order, that a command changes exactly one option of one document under the
  revision it was read with, and what demoting an instance with elections leaves in the file.
\<close>

section \<open>The order of targets\<close>

interpretation target: strict_weak_order targetGreater
proof unfold_locales
  fix x y z :: patchTarget
  show "\<not> targetGreater x x" by (simp add: targetGreater_def)
  show "targetGreater x y \<Longrightarrow> targetGreater y z \<Longrightarrow> targetGreater x z"
    by (auto simp: targetGreater_def split: if_splits dest: strLess_trans)
  show "\<not> targetGreater x y \<Longrightarrow> \<not> targetGreater y z \<Longrightarrow> \<not> targetGreater x z"
    using strLess_total [of "ptKey x" "ptKey y"] strLess_total [of "ptKey y" "ptKey z"]
    by (auto simp: targetGreater_def split: if_splits dest: strLess_trans)
qed

text \<open>Two lists with the same elements in one strict order are equal.\<close>

lemma strictly_sorted_unique:
  assumes "\<And>x. \<not> R x x" and "\<And>x y z. R x y \<Longrightarrow> R y z \<Longrightarrow> R x z"
    and "sorted_wrt R xs" and "sorted_wrt R ys" and "set xs = set ys"
  shows "xs = ys"
  using assms(3-5)
proof (induction xs arbitrary: ys)
  case (Cons x xs)
  from Cons.prems(3) obtain y ys' where ys: "ys = y # ys'" by (cases ys) auto
  have "x = y"
  proof (rule ccontr)
    assume "x \<noteq> y"
    with Cons.prems ys have "R x y" "R y x" by auto
    with assms(1,2) show False by blast
  qed
  moreover have "x \<notin> set xs" "y \<notin> set ys'" using Cons.prems assms(1) ys by auto
  ultimately have "set xs = set ys'" using Cons.prems(3) ys by auto
  with Cons ys \<open>x = y\<close> show ?case by auto
qed simp

lemma sorted_distinct_keys:
  assumes "sorted_wrt (\<lambda>a b. \<not> targetGreater b a) ts" and "distinct (map ptKey ts)"
  shows "sorted_wrt targetGreater ts"
  using assms
proof (induction ts)
  case (Cons t ts)
  have "targetGreater t u" if "u \<in> set ts" for u
  proof -
    have "\<not> targetGreater u t" using Cons.prems(1) that by simp
    moreover have "ptKey u \<noteq> ptKey t" using Cons.prems(2) that by (metis distinct.simps(2) image_eqI list.simps(9) set_map)
    ultimately show ?thesis using strLess_total [of "ptKey t" "ptKey u"]
      by (auto simp: targetGreater_def split: if_splits)
  qed
  with Cons show ?case by simp
qed simp

section \<open>The depth of a path in a configuration\<close>

definition missing :: "config \<Rightarrow> path \<Rightarrow> bool" where
  "missing cfg q \<longleftrightarrow> (\<exists>e. Get cfg q = Inl (NotExistError e))"

lemma pathDepthFrom_Some:
  "pathDepthFrom cfg p lower i = Inr (Some d) \<longleftrightarrow>
     lower \<le> d \<and> d \<le> i \<and> is_ok (Get cfg (take d p)) \<and> (\<forall>j. d < j \<and> j \<le> i \<longrightarrow> missing cfg (take j p))"
proof (induction i)
  case 0
  show ?case
    by (cases d; subst pathDepthFrom.simps) (auto simp: is_ok_def missing_def split: sum.splits cerr.splits)
next
  case (Suc i)
  show ?case
  proof (cases "Suc i < lower")
    case True
    then show ?thesis by (subst pathDepthFrom.simps) auto
  next
    case False
    show ?thesis
    proof (cases "Get cfg (take (Suc i) p)")
      case (Inr v)
      then have "pathDepthFrom cfg p lower (Suc i) = Inr (Some (Suc i))" "\<not> missing cfg (take (Suc i) p)"
        using False by (subst pathDepthFrom.simps, simp, simp add: missing_def)
      with Inr False show ?thesis by (cases "d = Suc i") (auto intro!: exI [of _ "Suc i"])
    next
      case (Inl err)
      show ?thesis
      proof (cases "missing cfg (take (Suc i) p)")
        case True
        then have "pathDepthFrom cfg p lower (Suc i) = pathDepthFrom cfg p lower i"
          using False by (subst pathDepthFrom.simps) (auto simp: missing_def)
        moreover have "(\<forall>j. d < j \<and> j \<le> Suc i \<longrightarrow> missing cfg (take j p)) \<longleftrightarrow>
            (\<forall>j. d < j \<and> j \<le> i \<longrightarrow> missing cfg (take j p))" using True by (auto simp: le_Suc_eq)
        moreover have "d = Suc i \<Longrightarrow> \<not> is_ok (Get cfg (take d p))" using Inl by simp
        ultimately show ?thesis using Suc by (auto simp: le_Suc_eq)
      next
        case False
        with Inl have "\<not> is_ok (Get cfg (take (Suc i) p))" by simp
        moreover have "pathDepthFrom cfg p lower (Suc i) \<noteq> Inr (Some d)"
          using False Inl by (subst pathDepthFrom.simps) (auto simp: missing_def split: cerr.splits)
        ultimately show ?thesis using False by (cases "d = Suc i") (auto intro!: exI [of _ "Suc i"])
      qed
    qed
  qed
qed

text \<open>A document as a target for a path: how much of the path it has.\<close>

definition isTarget :: "unyaml \<Rightarrow> path \<Rightarrow> nat \<Rightarrow> data \<Rightarrow> patchTarget \<Rightarrow> bool" where
  "isTarget unyaml p lower item t \<longleftrightarrow>
     CollectYaml unyaml (Value item) = Inr (ptConfig t) \<and> ptKey t = Source item \<and>
     ptRevision t = Revision item \<and> lower \<le> ptPriority t \<and> ptPriority t \<le> length p \<and>
     is_ok (Get (ptConfig t) (take (ptPriority t) p)) \<and>
     (\<forall>j. ptPriority t < j \<and> j \<le> length p \<longrightarrow> missing (ptConfig t) (take j p))"

lemma isTarget_depth:
  "isTarget unyaml p lower item t \<longleftrightarrow>
     CollectYaml unyaml (Value item) = Inr (ptConfig t) \<and> ptKey t = Source item \<and>
     ptRevision t = Revision item \<and> getCConfigPathDepth (ptConfig t) p lower = Inr (Some (ptPriority t))"
  by (auto simp: isTarget_def getCConfigPathDepth_def pathDepthFrom_Some)

lemma patchTargetOf_Inr:
  "patchTargetOf unyaml p lower item = Inr ts \<Longrightarrow> t \<in> set ts \<longleftrightarrow> isTarget unyaml p lower item t"
  by (cases t) (auto simp: patchTargetOf_def isTarget_depth split: sum.splits option.splits)

lemma targets_set:
  assumes "mapr (patchTargetOf unyaml p lower) dat = Inr tss"
  shows "t \<in> set (concat tss) \<longleftrightarrow> (\<exists>item \<in> set dat. isTarget unyaml p lower item t)"
proof -
  from assms have l: "list_all2 (\<lambda>item ts. patchTargetOf unyaml p lower item = Inr ts) dat tss"
    by (simp add: mapr_Inr)
  show ?thesis
  proof
    assume "t \<in> set (concat tss)"
    then obtain ts where "ts \<in> set tss" "t \<in> set ts" by auto
    with list_all2_in2 [OF l] patchTargetOf_Inr show "\<exists>item \<in> set dat. isTarget unyaml p lower item t" by blast
  next
    assume "\<exists>item \<in> set dat. isTarget unyaml p lower item t"
    with list_all2_in1 [OF l] patchTargetOf_Inr show "t \<in> set (concat tss)" by fastforce
  qed
qed

lemma targets_keys:
  assumes "mapr (patchTargetOf unyaml p lower) dat = Inr tss" and "distinct (map Source dat)"
  shows "distinct (map ptKey (concat tss))"
proof -
  from assms(1) have l: "list_all2 (\<lambda>item ts. patchTargetOf unyaml p lower item = Inr ts) dat tss"
    by (simp add: mapr_Inr)
  have "distinct (map ptKey (concat tss)) \<and> ptKey ` set (concat tss) \<subseteq> Source ` set dat"
    using l assms(2)
  proof (induction rule: list_all2_induct)
    case (Cons item dat ts tss)
    then have "map ptKey ts = [] \<or> map ptKey ts = [Source item]"
      by (auto simp: patchTargetOf_def split: sum.splits option.splits)
    then have keys: "distinct (map ptKey ts)" "set (map ptKey ts) \<subseteq> {Source item}" by auto
    have "Source item \<notin> Source ` set dat" "distinct (map ptKey (concat tss))"
      "set (map ptKey (concat tss)) \<subseteq> Source ` set dat" using Cons by auto
    with keys have "distinct (map ptKey ts @ map ptKey (concat tss))" unfolding distinct_append by blast
    moreover have "set (map ptKey (concat (ts # tss))) \<subseteq> Source ` set (item # dat)"
      using keys(2) Cons.IH Cons.prems by (simp add: subset_iff)
    ultimately show ?case by (simp add: image_Un)
  qed simp
  then show ?thesis ..
qed

section \<open>One option of one document\<close>

text \<open>
  The effect of a command: one document that was collected is published again under its key and
  the revision it was read with, with a value set at a path.
\<close>

definition publishedPatch ::
  "('s, 't, 'n) sys \<Rightarrow> 's ccSource \<Rightarrow> 's \<Rightarrow> 's \<Rightarrow> path \<Rightarrow> gval \<Rightarrow> bool"
where
  "publishedPatch S src s s' p v \<longleftrightarrow>
     (\<exists>dat s1 item cfg cfg' bytes.
        srcCollect src s = (Inr dat, s1) \<and> item \<in> set dat \<and>
        CollectYaml (sysUnyaml S) (Value item) = Inr cfg \<and>
        Get cfg' p = Inr v \<and> (\<forall>q x. incomparable p q \<longrightarrow> (Get cfg' q = Inr x \<longleftrightarrow> Get cfg q = Inr x)) \<and>
        ConfigString (yEncode (sysYaml S)) cfg' = Some bytes \<and>
        srcPublish src (Source item) (Revision item) bytes s1 = Some (None, s'))"

lemma Set_Get_facts:
  assumes "Set cfg p v = (None, cfg')" and "wf_val v" and "v \<noteq> VNil"
  shows "Get cfg' p = Inr v" and "incomparable p q \<Longrightarrow> Get cfg' q = Inr x \<longleftrightarrow> Get cfg q = Inr x"
proof -
  have "setOpt cfg p v = Some cfg'" using assms(1) by (simp add: setOpt_def)
  with assms(2,3) cfg.get_put_same cfg.get_put_other
  show "Get cfg' p = Inr v" and "incomparable p q \<Longrightarrow> Get cfg' q = Inr x \<longleftrightarrow> Get cfg q = Inr x"
    by (auto simp: plain_val_def Get_lookup getOpt_lookup)
qed

lemma pickTarget_mem: "pickTarget src ts force msg = Inr t \<Longrightarrow> t \<in> set ts"
  by (auto simp: pickTarget_def split: sum.splits if_splits)

lemma patchInstanceConfig_published:
  assumes "patchInstanceConfig S src name force getPath patch s = Some (None, s')"
  shows "\<exists>cc inst. getCConfigInstance cc name = Inr inst \<and> (\<exists>cfg. is_ok (patch cfg inst)) \<and>
    (\<forall>p v. wf_val v \<and> v \<noteq> VNil \<and> (\<forall>cfg. patch cfg inst = patchSet cfg p v) \<longrightarrow> publishedPatch S src s s' p v)"
proof -
  from assms obtain dat cc s1 t patched where
    c: "collectCConfig S src s = (Inr (dat, cc), s1)" and
    ch: "choosePatch S src name force getPath patch dat cc = Inr (t, patched)" and
    pub: "publishPatched S src t patched s1 = Some (None, s')"
    by (auto simp: patchInstanceConfig_def split: prod.splits sum.splits)
  from c have dat: "srcCollect src s = (Inr dat, s1)"
    by (auto simp: collectCConfig_def split: prod.splits sum.splits)
  from ch obtain inst p depth targets where
    i: "getCConfigInstance cc name = Inr inst" and
    ts: "getCConfigPatchTargets (sysUnyaml S) dat p depth = Inr targets" and
    t: "t \<in> set targets" and patch: "patch (ptConfig t) inst = Inr patched"
    by (fastforce simp: choosePatch_def bindr_eq_Inr dest: pickTarget_mem)
  from ts obtain tss where "mapr (patchTargetOf (sysUnyaml S) p depth) dat = Inr tss" "targets = isort targetGreater (concat tss)"
    by (auto simp: getCConfigPatchTargets_def split: sum.splits)
  with t targets_set [OF this(1), of t] obtain item where
    item: "item \<in> set dat" "CollectYaml (sysUnyaml S) (Value item) = Inr (ptConfig t)"
      "ptKey t = Source item" "ptRevision t = Revision item" by (auto simp: isTarget_def)
  from pub obtain bytes where b: "ConfigString (yEncode (sysYaml S)) patched = Some bytes"
    "srcPublish src (ptKey t) (ptRevision t) bytes s1 = Some (None, s')"
    by (auto simp: publishPatched_def split: option.splits)
  have "publishedPatch S src s s' q v"
    if "wf_val v" "v \<noteq> VNil" "\<forall>cfg. patch cfg inst = patchSet cfg q v" for q v
  proof -
    have "Set (ptConfig t) q v = (None, patched)"
      using patch that(3) by (auto simp: patchSet_def split: prod.splits option.splits)
    from Set_Get_facts [OF this that(1,2)] item b dat show ?thesis
      unfolding publishedPatch_def by (intro exI conjI) auto
  qed
  moreover have "is_ok (patch (ptConfig t) inst)" by (simp add: patch)
  ultimately show ?thesis using i by blast
qed

lemma getCConfigInstance_name: "getCConfigInstance cc name = Inr inst \<Longrightarrow> ciName inst = name"
  by (auto simp: getCConfigInstance_def split: option.splits sum.splits prod.splits)

section \<open>Properties\<close>

text \<open>
  The targets offered for a patch are exactly the documents that contain the path at
  least down to the given depth, each with the longest part of the path it has as its priority,
  sorted by priority and then by key; with distinct keys no other arrangement is sorted, so the
  order does not depend on the sorting algorithm.
\<close>

theorem getCConfigPatchTargets_order:
  assumes "getCConfigPatchTargets unyaml dat p lower = Inr ts" and "distinct (map Source dat)"
  shows "(\<forall>t. t \<in> set ts \<longleftrightarrow> (\<exists>item \<in> set dat. isTarget unyaml p lower item t)) \<and>
    sorted_wrt targetGreater ts \<and> (\<forall>us. set us = set ts \<and> sorted_wrt targetGreater us \<longrightarrow> us = ts)"
proof -
  from assms(1) obtain tss where m: "mapr (patchTargetOf unyaml p lower) dat = Inr tss"
    and ts: "ts = isort targetGreater (concat tss)"
    by (auto simp: getCConfigPatchTargets_def split: sum.splits)
  have "mset (map ptKey ts) = mset (map ptKey (concat tss))" unfolding ts mset_map mset_isort ..
  then have "distinct (map ptKey ts)"
    using targets_keys [OF m assms(2)] by (metis mset_eq_imp_distinct_iff)
  with target.isort_sorted [of "concat tss"] have "sorted_wrt targetGreater ts"
    by (intro sorted_distinct_keys) (simp_all add: ts)
  moreover have "us = ts" if "set us = set ts" "sorted_wrt targetGreater us" for us
    using strictly_sorted_unique [of targetGreater us ts] target.irrefl target.trans that calculation by blast
  ultimately show ?thesis using targets_set [OF m] ts by auto
qed

definition demoData :: "data list" where
  "demoData = [\<lparr>Source = ''/b'', Value = ''doc'', Revision = 3\<rparr>, \<lparr>Source = ''/a'', Value = ''doc'', Revision = 4\<rparr>]"

definition demoTargets :: "patchTarget list" where
  "demoTargets =
     [\<lparr>ptKey = ''/a'', ptRevision = 4, ptConfig = \<lparr>paths = demoDoc\<rparr>, ptPriority = 6\<rparr>,
      \<lparr>ptKey = ''/b'', ptRevision = 3, ptConfig = \<lparr>paths = demoDoc\<rparr>, ptPriority = 6\<rparr>]"

theorem getCConfigPatchTargets_order_witness:
  "set demoTargets = set (rev demoTargets) \<and> \<not> sorted_wrt targetGreater (rev demoTargets)"
proof -
  have "getCConfigPatchTargets (\<lambda>b. Inr (Some (Inr demoDoc))) demoData
      (instancePath ''g'' ''r'' ''i'' @ [''database'', ''mode'']) 6 = Inr demoTargets" by code_simp
  moreover have "distinct (map Source demoData)" by code_simp
  ultimately have "\<forall>us. set us = set demoTargets \<and> sorted_wrt targetGreater us \<longrightarrow> us = demoTargets"
    using getCConfigPatchTargets_order by blast
  moreover have "rev demoTargets \<noteq> demoTargets" by code_simp
  ultimately show ?thesis by auto
qed

text \<open>
  Property C18: a successful promote, demote or expel on a config storage publishes one of the
  collected documents under its own key and the revision it was read with, and changes in it
  exactly one option: the mode of the instance or the leader of its replicaset, the mode, or the
  listen addresses.
\<close>

theorem source_commands_published:
  "(PromoteSource S src name force s = Some (None, s') \<longrightarrow>
      (\<exists>g r. publishedPatch S src s s' (instancePath g r name @ [''database'', ''mode'']) (VStr ''rw'') \<or>
        publishedPatch S src s s' [''groups'', g, ''replicasets'', r, ''leader''] (VStr name))) \<and>
   (DemoteSource S src name force s = Some (None, s') \<longrightarrow>
      (\<exists>g r. publishedPatch S src s s' (instancePath g r name @ [''database'', ''mode'']) (VStr ''ro''))) \<and>
   (ExpelSource S src name force s = Some (None, s') \<longrightarrow>
      (\<exists>g r. publishedPatch S src s s' (instancePath g r name @ [''iproto'', ''listen'']) (VMap [])))"
proof (intro conjI impI)
  assume "PromoteSource S src name force s = Some (None, s')"
  from patchInstanceConfig_published [OF this [unfolded PromoteSource_def]] obtain inst cfg where
    i: "ciName inst = name" "is_ok (patchCConfigPromote cfg inst)"
      "\<And>p v. wf_val v \<Longrightarrow> v \<noteq> VNil \<Longrightarrow> \<forall>cfg. patchCConfigPromote cfg inst = patchSet cfg p v \<Longrightarrow>
         publishedPatch S src s s' p v" using getCConfigInstance_name by blast
  show "\<exists>g r. publishedPatch S src s s' (instancePath g r name @ [''database'', ''mode'']) (VStr ''rw'') \<or>
        publishedPatch S src s s' [''groups'', g, ''replicasets'', r, ''leader''] (VStr name)"
    using i(2) i(3) [of "VStr ''rw''" "ccInstancePath inst @ [''database'', ''mode'']"]
      i(3) [of "VStr name" "leaderPath inst"] i(1)
    by (cases "ciFailover inst") (auto simp: patchCConfigPromote_def ccInstancePath_def leaderPath_def)
next
  assume "DemoteSource S src name force s = Some (None, s')"
  from patchInstanceConfig_published [OF this [unfolded DemoteSource_def]] obtain inst cfg where
    i: "ciName inst = name" "is_ok (patchCConfigDemote cfg inst)"
      "\<And>p v. wf_val v \<Longrightarrow> v \<noteq> VNil \<Longrightarrow> \<forall>cfg. patchCConfigDemote cfg inst = patchSet cfg p v \<Longrightarrow>
         publishedPatch S src s s' p v" using getCConfigInstance_name by blast
  show "\<exists>g r. publishedPatch S src s s' (instancePath g r name @ [''database'', ''mode'']) (VStr ''ro'')"
    using i(1,2) i(3) [of "VStr ''ro''" "ccInstancePath inst @ [''database'', ''mode'']"]
    by (auto simp: patchCConfigDemote_def ccInstancePath_def split: if_splits)
next
  assume "ExpelSource S src name force s = Some (None, s')"
  from patchInstanceConfig_published [OF this [unfolded ExpelSource_def]] obtain inst where
    i: "ciName inst = name"
      "\<And>p v. wf_val v \<Longrightarrow> v \<noteq> VNil \<Longrightarrow> \<forall>cfg. patchCConfigExpel cfg inst = patchSet cfg p v \<Longrightarrow>
         publishedPatch S src s s' p v" using getCConfigInstance_name by blast
  show "\<exists>g r. publishedPatch S src s s' (instancePath g r name @ [''iproto'', ''listen'']) (VMap [])"
    using i(1) i(2) [of "VMap []" "ccInstancePath inst @ [''iproto'', ''listen'']"]
    by (auto simp: patchCConfigExpel_def ccInstancePath_def)
qed

text \<open>A storage with two documents that accepts every write, and a picker that takes the first.\<close>

definition noEtcd :: "'s etcd" where
  "noEtcd = \<lparr>eget = (\<lambda>s _ _ _. (Inl ''no'', s)), etxn = (\<lambda>s _ _ _ _. (Inl ''no'', s)), edone = (\<lambda>s. (None, s))\<rparr>"

definition noTarantool :: "'s tarantool" where
  "noTarantool = \<lparr>conn = (\<lambda>s _. (Inl ''no'', s)), decodeGet = (\<lambda>_. None), decodeTxn = (\<lambda>_. None)\<rparr>"

definition demoSource :: "unit ccSource" where
  "demoSource =
     \<lparr>srcCollect = (\<lambda>s. (Inr demoData, s)),
      srcPublish = (\<lambda>key rev bytes s. if key = ''/a'' \<and> rev = 4 then Some (None, s) else Some (Some WrongRevision, s)),
      srcPicker = (\<lambda>keys force msg. Inr 0)\<rparr>"

theorem source_commands_published_witness:
  "(\<exists>g r. publishedPatch (demoSys noEtcd noTarantool) demoSource () () (instancePath g r ''i'' @ [''database'', ''mode'']) (VStr ''ro'')) \<and>
   (\<exists>g r. publishedPatch (demoSys noEtcd noTarantool) demoSource () () (instancePath g r ''i'' @ [''iproto'', ''listen'']) (VMap []))"
proof -
  let ?S = "demoSys noEtcd noTarantool"
  have "DemoteSource ?S demoSource ''i'' False () = Some (None, ())" "ExpelSource ?S demoSource ''i'' False () = Some (None, ())"
    by code_simp+
  with source_commands_published [of ?S demoSource "''i''" False "()" "()"] show ?thesis by blast
qed

text \<open>
  A role added to two scopes that are in different documents: what is published under the key of
  the second document holds the options of the first one as well, and the first is not published.
\<close>

definition scopeDoc :: gval where
  "scopeDoc = VMap [(VStr ''only'', VStr ''here'')]"

definition scopeSys :: "(unit, unit, gval) sys" where
  "scopeSys = (demoSys noEtcd noTarantool)
     \<lparr>sysUnyaml := (\<lambda>b. if b = ''A'' then Inr (Some (Inr scopeDoc)) else Inr (Some (Inr demoDoc)))\<rparr>"

definition scopeCtx :: rolesAddCtx where
  "scopeCtx = \<lparr>raInstName = ''i'', raGroupName = [], raReplicasetName = [], raIsGlobal = True,
     raRoleName = ''crud'', raForce = True\<rparr>"

definition scopeData :: "data list" where
  "scopeData = [\<lparr>Source = ''/a'', Value = ''A'', Revision = 1\<rparr>, \<lparr>Source = ''/b'', Value = ''B'', Revision = 2\<rparr>]"

lemma roleSteps_mixes_documents:
  "\<exists>target patched.
     roleSteps scopeSys demoSource scopeCtx scopeData \<lparr>paths = demoDoc\<rparr> None
       [([''roles''], 0), (instancePath ''g'' ''r'' ''i'' @ [''roles''], 6)] = Inr (Some (target, patched)) \<and>
     ptKey target = ''/b'' \<and> Get patched [''only''] = Inr (VStr ''here'') \<and>
     \<not> is_ok (Get (ptConfig target) [''only''])"
proof -
  let ?r = "roleSteps scopeSys demoSource scopeCtx scopeData \<lparr>paths = demoDoc\<rparr> None
       [([''roles''], 0), (instancePath ''g'' ''r'' ''i'' @ [''roles''], 6)]"
  have "case ?r of Inr (Some (target, patched)) \<Rightarrow> ptKey target = ''/b'' \<and> Get patched [''only''] = Inr (VStr ''here'') \<and>
     \<not> is_ok (Get (ptConfig target) [''only'']) | _ \<Rightarrow> False" by code_simp
  then show ?thesis by (auto split: sum.splits option.splits)
qed

section \<open>Demoting with elections\<close>

text \<open>What is assumed of files: a file that was written is read back.\<close>

definition files_keep :: "'s world \<Rightarrow> bool" where
  "files_keep W \<longleftrightarrow> (\<forall>s p d s'. osWriteFile W s p d = (None, s') \<longrightarrow> osOpen W s' p = Inr d)"

lemma patchLocal_written:
  assumes "files_keep (sysWorld S)" and "patchLocalCConfig S A path (\<lambda>cfg. patchSet cfg p v) s = Some (None, s')"
    and "wf_val v" and "v \<noteq> VNil"
  shows "\<exists>cfg bytes. Get cfg p = Inr v \<and> ConfigString (yEncode (sysYaml S)) cfg = Some bytes \<and>
    osOpen (sysWorld S) s' path = Inr bytes"
proof -
  from assms(2) obtain publisher cfg s1 cfg' where
    p: "PublisherNewFile (appPublishers A) path = Inr publisher" "patchSet cfg p v = Inr cfg'"
      "PublishYamlConfig (yEncode (sysYaml S)) (sysWorld S) publisher (Some cfg') s1 = Some (None, s')"
    by (auto simp: patchLocalCConfig_def Let_def split: sum.splits prod.splits)
  have set: "Set cfg p v = (None, cfg')" using p(2) by (auto simp: patchSet_def split: prod.splits option.splits)
  have pub: "publisher = FileDataPublisher (NewFileDataPublisher path)"
    using p(1) by (cases "appPublishers A") (auto simp: publishersNewFile_def integrityPublishersNewFile_def)
  from p(3) obtain bytes where b: "ConfigString (yEncode (sysYaml S)) cfg' = Some bytes"
    "PublishFile (sysWorld S) (NewFileDataPublisher path) 0 (Some bytes) s1 = (None, s')"
    by (auto simp: PublishYamlConfig_def pub split: option.splits)
  then have "osWriteFile (sysWorld S) s1 path bytes = (None, s')"
    by (auto simp: PublishFile_def NewFileDataPublisher_def split: if_splits prod.splits option.splits)
  with assms(1) have "osOpen (sysWorld S) s' path = Inr bytes" by (auto simp: files_keep_def)
  with Set_Get_facts(1) [OF set assms(3,4)] b show ?thesis by blast
qed

text \<open>
  Property C22: demoting an instance of a replicaset with elections sets its election mode to voter,
  reloads, waits and sets it back. It returns without an error only if the file ends up with the
  mode candidate again; it reports that the configuration was published exactly if the first
  change was written, and with an error after that the mode is not set back.
\<close>

theorem demoteElection_outcome:
  assumes "files_keep (sysWorld S)" and "demoteElection S A ictx ci timeout s = Some (pub, err, s')"
  shows "let path = ClusterConfigPath ictx; p = ccInstancePath ci @ [''replication'', ''election_mode''] in
    (pub \<longleftrightarrow> (\<exists>s1. patchLocalCConfig S A path (\<lambda>cfg. patchSet cfg p (VStr ''voter'')) s = Some (None, s1) \<and>
       (\<exists>cfg bytes. Get cfg p = Inr (VStr ''voter'') \<and> ConfigString (yEncode (sysYaml S)) cfg = Some bytes \<and>
          osOpen (sysWorld S) s1 path = Inr bytes))) \<and>
    (err = None \<longrightarrow> pub \<and> (\<exists>cfg bytes. Get cfg p = Inr (VStr ''candidate'') \<and>
       ConfigString (yEncode (sysYaml S)) cfg = Some bytes \<and> osOpen (sysWorld S) s' path = Inr bytes))"
proof -
  let ?path = "ClusterConfigPath ictx" and ?p = "ccInstancePath ci @ [''replication'', ''election_mode'']"
  have d: "demoteElection S A ictx ci timeout s =
     (case patchLocalCConfig S A ?path (\<lambda>cfg. patchSet cfg ?p (VStr ''voter'')) s of
        None \<Rightarrow> None
      | Some (Some err, s1) \<Rightarrow> Some (False, Some err, s1)
      | Some (None, s1) \<Rightarrow>
          (case reloadCConfig A [ictx] s1 of
             (Some err, s2) \<Rightarrow> Some (True, Some err, s2)
           | (None, s2) \<Rightarrow>
               (case evalAnyOf A ictx (evalChunk A (WaitRO timeout)) s2 of
                  (Some err, s3) \<Rightarrow> Some (True, Some err, s3)
                | (None, s3) \<Rightarrow>
                    map_option (\<lambda>(err, s4). (True, err, s4))
                      (patchLocalCConfig S A ?path (\<lambda>cfg. patchSet cfg ?p (VStr ''candidate'')) s3))))"
    unfolding demoteElection_def patchCConfigElectionMode_def electionModeString.simps ..
  have w: "\<exists>cfg bytes. Get cfg ?p = Inr (VStr x) \<and> ConfigString (yEncode (sysYaml S)) cfg = Some bytes \<and>
      osOpen (sysWorld S) s2 ?path = Inr bytes"
    if "patchLocalCConfig S A ?path (\<lambda>cfg. patchSet cfg ?p (VStr x)) s1 = Some (None, s2)" for x s1 s2
    using patchLocal_written [OF assms(1) that] by simp
  show ?thesis unfolding Let_def
    using assms(2) w unfolding d
    by (auto split: option.splits prod.splits)
qed

text \<open>A system whose state is the content of its only file, and an application that always answers.\<close>

definition fileSys :: "(string, unit, gval) sys" where
  "fileSys =
     \<lparr>sysWorld = \<lparr>wEtcd = noEtcd, wTarantool = noTarantool, osOpen = (\<lambda>s p. Inr s),
        osWriteFile = (\<lambda>s p d. (None, d)), osLookupEnv = (\<lambda>s v. None)\<rparr>,
      sysTls = (\<lambda>a b c. Inl ''no''), sysDir = \<lparr>readDir = (\<lambda>d. Inl ''no''), readLink = (\<lambda>a b. None),
        readFile = (\<lambda>f. None)\<rparr>,
      sysNewClient = (\<lambda>c. Inl ''no''), sysConnect = (\<lambda>a b. Inl ''no''),
      sysUnyaml = (\<lambda>b. Inr (Some (Inr demoDoc))), sysYaml = docYaml demoDoc,
      sysDuration = (\<lambda>f. Inl ''no''), sysSeconds = (\<lambda>f. 0), sysHome = None\<rparr>"

definition demoApp :: "string app" where
  "demoApp =
     \<lparr>appInstances = [], appDial = (\<lambda>s uri. None), appEval = (\<lambda>i c s. (Inr [], s)), appDecode = (\<lambda>v. Inl ''no''),
      appCollectors = NewDataCollectorFactory, appPublishers = NewDataPublisherFactory\<rparr>"

theorem demoteElection_outcome_witness:
  "\<exists>cfg. Get cfg (instancePath ''g'' ''r'' ''i'' @ [''replication'', ''election_mode'']) = Inr (VStr ''candidate'') \<and>
     ConfigString (yEncode (sysYaml fileSys)) cfg = Some ''doc'' \<and> osOpen (sysWorld fileSys) ''doc'' ''f'' = Inr ''doc''"
proof -
  let ?ci = "\<lparr>ciFailover = FailoverElection, ciGroup = ''g'', ciReplicaset = ''r'', ciName = ''i''\<rparr>"
  let ?ctx = "noCtx\<lparr>ClusterConfigPath := ''f''\<rparr>"
  have k: "files_keep (sysWorld fileSys)" by (simp add: files_keep_def fileSys_def)
  have "demoteElection fileSys demoApp ?ctx ?ci 5 ''old'' = Some (True, None, ''doc'')" by code_simp
  from demoteElection_outcome [OF k this] show ?thesis by (auto simp: Let_def ccInstancePath_def noCtx_def fileSys_def)
qed

end
