(* ===== verification/Channel.thy ===== *)
theory Channel
  imports Collectors
begin

text \<open>
  Publishing and collecting together: what a data publisher wrote is what the data collector for
  the same place returns, as the contract \<open>channel\<close>, and what follows from it for
  configurations, which are encoded as YAML by \<^verbatim>\<open>yaml.go\<close> on the way out and decoded on the way
  back. The contract is met by files, by single keys of etcd and by signed prefixes of etcd and of
  a Tarantool storage, with the publishers and collectors that the factories make.
\<close>

section \<open>The contract\<close>

definition delivers :: "'s world \<Rightarrow> dataPublisher \<Rightarrow> 's dataCollector \<Rightarrow> string \<Rightarrow> bool" where
  "delivers W pub col dat = (\<forall>s. \<exists>d s1 s2. PublishData W pub 0 (Some dat) s = Some (None, s1) \<and>
     CollectData W col s1 = (Inr [d], s2) \<and> Value d = dat)"

text \<open>A configuration that was published is collected again, with the same value at every path.\<close>

definition configDelivered ::
  "(gval \<Rightarrow> string option) \<Rightarrow> unyaml \<Rightarrow> 's world \<Rightarrow> dataPublisher \<Rightarrow> 's dataCollector \<Rightarrow> config \<Rightarrow> bool"
where
  "configDelivered encode unyaml W pub col cfg = (\<forall>s. \<exists>s1 s2 cfg'.
     PublishYamlConfig encode W pub (Some cfg) s = Some (None, s1) \<and>
     CollectYamlDecorator unyaml W col s1 = (Inr cfg', s2) \<and>
     (\<forall>q. leaf (paths cfg') q = leaf (paths cfg) q))"

text \<open>
  What \<^verbatim>\<open>yaml.v3\<close> makes of the text of a value when it decodes it into an \<^verbatim>\<open>any\<close>: a
  mapping whose keys are all strings (the empty one too) becomes a \<^verbatim>\<open>map[string]any\<close>, any other
  mapping a \<^verbatim>\<open>map[any]any\<close>, at every level. \<open>yamlTree\<close> is the domain on which the other values
  come back unchanged: null, booleans, strings, integers that fit an \<^verbatim>\<open>int\<close>, \<^verbatim>\<open>uint64\<close> above
  those, sequences, and mappings with scalar keys. Floats are outside of it, since the text of a
  whole one is read back as an integer, and so are the narrower integer kinds, which come back as
  \<^verbatim>\<open>int\<close>. The order of an association list, which stands for a Go map, is kept.
\<close>

fun isStr :: "gval \<Rightarrow> bool" where
  "isStr (VStr s) = True"
| "isStr _ = False"

fun strOf :: "gval \<Rightarrow> string" where
  "strOf (VStr s) = s"
| "strOf _ = []"

fun decodedForm :: "gval \<Rightarrow> gval" where
  "decodedForm (VMap m) =
     (if list_all (\<lambda>(k, v). isStr k) m then VSMap (map (\<lambda>(k, v). (strOf k, decodedForm v)) m)
      else VMap (map (\<lambda>(k, v). (k, decodedForm v)) m))"
| "decodedForm (VList xs) = VList (map decodedForm xs)"
| "decodedForm v = v"

fun yamlScalar :: "gval \<Rightarrow> bool" where
  "yamlScalar VNil = True"
| "yamlScalar (VBool b) = True"
| "yamlScalar (VStr s) = True"
| "yamlScalar (VInt k i) = (k = KInt)"
| "yamlScalar (VUint k i) = (k = KUint64 \<and> unat i \<ge> 2 ^ 63)"
| "yamlScalar v = False"

fun yamlTree :: "gval \<Rightarrow> bool" where
  "yamlTree (VMap m) = (distinct (map fst m) \<and> (\<forall>(k, v) \<in> set m. yamlScalar k \<and> yamlTree v))"
| "yamlTree (VList xs) = (\<forall>x \<in> set xs. yamlTree x)"
| "yamlTree v = yamlScalar v"

text \<open>The decoder of YAML reads what the encoder wrote for this configuration.\<close>

definition yamlText :: "(gval \<Rightarrow> string option) \<Rightarrow> unyaml \<Rightarrow> config \<Rightarrow> string \<Rightarrow> bool" where
  "yamlText encode unyaml cfg txt = (yamlTree (paths cfg) \<and> paths cfg \<noteq> VNil \<and> encode (paths cfg) = Some txt \<and>
     unyaml txt = Inr (Some (Inr (decodedForm (paths cfg)))))"

text \<open>
  The cast in \<open>UnmarshalYAML\<close> undoes the change of the map types: decoding gives back the tree.
\<close>

lemma isStr_iff: "isStr k \<longleftrightarrow> (\<exists>s. k = VStr s)"
  by (cases k) auto

lemma yamlScalar_simple: "yamlScalar v \<Longrightarrow> decodedForm v = v \<and> deepCastStringMapToAnyMap v = v \<and> wf_val v"
  by (cases v) auto

lemma cast_decodedForm: "yamlTree v \<Longrightarrow> deepCastStringMapToAnyMap (decodedForm v) = v"
proof (induction v rule: yamlTree.induct)
  case (1 m)
  have ih: "(k, v) \<in> set m \<Longrightarrow> deepCastStringMapToAnyMap (decodedForm v) = v" for k v
    using 1 by auto
  show ?case
  proof (cases "list_all (\<lambda>(k, v). isStr k) m")
    case True
    then have "map (\<lambda>(k, v). (VStr (strOf k), deepCastStringMapToAnyMap (decodedForm v))) m = m"
      by (intro map_idI) (auto simp: list_all_iff isStr_iff ih)
    with True show ?thesis by (simp add: case_prod_unfold comp_def)
  next
    case False
    have "map (\<lambda>(k, v). (k, deepCastStringMapToAnyMap (decodedForm v))) m = m"
      by (intro map_idI) (auto simp: ih)
    with False show ?thesis by (simp add: case_prod_unfold comp_def)
  qed
qed (auto intro: map_idI dest: yamlScalar_simple)

lemma wf_yamlTree: "yamlTree v \<Longrightarrow> wf_val v"
  by (induction v rule: yamlTree.induct) auto

locale channel =
  fixes world_of :: "'w \<Rightarrow> 's world"
    and publisher :: "'w \<Rightarrow> dataPublisher"
    and collector :: "'w \<Rightarrow> 's dataCollector"
    and carries :: "'w \<Rightarrow> string \<Rightarrow> bool"
  assumes delivered: "carries w dat \<Longrightarrow> delivers (world_of w) (publisher w) (collector w) dat"
begin

lemma config_delivered:
  assumes "yamlText encode unyaml cfg txt" and "carries w txt"
  shows "configDelivered encode unyaml (world_of w) (publisher w) (collector w) cfg"
  unfolding configDelivered_def
proof
  fix s
  let ?v = "paths cfg"
  have y: "wf_val ?v" "ConfigString encode cfg = Some txt" "CollectYaml unyaml txt = Inr \<lparr>paths = ?v\<rparr>"
    using assms(1) by (simp_all add: yamlText_def ConfigString_def CollectYaml_def UnmarshalYAML_def NewConfig_def
        wf_yamlTree cast_decodedForm)
  obtain d s1 s2 where d: "PublishData (world_of w) (publisher w) 0 (Some txt) s = Some (None, s1)"
      "CollectData (world_of w) (collector w) s1 = (Inr [d], s2)" "Value d = txt"
    using delivered [OF assms(2)] unfolding delivers_def by blast
  have "leaf (paths (Merge NewConfig \<lparr>paths = ?v\<rparr>)) q = leaf ?v q" for q
    using leaf_Merge_new [OF _ silent_NewConfig, of "\<lparr>paths = ?v\<rparr>" q] y(1) by simp
  then show "\<exists>s1 s2 cfg'. PublishYamlConfig encode (world_of w) (publisher w) (Some cfg) s = Some (None, s1) \<and>
      CollectYamlDecorator unyaml (world_of w) (collector w) s1 = (Inr cfg', s2) \<and>
      (\<forall>q. leaf (paths cfg') q = leaf ?v q)"
    using d y by (simp add: PublishYamlConfig_def CollectYamlDecorator_def)
qed

end

section \<open>Files\<close>

definition files_kept :: "'s world \<Rightarrow> bool" where
  "files_kept W = (\<forall>s path dat. \<exists>s'. osWriteFile W s path dat = (None, s') \<and> osOpen W s' path = Inr dat)"

definition filePub :: "'s world \<times> string \<Rightarrow> dataPublisher" where
  "filePub w = (case PublisherNewFile NewDataPublisherFactory (snd w) of Inr p \<Rightarrow> p | Inl _ \<Rightarrow> FileDataPublisher (NewFileDataPublisher (snd w)))"

definition fileCol :: "'s world \<times> string \<Rightarrow> 's dataCollector" where
  "fileCol w = CollectorNewFile (fst w) NewDataCollectorFactory (snd w)"

interpretation fileChan: channel fst filePub fileCol "\<lambda>w _. files_kept (fst w) \<and> snd w \<noteq> []"
proof
  fix w :: "'s world \<times> string" and dat
  assume w: "files_kept (fst w) \<and> snd w \<noteq> []"
  show "delivers (fst w) (filePub w) (fileCol w) dat"
    unfolding delivers_def
  proof
    fix s
    obtain s' where "osWriteFile (fst w) s (snd w) dat = (None, s')" "osOpen (fst w) s' (snd w) = Inr dat"
      using w unfolding files_kept_def by blast
    with w show "\<exists>d s1 s2. PublishData (fst w) (filePub w) 0 (Some dat) s = Some (None, s1) \<and>
        CollectData (fst w) (fileCol w) s1 = (Inr [d], s2) \<and> Value d = dat"
      by (simp add: filePub_def fileCol_def NewDataPublisherFactory_def NewDataCollectorFactory_def publishersNewFile_def
          factoryNewFile_def NewFileDataPublisher_def NewFileCollector_def PublishFile_def CollectFile_def defaultFileReadFunc_def)
  qed
qed

section \<open>Signed prefixes\<close>

text \<open>A signer and a checker that belong together: the checker accepts what the signer made, in any order.\<close>

definition signs :: "sign_func \<Rightarrow> check_func \<Rightarrow> string \<Rightarrow> bool" where
  "signs signFunc check dat = (\<exists>hs sig. signFunc dat = Inr (hs, sig) \<and> distinct (map fst hs) \<and>
     (\<forall>(h, v) \<in> set hs. CHR ''/'' \<notin> set h) \<and>
     (\<forall>hs'. distinct (map fst hs') \<and> set hs' = set hs \<longrightarrow> check dat hs' sig = None))"

record 's place =
  plWorld :: "'s world"
  plSign :: sign_func
  plCheck :: check_func
  plRead :: "'s read_func"
  plPrefix :: string
  plKey :: string
  plTimeout :: int

definition signedEtcdPub :: "'s place \<Rightarrow> dataPublisher" where
  "signedEtcdPub w = PublisherNewEtcd (NewIntegrityDataPublisherFactory (plSign w)) (plPrefix w) [] (plTimeout w)"

definition signedEtcdCol :: "'s place \<Rightarrow> 's dataCollector" where
  "signedEtcdCol w = CollectorNewEtcd (NewIntegrityDataCollectorFactory (plCheck w) (plRead w)) (plPrefix w) [] (plTimeout w)"

definition signedEtcdOk :: "'s place \<Rightarrow> string \<Rightarrow> bool" where
  "signedEtcdOk w dat = (signs (plSign w) (plCheck w) dat \<and>
     (\<exists>view. txn_law (wEtcd (plWorld w)) view (=) \<and> etcd_up (wEtcd (plWorld w)) view))"

interpretation signedEtcd: channel plWorld signedEtcdPub signedEtcdCol signedEtcdOk
proof
  fix w :: "'s place" and dat
  assume "signedEtcdOk w dat"
  then obtain view hs sig where h: "txn_law (wEtcd (plWorld w)) view (=)" "etcd_up (wEtcd (plWorld w)) view"
      "plSign w dat = Inr (hs, sig)" "distinct (map fst hs)" "\<forall>(h, v) \<in> set hs. CHR ''/'' \<notin> set h"
      "\<forall>hs'. distinct (map fst hs') \<and> set hs' = set hs \<longrightarrow> plCheck w dat hs' sig = None"
    unfolding signedEtcdOk_def signs_def by blast
  show "delivers (plWorld w) (signedEtcdPub w) (signedEtcdCol w) dat"
    unfolding delivers_def
  proof
    fix s
    show "\<exists>d s1 s2. PublishData (plWorld w) (signedEtcdPub w) 0 (Some dat) s = Some (None, s1) \<and>
        CollectData (plWorld w) (signedEtcdCol w) s1 = (Inr [d], s2) \<and> Value d = dat"
      using publish_collect_etcd [where signFunc = "plSign w" and check = "plCheck w" and dat = dat and hs = hs and sig = sig and
          p = "plPrefix w" and t = "plTimeout w" and t' = "plTimeout w" and s = s, OF h]
      by (auto simp: signedEtcdPub_def signedEtcdCol_def NewIntegrityDataPublisherFactory_def integrityPublishersNewEtcd_def
          NewIntegrityDataCollectorFactory_def integrityFactoryNewEtcd_def)
  qed
qed

definition signedTarantoolPub :: "'s place \<Rightarrow> dataPublisher" where
  "signedTarantoolPub w = PublisherNewTarantool (NewIntegrityDataPublisherFactory (plSign w)) (plPrefix w) [] (plTimeout w)"

definition signedTarantoolCol :: "'s place \<Rightarrow> 's dataCollector" where
  "signedTarantoolCol w = CollectorNewTarantool (NewIntegrityDataCollectorFactory (plCheck w) (plRead w)) (plPrefix w) [] (plTimeout w)"

definition signedTarantoolOk :: "'s place \<Rightarrow> string \<Rightarrow> bool" where
  "signedTarantoolOk w dat = (signs (plSign w) (plCheck w) dat \<and> dat \<noteq> [] \<and>
     (\<exists>view. storage_writes (wTarantool (plWorld w)) view \<and> storage_reads (wTarantool (plWorld w)) view))"

interpretation signedTarantool: channel plWorld signedTarantoolPub signedTarantoolCol signedTarantoolOk
proof
  fix w :: "'s place" and dat
  assume "signedTarantoolOk w dat"
  then obtain view hs sig where h: "storage_writes (wTarantool (plWorld w)) view" "storage_reads (wTarantool (plWorld w)) view"
      "plSign w dat = Inr (hs, sig)" "dat \<noteq> []" "distinct (map fst hs)" "\<forall>(h, v) \<in> set hs. CHR ''/'' \<notin> set h"
      "\<forall>hs'. distinct (map fst hs') \<and> set hs' = set hs \<longrightarrow> plCheck w dat hs' sig = None"
    unfolding signedTarantoolOk_def signs_def by blast
  show "delivers (plWorld w) (signedTarantoolPub w) (signedTarantoolCol w) dat"
    unfolding delivers_def
  proof
    fix s
    show "\<exists>d s1 s2. PublishData (plWorld w) (signedTarantoolPub w) 0 (Some dat) s = Some (None, s1) \<and>
        CollectData (plWorld w) (signedTarantoolCol w) s1 = (Inr [d], s2) \<and> Value d = dat"
      using publish_collect_tarantool [where signFunc = "plSign w" and check = "plCheck w" and dat = dat and hs = hs and sign = sig and
          p = "plPrefix w" and t = "plTimeout w" and t' = "plTimeout w" and s = s, OF h]
      by (auto simp: signedTarantoolPub_def signedTarantoolCol_def NewIntegrityDataPublisherFactory_def
          integrityPublishersNewTarantool_def NewIntegrityDataCollectorFactory_def integrityFactoryNewTarantool_def)
  qed
qed

section \<open>Single keys of etcd\<close>

definition etcdKeyPub :: "'s place \<Rightarrow> dataPublisher" where
  "etcdKeyPub w = PublisherNewEtcd NewDataPublisherFactory (plPrefix w) (plKey w) (plTimeout w)"

definition etcdKeyCol :: "'s place \<Rightarrow> 's dataCollector" where
  "etcdKeyCol w = CollectorNewEtcd NewDataCollectorFactory (plPrefix w) (plKey w) (plTimeout w)"

definition etcdKeyOk :: "'s place \<Rightarrow> string \<Rightarrow> bool" where
  "etcdKeyOk w dat = (plKey w \<noteq> [] \<and> (\<exists>view. get_law (wEtcd (plWorld w)) view (=) \<and>
     txn_law (wEtcd (plWorld w)) view (=) \<and> etcd_up (wEtcd (plWorld w)) view))"

lemma etcd_put:
  assumes "txn_law E view (=)" and "etcd_up E view"
  shows "\<exists>r s1 rv. etxn E s t [] [EPut k dat] [] = (Inr (Some r), s1) \<and> succeeded r \<and> view s1 = (view s)(k \<mapsto> (dat, rv))"
proof -
  obtain r s1 where r: "etxn E s t [] [EPut k dat] [] = (Inr (Some r), s1)"
    using up_txn [OF assms(2), of "[EPut k dat]" "[]" s t "[]"] by auto
  from assms(1) [unfolded txn_law_def, rule_format, OF r] obtain rv where
    "succeeded r" "foldl (applyEOp rv) (view s) [EPut k dat] = view s1" by (auto simp: Let_def)
  with r show ?thesis by (intro exI [of _ r] exI [of _ s1] exI [of _ rv]) simp
qed

lemma etcd_get_key:
  assumes "get_law E view (=)" and "etcd_up E view" and "view s k = Some (dat, rv)"
  shows "\<exists>s'. eget E s t k False = (Inr [\<lparr>kvKey = k, kvValue = dat, kvModRevision = rv\<rparr>], s')"
proof -
  obtain kvs s' where g: "eget E s t k False = (Inr kvs, s')" using assms(2) unfolding etcd_up_def by blast
  have l: "lists (view s) k False kvs" using get_lawD [OF assms(1) g] by blast
  let ?d = "\<lparr>kvKey = k, kvValue = dat, kvModRevision = rv\<rparr>"
  have mem: "d \<in> set kvs \<longleftrightarrow> d = ?d" for d :: kv
    using l assms(3) unfolding lists_def keyMatches_def by (cases d) auto
  moreover have "distinct kvs" using l by (simp add: lists_def distinct_map)
  ultimately have "kvs = [?d]" using singleton_list [of kvs ?d] by blast
  with g show ?thesis by simp
qed

interpretation etcdKey: channel plWorld etcdKeyPub etcdKeyCol etcdKeyOk
proof
  fix w :: "'s place" and dat
  assume "etcdKeyOk w dat"
  then obtain view where h: "plKey w \<noteq> []" "get_law (wEtcd (plWorld w)) view (=)"
      "txn_law (wEtcd (plWorld w)) view (=)" "etcd_up (wEtcd (plWorld w)) view"
    unfolding etcdKeyOk_def by blast
  let ?k = "getConfigPrefix (plPrefix w) @ plKey w"
  show "delivers (plWorld w) (etcdKeyPub w) (etcdKeyCol w) dat"
    unfolding delivers_def
  proof
    fix s
    obtain r s1 rv where p: "etxn (wEtcd (plWorld w)) s (plTimeout w) [] [EPut ?k dat] [] = (Inr (Some r), s1)"
        "succeeded r" "view s1 ?k = Some (dat, rv)"
      using etcd_put [OF h(3,4), of s "plTimeout w" ?k dat] by auto
    from etcd_get_key [OF h(2,4) p(3), of "plTimeout w"] p(1,2) h(1)
    show "\<exists>d s1 s2. PublishData (plWorld w) (etcdKeyPub w) 0 (Some dat) s = Some (None, s1) \<and>
        CollectData (plWorld w) (etcdKeyCol w) s1 = (Inr [d], s2) \<and> Value d = dat"
      by (auto simp: etcdKeyPub_def etcdKeyCol_def NewDataPublisherFactory_def NewDataCollectorFactory_def publishersNewEtcd_def
          factoryNewEtcd_def NewEtcdKeyDataPublisher_def NewEtcdKeyCollector_def PublishEtcdKey_def etcdKeyOps_def
          CollectEtcdKey_def kvData_def)
  qed
qed

section \<open>Properties\<close>

text \<open>
  Property C5: a configuration that is published and collected again has the same value at every
  path, over a file, over one key of etcd, and over a signed prefix of etcd or of a Tarantool
  storage, if the storage behaves as documented and the decoder of YAML reads what the encoder
  wrote, which it returns with the string-keyed maps that decoding into an \<^verbatim>\<open>any\<close> makes. The
  configuration is one of null, booleans, integers, strings, sequences and maps, as documents
  without floats decode to.
\<close>

theorem publish_collect_config:
  assumes "yamlText encode unyaml cfg txt"
  shows "(files_kept W \<and> path \<noteq> [] \<longrightarrow> configDelivered encode unyaml W (filePub (W, path)) (fileCol (W, path)) cfg) \<and>
    (etcdKeyOk w txt \<longrightarrow> configDelivered encode unyaml (plWorld w) (etcdKeyPub w) (etcdKeyCol w) cfg) \<and>
    (signedEtcdOk w txt \<longrightarrow> configDelivered encode unyaml (plWorld w) (signedEtcdPub w) (signedEtcdCol w) cfg) \<and>
    (signedTarantoolOk w txt \<longrightarrow> configDelivered encode unyaml (plWorld w) (signedTarantoolPub w) (signedTarantoolCol w) cfg)"
  using fileChan.config_delivered [OF assms, of "(W, path)"] etcdKey.config_delivered [OF assms, of w]
    signedEtcd.config_delivered [OF assms, of w] signedTarantool.config_delivered [OF assms, of w]
  by auto

text \<open>A configuration, its text, and an etcd in memory.\<close>

definition demoPlace :: "mem place" where
  "demoPlace = \<lparr>plWorld = \<lparr>wEtcd = memEtcd,
       wTarantool = \<lparr>conn = (\<lambda>s r. (Inl ''down'', s)), decodeGet = (\<lambda>v. None), decodeTxn = (\<lambda>v. None)\<rparr>,
       osOpen = (\<lambda>s p. Inl ''no file''), osWriteFile = (\<lambda>s p d. (Some ''no disk'', s)), osLookupEnv = (\<lambda>s v. None)\<rparr>,
     plSign = (\<lambda>d. Inr ([(''h'', d)], ''sig'')),
     plCheck = (\<lambda>d hs sign. if hs = [(''h'', d)] \<and> sign = ''sig'' then None else Some ''bad''),
     plRead = (\<lambda>s p. Inl ''no file''), plPrefix = ''/p'', plKey = ''k'', plTimeout = 5\<rparr>"

text \<open>
  An encoder and a decoder of block mappings of plain strings, one \<^verbatim>\<open>key: value\<close> line per entry,
  nested mappings indented by two spaces as the encoder is told to.
\<close>

definition nl :: char where
  "nl = CHR 10"

fun blockLines :: "gval \<Rightarrow> string list" where
  "blockLines (VMap m) = concat (map (\<lambda>(k, v).
     (case v of VStr s \<Rightarrow> [strOf k @ '': '' @ s]
      | _ \<Rightarrow> (strOf k @ '':'') # map (\<lambda>l. ''  '' @ l) (blockLines v))) m)"
| "blockLines _ = []"

definition blockEncode :: "gval \<Rightarrow> string option" where
  "blockEncode v = Some (concat (map (\<lambda>l. l @ [nl]) (blockLines v)))"

fun linesOf :: "string \<Rightarrow> string \<Rightarrow> string list" where
  "linesOf acc [] = []"
| "linesOf acc (c # cs) = (if c = nl then acc # linesOf [] cs else linesOf (acc @ [c]) cs)"

definition nested :: "string \<Rightarrow> bool" where
  "nested l = (take 2 l = ''  '')"

function blockRead :: "string list \<Rightarrow> (string \<times> gval) list" where
  "blockRead [] = []"
| "blockRead (l # ls) =
     (case (takeWhile (\<lambda>c. c \<noteq> CHR '':'') l, dropWhile (\<lambda>c. c \<noteq> CHR '':'') l) of
        (k, c # d # s) \<Rightarrow> (k, VStr s) # blockRead ls
      | (k, _) \<Rightarrow> (k, VSMap (blockRead (map (drop 2) (takeWhile nested ls)))) # blockRead (dropWhile nested ls))"
  by pat_completeness auto
termination
  by (relation "measure length") (auto simp: less_Suc_eq_le length_dropWhile_le length_takeWhile_le)

definition blockDecode :: unyaml where
  "blockDecode txt = Inr (Some (Inr (VSMap (blockRead (linesOf [] txt)))))"

definition demoConfig :: config where
  "demoConfig = \<lparr>paths = VMap [(VStr ''a'', VStr ''first''), (VStr ''g'', VMap [(VStr ''r'', VStr ''x'')])]\<rparr>"

definition demoText :: string where
  "demoText = ''a: first'' @ [nl] @ ''g:'' @ [nl] @ ''  r: x'' @ [nl]"

lemma demoConfig_text: "yamlText blockEncode blockDecode demoConfig demoText"
proof -
  have "yamlTree (paths demoConfig)" "paths demoConfig \<noteq> VNil" by (simp_all add: demoConfig_def)
  moreover have "blockEncode (paths demoConfig) = Some demoText" by code_simp
  moreover have "blockDecode demoText = Inr (Some (Inr (decodedForm (paths demoConfig))))" by code_simp
  ultimately show ?thesis by (simp add: yamlText_def)
qed

theorem publish_collect_config_witness:
  "configDelivered blockEncode blockDecode (plWorld demoPlace) (etcdKeyPub demoPlace) (etcdKeyCol demoPlace) demoConfig \<and>
   configDelivered blockEncode blockDecode (plWorld demoPlace) (signedEtcdPub demoPlace) (signedEtcdCol demoPlace) demoConfig"
proof -
  have "wEtcd (plWorld demoPlace) = memEtcd" by (simp add: demoPlace_def)
  moreover have "signs (plSign demoPlace) (plCheck demoPlace) demoText"
    unfolding signs_def
    by (rule exI [of _ "[(''h'', demoText)]"], rule exI [of _ "''sig''"]) (auto simp: demoPlace_def set_eq_singleton_distinct)
  ultimately have "etcdKeyOk demoPlace demoText" "signedEtcdOk demoPlace demoText"
    unfolding etcdKeyOk_def signedEtcdOk_def using memEtcd_get_law memEtcd_txn_law memEtcd_up by (auto simp: demoPlace_def)
  with publish_collect_config [OF demoConfig_text, of "plWorld demoPlace" "[]" demoPlace] show ?thesis by blast
qed

end
