(* ===== verification/Watchdog.thy ===== *)
theory Watchdog
  imports Prelude
begin

text \<open>
  The watchdog that starts an instance, restarts it and forwards signals,
  \<^verbatim>\<open>cli/running/watchdog.go\<close>: the main loop of \<^verbatim>\<open>Start\<close>, the goroutine that handles signals
  and the one that checks integrity, as a step relation. One step is what a goroutine does
  between two points where others can interfere; the start of an instance happens under
  \<^verbatim>\<open>stopMutex\<close> together with the test of \<^verbatim>\<open>shouldStop\<close>, and so does setting it. What the
  provider, the hook before the start, the operating system and the integrity repository answer
  is left open: there is a step for every answer.
\<close>

section \<open>States\<close>

datatype osSignal = SIGINT | SIGTERM | SIGQUIT | SIGHUP | OtherSignal

text \<open>Where the main loop is.\<close>

datatype mainPc =
    Creating | PreStart | PreFailed | Checking | Waiting | Joining | Deciding | Updating | Sleeping | Recreating | Finished

text \<open>
  Where the goroutine of the signals is: not running, waiting for a signal, waiting for the mutex
  with a stop signal taken, or stopping the instance.
\<close>

datatype handler = NoHandler | Idle | Locking | Stopping

record wd =
  wPc :: mainPc
  shouldStop :: bool
  wHandler :: handler
  sigChan :: "osSignal list"
  ctxDone :: bool
  checksRunning :: bool
  alive :: bool
  starts :: nat
  stopTaken :: bool

definition NewWatchdog :: wd where
  "NewWatchdog = \<lparr>wPc = Creating, shouldStop = False, wHandler = NoHandler, sigChan = [], ctxDone = False,
     checksRunning = False, alive = False, starts = 0, stopTaken = False\<rparr>"

definition isStop :: "osSignal \<Rightarrow> bool" where
  "isStop sig = (sig \<in> {SIGINT, SIGTERM, SIGQUIT})"

text \<open>A new context, a new channel for signals and the goroutines.\<close>

definition startHandling :: "bool \<Rightarrow> wd \<Rightarrow> wd" where
  "startHandling period w = w\<lparr>wHandler := Idle, sigChan := [], ctxDone := False, checksRunning := period\<rparr>"

section \<open>Steps\<close>

text \<open>
  The steps of the main loop carry the label \<open>True\<close>, those of the goroutines and of the world
  \<open>False\<close>. The argument \<open>period\<close> tells whether integrity is checked periodically. A signal that
  finds the channel full is dropped.
\<close>

inductive wdStep :: "bool \<Rightarrow> wd \<Rightarrow> bool \<Rightarrow> wd \<Rightarrow> bool" for period where
  create: "wPc w = Creating \<Longrightarrow> wdStep period w True ((startHandling period w)\<lparr>wPc := PreStart\<rparr>)"
| createFails: "wPc w = Creating \<Longrightarrow> wdStep period w True (w\<lparr>wPc := Finished\<rparr>)"
| preStart: "wPc w = PreStart \<Longrightarrow> wdStep period w True (w\<lparr>wPc := Checking\<rparr>)"
| preStartFails: "wPc w = PreStart \<Longrightarrow> wdStep period w True (w\<lparr>wPc := PreFailed, ctxDone := True\<rparr>)"
| preFailedJoin: "wPc w = PreFailed \<Longrightarrow> wHandler w = NoHandler \<Longrightarrow> \<not> checksRunning w \<Longrightarrow>
    wdStep period w True (w\<lparr>wPc := Finished\<rparr>)"
| checkStop: "wPc w = Checking \<Longrightarrow> shouldStop w \<Longrightarrow> wdStep period w True (w\<lparr>wPc := Finished\<rparr>)"
| start: "wPc w = Checking \<Longrightarrow> \<not> shouldStop w \<Longrightarrow>
    wdStep period w True (w\<lparr>wPc := Waiting, alive := True, starts := Suc (starts w)\<rparr>)"
| startFails: "wPc w = Checking \<Longrightarrow> \<not> shouldStop w \<Longrightarrow> wdStep period w True (w\<lparr>wPc := Finished\<rparr>)"
| waited: "wPc w = Waiting \<Longrightarrow> \<not> alive w \<Longrightarrow> wdStep period w True (w\<lparr>wPc := Joining, ctxDone := True\<rparr>)"
| join: "wPc w = Joining \<Longrightarrow> wHandler w = NoHandler \<Longrightarrow> \<not> checksRunning w \<Longrightarrow> wdStep period w True (w\<lparr>wPc := Deciding\<rparr>)"
| notRestartable: "wPc w = Deciding \<Longrightarrow> wdStep period w True (w\<lparr>wPc := Finished\<rparr>)"
| restartable: "wPc w = Deciding \<Longrightarrow> \<not> shouldStop w \<Longrightarrow> wdStep period w True (w\<lparr>wPc := Updating\<rparr>)"
| updateFails: "wPc w = Updating \<Longrightarrow> wdStep period w True (w\<lparr>wPc := Finished\<rparr>)"
| update: "wPc w = Updating \<Longrightarrow> wdStep period w True (w\<lparr>wPc := Sleeping\<rparr>)"
| wakeUp: "wPc w = Sleeping \<Longrightarrow> wdStep period w True (w\<lparr>wPc := Recreating, shouldStop := False\<rparr>)"
| recreateFails: "wPc w = Recreating \<Longrightarrow> wdStep period w True (w\<lparr>wPc := Finished\<rparr>)"
| recreate: "wPc w = Recreating \<Longrightarrow> wdStep period w True ((startHandling period w)\<lparr>wPc := Checking\<rparr>)"
| arrive: "wPc w \<noteq> Creating \<Longrightarrow> sigChan w = [] \<Longrightarrow> wdStep period w False (w\<lparr>sigChan := [sig]\<rparr>)"
| dropped: "sigChan w \<noteq> [] \<Longrightarrow> wdStep period w False w"
| takeStop: "wHandler w = Idle \<Longrightarrow> sigChan w = sig # sigs \<Longrightarrow> isStop sig \<Longrightarrow>
    wdStep period w False (w\<lparr>sigChan := sigs, wHandler := Locking\<rparr>)"
| setStop: "wHandler w = Locking \<Longrightarrow>
    wdStep period w False (w\<lparr>shouldStop := True, stopTaken := True, wHandler := (if alive w then Stopping else Idle)\<rparr>)"
| takeOther: "wHandler w = Idle \<Longrightarrow> sigChan w = sig # sigs \<Longrightarrow> \<not> isStop sig \<Longrightarrow> wdStep period w False (w\<lparr>sigChan := sigs\<rparr>)"
| stopped: "wHandler w = Stopping \<Longrightarrow> \<not> alive w \<Longrightarrow> wdStep period w False (w\<lparr>wHandler := Idle\<rparr>)"
| stopFails: "wHandler w = Stopping \<Longrightarrow> wdStep period w False (w\<lparr>wHandler := Idle\<rparr>)"
| handlerExit: "wHandler w = Idle \<Longrightarrow> ctxDone w \<Longrightarrow> wdStep period w False (w\<lparr>wHandler := NoHandler\<rparr>)"
| checkOk: "checksRunning w \<Longrightarrow> wdStep period w False w"
| checkFails: "checksRunning w \<Longrightarrow> wdStep period w False (w\<lparr>checksRunning := False\<rparr>)"
| checksExit: "checksRunning w \<Longrightarrow> ctxDone w \<Longrightarrow> wdStep period w False (w\<lparr>checksRunning := False\<rparr>)"
| processExit: "alive w \<Longrightarrow> wdStep period w False (w\<lparr>alive := False\<rparr>)"

inductive_cases wdStepE: "wdStep period w l w'"

text \<open>Runs, with the number of steps of the main loop.\<close>

inductive wdRun :: "bool \<Rightarrow> wd \<Rightarrow> nat \<Rightarrow> wd \<Rightarrow> bool" for period where
  none: "wdRun period w 0 w"
| more: "wdRun period w n w' \<Longrightarrow> wdStep period w' l w'' \<Longrightarrow> wdRun period w (if l then Suc n else n) w''"

definition reached :: "bool \<Rightarrow> wd \<Rightarrow> bool" where
  "reached period w = (\<exists>n. wdRun period NewWatchdog n w)"

section \<open>Invariant\<close>

text \<open>
  Between the end of an instance and the next start no goroutine runs, and a stop that was taken
  is not forgotten: resetting \<open>shouldStop\<close> before a restart never loses one.
\<close>

definition wdInv :: "wd \<Rightarrow> bool" where
  "wdInv w = ((wPc w \<in> {Creating, Deciding, Updating, Sleeping, Recreating} \<longrightarrow> wHandler w = NoHandler \<and> \<not> checksRunning w) \<and>
     (wPc w \<in> {Creating, Updating, Sleeping, Recreating} \<longrightarrow> \<not> shouldStop w) \<and>
     (wPc w \<in> {PreFailed, Joining} \<longrightarrow> ctxDone w) \<and>
     (stopTaken w \<longleftrightarrow> shouldStop w))"

lemma wdInv_step:
  assumes "wdStep period w l w'" and "wdInv w"
  shows "wdInv w'"
  using assms by cases (simp_all add: wdInv_def startHandling_def)

lemma wdRun_inv: "wdRun period w n w' \<Longrightarrow> wdInv w \<Longrightarrow> wdInv w'"
  by (induction rule: wdRun.induct) (blast intro: wdInv_step)+

lemma wdRun_trans:
  assumes "wdRun period w' m w''" and "wdRun period w n w'"
  shows "wdRun period w (n + m) w''"
  using assms
proof (induction rule: wdRun.induct)
  case (none w)
  then show ?case by simp
next
  case (more w1 k w2 l w3)
  show ?case using wdRun.more [OF more.IH [OF more.prems] more.hyps(2)] by (cases l) simp_all
qed

lemma wdRun_step: "wdStep period w l w' \<Longrightarrow> wdRun period w (if l then 1 else 0) w'"
  using wdRun.more [OF wdRun.none, of period w l w'] by (cases l) simp_all

lemma reached_inv: "reached period w \<Longrightarrow> wdInv w"
proof -
  have "wdInv NewWatchdog" by (simp add: wdInv_def NewWatchdog_def)
  moreover assume "reached period w"
  ultimately show "wdInv w" unfolding reached_def using wdRun_inv by blast
qed

lemma reached_new: "reached period NewWatchdog"
  unfolding reached_def using wdRun.none by blast

lemma reached_step: "wdStep period w l w' \<Longrightarrow> reached period w \<Longrightarrow> reached period w'"
  unfolding reached_def using wdRun.more by blast

section \<open>Stopping\<close>

text \<open>How many steps the main loop can still make once it should stop.\<close>

definition stopRank :: "wd \<Rightarrow> nat" where
  "stopRank w = (case wPc w of Waiting \<Rightarrow> 3 | PreStart \<Rightarrow> 2 | Joining \<Rightarrow> 2 | Finished \<Rightarrow> 0 | _ \<Rightarrow> 1)"

lemma stopping_step:
  assumes "wdStep period w l w'" and "wdInv w" and "shouldStop w"
  shows "shouldStop w' \<and> starts w' = starts w \<and> stopRank w' + (if l then 1 else 0) \<le> stopRank w"
  using assms by cases (simp_all add: wdInv_def stopRank_def)

lemma stopping_run:
  assumes "wdRun period w n w'" and "wdInv w" and "shouldStop w"
  shows "shouldStop w' \<and> starts w' = starts w \<and> stopRank w' + n \<le> stopRank w"
  using assms
proof (induction rule: wdRun.induct)
  case (none w)
  then show ?case by simp
next
  case (more w n w' l w'')
  have "wdInv w'" using more.hyps(1) more.prems(1) by (rule wdRun_inv)
  then show ?case using stopping_step [OF more.hyps(2)] more.IH [OF more.prems] by (cases l) fastforce+
qed

text \<open>The goroutines can always leave once the context is done.\<close>

lemma handler_leaves:
  assumes "ctxDone w"
  shows "\<exists>w'. wdRun period w 0 w' \<and> wPc w' = wPc w \<and> wHandler w' = NoHandler \<and> ctxDone w' \<and> checksRunning w' = checksRunning w"
proof -
  have idle: "\<exists>v'. wdRun period v 0 v' \<and> wPc v' = wPc v \<and> wHandler v' = NoHandler \<and> ctxDone v' \<and> checksRunning v' = checksRunning v"
    if "ctxDone v" "wHandler v = Idle" for v
    using wdRun_step [OF wdStep.handlerExit [OF that(2,1), of period]] that
    by (intro exI [of _ "v\<lparr>wHandler := NoHandler\<rparr>"]) simp
  have stopping: "\<exists>v'. wdRun period v 0 v' \<and> wPc v' = wPc v \<and> wHandler v' = NoHandler \<and> ctxDone v' \<and> checksRunning v' = checksRunning v"
    if v: "ctxDone v" "wHandler v = Stopping" for v
    using idle [of "v\<lparr>wHandler := Idle\<rparr>"] v wdRun_trans [OF _ wdRun_step [OF wdStep.stopFails [OF v(2), of period]]] by fastforce
  show ?thesis
  proof (cases "wHandler w")
    case NoHandler
    then show ?thesis using assms wdRun.none by blast
  next
    case Idle
    then show ?thesis using idle assms by blast
  next
    case Locking
    let ?v = "w\<lparr>shouldStop := True, stopTaken := True, wHandler := (if alive w then Stopping else Idle)\<rparr>"
    have "wdRun period w 0 ?v" using wdRun_step [OF wdStep.setStop [OF Locking, of period]] by simp
    moreover have "\<exists>v'. wdRun period ?v 0 v' \<and> wPc v' = wPc ?v \<and> wHandler v' = NoHandler \<and> ctxDone v' \<and> checksRunning v' = checksRunning ?v"
      using idle [of ?v] stopping [of ?v] assms by (cases "alive w") simp_all
    ultimately show ?thesis using wdRun_trans by fastforce
  next
    case Stopping
    then show ?thesis using stopping assms by blast
  qed
qed

lemma goroutines_leave:
  assumes "ctxDone w"
  shows "\<exists>w'. wdRun period w 0 w' \<and> wPc w' = wPc w \<and> wHandler w' = NoHandler \<and> \<not> checksRunning w'"
proof -
  obtain v where v: "wdRun period w 0 v" "wPc v = wPc w" "wHandler v = NoHandler" "ctxDone v" using handler_leaves [OF assms] by blast
  show ?thesis
  proof (cases "checksRunning v")
    case True
    have "wdRun period w 0 (v\<lparr>checksRunning := False\<rparr>)"
      using wdRun_trans [OF wdRun_step [OF wdStep.checksExit [OF True v(4), of period]] v(1)] by simp
    then show ?thesis using v by (intro exI [of _ "v\<lparr>checksRunning := False\<rparr>"]) simp
  qed (use v in blast)
qed

definition canFinish :: "bool \<Rightarrow> wd \<Rightarrow> bool" where
  "canFinish period w = (\<exists>n w'. wdRun period w n w' \<and> wPc w' = Finished)"

lemma canFinish_run: "wdRun period w n w' \<Longrightarrow> canFinish period w' \<Longrightarrow> canFinish period w"
  unfolding canFinish_def using wdRun_trans by blast

lemmas canFinish_step = canFinish_run [OF wdRun_step]

lemma canFinish_done: "wPc w = Finished \<Longrightarrow> canFinish period w"
  unfolding canFinish_def using wdRun.none by blast

lemma canFinish_joined:
  assumes "wPc w = Deciding \<or> wPc w = Updating \<or> wPc w = Recreating \<or> wPc w = Creating \<or> wPc w = Finished"
  shows "canFinish period w"
proof -
  have "wPc w = Finished \<or> wdStep period w True (w\<lparr>wPc := Finished\<rparr>)" 
    using assms wdStep.notRestartable [of w] wdStep.updateFails [of w] wdStep.recreateFails [of w] wdStep.createFails [of w] by blast
  then show ?thesis using canFinish_step canFinish_done by fastforce
qed

lemma canFinish_waiting:
  assumes "wPc w \<in> {PreFailed, Joining}" and "ctxDone w"
  shows "canFinish period w"
proof -
  obtain v where v: "wdRun period w 0 v" "wPc v = wPc w" "wHandler v = NoHandler" "\<not> checksRunning v"
    using goroutines_leave [OF assms(2)] by blast
  have "wdStep period v True (v\<lparr>wPc := Finished\<rparr>) \<or> wdStep period v True (v\<lparr>wPc := Deciding\<rparr>)"
    using v assms(1) wdStep.preFailedJoin [of v] wdStep.join [of v] by simp blast
  moreover have "canFinish period (v\<lparr>wPc := Finished\<rparr>)" "canFinish period (v\<lparr>wPc := Deciding\<rparr>)"
    by (simp_all add: canFinish_joined)
  ultimately show ?thesis using canFinish_run [OF v(1)] canFinish_step by blast
qed

lemma wdInv_canFinish:
  assumes "wdInv w"
  shows "canFinish period w"
proof -
  have dead: "canFinish period v" if "wPc v = Waiting" "\<not> alive v" for v
    by (rule canFinish_step [OF wdStep.waited [OF that]]) (simp add: canFinish_waiting)
  have atCheck: "canFinish period v" if "wPc v = Checking" for v
    using canFinish_step [OF wdStep.checkStop [OF that, of period]] canFinish_step [OF wdStep.startFails [OF that, of period]]
    by (cases "shouldStop v") (simp_all add: canFinish_done)
  show ?thesis
  proof (cases "wPc w")
    case PreStart
    show ?thesis by (rule canFinish_step [OF wdStep.preStart [OF PreStart]]) (simp add: atCheck)
  next
    case Waiting
    then show ?thesis using dead [of w] canFinish_step [OF wdStep.processExit, of w period] dead [of "w\<lparr>alive := False\<rparr>"]
      by (cases "alive w") simp_all
  next
    case Sleeping
    show ?thesis by (rule canFinish_step [OF wdStep.wakeUp [OF Sleeping]]) (simp add: canFinish_joined)
  qed (use assms in \<open>simp_all add: canFinish_joined canFinish_waiting atCheck wdInv_def\<close>)
qed

section \<open>Properties\<close>

text \<open>
  Property C24: once a stop signal was taken no instance is ever started again, and the wish to
  stop is not forgotten.
\<close>

theorem watchdog_stop_final:
  assumes "reached period w" and "stopTaken w" and "wdRun period w n w'"
  shows "starts w' = starts w \<and> shouldStop w' \<and> stopTaken w'"
proof -
  have inv: "wdInv w" "wdInv w'" using reached_inv [OF assms(1)] wdRun_inv [OF assms(3)] by blast+
  then have "shouldStop w" using assms(2) by (simp add: wdInv_def)
  from stopping_run [OF assms(3) inv(1) this] inv(2) show ?thesis by (simp add: wdInv_def)
qed

text \<open>
  Property C25: after a stop signal was taken the main loop makes at most three more steps,
  whatever the goroutines do, and it is never stuck: the watchdog can always finish, before the
  stop as well as after it.
\<close>

theorem watchdog_stop_terminates:
  assumes "reached period w"
  shows "(stopTaken w \<longrightarrow> (\<forall>n w'. wdRun period w n w' \<longrightarrow> n \<le> 3)) \<and>
    (\<forall>n w'. wdRun period w n w' \<longrightarrow> (\<exists>m w''. wdRun period w' m w'' \<and> wPc w'' = Finished))"
proof (intro conjI impI allI)
  fix n w'
  assume stop: "stopTaken w" and run: "wdRun period w n w'"
  have inv: "wdInv w" using assms by (rule reached_inv)
  then have "shouldStop w" using stop by (simp add: wdInv_def)
  from stopping_run [OF run inv this] have "n \<le> stopRank w" by linarith
  also have "\<dots> \<le> 3" by (simp add: stopRank_def split: mainPc.split)
  finally show "n \<le> 3" .
next
  fix n w'
  assume run: "wdRun period w n w'"
  have "wdInv w'" using run reached_inv [OF assms] by (rule wdRun_inv)
  then show "\<exists>m w''. wdRun period w' m w'' \<and> wPc w'' = Finished" using wdInv_canFinish canFinish_def by blast
qed

section \<open>Examples\<close>

text \<open>A watchdog that takes \<^verbatim>\<open>SIGTERM\<close> while its instance runs.\<close>

definition demoCreated :: wd where
  "demoCreated = (startHandling True NewWatchdog)\<lparr>wPc := PreStart\<rparr>"

definition demoRunning :: wd where
  "demoRunning = demoCreated\<lparr>wPc := Waiting, alive := True, starts := 1\<rparr>"

definition demoStopping :: wd where
  "demoStopping = demoRunning\<lparr>shouldStop := True, stopTaken := True, wHandler := Stopping\<rparr>"

lemma demoCreated_reached: "reached True demoCreated"
  unfolding demoCreated_def by (rule reached_step [OF wdStep.create reached_new]) (simp add: NewWatchdog_def)

lemma demoRunning_reached: "reached True demoRunning"
proof -
  have "reached True (demoCreated\<lparr>wPc := Checking\<rparr>)"
    by (rule reached_step [OF wdStep.preStart demoCreated_reached]) (simp add: demoCreated_def)
  from reached_step [OF wdStep.start this] show ?thesis
    by (simp add: demoRunning_def demoCreated_def startHandling_def NewWatchdog_def)
qed

lemma demoStopping_reached: "reached True demoStopping"
proof -
  have "reached True (demoRunning\<lparr>sigChan := [SIGTERM]\<rparr>)"
    by (rule reached_step [OF wdStep.arrive demoRunning_reached])
      (simp_all add: demoRunning_def demoCreated_def startHandling_def)
  from reached_step [OF wdStep.takeStop this, of SIGTERM "[]"]
  have "reached True (demoRunning\<lparr>wHandler := Locking\<rparr>)"
    by (simp add: demoRunning_def demoCreated_def startHandling_def NewWatchdog_def isStop_def)
  from reached_step [OF wdStep.setStop this] show ?thesis
    by (simp add: demoStopping_def demoRunning_def)
qed

lemma demoStopping_run: "wdRun True demoStopping 0 (demoStopping\<lparr>alive := False\<rparr>)"
  using wdRun_step [OF wdStep.processExit, of demoStopping True] by (simp add: demoStopping_def demoRunning_def)

theorem watchdog_stop_final_witness:
  "starts (demoStopping\<lparr>alive := False\<rparr>) = 1 \<and> starts demoStopping = 1"
  using watchdog_stop_final [OF demoStopping_reached _ demoStopping_run] by (simp add: demoStopping_def demoRunning_def)

theorem watchdog_stop_terminates_witness:
  "\<exists>m w''. wdRun True (demoStopping\<lparr>alive := False\<rparr>) m w'' \<and> wPc w'' = Finished"
  using watchdog_stop_terminates [OF demoStopping_reached] demoStopping_run by blast

text \<open>
  A stop signal that arrives while the watchdog waits for the restart timeout goes to the channel
  of the previous round, which nobody reads any more: the instance is started again.
\<close>

definition demoSleeping :: wd where
  "demoSleeping = NewWatchdog\<lparr>wPc := Sleeping, ctxDone := True, starts := 1\<rparr>"

lemma demoSleeping_reached: "reached False demoSleeping"
proof -
  have "reached False ((startHandling False NewWatchdog)\<lparr>wPc := PreStart\<rparr>)"
    by (rule reached_step [OF wdStep.create reached_new]) (simp add: NewWatchdog_def)
  from reached_step [OF wdStep.preStart this] have "reached False ((startHandling False NewWatchdog)\<lparr>wPc := Checking\<rparr>)" by simp
  from reached_step [OF wdStep.start this]
  have "reached False ((startHandling False NewWatchdog)\<lparr>wPc := Waiting, alive := True, starts := 1\<rparr>)"
    by (simp add: startHandling_def NewWatchdog_def)
  from reached_step [OF wdStep.processExit this]
  have "reached False ((startHandling False NewWatchdog)\<lparr>wPc := Waiting, starts := 1\<rparr>)"
    by (simp add: startHandling_def NewWatchdog_def)
  from reached_step [OF wdStep.waited this]
  have "reached False ((startHandling False NewWatchdog)\<lparr>wPc := Joining, starts := 1, ctxDone := True\<rparr>)"
    by (simp add: startHandling_def NewWatchdog_def)
  from reached_step [OF wdStep.handlerExit this]
  have "reached False (NewWatchdog\<lparr>wPc := Joining, starts := 1, ctxDone := True\<rparr>)" by (simp add: startHandling_def NewWatchdog_def)
  from reached_step [OF wdStep.join this]
  have "reached False (NewWatchdog\<lparr>wPc := Deciding, starts := 1, ctxDone := True\<rparr>)" by (simp add: NewWatchdog_def)
  from reached_step [OF wdStep.restartable this]
  have "reached False (NewWatchdog\<lparr>wPc := Updating, starts := 1, ctxDone := True\<rparr>)" by (simp add: NewWatchdog_def)
  from reached_step [OF wdStep.update this] show ?thesis by (simp add: demoSleeping_def NewWatchdog_def)
qed

lemma stop_lost_while_sleeping:
  "wdStep False demoSleeping False (demoSleeping\<lparr>sigChan := [SIGTERM]\<rparr>) \<and>
   (\<exists>w'. wdRun False (demoSleeping\<lparr>sigChan := [SIGTERM]\<rparr>) 3 w' \<and> starts w' = 2 \<and> sigChan w' = [] \<and> \<not> shouldStop w')"
proof
  let ?w = "demoSleeping\<lparr>sigChan := [SIGTERM]\<rparr>"
  show "wdStep False demoSleeping False ?w" by (rule wdStep.arrive) (simp_all add: demoSleeping_def NewWatchdog_def)
  have 1: "wdStep False ?w True (?w\<lparr>wPc := Recreating, shouldStop := False\<rparr>)" by (rule wdStep.wakeUp) (simp add: demoSleeping_def)
  have 2: "wdStep False (?w\<lparr>wPc := Recreating, shouldStop := False\<rparr>) True
      ((startHandling False (?w\<lparr>wPc := Recreating, shouldStop := False\<rparr>))\<lparr>wPc := Checking\<rparr>)" (is "wdStep _ _ _ ?v")
    by (rule wdStep.recreate) simp
  have 3: "wdStep False ?v True (?v\<lparr>wPc := Waiting, alive := True, starts := Suc (starts ?v)\<rparr>)"
    by (rule wdStep.start) (simp_all add: startHandling_def)
  from wdRun.more [OF wdRun.more [OF wdRun_step [OF 1] 2] 3]
  show "\<exists>w'. wdRun False ?w 3 w' \<and> starts w' = 2 \<and> sigChan w' = [] \<and> \<not> shouldStop w'"
    by (intro exI) (auto simp: numeral_3_eq_3 startHandling_def demoSleeping_def NewWatchdog_def)
qed

end
