(* ===== verification/Regexp.thy ===== *)
theory Regexp
  imports Prelude
begin

text \<open>
  The part of Go's \<^verbatim>\<open>regexp\<close> that the sources use: literals, repetitions of a class of
  characters, sequences, alternatives, options and named groups, all greedy. Go prefers the match
  that a backtracking search finds first; \<open>runs\<close> lists the matches of a prefix in this order,
  each with its captures and the rest of the text. \<open>lang\<close> is the language an expression
  describes, without the order.
\<close>

type_synonym captures = "(string \<times> string) list"

datatype rx =
    Lit string
  | Plus "char \<Rightarrow> bool"
  | Seq rx rx
  | Alt rx rx
  | Opt rx
  | Cap string rx

fun runs :: "rx \<Rightarrow> string \<Rightarrow> (captures \<times> string) list" where
  "runs (Lit l) s = (case cutPrefix s l of None \<Rightarrow> [] | Some r \<Rightarrow> [([], r)])"
| "runs (Plus P) s = map (\<lambda>n. ([], drop n s)) (rev [1..<Suc (length (takeWhile P s))])"
| "runs (Seq a b) s = concat (map (\<lambda>(c, r). map (\<lambda>(d, t). (c @ d, t)) (runs b r)) (runs a s))"
| "runs (Alt a b) s = runs a s @ runs b s"
| "runs (Opt a) s = runs a s @ [([], s)]"
| "runs (Cap n a) s = map (\<lambda>(c, r). ((n, take (length s - length r) s) # c, r)) (runs a s)"

fun seqs :: "rx list \<Rightarrow> rx" where
  "seqs [] = Lit []"
| "seqs [e] = e"
| "seqs (e # f # es) = Seq e (seqs (f # es))"

text \<open>The match of a whole text, for an expression between \<^verbatim>\<open>^\<close> and \<^verbatim>\<open>$\<close>.\<close>

definition full :: "rx \<Rightarrow> string \<Rightarrow> captures option" where
  "full e s = map_option fst (find (\<lambda>(c, r). r = []) (runs e s))"

text \<open>The capture of a group, empty when the group is not part of the match.\<close>

definition named :: "captures \<Rightarrow> string \<Rightarrow> string" where
  "named c n = (case map_of c n of None \<Rightarrow> [] | Some v \<Rightarrow> v)"

section \<open>The language of an expression\<close>

fun lang :: "rx \<Rightarrow> captures \<Rightarrow> string \<Rightarrow> bool" where
  "lang (Lit l) c w \<longleftrightarrow> c = [] \<and> w = l"
| "lang (Plus P) c w \<longleftrightarrow> c = [] \<and> w \<noteq> [] \<and> (\<forall>x \<in> set w. P x)"
| "lang (Seq a b) c w \<longleftrightarrow> (\<exists>c1 c2 w1 w2. c = c1 @ c2 \<and> w = w1 @ w2 \<and> lang a c1 w1 \<and> lang b c2 w2)"
| "lang (Alt a b) c w \<longleftrightarrow> lang a c w \<or> lang b c w"
| "lang (Opt a) c w \<longleftrightarrow> lang a c w \<or> c = [] \<and> w = []"
| "lang (Cap n a) c w \<longleftrightarrow> (\<exists>d. c = (n, w) # d \<and> lang a d w)"

lemma takeWhile_prefix: "w @ r = s \<Longrightarrow> \<forall>x \<in> set w. P x \<Longrightarrow> length w \<le> length (takeWhile P s)"
  by (auto simp: takeWhile_append2)

lemma runs_Plus_iff: "(c, r) \<in> set (runs (Plus P) s) \<longleftrightarrow> (\<exists>w. s = w @ r \<and> lang (Plus P) c w)"
proof
  assume "(c, r) \<in> set (runs (Plus P) s)"
  then obtain n where n: "1 \<le> n" "n \<le> length (takeWhile P s)" "c = []" "r = drop n s" by auto
  have "set (take n s) \<subseteq> set (takeWhile P s)"
    using n(2) by (metis set_take_subset take_append takeWhile_dropWhile_id append_Nil2 diff_is_0_eq take0)
  then have "\<forall>x \<in> set (take n s). P x" by (auto dest: set_takeWhileD)
  moreover have "take n s \<noteq> []" using n(1,2) by (cases s) auto
  ultimately show "\<exists>w. s = w @ r \<and> lang (Plus P) c w" using n(3,4) by (intro exI [of _ "take n s"]) auto
next
  assume "\<exists>w. s = w @ r \<and> lang (Plus P) c w"
  then obtain w where "s = w @ r" "c = []" "w \<noteq> []" "\<forall>x \<in> set w. P x" by auto
  with takeWhile_prefix [of w r s P] show "(c, r) \<in> set (runs (Plus P) s)"
    by (auto simp: Suc_le_eq image_iff intro!: bexI [of _ "length w"])
qed

lemma runs_iff: "(c, r) \<in> set (runs e s) \<longleftrightarrow> (\<exists>w. s = w @ r \<and> lang e c w)"
proof (induction e arbitrary: c r s)
  case (Lit l)
  show ?case
  proof (cases "cutPrefix s l")
    case None
    then show ?thesis using cutPrefix_None [of s l] by simp
  next
    case (Some t)
    then show ?thesis by (auto simp: cutPrefix_Some)
  qed
next
  case (Plus P)
  show ?case by (rule runs_Plus_iff)
next
  case (Seq a b)
  have "(c, r) \<in> set (runs (Seq a b) s) \<longleftrightarrow>
      (\<exists>c1 t c2. (c1, t) \<in> set (runs a s) \<and> (c2, r) \<in> set (runs b t) \<and> c = c1 @ c2)" by force
  also have "\<dots> \<longleftrightarrow> (\<exists>c1 c2 w1 w2. s = w1 @ w2 @ r \<and> lang a c1 w1 \<and> lang b c2 w2 \<and> c = c1 @ c2)"
    unfolding Seq by blast
  also have "\<dots> \<longleftrightarrow> (\<exists>w. s = w @ r \<and> lang (Seq a b) c w)"
    by (simp only: lang.simps) (metis append_assoc)
  finally show ?case .
next
  case (Cap n a)
  have "(c, r) \<in> set (runs (Cap n a) s) \<longleftrightarrow>
      (\<exists>d. (d, r) \<in> set (runs a s) \<and> c = (n, take (length s - length r) s) # d)" by force
  then show ?case unfolding Cap by auto
qed auto

lemma full_lang: "full e s = Some c \<Longrightarrow> lang e c s"
  by (auto simp: full_def runs_iff dest!: find_SomeD)

lemma lang_full: "lang e c s \<Longrightarrow> \<exists>d. full e s = Some d"
proof -
  assume "lang e c s"
  then have "(c, []) \<in> set (runs e s)" by (simp add: runs_iff)
  then have "find (\<lambda>(c, r). r = []) (runs e s) \<noteq> None" unfolding find_None_iff by auto
  then show ?thesis by (auto simp: full_def)
qed

text \<open>The match of a sequence: a match of its first part, and the preferred match of the rest.\<close>

lemma find_append: "find P (xs @ ys) = (case find P xs of None \<Rightarrow> find P ys | Some x \<Rightarrow> Some x)"
  by (induction xs) auto

lemma find_concat_map:
  "find P (concat (map f xs)) = Some y \<Longrightarrow> \<exists>x \<in> set xs. find P (f x) = Some y"
  by (induction xs) (auto simp: find_append split: option.splits)

lemma full_Seq:
  assumes "full (Seq a b) s = Some c"
  shows "\<exists>c1 c2 w r. c = c1 @ c2 \<and> s = w @ r \<and> lang a c1 w \<and> full b r = Some c2"
proof -
  from assms obtain z where "find (\<lambda>(c, r). r = []) (runs (Seq a b) s) = Some (c, z)"
    by (auto simp: full_def)
  then obtain c1 r where x: "(c1, r) \<in> set (runs a s)"
    "find (\<lambda>(c, r). r = []) (map (\<lambda>(d, t). (c1 @ d, t)) (runs b r)) = Some (c, z)"
    by (auto dest!: find_concat_map)
  have "find (\<lambda>(c, r). r = []) (map (\<lambda>(d, t). (c1 @ d, t)) xs) =
      map_option (\<lambda>(d, t). (c1 @ d, t)) (find (\<lambda>(c, r). r = []) xs)" for xs :: "(captures \<times> string) list"
    by (induction xs) auto
  with x(2) obtain c2 where "full b r = Some c2" "c = c1 @ c2" by (auto simp: full_def)
  with x(1) show ?thesis by (auto simp: runs_iff)
qed

lemma full_seqs:
  "full (seqs (es @ [e])) s = Some c \<Longrightarrow>
   \<exists>ps r d. list_all2 (\<lambda>e p. lang e (fst p) (snd p)) es ps \<and> s = concat (map snd ps) @ r \<and>
     c = concat (map fst ps) @ d \<and> full e r = Some d"
proof (induction es arbitrary: s c)
  case (Cons f es)
  have "seqs ((f # es) @ [e]) = Seq f (seqs (es @ [e]))" by (cases es) auto
  with Cons.prems full_Seq obtain c1 c2 w r where
    f: "c = c1 @ c2" "s = w @ r" "lang f c1 w" "full (seqs (es @ [e])) r = Some c2" by metis
  from Cons.IH [OF f(4)] obtain ps t d where "list_all2 (\<lambda>e p. lang e (fst p) (snd p)) es ps"
    "r = concat (map snd ps) @ t" "c2 = concat (map fst ps) @ d" "full e t = Some d" by blast
  with f show ?case by (intro exI [of _ "(c1, w) # ps"] exI [of _ t] exI [of _ d]) simp
qed simp

lemma lang_seqs:
  "list_all2 (\<lambda>e p. lang e (fst p) (snd p)) es ps \<Longrightarrow>
   lang (seqs es) (concat (map fst ps)) (concat (map snd ps))"
  by (induction es arbitrary: ps rule: seqs.induct) (fastforce simp: list_all2_Cons1)+

end
