(* ===== verification/Version.thy ===== *)
theory Version
  imports Validation Regexp
begin

text \<open>
  Versions of programs, \<^verbatim>\<open>cli/version/version_tools.go\<close>: parsing a version with the regular
  expression of \<^verbatim>\<open>Parse\<close>, the versions of tt itself, and the order by which versions are
  sorted. Numbers are \<^verbatim>\<open>uint64\<close>.
\<close>

section \<open>Data\<close>

type_synonym u64 = "64 word"

datatype releaseType = TypeNightly | TypeAlpha | TypeBeta | TypeRC | TypeRelease

fun releaseTypeNum :: "releaseType \<Rightarrow> u64" where
  "releaseTypeNum TypeNightly = 0"
| "releaseTypeNum TypeAlpha = 1"
| "releaseTypeNum TypeBeta = 2"
| "releaseTypeNum TypeRC = 3"
| "releaseTypeNum TypeRelease = 4"

record release =
  relType :: releaseType
  relNum :: u64
  relStr :: string

record version =
  Major :: u64
  Minor :: u64
  Patch :: u64
  Additional :: u64
  VRevision :: u64
  Release :: release
  Hash :: string
  VStrRep :: string
  Tarball :: string
  BuildName :: string

datatype verr =
    BadFormat string
  | BadNumber string
  | UnknownRelease string
  | BadReleaseNum string
  | NotThreeNumbers string
  | ShortHash
  | BadHash string

definition zeroVersion :: version where
  "zeroVersion = \<lparr>Major = 0, Minor = 0, Patch = 0, Additional = 0, VRevision = 0,
     Release = \<lparr>relType = TypeNightly, relNum = 0, relStr = []\<rparr>, Hash = [], VStrRep = [],
     Tarball = [], BuildName = []\<rparr>"

section \<open>Parsing\<close>

definition AtoiUint64 :: "string \<Rightarrow> verr + u64" where
  "AtoiUint64 s =
     (case parseNat s of
        None \<Rightarrow> Inl (BadNumber s)
      | Some n \<Rightarrow> if int n < 2 ^ 64 then Inr (of_nat n) else Inl (BadNumber s))"

definition newRelease :: "string \<Rightarrow> string \<Rightarrow> verr + release" where
  "newRelease rel releaseNum =
     (if rel = [] then Inr \<lparr>relType = TypeRelease, relNum = 0, relStr = rel\<rparr>
      else
        bindr
          (if rel = ''rc'' then Inr TypeRC
           else if rel = ''alpha'' then Inr TypeAlpha
           else if rel = ''beta'' then Inr TypeBeta
           else if rel = ''entrypoint'' then Inr TypeNightly
           else Inl (UnknownRelease rel)) (\<lambda>t.
        if releaseNum = [] then Inr \<lparr>relType = t, relNum = 0, relStr = rel\<rparr>
        else
          (case AtoiUint64 releaseNum of
             Inl _ \<Rightarrow> Inl (BadReleaseNum releaseNum)
           | Inr n \<Rightarrow> Inr \<lparr>relType = t, relNum = n, relStr = rel @ releaseNum\<rparr>)))"

definition isDigit :: "char \<Rightarrow> bool" where
  "isDigit c = (digitVal c \<noteq> None)"

definition isHex :: "char \<Rightarrow> bool" where
  "isHex c = (isDigit c \<or> c \<in> set ''abcdef'')"

definition notNewline :: "char \<Rightarrow> bool" where
  "notNewline c = (c \<noteq> CHR 0x0A)"

definition suffixRx :: rx where
  "suffixRx = seqs [
     Opt (Seq (Lit ''-'') (Cap ''hash'' (Seq (Lit ''g'') (Plus isHex)))),
     Opt (Seq (Lit ''-r'') (Cap ''revision'' (Plus isDigit))),
     Opt (Alt (Lit ''-gc64'') (Lit ''-nogc64''))]"

definition versionRx :: rx where
  "versionRx = seqs [
     Opt (Seq (Cap ''buildname'' (Plus notNewline)) (Lit ''-'')),
     Opt (Lit ''v''), Cap ''major'' (Plus isDigit), Lit ''.'', Cap ''minor'' (Plus isDigit), Lit ''.'',
     Cap ''patch'' (Plus isDigit),
     Opt (Seq (Lit ''-'') (Seq (Cap ''release''
       (Alt (Lit ''entrypoint'') (Alt (Lit ''rc'') (Alt (Lit ''alpha'') (Lit ''beta'')))))
       (Opt (Cap ''releaseNum'' (Plus isDigit))))),
     Opt (Seq (Lit ''-'') (Cap ''additional'' (Plus isDigit))),
     suffixRx]"

definition AtoiOpt :: "string \<Rightarrow> verr + u64" where
  "AtoiOpt s = (if s \<noteq> [] then AtoiUint64 s else Inr 0)"

definition Parse :: "string \<Rightarrow> verr + version" where
  "Parse verStr =
     (case full versionRx verStr of
        None \<Rightarrow> Inl (BadFormat verStr)
      | Some matches \<Rightarrow>
          bindr (AtoiUint64 (named matches ''major'')) (\<lambda>major.
          bindr (AtoiUint64 (named matches ''minor'')) (\<lambda>minor.
          bindr (AtoiUint64 (named matches ''patch'')) (\<lambda>patch.
          bindr (newRelease (named matches ''release'') (named matches ''releaseNum'')) (\<lambda>rel.
          bindr (AtoiOpt (named matches ''additional'')) (\<lambda>additional.
          bindr (AtoiOpt (named matches ''revision'')) (\<lambda>rev.
          Inr \<lparr>Major = major, Minor = minor, Patch = patch, Additional = additional, VRevision = rev,
            Release = rel, Hash = named matches ''hash'', VStrRep = verStr, Tarball = [],
            BuildName = named matches ''buildname''\<rparr>)))))))"

text \<open>\<^verbatim>\<open>strings.LastIndex\<close> for one character, with the two parts around it.\<close>

definition splitLast :: "char \<Rightarrow> string \<Rightarrow> (string \<times> string) option" where
  "splitLast sep s =
     (case splitOnce sep (rev s) of None \<Rightarrow> None | Some (a, b) \<Rightarrow> Some (rev b, rev a))"

definition IsValidCommitHash :: "string \<Rightarrow> verr + bool" where
  "IsValidCommitHash hash =
     (if length hash < 7 then Inl ShortHash else Inr (full (Plus isHex) hash \<noteq> None))"

definition trimNewlines :: "string \<Rightarrow> string" where
  "trimNewlines s = trimRight (CHR 0x0A) (dropWhile (\<lambda>c. c = CHR 0x0A) s)"

definition ParseTt :: "string \<Rightarrow> verr + version" where
  "ParseTt verStr =
     (let verToParse = trimNewlines verStr
      in case splitLast (CHR ''.'') verToParse of
           None \<Rightarrow> Inl (BadFormat verStr)
         | Some (numbers, hashStr) \<Rightarrow>
             (case splitAll (CHR ''.'') numbers of
                [ma, mi, pa] \<Rightarrow>
                  bindr (AtoiUint64 ma) (\<lambda>major.
                  bindr (AtoiUint64 mi) (\<lambda>minor.
                  bindr (AtoiUint64 pa) (\<lambda>patch.
                  bindr (IsValidCommitHash hashStr) (\<lambda>valid.
                  if \<not> valid then Inl (BadHash hashStr)
                  else Inr (zeroVersion\<lparr>Major := major, Minor := minor, Patch := patch,
                    Hash := hashStr, VStrRep := verToParse\<rparr>)))))
              | _ \<Rightarrow> Inl (NotThreeNumbers numbers)))"

section \<open>The order of versions\<close>

definition versionNums :: "version \<Rightarrow> u64 list" where
  "versionNums v = [Major v, Minor v, Patch v, releaseTypeNum (relType (Release v)),
     relNum (Release v), Additional v, VRevision v]"

text \<open>The loop over the positions of the two lists; a missing position counts as zero.\<close>

fun numsLess :: "u64 list \<Rightarrow> u64 list \<Rightarrow> bool" where
  "numsLess [] [] = False"
| "numsLess [] (y # ys) = (if 0 \<noteq> y then 0 < y else numsLess [] ys)"
| "numsLess (x # xs) [] = (if x \<noteq> 0 then x < 0 else numsLess xs [])"
| "numsLess (x # xs) (y # ys) = (if x \<noteq> y then x < y else numsLess xs ys)"

definition IsLess :: "version \<Rightarrow> version \<Rightarrow> bool" where
  "IsLess verLeft verRight = numsLess (versionNums verLeft) (versionNums verRight)"

text \<open>On lists of one length the loop is the lexicographic order.\<close>

lemma numsLess_irrefl: "\<not> numsLess xs xs"
  by (induction xs) auto

lemma numsLess_trans:
  "length xs = length ys \<Longrightarrow> length ys = length zs \<Longrightarrow> numsLess xs ys \<Longrightarrow> numsLess ys zs \<Longrightarrow> numsLess xs zs"
  by (induction xs ys zs rule: list_induct3) (auto split: if_splits)

lemma numsLess_total:
  "length xs = length ys \<Longrightarrow> numsLess xs ys \<or> xs = ys \<or> numsLess ys xs"
  by (induction xs ys rule: list_induct2) auto

lemma versionNums_length [simp]: "length (versionNums v) = 7"
  by (simp add: versionNums_def)

interpretation version: strict_weak_order IsLess
proof unfold_locales
  fix x y z :: version
  show "\<not> IsLess x x" by (simp add: IsLess_def numsLess_irrefl)
  show "IsLess x y \<Longrightarrow> IsLess y z \<Longrightarrow> IsLess x z"
    unfolding IsLess_def by (rule numsLess_trans [of _ "versionNums y"]) simp_all
  show "\<not> IsLess x y \<Longrightarrow> \<not> IsLess y z \<Longrightarrow> \<not> IsLess x z"
    unfolding IsLess_def
    using numsLess_total [of "versionNums x" "versionNums y"] numsLess_total [of "versionNums y" "versionNums z"]
      numsLess_trans [of "versionNums z" "versionNums y" "versionNums x"]
      numsLess_trans [of "versionNums x" "versionNums z" "versionNums x"] numsLess_irrefl
    by (metis versionNums_length)
qed

section \<open>The grammar of versions\<close>

text \<open>
  The parts of a version as texts, empty when a part is missing, and the text they make up.
\<close>

record parts =
  pBuild :: string
  pV :: bool
  pMajor :: string
  pMinor :: string
  pPatch :: string
  pRel :: string
  pRelNum :: string
  pAdd :: string
  pHash :: string
  pRev :: string
  pGc :: string

definition digits :: "string \<Rightarrow> bool" where
  "digits s = list_all isDigit s"

definition isHash :: "string \<Rightarrow> bool" where
  "isHash h \<longleftrightarrow> (\<exists>x. h = CHR ''g'' # x \<and> x \<noteq> [] \<and> list_all isHex x)"

definition releases :: "string list" where
  "releases = [''entrypoint'', ''rc'', ''alpha'', ''beta'']"

definition wf_parts :: "parts \<Rightarrow> bool" where
  "wf_parts p \<longleftrightarrow>
     list_all notNewline (pBuild p) \<and>
     pMajor p \<noteq> [] \<and> digits (pMajor p) \<and> pMinor p \<noteq> [] \<and> digits (pMinor p) \<and>
     pPatch p \<noteq> [] \<and> digits (pPatch p) \<and>
     pRel p \<in> set ([] # releases) \<and> digits (pRelNum p) \<and> (pRel p = [] \<longrightarrow> pRelNum p = []) \<and>
     digits (pAdd p) \<and> (pHash p = [] \<or> isHash (pHash p)) \<and> digits (pRev p) \<and>
     pGc p \<in> set [[], ''gc64'', ''nogc64'']"

text \<open>
  A text without a hash and a revision that ends with \<^verbatim>\<open>-gc64\<close> has two readings; the regular
  expression prefers the one in which \<^verbatim>\<open>gc64\<close> is the hash.
\<close>

definition loneGc :: "parts \<Rightarrow> bool" where
  "loneGc p \<longleftrightarrow> pHash p = [] \<and> pRev p = [] \<and> pGc p = ''gc64''"

definition readParts :: "parts \<Rightarrow> bool" where
  "readParts p \<longleftrightarrow> wf_parts p \<and> \<not> loneGc p"

definition dash :: "string \<Rightarrow> string" where
  "dash x = (if x = [] then [] else CHR ''-'' # x)"

definition revText :: "string \<Rightarrow> string" where
  "revText n = (if n = [] then [] else CHR ''r'' # n)"

definition tailText :: "parts \<Rightarrow> string" where
  "tailText p = dash (pRel p @ pRelNum p) @ dash (pAdd p) @ dash (pHash p) @ dash (revText (pRev p)) @ dash (pGc p)"

definition buildText :: "string \<Rightarrow> string" where
  "buildText b = (if b = [] then [] else b @ ''-'')"

definition coreText :: "parts \<Rightarrow> string" where
  "coreText p = (if pV p then ''v'' else []) @ pMajor p @ ''.'' @ pMinor p @ ''.'' @ pPatch p @ tailText p"

definition partsText :: "parts \<Rightarrow> string" where
  "partsText p = buildText (pBuild p) @ coreText p"

definition optCap :: "string \<Rightarrow> string \<Rightarrow> captures" where
  "optCap n x = (if x = [] then [] else [(n, x)])"

definition caps :: "parts \<Rightarrow> captures" where
  "caps p = optCap ''buildname'' (pBuild p) @ [(''major'', pMajor p)] @ [(''minor'', pMinor p)] @ [(''patch'', pPatch p)] @
     optCap ''release'' (pRel p) @ optCap ''releaseNum'' (pRelNum p) @ optCap ''additional'' (pAdd p) @
     optCap ''hash'' (pHash p) @ optCap ''revision'' (pRev p)"

subsection \<open>The expressions of the parts\<close>

lemma lang_build:
  "lang (Opt (Seq (Cap ''buildname'' (Plus notNewline)) (Lit ''-''))) c w \<longleftrightarrow>
     (\<exists>b. list_all notNewline b \<and> c = optCap ''buildname'' b \<and> w = buildText b)"
  by (auto simp: optCap_def buildText_def list_all_iff split: if_splits)

lemma lang_v: "lang (Opt (Lit ''v'')) c w \<longleftrightarrow> (\<exists>v. c = [] \<and> w = (if v then ''v'' else []))"
  by auto

lemma lang_num: "lang (Cap n (Plus isDigit)) c w \<longleftrightarrow> w \<noteq> [] \<and> digits w \<and> c = [(n, w)]"
  by (auto simp: digits_def list_all_iff)

lemma lang_optnum: "lang (Opt (Cap n (Plus isDigit))) c w \<longleftrightarrow> digits w \<and> c = optCap n w"
  by (auto simp: digits_def list_all_iff optCap_def)

lemma lang_release:
  "lang (Cap ''release'' (Alt (Lit ''entrypoint'') (Alt (Lit ''rc'') (Alt (Lit ''alpha'') (Lit ''beta''))))) c w \<longleftrightarrow>
     w \<in> set releases \<and> c = [(''release'', w)]"
  by (auto simp: releases_def)

lemma releases_nonempty: "w \<in> set releases \<Longrightarrow> w \<noteq> []"
  by (auto simp: releases_def)

lemma lang_opt_lit:
  "lang (Opt (Seq (Lit l) e)) c w \<longleftrightarrow> (\<exists>x. lang e c x \<and> w = l @ x) \<or> c = [] \<and> w = []"
  by auto

lemmas lang_dash = lang_opt_lit [of "''-''", unfolded append.simps]

lemma lang_rel:
  "lang (Opt (Seq (Lit ''-'') (Seq (Cap ''release''
            (Alt (Lit ''entrypoint'') (Alt (Lit ''rc'') (Alt (Lit ''alpha'') (Lit ''beta'')))))
            (Opt (Cap ''releaseNum'' (Plus isDigit)))))) c w \<longleftrightarrow>
     (\<exists>r k. r \<in> set ([] # releases) \<and> digits k \<and> (r = [] \<longrightarrow> k = []) \<and>
        c = optCap ''release'' r @ optCap ''releaseNum'' k \<and> w = dash (r @ k))" (is "?L \<longleftrightarrow> ?R")
proof -
  have d: "digits []" by (simp add: digits_def)
  have "?L \<longleftrightarrow> (\<exists>r k. r \<in> set releases \<and> digits k \<and> c = [(''release'', r)] @ optCap ''releaseNum'' k \<and>
      w = CHR ''-'' # r @ k) \<or> c = [] \<and> w = []"
    unfolding lang_dash lang.simps(3) lang_release lang_optnum by blast
  also have "\<dots> \<longleftrightarrow> ?R" (is "?M \<longleftrightarrow> _")
  proof
    assume ?M
    then show ?R
    proof
      assume "c = [] \<and> w = []"
      with d show ?R by (intro exI [of _ "[]"]) (simp add: optCap_def dash_def)
    next
      assume "\<exists>r k. r \<in> set releases \<and> digits k \<and> c = [(''release'', r)] @ optCap ''releaseNum'' k \<and> w = CHR ''-'' # r @ k"
      then obtain r k where "r \<in> set releases" "digits k" "c = [(''release'', r)] @ optCap ''releaseNum'' k"
        "w = CHR ''-'' # r @ k" by blast
      then show ?R using releases_nonempty by (intro exI [of _ r] exI [of _ k]) (simp add: optCap_def dash_def)
    qed
  next
    assume ?R
    then obtain r k where rk: "r \<in> set ([] # releases)" "digits k" "r = [] \<longrightarrow> k = []"
      "c = optCap ''release'' r @ optCap ''releaseNum'' k" "w = dash (r @ k)" by blast
    show ?M
    proof (cases "r = []")
      case True
      with rk show ?thesis by (simp add: optCap_def dash_def)
    next
      case False
      with rk show ?thesis by (auto simp: optCap_def [of "''release''"] dash_def)
    qed
  qed
  finally show ?thesis .
qed

text \<open>An optional part that is not empty when it is there.\<close>

lemma opt_part:
  assumes "Q []"
  shows "(\<exists>x. (x \<noteq> [] \<and> Q x \<and> c = [(n, x)]) \<and> w = g x) \<or> c = [] \<and> w = [] \<longleftrightarrow>
    (\<exists>x. Q x \<and> c = optCap n x \<and> w = (if x = [] then [] else g x))" (is "?L \<longleftrightarrow> ?R")
proof
  assume ?L
  then show ?R
    using assms by (elim disjE exE conjE) (auto simp: optCap_def intro: exI [of _ "[]"])
next
  assume ?R
  then obtain x where "Q x" "c = optCap n x" "w = (if x = [] then [] else g x)" by blast
  then show ?L by (cases "x = []") (simp_all add: optCap_def)
qed

lemma digits_Nil [simp]: "digits []"
  by (simp add: digits_def)

lemma lang_add:
  "lang (Opt (Seq (Lit ''-'') (Cap ''additional'' (Plus isDigit)))) c w \<longleftrightarrow>
     (\<exists>a. digits a \<and> c = optCap ''additional'' a \<and> w = dash a)"
  unfolding lang_dash lang_num dash_def by (rule opt_part) simp

lemma lang_hash:
  "lang (Opt (Seq (Lit ''-'') (Cap ''hash'' (Seq (Lit ''g'') (Plus isHex))))) c w \<longleftrightarrow>
     (\<exists>h. (h = [] \<or> isHash h) \<and> c = optCap ''hash'' h \<and> w = dash h)"
proof -
  have "lang (Cap ''hash'' (Seq (Lit ''g'') (Plus isHex))) c x \<longleftrightarrow> x \<noteq> [] \<and> (x = [] \<or> isHash x) \<and> c = [(''hash'', x)]" for x
    by (auto simp: isHash_def list_all_iff)
  then show ?thesis unfolding lang_dash dash_def by (simp only:) (rule opt_part, simp)
qed

lemma lang_rev:
  "lang (Opt (Seq (Lit ''-r'') (Cap ''revision'' (Plus isDigit)))) c w \<longleftrightarrow>
     (\<exists>n. digits n \<and> c = optCap ''revision'' n \<and> w = dash (revText n))"
proof -
  have "dash (revText n) = (if n = [] then [] else ''-r'' @ n)" for n by (simp add: dash_def revText_def)
  then show ?thesis unfolding lang_opt_lit lang_num by (simp only:) (rule opt_part, simp)
qed

lemma lang_gc:
  "lang (Opt (Alt (Lit ''-gc64'') (Lit ''-nogc64''))) c w \<longleftrightarrow>
     (\<exists>g. g \<in> set [[], ''gc64'', ''nogc64''] \<and> c = [] \<and> w = dash g)"
  by (simp add: dash_def conj_disj_distribR ex_disj_distrib) blast

lemmas lang_parts = lang_build lang_v lang_num lang_rel lang_add lang_hash lang_rev lang_gc

subsection \<open>Every match is a reading\<close>

lemma full_suffix:
  assumes "full suffixRx t = Some c"
  shows "\<exists>h n g. (h = [] \<or> isHash h) \<and> digits n \<and> g \<in> set [[], ''gc64'', ''nogc64''] \<and>
    c = optCap ''hash'' h @ optCap ''revision'' n \<and> t = dash h @ dash (revText n) @ dash g \<and>
    \<not> (h = [] \<and> n = [] \<and> g = ''gc64'')"
proof -
  from full_lang [OF assms] obtain h n g where r: "h = [] \<or> isHash h" "digits n" "g \<in> set [[], ''gc64'', ''nogc64'']"
    "c = optCap ''hash'' h @ optCap ''revision'' n" "t = dash h @ dash (revText n) @ dash g"
    unfolding suffixRx_def seqs.simps lang.simps(3) lang_parts by (metis append_Nil2)
  have "full suffixRx ''-gc64'' = Some [(''hash'', ''gc64'')]" by code_simp
  with assms r have "\<not> (h = [] \<and> n = [] \<and> g = ''gc64'')" by (auto simp: optCap_def dash_def revText_def)
  with r show ?thesis by blast
qed

lemma full_reading:
  assumes "full versionRx s = Some c"
  shows "\<exists>p. readParts p \<and> s = partsText p \<and> c = caps p"
proof -
  have v: "versionRx = seqs ([
     Opt (Seq (Cap ''buildname'' (Plus notNewline)) (Lit ''-'')),
     Opt (Lit ''v''), Cap ''major'' (Plus isDigit), Lit ''.'', Cap ''minor'' (Plus isDigit), Lit ''.'',
     Cap ''patch'' (Plus isDigit),
     Opt (Seq (Lit ''-'') (Seq (Cap ''release''
       (Alt (Lit ''entrypoint'') (Alt (Lit ''rc'') (Alt (Lit ''alpha'') (Lit ''beta'')))))
       (Opt (Cap ''releaseNum'' (Plus isDigit))))),
     Opt (Seq (Lit ''-'') (Cap ''additional'' (Plus isDigit)))] @ [suffixRx])" by (simp add: versionRx_def)
  from full_seqs [OF assms [unfolded v]] obtain b v ma mi pa r k a s9 c9 where
    1: "list_all notNewline b" "ma \<noteq> []" "digits ma" "mi \<noteq> []" "digits mi" "pa \<noteq> []" "digits pa"
      "r \<in> set ([] # releases)" "digits k" "r = [] \<longrightarrow> k = []" "digits a"
      "s = (buildText b @ (if v then ''v'' else []) @ ma @ ''.'' @ mi @ ''.'' @ pa @ dash (r @ k) @ dash a) @ s9"
      "c = (optCap ''buildname'' b @ [(''major'', ma)] @ [(''minor'', mi)] @ [(''patch'', pa)] @
         (optCap ''release'' r @ optCap ''releaseNum'' k) @ optCap ''additional'' a) @ c9"
    and f9: "full suffixRx s9 = Some c9"
    unfolding list_all2_Cons1 list_all2_Nil lang_parts by (elim exE conjE) (simp add: lang.simps(1))
  from full_suffix [OF f9] obtain h n g where
    2: "h = [] \<or> isHash h" "digits n" "g \<in> set [[], ''gc64'', ''nogc64'']"
      "c9 = optCap ''hash'' h @ optCap ''revision'' n" "s9 = dash h @ dash (revText n) @ dash g"
      "\<not> (h = [] \<and> n = [] \<and> g = ''gc64'')" by blast
  let ?p = "\<lparr>pBuild = b, pV = v, pMajor = ma, pMinor = mi, pPatch = pa, pRel = r, pRelNum = k, pAdd = a,
    pHash = h, pRev = n, pGc = g\<rparr>"
  have "readParts ?p" unfolding readParts_def wf_parts_def loneGc_def using 1 2 by simp
  moreover have "s = partsText ?p" unfolding partsText_def coreText_def tailText_def using 1(12) 2(5) by simp
  moreover have "c = caps ?p" unfolding caps_def using 1(13) 2(4) by simp
  ultimately show ?thesis by blast
qed

lemma reading_matches:
  assumes "readParts p"
  shows "lang versionRx (caps p) (partsText p)"
proof -
  have suf: "lang suffixRx (optCap ''hash'' (pHash p) @ optCap ''revision'' (pRev p))
      (dash (pHash p) @ dash (revText (pRev p)) @ dash (pGc p))"
    unfolding suffixRx_def seqs.simps lang.simps(3) lang_parts
    using assms unfolding readParts_def wf_parts_def loneGc_def by (metis append_Nil2)
  let ?ps = "[(optCap ''buildname'' (pBuild p), buildText (pBuild p)), ([], if pV p then ''v'' else []),
    ([(''major'', pMajor p)], pMajor p), ([], ''.''), ([(''minor'', pMinor p)], pMinor p), ([], ''.''),
    ([(''patch'', pPatch p)], pPatch p),
    (optCap ''release'' (pRel p) @ optCap ''releaseNum'' (pRelNum p), dash (pRel p @ pRelNum p)),
    (optCap ''additional'' (pAdd p), dash (pAdd p)),
    (optCap ''hash'' (pHash p) @ optCap ''revision'' (pRev p),
     dash (pHash p) @ dash (revText (pRev p)) @ dash (pGc p))]"
  have "lang (seqs [
     Opt (Seq (Cap ''buildname'' (Plus notNewline)) (Lit ''-'')),
     Opt (Lit ''v''), Cap ''major'' (Plus isDigit), Lit ''.'', Cap ''minor'' (Plus isDigit), Lit ''.'',
     Cap ''patch'' (Plus isDigit),
     Opt (Seq (Lit ''-'') (Seq (Cap ''release''
       (Alt (Lit ''entrypoint'') (Alt (Lit ''rc'') (Alt (Lit ''alpha'') (Lit ''beta'')))))
       (Opt (Cap ''releaseNum'' (Plus isDigit))))),
     Opt (Seq (Lit ''-'') (Cap ''additional'' (Plus isDigit))), suffixRx])
     (concat (map fst ?ps)) (concat (map snd ?ps))"
    using assms unfolding readParts_def wf_parts_def loneGc_def
    by (intro lang_seqs) (simp only: list_all2_Cons list_all2_Nil fst_conv snd_conv lang_parts lang.simps(1) suf, blast)
  then show ?thesis by (simp add: versionRx_def caps_def partsText_def coreText_def tailText_def)
qed

subsection \<open>A text has one reading\<close>

text \<open>The parts behind dashes, and which of them a text can be.\<close>

definition isRel :: "string \<Rightarrow> bool" where
  "isRel x \<longleftrightarrow> (\<exists>r k. x = r @ k \<and> r \<in> set releases \<and> digits k)"

definition segs :: "parts \<Rightarrow> string list" where
  "segs p = filter (\<lambda>x. x \<noteq> []) [pRel p @ pRelNum p, pAdd p, pHash p, revText (pRev p), pGc p]"

definition peel :: "(string \<Rightarrow> bool) \<Rightarrow> string list \<Rightarrow> string \<times> string list" where
  "peel P xs = (case xs of x # ys \<Rightarrow> if P x then (x, ys) else ([], xs) | [] \<Rightarrow> ([], []))"

lemma peel_first:
  assumes "x = [] \<or> P x" and "\<forall>y \<in> set ys. y \<noteq> [] \<longrightarrow> \<not> P y"
  shows "peel P (filter (\<lambda>x. x \<noteq> []) (x # ys)) = (x, filter (\<lambda>x. x \<noteq> []) ys)"
proof (cases "x = []")
  case True
  have "\<not> P (hd zs)" if "filter (\<lambda>x. x \<noteq> []) ys = zs" "zs \<noteq> []" for zs
  proof -
    have "hd zs \<in> set (filter (\<lambda>x. x \<noteq> []) ys)" using that by simp
    with assms(2) show ?thesis by simp
  qed
  with True show ?thesis by (auto simp: peel_def split: list.splits)
qed (use assms in \<open>simp add: peel_def\<close>)

lemma digits_hd: "digits x \<Longrightarrow> x \<noteq> [] \<Longrightarrow> isDigit (hd x)"
  by (cases x) (auto simp: digits_def)

lemma isRel_hd: "isRel x \<Longrightarrow> hd x \<in> set ''erab'' \<and> (hd x = CHR ''r'' \<longrightarrow> x ! 1 = CHR ''c'')"
  by (auto simp: isRel_def releases_def)

lemma letters_no_digits: "\<not> isDigit (CHR ''g'')" "\<not> isDigit (CHR ''r'')" "\<not> isDigit (CHR ''n'')"
    "\<not> isDigit (CHR ''e'')" "\<not> isDigit (CHR ''a'')" "\<not> isDigit (CHR ''b'')" "\<not> isDigit (CHR ''c'')"
    "\<not> isDigit (CHR ''v'')" "\<not> isDigit (CHR ''.'')" "\<not> isDigit (CHR ''-'')"
  by (simp_all add: isDigit_def digitVal_def)

lemma readParts_segs:
  assumes "readParts p"
  shows "pRel p @ pRelNum p = [] \<or> isRel (pRel p @ pRelNum p)" "pHash p \<noteq> [] \<Longrightarrow> isHash (pHash p)"
    "pGc p \<noteq> [] \<Longrightarrow> hd (pGc p) \<in> set ''gn''" "digits (pAdd p)" "digits (pRev p)"
  using assms by (auto simp: readParts_def wf_parts_def loneGc_def isRel_def)

lemma isHash_hd: "isHash h \<Longrightarrow> hd h = CHR ''g''"
  by (auto simp: isHash_def)

lemma revText_hd: "revText n \<noteq> [] \<Longrightarrow> digits n \<Longrightarrow> hd (revText n) = CHR ''r'' \<and> isDigit (revText n ! 1)"
  using digits_hd [of n] by (cases n) (auto simp: revText_def)

lemma peel_rel: "readParts p \<Longrightarrow> peel isRel (segs p) =
    (pRel p @ pRelNum p, filter (\<lambda>x. x \<noteq> []) [pAdd p, pHash p, revText (pRev p), pGc p])"
proof -
  assume "readParts p"
  note w = readParts_segs [OF this]
  have "\<not> isRel x" if "x \<in> set [pAdd p, pHash p, revText (pRev p), pGc p]" "x \<noteq> []" for x
  proof
    assume "isRel x"
    from isRel_hd [OF this] that w(2-5) digits_hd [of "pAdd p"] isHash_hd [of "pHash p"] revText_hd [of "pRev p"]
    show False by (auto simp: letters_no_digits)
  qed
  with w(1) show ?thesis unfolding segs_def by (intro peel_first) auto
qed

lemma peel_add: "readParts p \<Longrightarrow> peel digits (filter (\<lambda>x. x \<noteq> []) [pAdd p, pHash p, revText (pRev p), pGc p]) =
    (pAdd p, filter (\<lambda>x. x \<noteq> []) [pHash p, revText (pRev p), pGc p])"
proof -
  assume "readParts p"
  note w = readParts_segs [OF this]
  have "\<not> digits x" if "x \<in> set [pHash p, revText (pRev p), pGc p]" "x \<noteq> []" for x
    using digits_hd [of x] that w(2-5) isHash_hd [of "pHash p"] revText_hd [of "pRev p"]
    by (auto simp: letters_no_digits)
  with w(4) show ?thesis by (intro peel_first) auto
qed

lemma peel_hash: "readParts p \<Longrightarrow> peel isHash (filter (\<lambda>x. x \<noteq> []) [pHash p, revText (pRev p), pGc p]) =
    (pHash p, filter (\<lambda>x. x \<noteq> []) [revText (pRev p), pGc p])"
proof -
  assume wf: "readParts p"
  note w = readParts_segs [OF this]
  have n: "\<not> isHash ''nogc64''" by (simp add: isHash_def)
  have "\<not> isHash (revText (pRev p))" if "revText (pRev p) \<noteq> []"
    using that isHash_hd [of "revText (pRev p)"] revText_hd [OF that w(5)] by auto
  moreover have "revText (pRev p) = [] \<Longrightarrow> pRev p = []" by (simp add: revText_def split: if_splits)
  ultimately show ?thesis using w(2) wf n
    by (cases "pHash p = []"; cases "revText (pRev p) = []") (auto simp: peel_def readParts_def wf_parts_def loneGc_def)
qed

lemma peel_rev: "readParts p \<Longrightarrow> peel (\<lambda>x. hd x = CHR ''r'') (filter (\<lambda>x. x \<noteq> []) [revText (pRev p), pGc p]) =
    (revText (pRev p), filter (\<lambda>x. x \<noteq> []) [pGc p])"
proof -
  assume "readParts p"
  note w = readParts_segs [OF this]
  show ?thesis using revText_hd [OF _ w(5)] w(3) by (intro peel_first) auto
qed

lemma release_split: "r \<in> set ([] # releases) \<Longrightarrow> digits k \<Longrightarrow> takeWhile (\<lambda>c. \<not> isDigit c) (r @ k) = r"
proof -
  assume r: "r \<in> set ([] # releases)" and k: "digits k"
  have "\<forall>c \<in> set r. \<not> isDigit c"
    using r by (auto simp: releases_def isDigit_def digitVal_def)
  moreover have "takeWhile (\<lambda>c. \<not> isDigit c) k = []" using k by (cases k) (auto simp: digits_def)
  ultimately show ?thesis by (simp add: takeWhile_append2)
qed

lemma filter_one: "filter (\<lambda>x. x \<noteq> []) [x] = filter (\<lambda>x. x \<noteq> []) [y] \<Longrightarrow> x = y"
  by (auto split: if_splits)

lemma segs_unique:
  assumes "readParts p" and "readParts q" and "segs p = segs q"
  shows "pRel p = pRel q \<and> pRelNum p = pRelNum q \<and> pAdd p = pAdd q \<and> pHash p = pHash q \<and> pRev p = pRev q \<and> pGc p = pGc q"
proof -
  have 1: "pRel p @ pRelNum p = pRel q @ pRelNum q"
      "filter (\<lambda>x. x \<noteq> []) [pAdd p, pHash p, revText (pRev p), pGc p] =
       filter (\<lambda>x. x \<noteq> []) [pAdd q, pHash q, revText (pRev q), pGc q]"
    using peel_rel [OF assms(1)] peel_rel [OF assms(2)] assms(3) by (metis prod.inject)+
  have 2: "pAdd p = pAdd q" "filter (\<lambda>x. x \<noteq> []) [pHash p, revText (pRev p), pGc p] =
       filter (\<lambda>x. x \<noteq> []) [pHash q, revText (pRev q), pGc q]"
    using peel_add [OF assms(1)] peel_add [OF assms(2)] 1(2) by (metis prod.inject)+
  have 3: "pHash p = pHash q" "filter (\<lambda>x. x \<noteq> []) [revText (pRev p), pGc p] = filter (\<lambda>x. x \<noteq> []) [revText (pRev q), pGc q]"
    using peel_hash [OF assms(1)] peel_hash [OF assms(2)] 2(2) by (metis prod.inject)+
  have 4: "revText (pRev p) = revText (pRev q)" "filter (\<lambda>x. x \<noteq> []) [pGc p] = filter (\<lambda>x. x \<noteq> []) [pGc q]"
    using peel_rev [OF assms(1)] peel_rev [OF assms(2)] 3(2) by (metis prod.inject)+
  have "pRel p = pRel q"
    using release_split [of "pRel p" "pRelNum p"] release_split [of "pRel q" "pRelNum q"] assms(1,2) 1(1)
    by (simp add: readParts_def wf_parts_def loneGc_def)
  moreover have "pRev p = pRev q" using 4(1) by (auto simp: revText_def split: if_splits)
  ultimately show ?thesis using 1(1) 2(1) 3(1) filter_one [OF 4(2)] by simp
qed

lemma splitAll_append: "sep \<notin> set x \<Longrightarrow> splitAll sep t = [] # ps \<Longrightarrow> splitAll sep (x @ t) = x # ps"
  by (induction x) auto

lemma splitAll_dashes:
  "\<forall>x \<in> set xs. sep \<notin> set x \<Longrightarrow> splitAll sep (concat (map ((#) sep) xs)) = [] # xs"
  by (induction xs) (auto simp: splitAll_append)

lemma tailText_segs: "tailText p = concat (map ((#) (CHR ''-'')) (segs p))"
  by (simp add: tailText_def segs_def dash_def)

lemma digits_no: "digits x \<Longrightarrow> \<not> isDigit c \<Longrightarrow> c \<notin> set x"
  by (auto simp: digits_def list_all_iff)

lemma segs_plain:
  assumes "readParts p" and "x \<in> set (segs p)"
  shows "CHR ''-'' \<notin> set x" "CHR ''.'' \<notin> set x"
proof -
  have d: "c \<notin> set (pRelNum p)" "c \<notin> set (pAdd p)" "c \<notin> set (pRev p)" if "\<not> isDigit c" for c
    using assms(1) digits_no that by (auto simp: readParts_def wf_parts_def loneGc_def)
  have h: "c \<notin> set (pHash p)" if "c \<noteq> CHR ''g''" "\<not> isHex c" for c
    using assms(1) that by (auto simp: readParts_def wf_parts_def loneGc_def isHash_def list_all_iff)
  have r: "CHR ''-'' \<notin> set (pRel p)" "CHR ''.'' \<notin> set (pRel p)" "CHR ''-'' \<notin> set (pGc p)" "CHR ''.'' \<notin> set (pGc p)"
    using assms(1) by (auto simp: readParts_def wf_parts_def loneGc_def releases_def)
  show "CHR ''-'' \<notin> set x" "CHR ''.'' \<notin> set x"
    using assms(2) d [of "CHR ''-''"] d [of "CHR ''.''"] h [of "CHR ''-''"] h [of "CHR ''.''"] r
    by (auto simp: segs_def revText_def isHex_def letters_no_digits split: if_splits)
qed

lemma tail_unique:
  assumes "readParts p" and "readParts q" and "tailText p = tailText q"
  shows "segs p = segs q"
proof -
  have "splitAll (CHR ''-'') (tailText r) = [] # segs r" if "readParts r" for r
    unfolding tailText_segs using segs_plain [OF that] by (intro splitAll_dashes) auto
  with assms show ?thesis by (metis list.inject)
qed

lemma tail_no_dot: "readParts p \<Longrightarrow> CHR ''.'' \<notin> set (tailText p)"
  using segs_plain(2) by (auto simp: tailText_segs)

lemma patch_split: "readParts p \<Longrightarrow> takeWhile isDigit (pPatch p @ tailText p) = pPatch p"
proof -
  assume wf: "readParts p"
  have "takeWhile isDigit (tailText p) = []"
    by (cases "segs p") (simp_all add: tailText_segs letters_no_digits)
  with wf show ?thesis by (simp add: readParts_def wf_parts_def loneGc_def digits_def list_all_iff takeWhile_append2)
qed

lemma core_unique:
  assumes "readParts p" and "readParts q" and "coreText p = coreText q"
  shows "pV p = pV q \<and> pMajor p = pMajor q \<and> pMinor p = pMinor q \<and> pPatch p = pPatch q \<and> tailText p = tailText q"
proof -
  have hd: "hd (coreText r) = CHR ''v'' \<longleftrightarrow> pV r" if "readParts r" for r
    using that digits_hd [of "pMajor r"] by (auto simp: coreText_def readParts_def wf_parts_def loneGc_def letters_no_digits)
  have "pV p = pV q" using hd assms by metis
  then have "pMajor p @ CHR ''.'' # pMinor p @ CHR ''.'' # pPatch p @ tailText p =
      pMajor q @ CHR ''.'' # pMinor q @ CHR ''.'' # pPatch q @ tailText q"
    using assms(3) by (simp add: coreText_def)
  moreover have no: "CHR ''.'' \<notin> set (pMajor r)" "CHR ''.'' \<notin> set (pMinor r)" if "readParts r" for r
    using that digits_no letters_no_digits by (auto simp: readParts_def wf_parts_def loneGc_def)
  ultimately have ma: "pMajor p = pMajor q"
      "pMinor p @ CHR ''.'' # pPatch p @ tailText p = pMinor q @ CHR ''.'' # pPatch q @ tailText q"
    using assms(1,2) splitOnce_append by (metis option.inject prod.inject)+
  then have mi: "pMinor p = pMinor q" "pPatch p @ tailText p = pPatch q @ tailText q"
    using no assms(1,2) splitOnce_append by (metis option.inject prod.inject)+
  then have "pPatch p = pPatch q" using patch_split assms(1,2) by metis
  with \<open>pV p = pV q\<close> ma mi show ?thesis by simp
qed

lemma append_sep_suffix: "xs @ t = zs @ c # r \<Longrightarrow> c \<notin> set xs \<Longrightarrow> set r \<subseteq> set t"
proof (induction xs arbitrary: zs)
  case Nil
  then show ?case by auto
next
  case (Cons x xs)
  then show ?case by (cases zs) auto
qed

text \<open>A build name cannot be read as a part of the version, nor the other way round.\<close>

lemma build_prefix:
  assumes "readParts p" and "readParts q" and "buildText b @ coreText p = buildText d @ coreText q"
  shows "length (buildText d) \<le> length (buildText b)"
proof (rule ccontr)
  assume l: "\<not> ?thesis"
  from assms(3) obtain us where "buildText b = buildText d @ us \<and> us @ coreText p = coreText q \<or>
      buildText b @ us = buildText d \<and> coreText p = us @ coreText q"
    unfolding append_eq_append_conv2 by blast
  with l have us: "buildText d = buildText b @ us" "coreText p = us @ coreText q" "us \<noteq> []" by auto
  have "buildText d \<noteq> []" using us by simp
  then have "last (buildText d) = CHR ''-''" by (simp add: buildText_def split: if_splits)
  with us have "last us = CHR ''-''" by simp
  with us(3) obtain zs where zs: "us = zs @ ''-''" by (metis append_butlast_last_id)
  let ?n = "(if pV p then ''v'' else []) @ pMajor p @ ''.'' @ pMinor p @ ''.'' @ pPatch p"
  have "CHR ''-'' \<notin> set ?n"
    using assms(1) digits_no letters_no_digits by (auto simp: readParts_def wf_parts_def loneGc_def)
  moreover have "?n @ tailText p = zs @ CHR ''-'' # coreText q" using us(2) zs by (simp add: coreText_def)
  ultimately have "set (coreText q) \<subseteq> set (tailText p)" by (metis append_sep_suffix)
  moreover have "CHR ''.'' \<in> set (coreText q)" by (simp add: coreText_def)
  ultimately show False using tail_no_dot [OF assms(1)] by blast
qed

lemma partsText_unique:
  assumes "readParts p" and "readParts q" and "partsText p = partsText q"
  shows "p = q"
proof -
  have e: "buildText (pBuild p) @ coreText p = buildText (pBuild q) @ coreText q"
    using assms(3) by (simp add: partsText_def)
  with build_prefix [OF assms(1,2) e] build_prefix [OF assms(2,1) e [symmetric]]
  have b: "buildText (pBuild p) = buildText (pBuild q)" "coreText p = coreText q" by simp_all
  have "pBuild p = pBuild q" using b(1) by (auto simp: buildText_def split: if_splits)
  with core_unique [OF assms(1,2) b(2)] segs_unique [OF assms(1,2)] tail_unique [OF assms(1,2)]
  show ?thesis by (cases p; cases q) simp
qed

lemma full_versionRx: "full versionRx s = Some c \<longleftrightarrow> (\<exists>p. readParts p \<and> s = partsText p \<and> c = caps p)"
proof
  assume "\<exists>p. readParts p \<and> s = partsText p \<and> c = caps p"
  then obtain p where p: "readParts p" "s = partsText p" "c = caps p" by blast
  with lang_full reading_matches obtain d where d: "full versionRx s = Some d" by metis
  with full_reading p partsText_unique have "d = c" by metis
  with d show "full versionRx s = Some c" by simp
qed (rule full_reading)

subsection \<open>The value of a version\<close>

definition numVal :: "string \<Rightarrow> nat" where
  "numVal s = (case parseNat s of None \<Rightarrow> 0 | Some n \<Rightarrow> n)"

definition typeOf :: "string \<Rightarrow> releaseType" where
  "typeOf r = (if r = ''rc'' then TypeRC else if r = ''alpha'' then TypeAlpha else if r = ''beta'' then TypeBeta
     else if r = ''entrypoint'' then TypeNightly else TypeRelease)"

definition fits :: "parts \<Rightarrow> bool" where
  "fits p = list_all (\<lambda>x. int (numVal x) < 2 ^ 64) [pMajor p, pMinor p, pPatch p, pRelNum p, pAdd p, pRev p]"

definition versionOf :: "parts \<Rightarrow> version" where
  "versionOf p = \<lparr>Major = of_nat (numVal (pMajor p)), Minor = of_nat (numVal (pMinor p)),
     Patch = of_nat (numVal (pPatch p)), Additional = of_nat (numVal (pAdd p)), VRevision = of_nat (numVal (pRev p)),
     Release = \<lparr>relType = typeOf (pRel p), relNum = of_nat (numVal (pRelNum p)), relStr = pRel p @ pRelNum p\<rparr>,
     Hash = pHash p, VStrRep = partsText p, Tarball = [], BuildName = pBuild p\<rparr>"

lemma parseDigits_digits: "digits s \<Longrightarrow> \<exists>n. parseDigits acc s = Some n"
  by (induction acc s rule: parseDigits.induct) (auto simp: digits_def isDigit_def)

lemma Atoi_digits: "digits s \<Longrightarrow> s \<noteq> [] \<Longrightarrow>
    AtoiUint64 s = (if int (numVal s) < 2 ^ 64 then Inr (of_nat (numVal s)) else Inl (BadNumber s))"
  using parseDigits_digits [of s 0] by (auto simp: AtoiUint64_def numVal_def parseNat_def)

lemma numVal_Nil [simp]: "numVal [] = 0"
  by (simp add: numVal_def parseNat_def)

lemma AtoiOpt_digits: "digits s \<Longrightarrow>
    AtoiOpt s = (if int (numVal s) < 2 ^ 64 then Inr (of_nat (numVal s)) else Inl (BadNumber s))"
  by (simp add: AtoiOpt_def Atoi_digits)

lemma newRelease_parts:
  assumes "r \<in> set ([] # releases)" and "digits k" and "r = [] \<longrightarrow> k = []"
  shows "newRelease r k = (if int (numVal k) < 2 ^ 64 then
      Inr \<lparr>relType = typeOf r, relNum = of_nat (numVal k), relStr = r @ k\<rparr> else Inl (BadReleaseNum k))"
  using assms by (auto simp: newRelease_def typeOf_def releases_def Atoi_digits)

lemma named_caps:
  "named (caps p) ''buildname'' = pBuild p" "named (caps p) ''major'' = pMajor p" "named (caps p) ''minor'' = pMinor p"
  "named (caps p) ''patch'' = pPatch p" "named (caps p) ''release'' = pRel p" "named (caps p) ''releaseNum'' = pRelNum p"
  "named (caps p) ''additional'' = pAdd p" "named (caps p) ''hash'' = pHash p" "named (caps p) ''revision'' = pRev p"
  by (simp_all add: named_def caps_def optCap_def map_add_def)

lemma Parse_reading:
  "Parse s = Inr v \<longleftrightarrow> (\<exists>!p. readParts p \<and> fits p \<and> s = partsText p \<and> v = versionOf p)"
proof -
  have val: "Parse (partsText p) = Inr v \<longleftrightarrow> fits p \<and> v = versionOf p" if "readParts p" for p
  proof -
    have f: "full versionRx (partsText p) = Some (caps p)" using that full_versionRx by blast
    have w: "digits (pMajor p)" "pMajor p \<noteq> []" "digits (pMinor p)" "pMinor p \<noteq> []" "digits (pPatch p)" "pPatch p \<noteq> []"
        "digits (pAdd p)" "digits (pRev p)" "pRel p \<in> set ([] # releases)" "digits (pRelNum p)"
        "pRel p = [] \<longrightarrow> pRelNum p = []"
      using that unfolding readParts_def wf_parts_def loneGc_def by blast+
    show ?thesis
      unfolding Parse_def f option.case named_caps Atoi_digits [OF w(1,2)] Atoi_digits [OF w(3,4)] Atoi_digits [OF w(5,6)]
        AtoiOpt_digits [OF w(7)] AtoiOpt_digits [OF w(8)] newRelease_parts [OF w(9-11)]
      by (auto simp: fits_def versionOf_def)
  qed
  have "Parse s = Inr v \<longleftrightarrow> (\<exists>p. readParts p \<and> s = partsText p \<and> Parse s = Inr v)"
    using full_versionRx by (auto simp: Parse_def split: option.splits)
  also have "\<dots> \<longleftrightarrow> (\<exists>p. readParts p \<and> fits p \<and> s = partsText p \<and> v = versionOf p)" using val by blast
  finally show ?thesis using partsText_unique by blast
qed

text \<open>
  Property C39: a text is a version exactly if it is made up of the parts of the grammar with all
  numbers below two to the 64, there is only one such reading, and the version has the parts of
  this reading: the build name, the numbers, the kind of the release, the hash. The suffix of the
  garbage collector is accepted and not saved, and \<^verbatim>\<open>Parse\<close> rejects everything else. This is
  claimed of all texts but those that end with the suffix \<^verbatim>\<open>-gc64\<close> and have neither a hash nor a
  revision in front of it: they are read differently than the code says they should be, as
  \<open>gc64_is_a_hash\<close> shows below.
\<close>

theorem Parse_grammar:
  assumes "\<not> (\<exists>p. wf_parts p \<and> loneGc p \<and> s = partsText p)"
  shows "Parse s = Inr v \<longleftrightarrow> (\<exists>!p. wf_parts p \<and> fits p \<and> s = partsText p \<and> v = versionOf p)"
proof -
  have "wf_parts p \<and> fits p \<and> s = partsText p \<and> v = versionOf p \<longleftrightarrow>
      readParts p \<and> fits p \<and> s = partsText p \<and> v = versionOf p" for p
    using assms by (auto simp: readParts_def)
  then show ?thesis by (simp only: Parse_reading)
qed

definition demoVersion :: version where
  "demoVersion = \<lparr>Major = 2, Minor = 10, Patch = 0, Additional = 15, VRevision = 3,
     Release = \<lparr>relType = TypeRC, relNum = 1, relStr = ''rc1''\<rparr>, Hash = ''gabc'', VStrRep = ''2.10.0-rc1-15-gabc-r3'',
     Tarball = [], BuildName = []\<rparr>"

theorem Parse_grammar_witness:
  "\<exists>!p. wf_parts p \<and> fits p \<and> ''2.10.0-rc1-15-gabc-r3'' = partsText p \<and> demoVersion = versionOf p"
proof -
  have no: "\<not> (\<exists>p. wf_parts p \<and> loneGc p \<and> ''2.10.0-rc1-15-gabc-r3'' = partsText p)"
  proof
    assume "\<exists>p. wf_parts p \<and> loneGc p \<and> ''2.10.0-rc1-15-gabc-r3'' = partsText p"
    then obtain p where "loneGc p" "''2.10.0-rc1-15-gabc-r3'' = partsText p" by blast
    then have "last ''2.10.0-rc1-15-gabc-r3'' = CHR ''4''"
      by (simp add: partsText_def coreText_def tailText_def loneGc_def dash_def revText_def)
    then show False by simp
  qed
  have "Parse ''2.10.0-rc1-15-gabc-r3'' = Inr demoVersion" by code_simp
  with Parse_grammar [OF no] show ?thesis by blast
qed

text \<open>
  The suffix \<^verbatim>\<open>-gc64\<close> of a version without a commit hash and a revision is taken for the hash,
  though the suffix is meant not to be saved as a part of the version.
\<close>

lemma lone_gc64:
  assumes "wf_parts p" and "loneGc p"
  shows "Parse (partsText p) = Inr v \<longleftrightarrow> fits p \<and> v = versionOf (p\<lparr>pHash := ''gc64'', pGc := []\<rparr>)"
proof -
  let ?q = "p\<lparr>pHash := ''gc64'', pGc := []\<rparr>"
  have same: "partsText ?q = partsText p" using assms(2)
    by (simp add: partsText_def coreText_def tailText_def loneGc_def dash_def revText_def)
  have "readParts ?q" using assms by (simp add: readParts_def wf_parts_def loneGc_def isHash_def isHex_def isDigit_def digitVal_def)
  then have "readParts q \<and> partsText q = partsText p \<longleftrightarrow> q = ?q" for q using partsText_unique same by metis
  then have "readParts q \<and> fits q \<and> partsText p = partsText q \<and> v = versionOf q \<longleftrightarrow>
      q = ?q \<and> fits ?q \<and> v = versionOf ?q" for q by metis
  moreover have "fits ?q \<longleftrightarrow> fits p" by (simp add: fits_def)
  ultimately show ?thesis unfolding Parse_reading by (auto simp: Ex1_def)
qed

lemma gc64_is_a_hash: "map_sum id Hash (Parse ''2.10.0-gc64'') = Inr ''gc64''"
  by code_simp

end
