(* ===== verification/Rpm.thy ===== *)
theory Rpm
  imports Version "HOL-Library.Word"
begin

unbundle bit_operations_syntax

text \<open>
  RPM packages, \<^verbatim>\<open>cli/pack/rpm_tagset.go\<close>, \<^verbatim>\<open>rpm_pack.go\<close>, \<^verbatim>\<open>rpm_lead.go\<close>,
  \<^verbatim>\<open>rpm_signature.go\<close> and \<^verbatim>\<open>rpm_header.go\<close>: tag sets and their binary form, the lead, the
  signature and the header of a package. Bytes are \<open>8 word\<close>; Go's \<^verbatim>\<open>int32\<close> and the other
  integers keep their width, and a conversion to a smaller width wraps around.
\<close>

section \<open>Bytes\<close>

type_synonym bytes = "8 word list"

definition bytesOf :: "string \<Rightarrow> bytes" where
  "bytesOf s = map (\<lambda>c. of_nat (of_char c)) s"

text \<open>The values that \<^verbatim>\<open>packValues\<close> is called with; arrays and slices of bytes are alike.\<close>

datatype pval = PBytes bytes | P8 "8 word" | P16 "16 word" | P32 "32 word" | P64 "64 word"

definition be16 :: "16 word \<Rightarrow> bytes" where
  "be16 w = [ucast (drop_bit 8 w), ucast w]"

definition be32 :: "32 word \<Rightarrow> bytes" where
  "be32 w = [ucast (drop_bit 24 w), ucast (drop_bit 16 w), ucast (drop_bit 8 w), ucast w]"

definition be64 :: "64 word \<Rightarrow> bytes" where
  "be64 w = be32 (ucast (drop_bit 32 w)) @ be32 (ucast w)"

fun bigEndian :: "pval \<Rightarrow> bytes" where
  "bigEndian (PBytes bs) = bs"
| "bigEndian (P8 w) = [w]"
| "bigEndian (P16 w) = be16 w"
| "bigEndian (P32 w) = be32 w"
| "bigEndian (P64 w) = be64 w"

definition packValues :: "pval list \<Rightarrow> bytes" where
  "packValues vs = concat (map bigEndian vs)"

definition alignData :: "bytes \<Rightarrow> nat \<Rightarrow> bytes" where
  "alignData dat boundaries =
     (let dataLen = length dat
      in if dataLen mod boundaries \<noteq> 0 then
           (let alignedDataLen = (dataLen div boundaries + 1) * boundaries;
                missedBytesNum = alignedDataLen - dataLen
            in dat @ replicate missedBytesNum 0)
         else dat)"

definition int32 :: "int \<Rightarrow> 32 word" where
  "int32 i = word_of_int i"

section \<open>Tag sets\<close>

definition rpmTypeNull :: int where "rpmTypeNull = 0"
definition rpmTypeChar :: int where "rpmTypeChar = 1"
definition rpmTypeInt8 :: int where "rpmTypeInt8 = 2"
definition rpmTypeInt16 :: int where "rpmTypeInt16 = 3"
definition rpmTypeInt32 :: int where "rpmTypeInt32 = 4"
definition rpmTypeInt64 :: int where "rpmTypeInt64 = 5"
definition rpmTypeString :: int where "rpmTypeString = 6"
definition rpmTypeBin :: int where "rpmTypeBin = 7"
definition rpmTypeStringArray :: int where "rpmTypeStringArray = 8"

lemmas rpmTypes = rpmTypeNull_def rpmTypeChar_def rpmTypeInt8_def rpmTypeInt16_def rpmTypeInt32_def
  rpmTypeInt64_def rpmTypeString_def rpmTypeBin_def rpmTypeStringArray_def

text \<open>The dynamic value of a tag: nil, or one of the types that \<^verbatim>\<open>packTag\<close> asks for.\<close>

datatype rpmValue =
    RNil
  | RBytes bytes
  | RStrings "bytes list"
  | RString bytes
  | RInt8s "8 word list"
  | RInt16s "16 word list"
  | RInt32s "32 word list"
  | RInt64s "64 word list"

record rpmTag =
  tagID :: int
  tagType :: int
  tagValue :: rpmValue

datatype rpmerr =
    NotNull
  | NotBytes
  | NotStrings
  | NotString
  | NotInt8s
  | NotInt16s
  | NotInt32s
  | NotInt64s
  | UnknownTagType int
  | NoBoundaries int
  | NameTooLong
  | RpmVersion verr
  | RpmFile string

definition boundariesByType :: "(int \<times> nat) list" where
  "boundariesByType = [(rpmTypeNull, 1), (rpmTypeBin, 1), (rpmTypeChar, 1), (rpmTypeString, 1),
     (rpmTypeStringArray, 1), (rpmTypeInt8, 1), (rpmTypeInt16, 2), (rpmTypeInt32, 4), (rpmTypeInt64, 8)]"

text \<open>The number of items of a packed value and its bytes.\<close>

definition packTag :: "rpmTag \<Rightarrow> rpmerr + nat \<times> bytes" where
  "packTag tag =
     (let t = tagType tag; v = tagValue tag
      in if t = rpmTypeNull then (if v \<noteq> RNil then Inl NotNull else Inr (1, []))
         else if t = rpmTypeChar \<or> t = rpmTypeBin then
           (case v of RBytes bs \<Rightarrow> Inr (length bs, concat (map (\<lambda>b. packValues [P8 b]) bs)) | _ \<Rightarrow> Inl NotBytes)
         else if t = rpmTypeStringArray then
           (case v of
              RStrings ss \<Rightarrow> Inr (length ss, concat (map (\<lambda>s. packValues [PBytes (s @ [0])]) ss))
            | _ \<Rightarrow> Inl NotStrings)
         else if t = rpmTypeString then
           (case v of RString s \<Rightarrow> Inr (1, packValues [PBytes (s @ [0])]) | _ \<Rightarrow> Inl NotString)
         else if t = rpmTypeInt8 then
           (case v of RInt8s ws \<Rightarrow> Inr (length ws, packValues (map P8 ws)) | _ \<Rightarrow> Inl NotInt8s)
         else if t = rpmTypeInt16 then
           (case v of RInt16s ws \<Rightarrow> Inr (length ws, concat (map (\<lambda>w. packValues [P16 w]) ws)) | _ \<Rightarrow> Inl NotInt16s)
         else if t = rpmTypeInt32 then
           (case v of RInt32s ws \<Rightarrow> Inr (length ws, concat (map (\<lambda>w. packValues [P32 w]) ws)) | _ \<Rightarrow> Inl NotInt32s)
         else if t = rpmTypeInt64 then
           (case v of RInt64s ws \<Rightarrow> Inr (length ws, concat (map (\<lambda>w. packValues [P64 w]) ws)) | _ \<Rightarrow> Inl NotInt64s)
         else Inl (UnknownTagType t))"

definition getPackedTagIndex :: "int \<Rightarrow> int \<Rightarrow> int \<Rightarrow> int \<Rightarrow> bytes" where
  "getPackedTagIndex tid ttype offset cnt =
     packValues [P32 (int32 tid), P32 (int32 ttype), P32 (int32 offset), P32 (int32 cnt)]"

definition headerMagic :: bytes where
  "headerMagic = [0x8e, 0xad, 0xe8]"

definition getTagSetHeader :: "int \<Rightarrow> int \<Rightarrow> bytes" where
  "getTagSetHeader tagsNum dataLen =
     packValues [PBytes headerMagic, P8 1, P32 (int32 0), P32 (int32 tagsNum), P32 (int32 dataLen)]"

text \<open>The loop over the tags, with the data and the index written so far.\<close>

fun packTags :: "rpmTag list \<Rightarrow> bytes \<times> bytes \<Rightarrow> rpmerr + bytes \<times> bytes" where
  "packTags [] di = Inr di"
| "packTags (tag # tags) (tagsData, tagsIndex) =
     (case packTag tag of
        Inl err \<Rightarrow> Inl err
      | Inr (cnt, dat) \<Rightarrow>
          (case map_of boundariesByType (tagType tag) of
             None \<Rightarrow> Inl (NoBoundaries (tagType tag))
           | Some boundaries \<Rightarrow>
               (let aligned = (if boundaries > 1 then alignData tagsData boundaries else tagsData);
                    tagIndex = getPackedTagIndex (tagID tag) (tagType tag) (int (length aligned)) (int cnt)
                in packTags tags (aligned @ dat, tagsIndex @ tagIndex))))"

definition packTagSet :: "rpmTag list \<Rightarrow> int \<Rightarrow> rpmerr + bytes" where
  "packTagSet tagSet regionTagID =
     (case packTags tagSet ([], []) of
        Inl err \<Rightarrow> Inl err
      | Inr (tagsData, tagsIndex) \<Rightarrow>
          (let regionTagIndex = getPackedTagIndex regionTagID rpmTypeBin (int (length tagsData)) 16;
               resIndex = regionTagIndex @ tagsIndex;
               tagsNum = int (length tagSet) + 1;
               regionTagData = getPackedTagIndex regionTagID rpmTypeBin (- tagsNum * 16) 16;
               resData = tagsData @ regionTagData;
               tagSetHeader = getTagSetHeader tagsNum (int (length resData))
           in Inr (tagSetHeader @ resIndex @ resData)))"

section \<open>The lead and the signature\<close>

text \<open>The name is copied into an array of 66 bytes; a longer name is an index out of range.\<close>

definition genRpmLead :: "bytes \<Rightarrow> rpmerr + bytes" where
  "genRpmLead name =
     (if length name > 66 then Inl NameTooLong
      else
        (let rpmLeadName = name @ replicate (66 - length name) 0
         in Inr (packValues [PBytes [0xed, 0xab, 0xee, 0xdb], P8 3, P8 0, P16 0, P16 1,
              PBytes rpmLeadName, P16 1, P16 5, PBytes (replicate 16 0)])))"

section \<open>Reading a tag set\<close>

text \<open>
  The format as its documentation describes it: a header with the numbers of tags and of bytes of
  data, one index entry of 16 bytes per tag, and the data, in which the entry gives the place and
  the number of the items of the value. The first tag is the region tag.
\<close>

definition rd16 :: "bytes \<Rightarrow> 16 word" where
  "rd16 bs = push_bit 8 (ucast (bs ! 0)) OR ucast (bs ! 1)"

definition rd32 :: "bytes \<Rightarrow> 32 word" where
  "rd32 bs = push_bit 24 (ucast (bs ! 0)) OR push_bit 16 (ucast (bs ! 1)) OR push_bit 8 (ucast (bs ! 2)) OR ucast (bs ! 3)"

definition rd64 :: "bytes \<Rightarrow> 64 word" where
  "rd64 bs = push_bit 32 (ucast (rd32 bs)) OR ucast (rd32 (drop 4 bs))"

definition items :: "nat \<Rightarrow> (bytes \<Rightarrow> 'a) \<Rightarrow> nat \<Rightarrow> bytes \<Rightarrow> 'a list" where
  "items k rd n bs = map (\<lambda>i. rd (take k (drop (k * i) bs))) [0..<n]"

fun readStrings :: "nat \<Rightarrow> bytes \<Rightarrow> bytes list" where
  "readStrings 0 bs = []"
| "readStrings (Suc n) bs =
     (let s = takeWhile (\<lambda>b. b \<noteq> 0) bs in s # readStrings n (drop (Suc (length s)) bs))"

definition readValue :: "int \<Rightarrow> nat \<Rightarrow> bytes \<Rightarrow> rpmValue" where
  "readValue t n bs =
     (if t = rpmTypeNull then RNil
      else if t = rpmTypeChar \<or> t = rpmTypeBin then RBytes (take n bs)
      else if t = rpmTypeStringArray then RStrings (readStrings n bs)
      else if t = rpmTypeString then RString (takeWhile (\<lambda>b. b \<noteq> 0) bs)
      else if t = rpmTypeInt8 then RInt8s (take n bs)
      else if t = rpmTypeInt16 then RInt16s (items 2 rd16 n bs)
      else if t = rpmTypeInt32 then RInt32s (items 4 rd32 n bs)
      else RInt64s (items 8 rd64 n bs))"

definition readTag :: "bytes \<Rightarrow> bytes \<Rightarrow> nat \<times> rpmTag" where
  "readTag dat entry =
     (let t = sint (rd32 (drop 4 entry)); offset = unat (rd32 (drop 8 entry)); n = unat (rd32 (drop 12 entry))
      in (offset, \<lparr>tagID = sint (rd32 entry), tagType = t, tagValue = readValue t n (drop offset dat)\<rparr>))"

definition unpackTagSet :: "bytes \<Rightarrow> (nat \<times> rpmTag) list option" where
  "unpackTagSet bs =
     (if take 8 bs \<noteq> headerMagic @ [1, 0, 0, 0, 0] then None
      else
        (let tagsNum = unat (rd32 (drop 8 bs)); dataLen = unat (rd32 (drop 12 bs));
             index = take (16 * tagsNum) (drop 16 bs); dat = drop (16 + 16 * tagsNum) bs
         in if length index \<noteq> 16 * tagsNum \<or> length dat \<noteq> dataLen then None
            else Some (map (readTag dat) (items 16 (\<lambda>e. e) tagsNum index))))"

section \<open>Numbers\<close>

lemma rd16_be16 [simp]: "rd16 (be16 w @ r) = w"
  unfolding rd16_def be16_def by (rule bit_word_eqI) (auto simp: bit_simps)

lemma rd32_be32 [simp]: "rd32 (be32 w @ r) = w"
proof (rule bit_word_eqI)
  fix n
  assume "n < LENGTH(32)"
  then consider "n < 8" | "8 \<le> n" "n < 16" | "16 \<le> n" "n < 24" | "24 \<le> n" "n < 32" by fastforce
  then show "bit (rd32 (be32 w @ r)) n = bit w n"
    unfolding rd32_def be32_def by cases (auto simp: bit_simps)
qed

lemma rd32_be32_only [simp]: "rd32 (be32 w) = w"
  using rd32_be32 [of w "[]"] by simp

lemma length_be [simp]: "length (be16 w16) = 2" "length (be32 w32) = 4" "length (be64 w64) = 8"
  by (simp_all add: be16_def be32_def be64_def)

lemma rd64_be64 [simp]: "rd64 (be64 w @ r) = w"
proof -
  have "rd64 (be64 w @ r) = push_bit 32 (ucast (ucast (drop_bit 32 w) :: 32 word)) OR ucast (ucast w :: 32 word)"
    by (simp add: rd64_def be64_def)
  also have "\<dots> = w" by (rule bit_word_eqI) (auto simp: bit_simps)
  finally show ?thesis .
qed

lemma unat_int32: "int n < 2 ^ 31 \<Longrightarrow> unat (int32 (int n)) = n"
  by (simp add: int32_def unsigned_of_nat take_bit_nat_eq_self)

lemma sint_int32: "- (2 ^ 31) \<le> i \<Longrightarrow> i < 2 ^ 31 \<Longrightarrow> sint (int32 i) = i"
  by (simp add: int32_def sint_sbintrunc' signed_take_bit_int_eq_self)

section \<open>Values\<close>

lemma items_concat:
  assumes "\<And>w. length (enc w) = k" and "\<And>w r. rd (enc w) = w"
  shows "items k rd (length ws) (concat (map enc ws) @ r) = ws"
proof (induction ws)
  case (Cons w ws)
  have "items k rd (length (w # ws)) (concat (map enc (w # ws)) @ r) =
      rd (take k (enc w @ concat (map enc ws) @ r)) # items k rd (length ws) (concat (map enc ws) @ r)"
    using assms(1) [of w]
    by (simp add: items_def upt_conv_Cons map_Suc_upt [symmetric] comp_def del: upt_Suc map_Suc_upt)
  with Cons assms show ?case by simp
qed (simp add: items_def)

lemma takeWhile_nul: "0 \<notin> set s \<Longrightarrow> takeWhile (\<lambda>b. b \<noteq> 0) (s @ 0 # r) = s"
  by (induction s) auto

lemma readStrings_concat:
  "\<forall>s \<in> set ss. 0 \<notin> set s \<Longrightarrow> readStrings (length ss) (concat (map (\<lambda>s. s @ [0]) ss) @ r) = ss"
  by (induction ss) (auto simp: takeWhile_nul Let_def)

text \<open>Strings end at the first zero byte, so that they can be read back only without one.\<close>

fun plainValue :: "rpmValue \<Rightarrow> bool" where
  "plainValue (RString s) = (0 \<notin> set s)"
| "plainValue (RStrings ss) = (\<forall>s \<in> set ss. 0 \<notin> set s)"
| "plainValue _ = True"

lemma concat_singletons [simp]: "concat (map (\<lambda>x. [x]) xs) = xs"
  by (induction xs) auto

lemma packTag_cases:
  assumes "packTag tag = Inr (n, dat)"
  obtains (Null) "tagType tag = 0" "tagValue tag = RNil" "n = 1" "dat = []"
  | (Bytes) bs where "tagType tag \<in> {1, 7}" "tagValue tag = RBytes bs" "n = length bs" "dat = bs"
  | (Strings) ss where "tagType tag = 8" "tagValue tag = RStrings ss" "n = length ss" "dat = concat (map (\<lambda>s. s @ [0]) ss)"
  | (String) s where "tagType tag = 6" "tagValue tag = RString s" "n = 1" "dat = s @ [0]"
  | (Int8) ws where "tagType tag = 2" "tagValue tag = RInt8s ws" "n = length ws" "dat = ws"
  | (Int16) ws where "tagType tag = 3" "tagValue tag = RInt16s ws" "n = length ws" "dat = concat (map be16 ws)"
  | (Int32) ws where "tagType tag = 4" "tagValue tag = RInt32s ws" "n = length ws" "dat = concat (map be32 ws)"
  | (Int64) ws where "tagType tag = 5" "tagValue tag = RInt64s ws" "n = length ws" "dat = concat (map be64 ws)"
proof -
  have t: "tagType tag = 0 \<or> tagType tag \<in> {1, 7} \<or> tagType tag = 8 \<or> tagType tag = 6 \<or> tagType tag = 2 \<or>
      tagType tag = 3 \<or> tagType tag = 4 \<or> tagType tag = 5"
    using assms unfolding packTag_def Let_def rpmTypes by (rule contrapos_pp) simp
  note packed = assms [unfolded packTag_def Let_def rpmTypes packValues_def]
  from t show thesis
  proof (elim disjE)
    assume "tagType tag = 0"
    with packed show thesis by (intro Null) (auto split: if_splits)
  next
    assume t: "tagType tag \<in> {1, 7}"
    with packed obtain bs where "tagValue tag = RBytes bs" by (auto split: rpmValue.splits)
    with t packed show thesis by (intro Bytes [of bs]) auto
  next
    assume t: "tagType tag = 8"
    with packed obtain bs where "tagValue tag = RStrings bs" by (auto split: rpmValue.splits)
    with t packed show thesis by (intro Strings [of bs]) auto
  next
    assume t: "tagType tag = 6"
    with packed obtain bs where "tagValue tag = RString bs" by (auto split: rpmValue.splits)
    with t packed show thesis by (intro String [of bs]) auto
  next
    assume t: "tagType tag = 2"
    with packed obtain bs where "tagValue tag = RInt8s bs" by (auto split: rpmValue.splits)
    with t packed show thesis by (intro Int8 [of bs]) (auto simp: comp_def)
  next
    assume t: "tagType tag = 3"
    with packed obtain bs where "tagValue tag = RInt16s bs" by (auto split: rpmValue.splits)
    with t packed show thesis by (intro Int16 [of bs]) auto
  next
    assume t: "tagType tag = 4"
    with packed obtain bs where "tagValue tag = RInt32s bs" by (auto split: rpmValue.splits)
    with t packed show thesis by (intro Int32 [of bs]) auto
  next
    assume t: "tagType tag = 5"
    with packed obtain bs where "tagValue tag = RInt64s bs" by (auto split: rpmValue.splits)
    with t packed show thesis by (intro Int64 [of bs]) auto
  qed
qed

lemma length_concat_items: "(\<And>w. length (enc w) = k) \<Longrightarrow> length (concat (map enc ws)) = k * length ws"
  by (induction ws) auto

lemmas length_concat_be [simp] =
  length_concat_items [of be16 2, simplified] length_concat_items [of be32 4, simplified] length_concat_items [of be64 8, simplified]

lemma length_strings: "length ss \<le> length (concat (map (\<lambda>s. s @ [0 :: 8 word]) ss))"
  by (induction ss) auto

lemma rd_only [simp]: "rd16 (be16 w16) = w16" "rd64 (be64 w64) = w64"
  using rd16_be16 [of w16 "[]"] rd64_be64 [of w64 "[]"] by simp_all

lemma packTag_read:
  assumes "packTag tag = Inr (n, dat)" and "plainValue (tagValue tag)"
  shows "readValue (tagType tag) n (dat @ r) = tagValue tag"
  using assms(1)
proof (cases rule: packTag_cases)
  case (Strings ss)
  with assms(2) readStrings_concat [of ss r] show ?thesis by (simp add: readValue_def rpmTypes)
next
  case (String s)
  with assms(2) takeWhile_nul [of s r] show ?thesis by (simp add: readValue_def rpmTypes)
next
  case (Int16 ws)
  then show ?thesis using items_concat [of be16 2 rd16 ws r] by (simp add: readValue_def rpmTypes)
next
  case (Int32 ws)
  then show ?thesis using items_concat [of be32 4 rd32 ws r] by (simp add: readValue_def rpmTypes)
next
  case (Int64 ws)
  then show ?thesis using items_concat [of be64 8 rd64 ws r] by (simp add: readValue_def rpmTypes)
qed (auto simp: readValue_def rpmTypes)

lemma packTag_count: "packTag tag = Inr (n, dat) \<Longrightarrow> n \<le> max 1 (length dat)"
  by (cases rule: packTag_cases) (use length_strings in \<open>auto simp: le_max_iff_disj\<close>)

lemma packTag_type: "packTag tag = Inr (n, dat) \<Longrightarrow> 0 \<le> tagType tag \<and> tagType tag \<le> 8"
  by (cases rule: packTag_cases) auto

section \<open>The loop over the tags\<close>

lemma alignData_props:
  assumes "0 < b"
  shows "\<exists>pad. alignData d b = d @ pad" and "length (alignData d b) mod b = 0"
proof -
  show "\<exists>pad. alignData d b = d @ pad" by (simp add: alignData_def Let_def)
  have e: "length d = length d div b * b + length d mod b" by (simp add: div_mult_mod_eq)
  show "length (alignData d b) mod b = 0"
  proof (cases "length d mod b = 0")
    case False
    moreover have "length d \<le> (length d div b + 1) * b"
    proof -
      have "(length d div b + 1) * b = length d div b * b + b" by simp
      with e mod_less_divisor [OF assms, of "length d"] show ?thesis by linarith
    qed
    ultimately have "length (alignData d b) = (length d div b + 1) * b"
      by (simp add: alignData_def Let_def)
    then show ?thesis by (metis mod_mult_self2_is_0)
  qed (simp add: alignData_def)
qed

lemma readTag_entry:
  assumes "packTag tag = Inr (n, dat)" and "plainValue (tagValue tag)"
    and "- (2 ^ 31) \<le> tagID tag" and "tagID tag < 2 ^ 31"
    and "length (pre @ dat @ post) < 2 ^ 31"
  shows "readTag (pre @ dat @ post) (getPackedTagIndex (tagID tag) (tagType tag) (int (length pre)) (int n)) =
    (length pre, tag)"
proof -
  have t: "sint (int32 (tagType tag)) = tagType tag" using packTag_type [OF assms(1)] by (simp add: sint_int32)
  have n: "unat (int32 (int n)) = n"
    using packTag_count [OF assms(1)] assms(5) by (intro unat_int32) (simp add: max_def split: if_splits)
  have o: "unat (int32 (int (length pre))) = length pre" using assms(5) by (intro unat_int32) simp
  have i: "sint (int32 (tagID tag)) = tagID tag" using assms(3,4) by (rule sint_int32)
  show ?thesis
    using packTag_read [OF assms(1,2)]
    by (simp add: readTag_def getPackedTagIndex_def packValues_def t n o i Let_def)
qed

definition goodTag :: "rpmTag \<Rightarrow> bool" where
  "goodTag tag \<longleftrightarrow> plainValue (tagValue tag) \<and> - (2 ^ 31) \<le> tagID tag \<and> tagID tag < 2 ^ 31"

definition aligned :: "nat \<times> rpmTag \<Rightarrow> bool" where
  "aligned ot \<longleftrightarrow> (\<exists>b. map_of boundariesByType (tagType (snd ot)) = Some b \<and> fst ot mod b = 0)"

lemma length_entry [simp]: "length (getPackedTagIndex i t off n) = 16"
  by (simp add: getPackedTagIndex_def packValues_def)

lemma packTags_read:
  assumes "packTags tags (d0, i0) = Inr (d, i)" and "\<forall>tag \<in> set tags. goodTag tag"
  shows "\<exists>d' es. d = d0 @ d' \<and> i = i0 @ concat es \<and> length es = length tags \<and> (\<forall>e \<in> set es. length e = 16) \<and>
    (\<forall>rest. length (d @ rest) < 2 ^ 31 \<longrightarrow>
       map snd (map (readTag (d @ rest)) es) = tags \<and> (\<forall>ot \<in> set (map (readTag (d @ rest)) es). aligned ot))"
  using assms
proof (induction tags arbitrary: d0 i0)
  case Nil
  then show ?case by (auto intro: exI [of _ "[]"])
next
  case (Cons tag tags)
  from Cons.prems(1) obtain n dat b where p: "packTag tag = Inr (n, dat)"
    and b: "map_of boundariesByType (tagType tag) = Some b"
    by (auto split: sum.splits option.splits)
  let ?al = "if b > 1 then alignData d0 b else d0"
  let ?e = "getPackedTagIndex (tagID tag) (tagType tag) (int (length ?al)) (int n)"
  have b0: "0 < b" using map_of_SomeD [OF b] by (auto simp: boundariesByType_def)
  obtain pad where pad: "?al = d0 @ pad" using alignData_props(1) [OF b0] by (metis append_Nil2)
  have "b \<noteq> 1 \<Longrightarrow> b > 1" using b0 by simp
  then have al: "length ?al mod b = 0" using alignData_props(2) [OF b0, of d0] by (cases "b = 1") auto
  have "packTags tags (?al @ dat, i0 @ ?e) = Inr (d, i)"
    using Cons.prems(1) by (simp add: p b Let_def)
  from Cons.IH [OF this] Cons.prems(2) obtain d' es where
    d: "d = (?al @ dat) @ d'" and i: "i = (i0 @ ?e) @ concat es" and es: "length es = length tags" "\<forall>e \<in> set es. length e = 16"
    and rd: "\<And>rest. length (d @ rest) < 2 ^ 31 \<Longrightarrow> map snd (map (readTag (d @ rest)) es) = tags \<and>
      (\<forall>ot \<in> set (map (readTag (d @ rest)) es). aligned ot)" by fastforce
  have e: "readTag (d @ rest) ?e = (length ?al, tag)" if "length (d @ rest) < 2 ^ 31" for rest
    using readTag_entry [OF p, of ?al "d' @ rest"] Cons.prems(2) that unfolding d goodTag_def by simp
  have "aligned (length ?al, tag)" using b al by (simp add: aligned_def)
  then have all: "map snd (map (readTag (d @ rest)) (?e # es)) = tag # tags \<and>
      (\<forall>ot \<in> set (map (readTag (d @ rest)) (?e # es)). aligned ot)" if "length (d @ rest) < 2 ^ 31" for rest
    using rd [OF that] e [OF that] by simp
  have "d = d0 @ pad @ dat @ d'" "i = i0 @ concat (?e # es)" "length (?e # es) = length (tag # tags)"
    "\<forall>x \<in> set (?e # es). length x = 16" using d i es pad by simp_all
  with all show ?case by blast
qed

text \<open>Packing fails only for a value that does not have the type of its tag.\<close>

lemma packTag_boundaries: "packTag tag = Inr (n, dat) \<Longrightarrow> \<exists>b. map_of boundariesByType (tagType tag) = Some b"
  by (cases rule: packTag_cases) (auto simp: boundariesByType_def rpmTypes)

lemma packTags_ok: "\<forall>tag \<in> set tags. is_ok (packTag tag) \<Longrightarrow> is_ok (packTags tags di)"
proof (induction tags arbitrary: di)
  case (Cons tag tags)
  then obtain n dat b where "packTag tag = Inr (n, dat)" "map_of boundariesByType (tagType tag) = Some b"
    using packTag_boundaries by (fastforce simp: is_ok_iff)
  with Cons show ?case by (cases di) (simp add: Let_def)
qed simp

lemma packTagSet_ok: "\<forall>tag \<in> set tags. is_ok (packTag tag) \<Longrightarrow> \<exists>bs. packTagSet tags r = Inr bs"
  using packTags_ok [of tags "([], [])"] by (auto simp: packTagSet_def is_ok_iff Let_def)

section \<open>The round trip\<close>

lemma length_entries: "\<forall>e \<in> set es. length e = 16 \<Longrightarrow> length (concat es) = 16 * length es"
  by (induction es) auto

lemma items_entries:
  "\<forall>e \<in> set es. length e = 16 \<Longrightarrow> items 16 (\<lambda>e. e) (length es) (concat es @ r) = es"
proof (induction es)
  case (Cons e es)
  have "items 16 (\<lambda>e. e) (length (e # es)) (concat (e # es) @ r) =
      take 16 (e @ concat es @ r) # items 16 (\<lambda>e. e) (length es) (concat es @ r)"
    using Cons.prems
    by (simp add: items_def upt_conv_Cons map_Suc_upt [symmetric] comp_def del: upt_Suc map_Suc_upt)
  with Cons show ?case by simp
qed (simp add: items_def)

text \<open>
  Property C37: a packed tag set can be read back. Reading the header, the index and the data the
  way the format prescribes gives the tags that were packed, in their order, after the region tag,
  and every value starts at the boundary of its type. This needs that no string contains a zero
  byte, that the numbers of the tags fit into 32 bits and that less than two to the 31 bytes are written.
\<close>

theorem packTagSet_roundtrip:
  assumes "packTagSet tags region = Inr out" and "\<forall>tag \<in> set tags. goodTag tag"
    and "- (2 ^ 31) \<le> region" and "region < 2 ^ 31" and "length out < 2 ^ 31"
  shows "\<exists>regionTag ots. unpackTagSet out = Some (regionTag # ots) \<and> map snd ots = tags \<and>
    (\<forall>ot \<in> set ots. aligned ot) \<and> tagID (snd regionTag) = region \<and> tagType (snd regionTag) = rpmTypeBin"
proof -
  from assms(1) obtain d i where pt: "packTags tags ([], []) = Inr (d, i)"
    by (auto simp: packTagSet_def split: sum.splits)
  let ?N = "int (length tags) + 1"
  let ?rd = "getPackedTagIndex region rpmTypeBin (- ?N * 16) 16"
  let ?re = "getPackedTagIndex region rpmTypeBin (int (length d)) 16"
  from packTags_read [OF pt assms(2)] obtain es where
    i: "i = concat es" and es: "length es = length tags" "\<forall>e \<in> set es. length e = 16"
    and rd: "\<And>rest. length (d @ rest) < 2 ^ 31 \<Longrightarrow> map snd (map (readTag (d @ rest)) es) = tags \<and>
      (\<forall>ot \<in> set (map (readTag (d @ rest)) es). aligned ot)" by auto
  have out: "out = getTagSetHeader ?N (int (length (d @ ?rd))) @ (?re @ i) @ d @ ?rd"
    using assms(1) by (simp add: packTagSet_def pt Let_def)
  have li: "length i = 16 * length tags" unfolding i using length_entries [OF es(2)] es(1) by simp
  have len: "length out = 16 + (16 + 16 * length tags) + (length d + 16)"
    by (simp add: out li getTagSetHeader_def packValues_def headerMagic_def)
  have hd: "getTagSetHeader ?N (int (length (d @ ?rd))) = headerMagic @ [1, 0, 0, 0, 0] @ be32 (int32 ?N) @ be32 (int32 (int (length d + 16)))"
    by (simp add: getTagSetHeader_def packValues_def be32_def int32_def)
  have N: "unat (int32 ?N) = Suc (length tags)" using unat_int32 [of "Suc (length tags)"] len assms(5) by (simp add: add.commute)
  have L: "unat (int32 (int (length d + 16))) = length d + 16" using len assms(5) by (intro unat_int32) simp
  have take8: "take 8 out = headerMagic @ [1, 0, 0, 0, 0]" "drop 8 out = be32 (int32 ?N) @ be32 (int32 (int (length d + 16))) @ ?re @ i @ d @ ?rd"
    unfolding out hd by (simp_all add: headerMagic_def)
  have drops: "drop 12 out = be32 (int32 (int (length d + 16))) @ ?re @ i @ d @ ?rd" "drop 16 out = ?re @ i @ d @ ?rd"
    unfolding out hd by (simp_all add: headerMagic_def)
  have index: "take (16 * Suc (length tags)) (drop 16 out) = ?re @ i" unfolding drops(2) by (simp add: li)
  have "drop (16 + 16 * Suc (length tags)) out = drop (16 * Suc (length tags)) (drop 16 out)"
    by (simp only: drop_drop add.commute)
  then have data: "drop (16 + 16 * Suc (length tags)) out = d @ ?rd" unfolding drops(2) by (simp add: li)
  have entries: "items 16 (\<lambda>e. e) (Suc (length tags)) (?re @ i) = ?re # es"
    using items_entries [of "?re # es" "[]"] es unfolding i by simp
  have "length (d @ ?rd) < 2 ^ 31" using len assms(5) by simp
  note rd = rd [OF this]
  have r: "tagID (snd (readTag (d @ ?rd) ?re)) = region" "tagType (snd (readTag (d @ ?rd) ?re)) = rpmTypeBin"
    using sint_int32 [OF assms(3,4)] sint_int32 [of rpmTypeBin]
    by (simp_all add: readTag_def getPackedTagIndex_def packValues_def Let_def rpmTypeBin_def)
  have "unpackTagSet out = Some (readTag (d @ ?rd) ?re # map (readTag (d @ ?rd)) es)"
    unfolding unpackTagSet_def take8 drops rd32_be32 N L
    using data entries take8(1) by (simp add: Let_def li len)
  with rd r show ?thesis by blast
qed

text \<open>The example of the documentation: a name and a list of numbers.\<close>

definition demoTags :: "rpmTag list" where
  "demoTags = [\<lparr>tagID = 1000, tagType = rpmTypeString, tagValue = RString [0x61, 0x62, 0x63, 0x64]\<rparr>,
     \<lparr>tagID = 1116, tagType = rpmTypeInt32, tagValue = RInt32s [1, 2, 3]\<rparr>]"

definition demoPacked :: bytes where
  "demoPacked = [
     0x8e, 0xad, 0xe8, 1, 0, 0, 0, 0, 0, 0, 0, 3, 0, 0, 0, 0x24,
     0, 0, 0, 0x3f, 0, 0, 0, 7, 0, 0, 0, 0x14, 0, 0, 0, 0x10,
     0, 0, 3, 0xe8, 0, 0, 0, 6, 0, 0, 0, 0, 0, 0, 0, 1,
     0, 0, 4, 0x5c, 0, 0, 0, 4, 0, 0, 0, 8, 0, 0, 0, 3,
     0x61, 0x62, 0x63, 0x64, 0, 0, 0, 0, 0, 0, 0, 1, 0, 0, 0, 2, 0, 0, 0, 3,
     0, 0, 0, 0x3f, 0, 0, 0, 7, 0xff, 0xff, 0xff, 0xd0, 0, 0, 0, 0x10]"

lemma demoTags_packed: "packTagSet demoTags 63 = Inr demoPacked"
  by code_simp

theorem packTagSet_roundtrip_witness:
  "\<exists>regionTag ots. unpackTagSet demoPacked = Some (regionTag # ots) \<and> map snd ots = demoTags"
proof -
  have "\<forall>tag \<in> set demoTags. goodTag tag" by (simp add: demoTags_def goodTag_def)
  from packTagSet_roundtrip [OF demoTags_packed this] show ?thesis by (auto simp: demoPacked_def)
qed

end
