(* ===== verification/RpmFile.thy ===== *)
theory RpmFile
  imports Rpm Uri
begin

text \<open>
  The making of an RPM file, \<^verbatim>\<open>cli/pack/rpm_header.go\<close>, \<^verbatim>\<open>rpm_signature.go\<close> and
  \<^verbatim>\<open>rpm_pack.go\<close>, with \<^verbatim>\<open>cpio.go\<close> and the compression of \<^verbatim>\<open>tgz.go\<close>: what is known about the files of a package, the tags of the header, the
  signature, and the files that are written one after another. The file system, the programs
  that are run (\<^verbatim>\<open>cpio\<close>, \<^verbatim>\<open>git\<close>), what the gzip writer of the standard library puts out and the
  hash functions are the record \<open>packFs\<close>.
\<close>

section \<open>The world of the packer\<close>

record sysStat =
  stSize :: int
  stMode :: int
  stIno :: int
  stDev :: int
  stRdev :: int

record fileInfo =
  fiRegular :: bool
  fiSymlink :: bool
  fiModTime :: int
  fiSys :: "sysStat option"

text \<open>
  \<open>execCpio\<close> is the command \<^verbatim>\<open>cpio -o -H newc\<close> with its input and its directory: the error it ends
  with, if it does, and its output. The gzip writer puts out one part of the compressed bytes
  while they are written to it and the rest when it is flushed.
\<close>

record 's packFs =
  walkRel :: "'s \<Rightarrow> string \<Rightarrow> string + string list"
  lstat :: "'s \<Rightarrow> string \<Rightarrow> string + fileInfo"
  evalSymlinks :: "'s \<Rightarrow> string \<Rightarrow> string \<Rightarrow> string + string"
  contentOf :: "'s \<Rightarrow> string \<Rightarrow> string + bytes"
  statSize :: "'s \<Rightarrow> string \<Rightarrow> string + int"
  createFile :: "'s \<Rightarrow> string \<Rightarrow> string option \<times> 's"
  appendTo :: "'s \<Rightarrow> string \<Rightarrow> bytes \<Rightarrow> string option \<times> 's"
  removeFile :: "'s \<Rightarrow> string \<Rightarrow> 's"
  execCpio :: "'s \<Rightarrow> string \<Rightarrow> string \<Rightarrow> string option \<times> bytes"
  gzipWritten :: "bytes \<Rightarrow> bytes"
  gzipFlushed :: "bytes \<Rightarrow> bytes"
  md5 :: "bytes \<Rightarrow> bytes"
  md5Hex :: "bytes \<Rightarrow> bytes"
  sha1Hex :: "bytes \<Rightarrow> bytes"
  sha256Hex :: "bytes \<Rightarrow> bytes"

datatype packerr =
    ReadErr string string
  | CreateErr string string
  | WriteErr string string
  | StatErr string string
  | NoSysInfo string
  | LinkErr string string
  | WalkErr string
  | CpioErr string
  | GzipErr string
  | HeaderVersion verr
  | DepsErr string
  | PackErr rpmerr
  | NameErr string

definition fileDigest :: "'s packFs \<Rightarrow> (bytes \<Rightarrow> 'd) \<Rightarrow> 's \<Rightarrow> string \<Rightarrow> packerr + 'd" where
  "fileDigest F h s path = (case contentOf F s path of Inl e \<Rightarrow> Inl (ReadErr path e) | Inr bs \<Rightarrow> Inr (h bs))"

text \<open>\<^verbatim>\<open>filepath.Base\<close> and \<^verbatim>\<open>filepath.Dir\<close>.\<close>

definition afterLastSlash :: "string \<Rightarrow> string" where
  "afterLastSlash p = rev (takeWhile (\<lambda>c. c \<noteq> CHR ''/'') (rev p))"

definition baseName :: "string \<Rightarrow> string" where
  "baseName p =
     (if p = [] then ''.''
      else
        (let q = trimRight (CHR ''/'') p; b = afterLastSlash q
         in if b = [] then ''/'' else b))"

definition dirName :: "string \<Rightarrow> string" where
  "dirName p = clean (rev (dropWhile (\<lambda>c. c \<noteq> CHR ''/'') (rev p)))"

section \<open>Files\<close>

record filesInfo =
  BaseNames :: "string list"
  DirNames :: "string list"
  DirIndexes :: "32 word list"
  FileUserNames :: "string list"
  FileGroupNames :: "string list"
  FileSizes :: "32 word list"
  FileModes :: "16 word list"
  FileInodes :: "32 word list"
  FileDevices :: "32 word list"
  FileMtimes :: "32 word list"
  FileLangs :: "string list"
  FileRdevs :: "16 word list"
  FileLinkTos :: "string list"
  FileFlags :: "32 word list"
  FileDigests :: "bytes list"

definition noFiles :: filesInfo where
  "noFiles = \<lparr>BaseNames = [], DirNames = [], DirIndexes = [], FileUserNames = [], FileGroupNames = [],
     FileSizes = [], FileModes = [], FileInodes = [], FileDevices = [], FileMtimes = [], FileLangs = [],
     FileRdevs = [], FileLinkTos = [], FileFlags = [], FileDigests = []\<rparr>"

definition addDirAndGetIndex :: "string list \<Rightarrow> string \<Rightarrow> nat \<times> string list" where
  "addDirAndGetIndex dirNames fileDir =
     (let i = length (takeWhile (\<lambda>d. d \<noteq> fileDir) dirNames)
      in if i < length dirNames then (i, dirNames) else (length dirNames, dirNames @ [fileDir]))"

definition fileFlag :: "32 word" where "fileFlag = 16"
definition dirFlag :: "32 word" where "dirFlag = 0"

text \<open>The owner and the group of a file, from what was asked for it.\<close>

definition ownerOf :: "(string \<times> string \<times> string) list \<Rightarrow> string \<Rightarrow> string \<times> string" where
  "ownerOf pkgFiles relPath =
     (case map_of pkgFiles relPath of Some og \<Rightarrow> og | None \<Rightarrow> (''root'', ''root''))"

definition addFile ::
  "'s packFs \<Rightarrow> 's \<Rightarrow> string \<Rightarrow> (string \<times> string \<times> string) list \<Rightarrow> filesInfo \<Rightarrow> string \<Rightarrow> packerr + filesInfo"
where
  "addFile F s dirPath pkgFiles info relPath =
     (let fullFilePath = joinPath dirPath relPath
      in case lstat F s fullFilePath of
           Inl e \<Rightarrow> Inl (StatErr fullFilePath e)
         | Inr fi \<Rightarrow>
             bindr (if fiRegular fi then bindr (fileDigest F (md5Hex F) s fullFilePath) (\<lambda>d. Inr (fileFlag, d))
                    else Inr (dirFlag, [])) (\<lambda>(flag, digest).
             (case fiSys fi of
                None \<Rightarrow> Inl (NoSysInfo fullFilePath)
              | Some st \<Rightarrow>
                  bindr (if fiSymlink fi then
                           (case evalSymlinks F s (dirName fullFilePath) (baseName fullFilePath) of
                              Inl e \<Rightarrow> Inl (LinkErr fullFilePath e)
                            | Inr t \<Rightarrow> Inr t)
                         else Inr []) (\<lambda>linkTo.
                  (let fileDir = CHR ''/'' # dirName relPath @ ''/'';
                       (dirIndex, dirNames) = addDirAndGetIndex (DirNames info) fileDir;
                       (own, grp) = ownerOf pkgFiles relPath
                   in Inr \<lparr>BaseNames = BaseNames info @ [baseName relPath], DirNames = dirNames,
                        DirIndexes = DirIndexes info @ [int32 (int dirIndex)],
                        FileUserNames = FileUserNames info @ [own], FileGroupNames = FileGroupNames info @ [grp],
                        FileSizes = FileSizes info @ [int32 (stSize st)],
                        FileModes = FileModes info @ [word_of_int (stMode st)],
                        FileInodes = FileInodes info @ [int32 (stIno st)],
                        FileDevices = FileDevices info @ [int32 (stDev st)],
                        FileMtimes = FileMtimes info @ [int32 (fiModTime fi)],
                        FileLangs = FileLangs info @ [[]],
                        FileRdevs = FileRdevs info @ [word_of_int (stRdev st)],
                        FileLinkTos = FileLinkTos info @ [linkTo], FileFlags = FileFlags info @ [flag],
                        FileDigests = FileDigests info @ [digest]\<rparr>)))))"

fun addFiles ::
  "'s packFs \<Rightarrow> 's \<Rightarrow> string \<Rightarrow> (string \<times> string \<times> string) list \<Rightarrow> filesInfo \<Rightarrow> string list \<Rightarrow> packerr + filesInfo"
where
  "addFiles F s dirPath pkgFiles info [] = Inr info"
| "addFiles F s dirPath pkgFiles info (p # ps) =
     bindr (addFile F s dirPath pkgFiles info p) (\<lambda>info'. addFiles F s dirPath pkgFiles info' ps)"

definition getFilesInfo where
  "getFilesInfo F s relPaths dirPath pkgFiles = addFiles F s dirPath pkgFiles noFiles relPaths"

text \<open>The directories that belong to the system are not listed in a package.\<close>

definition systemDirs :: "string list" where
  "systemDirs = [''.'', ''bin'', ''usr'', ''usr/bin'', ''usr/local'', ''usr/local/bin'', ''usr/share'',
     ''usr/share/tarantool'', ''usr/lib'', ''usr/lib/tmpfiles.d'', ''var'', ''var/lib'', ''var/run'', ''var/log'',
     ''etc'', ''etc/tarantool'', ''etc/tarantool/conf.d'', ''etc/systemd'', ''etc/systemd/system'',
     ''usr/lib/systemd'', ''usr/lib/systemd/system'']"

definition getSortedRelPaths :: "'s packFs \<Rightarrow> 's \<Rightarrow> string \<Rightarrow> packerr + string list" where
  "getSortedRelPaths F s srcDir =
     (case walkRel F s srcDir of
        Inl e \<Rightarrow> Inl (WalkErr e)
      | Inr ps \<Rightarrow> Inr (isort strLess (filter (\<lambda>p. p \<notin> set systemDirs) ps)))"

section \<open>Names and versions\<close>

text \<open>
  The part of the context of packing that an RPM depends on, and the options: the directory of
  enabled instances. \<^verbatim>\<open>git describe\<close> and the current directory are arguments.
\<close>

record packCtx =
  pcType :: string
  pcName :: string
  pcVersion :: string
  pcFileName :: string
  pcCartridgeCompat :: bool
  pcPreInst :: string
  pcPostInst :: string
  pcPkgFiles :: "(string \<times> string \<times> string) list"

definition versionRgxps :: "Regexp.rx list" where
  "versionRgxps =
     (let num = (\<lambda>n. Regexp.Cap n (Regexp.Plus Uri.isDigit)); dot = Regexp.Lit ''.''; dsh = Regexp.Lit ''-'';
          hash = Regexp.Cap ''Hash'' (Regexp.Seq (Regexp.Lit ''g'') (Regexp.Plus isWord))
      in [seqs [num ''Major''],
          seqs [num ''Major'', dot, num ''Minor''],
          seqs [num ''Major'', dot, num ''Minor'', dot, num ''Patch''],
          seqs [num ''Major'', dot, num ''Minor'', dot, num ''Patch'', dsh, num ''Count''],
          seqs [num ''Major'', dot, num ''Minor'', dot, num ''Patch'', dsh, hash],
          seqs [num ''Major'', dot, num ''Minor'', dot, num ''Patch'', dsh, num ''Count'', dsh, hash],
          seqs [Regexp.Lit ''v'', num ''Major'', dot, num ''Minor'', dot, num ''Patch'', dsh, num ''Count'', dsh, hash]])"

definition orZero :: "string \<Rightarrow> string option \<Rightarrow> string" where
  "orZero z v = (case v of None \<Rightarrow> z | Some x \<Rightarrow> x)"

definition normalizeGitVersion :: "string \<Rightarrow> string option" where
  "normalizeGitVersion packageVersion =
     (case List.map_filter (\<lambda>r. full r packageVersion) versionRgxps of
        [] \<Rightarrow> None
      | m # _ \<Rightarrow>
          (let count = orZero [] (map_of m ''Count'')
           in Some (joinSep (CHR ''.'') [orZero ''0'' (map_of m ''Major''), orZero ''0'' (map_of m ''Minor''),
                orZero ''0'' (map_of m ''Patch''), if count = [] then ''0'' else count])))"

definition getVersion ::
  "(string \<Rightarrow> string + string) \<Rightarrow> string \<Rightarrow> packCtx \<Rightarrow> string \<Rightarrow> string \<times> packCtx"
where
  "getVersion git instancesEnabled ctx defaultVersion =
     (if pcVersion ctx = [] then
        (let compat = pcCartridgeCompat ctx;
             appPath = (if instancesEnabled \<noteq> ''.'' \<and> compat then joinPath instancesEnabled (pcName ctx)
               else instancesEnabled);
             packageVersion =
               (if instancesEnabled = ''.'' \<or> compat then
                  (case git appPath of
                     Inl _ \<Rightarrow> defaultVersion
                   | Inr v \<Rightarrow>
                       if compat then (case normalizeGitVersion v of None \<Rightarrow> v | Some n \<Rightarrow> n) else v)
                else defaultVersion)
         in (packageVersion, if compat then ctx\<lparr>pcVersion := packageVersion\<rparr> else ctx))
      else (pcVersion ctx, ctx))"

definition getPackageFileName ::
  "(string \<Rightarrow> string + string) \<Rightarrow> string \<Rightarrow> string + string \<Rightarrow> packCtx \<Rightarrow> string \<Rightarrow> bool \<Rightarrow>
   (packerr + string) \<times> packCtx"
where
  "getPackageFileName git instancesEnabled cwd ctx ext addVersion =
     (if pcFileName ctx \<noteq> [] then
        (Inr (pcFileName ctx),
         if pcCartridgeCompat ctx then snd (getVersion git instancesEnabled ctx ''0.1.0.0'') else ctx)
      else
        (case (if pcName ctx \<noteq> [] then Inr (pcName ctx)
               else (case cwd of Inl e \<Rightarrow> Inl (NameErr e) | Inr d \<Rightarrow> Inr (baseName d))) of
           Inl e \<Rightarrow> (Inl e, ctx)
         | Inr name \<Rightarrow>
             (if addVersion then
                (let separator = (if pcType ctx \<in> {''tgz'', ''rpm''} then ''-'' else if pcType ctx = ''deb'' then ''_'' else []);
                     (v, ctx') = getVersion git instancesEnabled ctx ''0.1.0.0''
                 in (Inr (name @ separator @ v @ ext), ctx'))
              else (Inr (name @ ext), ctx))))"

section \<open>The header\<close>

definition getRPMRelation :: "string \<Rightarrow> 32 word" where
  "getRPMRelation relation =
     (if relation = ''>'' then 4
      else if relation = ''>='' then 4 OR 8
      else if relation = ''<'' then 2
      else if relation = ''<='' then 2 OR 8
      else if relation = ''='' \<or> relation = ''=='' then 8
      else 0)"

record packDependency =
  depName :: string
  depRelations :: "(string \<times> string) list"

definition mkTag :: "int \<Rightarrow> int \<Rightarrow> rpmValue \<Rightarrow> rpmTag" where
  "mkTag i t v = \<lparr>tagID = i, tagType = t, tagValue = v\<rparr>"

definition strTag :: "int \<Rightarrow> string \<Rightarrow> rpmTag" where
  "strTag i s = mkTag i rpmTypeString (RString (bytesOf s))"

definition strsTag :: "int \<Rightarrow> string list \<Rightarrow> rpmTag" where
  "strsTag i ss = mkTag i rpmTypeStringArray (RStrings (map bytesOf ss))"

definition intsTag :: "int \<Rightarrow> 32 word list \<Rightarrow> rpmTag" where
  "intsTag i ws = mkTag i rpmTypeInt32 (RInt32s ws)"

text \<open>One entry per relation of a dependency, and one without a version if it has none.\<close>

definition depEntries :: "packDependency \<Rightarrow> (string \<times> 32 word \<times> string) list" where
  "depEntries dep =
     (if depRelations dep = [] then [(depName dep, 0, [])]
      else map (\<lambda>(rel, ver). (depName dep, getRPMRelation rel, ver)) (depRelations dep))"

definition addDependenciesRPM :: "rpmTag list \<Rightarrow> packDependency list \<Rightarrow> rpmTag list" where
  "addDependenciesRPM rpmHeader deps =
     (if deps = [] then rpmHeader
      else
        (let es = concat (map depEntries deps)
         in rpmHeader @ [strsTag 1049 (map fst es), intsTag 1048 (map (fst \<circ> snd) es), strsTag 1050 (map (snd \<circ> snd) es)]))"

text \<open>
  The scripts of the templates, followed by those of the user. The script to run after the
  installation is read whenever one to run before it is given.
\<close>

definition addPreAndPostInstallScriptsRPM ::
  "'s packFs \<Rightarrow> 's \<Rightarrow> bytes \<Rightarrow> bytes \<Rightarrow> rpmTag list \<Rightarrow> string \<Rightarrow> string \<Rightarrow> packerr + rpmTag list"
where
  "addPreAndPostInstallScriptsRPM F s preTemplate postTemplate rpmHeader preInst postInst =
     bindr (if preInst \<noteq> [] then bindr (fileDigest F (\<lambda>b. b) s preInst) (\<lambda>b. Inr (preTemplate @ [10] @ b)) else Inr preTemplate) (\<lambda>pre.
     bindr (if preInst \<noteq> [] then bindr (fileDigest F (\<lambda>b. b) s postInst) (\<lambda>b. Inr (postTemplate @ [10] @ b)) else Inr postTemplate) (\<lambda>post.
     Inr (rpmHeader @ [mkTag 1023 rpmTypeString (RString pre), mkTag 1024 rpmTypeString (RString post)])))"

text \<open>What is given to the packer: the options, the program \<^verbatim>\<open>git\<close>, the dependencies, the templates.\<close>

record packCfg =
  pgGit :: "string \<Rightarrow> string + string"
  pgInstancesEnabled :: string
  pgCwd :: "string + string"
  pgDeps :: "string + packDependency list"
  pgPreTemplate :: bytes
  pgPostTemplate :: bytes
  pgArch :: string

definition getArch :: "string \<Rightarrow> string" where
  "getArch goarch = (if goarch = ''amd64'' then ''x86_64'' else if goarch = ''386'' then ''i386'' else ''noarch'')"

definition headerTags ::
  "string \<Rightarrow> version \<Rightarrow> string \<Rightarrow> filesInfo \<Rightarrow> int \<Rightarrow> bytes \<Rightarrow> rpmTag list"
where
  "headerTags name ver goarch info payloadSize payloadDigest =
     [strTag 1000 name,
      strTag 1001 (joinSep (CHR ''.'') [showNat (unat (Major ver)), showNat (unat (Minor ver)), showNat (unat (Patch ver))]),
      strTag 1002 (showNat (unat (relNum (Release ver)))), strTag 1004 [], strTag 1005 [],
      strTag 1014 ''N/A'', strTag 1016 ''None'', strTag 1021 ''linux'', strTag 1022 (getArch goarch),
      strTag 1124 ''cpio'', strTag 1125 ''gzip'', strTag 1126 ''5'',
      strTag 1085 ''/bin/sh'', strTag 1086 ''/bin/sh'',
      strsTag 1118 (DirNames info), strsTag 1117 (BaseNames info), intsTag 1116 (DirIndexes info),
      strsTag 1039 (FileUserNames info), strsTag 1040 (FileGroupNames info), intsTag 1028 (FileSizes info),
      mkTag 1030 rpmTypeInt16 (RInt16s (FileModes info)), intsTag 1096 (FileInodes info),
      intsTag 1095 (FileDevices info), mkTag 1033 rpmTypeInt16 (RInt16s (FileRdevs info)),
      intsTag 1034 (FileMtimes info), intsTag 1037 (FileFlags info), strsTag 1097 (FileLangs info),
      mkTag 1035 rpmTypeStringArray (RStrings (FileDigests info)), strsTag 1036 (FileLinkTos info),
      intsTag 1009 [int32 payloadSize], mkTag 5092 rpmTypeStringArray (RStrings [payloadDigest]), intsTag 5093 [8]]"

definition fileSize :: "'s packFs \<Rightarrow> 's \<Rightarrow> string \<Rightarrow> packerr + int" where
  "fileSize F s path = (case statSize F s path of Inl e \<Rightarrow> Inl (StatErr path e) | Inr n \<Rightarrow> Inr n)"

definition genRpmHeader ::
  "'s packFs \<Rightarrow> packCfg \<Rightarrow> 's \<Rightarrow> string list \<Rightarrow> string \<Rightarrow> string \<Rightarrow> string \<Rightarrow> packCtx \<Rightarrow>
   (packerr + rpmTag list) \<times> packCtx"
where
  "genRpmHeader F G s relPaths cpioPath compresedCpioPath packageFilesDir ctx =
     (case bindr (fileDigest F (sha256Hex F) s compresedCpioPath) (\<lambda>digest.
           bindr (fileSize F s cpioPath) (\<lambda>sz.
           bindr (getFilesInfo F s relPaths packageFilesDir (pcPkgFiles ctx)) (\<lambda>info.
           Inr (digest, sz, info)))) of
        Inl e \<Rightarrow> (Inl e, ctx)
      | Inr (digest, sz, info) \<Rightarrow>
          (let (versionString, ctx1) = getVersion (pgGit G) (pgInstancesEnabled G) ctx ''0.1.0''
           in case Parse versionString of
                Inl e \<Rightarrow> (Inl (HeaderVersion e), ctx1)
              | Inr ver \<Rightarrow>
                  (case getPackageFileName (pgGit G) (pgInstancesEnabled G) (pgCwd G) ctx1 [] False of
                     (Inl e, ctx2) \<Rightarrow> (Inl e, ctx2)
                   | (Inr name, ctx2) \<Rightarrow>
                       (bindr (case pgDeps G of Inl e \<Rightarrow> Inl (DepsErr e) | Inr ds \<Rightarrow> Inr ds) (\<lambda>deps.
                        addPreAndPostInstallScriptsRPM F s (pgPreTemplate G) (pgPostTemplate G)
                          (addDependenciesRPM (headerTags name ver (pgArch G) info sz digest) deps)
                          (pcPreInst ctx2) (pcPostInst ctx2)), ctx2))))"

section \<open>The file\<close>

definition genSignature :: "'s packFs \<Rightarrow> 's \<Rightarrow> string \<Rightarrow> string \<Rightarrow> string \<Rightarrow> packerr + rpmTag list" where
  "genSignature F s rpmBodyFilePath rpmHeaderFilePath cpioPath =
     bindr (fileDigest F (sha1Hex F) s rpmHeaderFilePath) (\<lambda>sha1.
     bindr (fileSize F s rpmBodyFilePath) (\<lambda>rpmBodyFileSize.
     bindr (fileSize F s cpioPath) (\<lambda>cpioSize.
     bindr (fileDigest F (md5 F) s rpmBodyFilePath) (\<lambda>md5sum.
     Inr [mkTag 269 rpmTypeString (RString sha1), intsTag 1000 [int32 rpmBodyFileSize],
          intsTag 1007 [int32 cpioSize], mkTag 1004 rpmTypeBin (RBytes md5sum)]))))"

text \<open>Creating a file (an existing one is truncated) and writing to it.\<close>

definition writeFile :: "'s packFs \<Rightarrow> 's \<Rightarrow> string \<Rightarrow> bytes \<Rightarrow> packerr option \<times> 's" where
  "writeFile F s path bs =
     (case createFile F s path of
        (Some e, s1) \<Rightarrow> (Some (CreateErr path e), s1)
      | (None, s1) \<Rightarrow>
          (case appendTo F s1 path bs of
             (Some e, s2) \<Rightarrow> (Some (WriteErr path e), s2)
           | (None, s2) \<Rightarrow> (None, s2)))"

fun mergeLoop :: "'s packFs \<Rightarrow> string \<Rightarrow> 's \<Rightarrow> string list \<Rightarrow> packerr option \<times> 's" where
  "mergeLoop F dest s [] = (None, s)"
| "mergeLoop F dest s (p # ps) =
     (case contentOf F s p of
        Inl e \<Rightarrow> (Some (ReadErr p e), removeFile F s dest)
      | Inr bs \<Rightarrow>
          (case appendTo F s dest bs of
             (Some e, s') \<Rightarrow> (Some (WriteErr dest e), s')
           | (None, s') \<Rightarrow> mergeLoop F dest s' ps))"

definition MergeFiles :: "'s packFs \<Rightarrow> 's \<Rightarrow> string \<Rightarrow> string list \<Rightarrow> packerr option \<times> 's" where
  "MergeFiles F s destFilePath srcFilePaths =
     (case createFile F s destFilePath of
        (Some e, s1) \<Rightarrow> (Some (CreateErr destFilePath e), removeFile F s1 destFilePath)
      | (None, s1) \<Rightarrow> mergeLoop F destFilePath s1 srcFilePaths)"

text \<open>The steps of packing after the header: the body, the signature, the lead and the result.\<close>

definition packBody ::
  "'s packFs \<Rightarrow> 's \<Rightarrow> string \<Rightarrow> bytes \<Rightarrow> (packerr + rpmTag list) \<times> 's"
where
  "packBody F s packageDir packedHeader =
     (let headerPath = joinPath packageDir ''header''; bodyPath = joinPath packageDir ''body'';
          cpioPath = joinPath packageDir ''cpio''; gzPath = joinPath packageDir ''cpio.gz''
      in case writeFile F s headerPath packedHeader of
           (Some e, s1) \<Rightarrow> (Inl e, s1)
         | (None, s1) \<Rightarrow>
             (case MergeFiles F s1 bodyPath [headerPath, gzPath] of
                (Some e, s2) \<Rightarrow> (Inl e, s2)
              | (None, s2) \<Rightarrow> (genSignature F s2 bodyPath headerPath cpioPath, s2)))"

definition packLead ::
  "'s packFs \<Rightarrow> 's \<Rightarrow> string \<Rightarrow> string \<Rightarrow> bytes \<Rightarrow> string \<Rightarrow> packerr option \<times> 's"
where
  "packLead F s packageDir name packedSignature resPackagePath =
     (case genRpmLead (bytesOf name) of
        Inl e \<Rightarrow> (Some (PackErr e), s)
      | Inr lead \<Rightarrow>
          (let leadPath = joinPath packageDir ''lead''
           in case writeFile F s leadPath (lead @ packedSignature) of
                (Some e, s1) \<Rightarrow> (Some e, s1)
              | (None, s1) \<Rightarrow> MergeFiles F s1 resPackagePath [leadPath, joinPath packageDir ''body'']))"

text \<open>The list of files is the input of \<^verbatim>\<open>cpio\<close>, and what it prints becomes the archive.\<close>

definition packCpio :: "'s packFs \<Rightarrow> 's \<Rightarrow> string list \<Rightarrow> string \<Rightarrow> string \<Rightarrow> string option \<times> 's" where
  "packCpio F s relPaths resFileName packageFilesDir =
     (case createFile F s resFileName of
        (Some e, s1) \<Rightarrow> (Some e, s1)
      | (None, s1) \<Rightarrow>
          (case execCpio F s1 (joinSep (CHR 0x0A) relPaths) packageFilesDir of
             (err, out) \<Rightarrow>
               (case appendTo F s1 resFileName out of
                  (Some e, s2) \<Rightarrow> (Some e, s2)
                | (None, s2) \<Rightarrow> (err, s2))))"

text \<open>
  The writer is only flushed at the end, and the error of that is not looked at; an error before
  removes the result.
\<close>

definition CompressGzip :: "'s packFs \<Rightarrow> 's \<Rightarrow> string \<Rightarrow> string \<Rightarrow> string option \<times> 's" where
  "CompressGzip F s srcFilePath destFilePath =
     (case contentOf F s srcFilePath of
        Inl e \<Rightarrow> (Some e, s)
      | Inr bs \<Rightarrow>
          (case createFile F s destFilePath of
             (Some e, s1) \<Rightarrow> (Some e, s1)
           | (None, s1) \<Rightarrow>
               (case appendTo F s1 destFilePath (gzipWritten F bs) of
                  (Some e, s2) \<Rightarrow> (Some e, removeFile F s2 destFilePath)
                | (None, s2) \<Rightarrow> (None, snd (appendTo F s2 destFilePath (gzipFlushed F bs))))))"

definition packRpm ::
  "'s packFs \<Rightarrow> packCfg \<Rightarrow> packCtx \<Rightarrow> string \<Rightarrow> string \<Rightarrow> 's \<Rightarrow> packerr option \<times> packCtx \<times> 's"
where
  "packRpm F G ctx packageDir resPackagePath s =
     (let cpioPath = joinPath packageDir ''cpio''; gzPath = joinPath packageDir ''cpio.gz''
      in case getSortedRelPaths F s packageDir of
           Inl e \<Rightarrow> (Some e, ctx, s)
         | Inr relPaths \<Rightarrow>
      (case packCpio F s relPaths cpioPath packageDir of
           (Some e, s1) \<Rightarrow> (Some (CpioErr e), ctx, s1)
         | (None, s1) \<Rightarrow>
      (case CompressGzip F s1 cpioPath gzPath of
           (Some e, s2) \<Rightarrow> (Some (GzipErr e), ctx, s2)
         | (None, s2) \<Rightarrow>
      (case genRpmHeader F G s2 relPaths cpioPath gzPath packageDir ctx of
           (Inl e, ctx1) \<Rightarrow> (Some e, ctx1, s2)
         | (Inr rpmHeader, ctx1) \<Rightarrow>
      (case packTagSet rpmHeader 63 of
           Inl e \<Rightarrow> (Some (PackErr e), ctx1, s2)
         | Inr packedHeader \<Rightarrow>
      (case packBody F s2 packageDir packedHeader of
           (Inl e, s3) \<Rightarrow> (Some e, ctx1, s3)
         | (Inr sig, s3) \<Rightarrow>
      (case packTagSet sig 62 of
           Inl e \<Rightarrow> (Some (PackErr e), ctx1, s3)
         | Inr packedSignature \<Rightarrow>
      (case getPackageFileName (pgGit G) (pgInstancesEnabled G) (pgCwd G) ctx1 [] False of
           (Inl e, ctx2) \<Rightarrow> (Some e, ctx2, s3)
         | (Inr name, ctx2) \<Rightarrow>
             (case packLead F s3 packageDir name (alignData packedSignature 8) resPackagePath of
                (err, s4) \<Rightarrow> (err, ctx2, s4))))))))))"

section \<open>What is assumed of files\<close>

text \<open>
  A created file is empty, appending adds to the end, neither touches another file, and the size
  of a file is the number of its bytes.
\<close>

definition plainFiles :: "'s packFs \<Rightarrow> bool" where
  "plainFiles F \<longleftrightarrow>
     (\<forall>s p s'. createFile F s p = (None, s') \<longrightarrow>
        contentOf F s' p = Inr [] \<and> (\<forall>q. q \<noteq> p \<longrightarrow> contentOf F s' q = contentOf F s q)) \<and>
     (\<forall>s p bs s' old. appendTo F s p bs = (None, s') \<and> contentOf F s p = Inr old \<longrightarrow>
        contentOf F s' p = Inr (old @ bs) \<and> (\<forall>q. q \<noteq> p \<longrightarrow> contentOf F s' q = contentOf F s q)) \<and>
     (\<forall>s p bs. contentOf F s p = Inr bs \<longrightarrow> statSize F s p = Inr (int (length bs)))"

lemma plain_create:
  "plainFiles F \<Longrightarrow> createFile F s p = (None, s') \<Longrightarrow> contentOf F s' p = Inr []"
  "plainFiles F \<Longrightarrow> createFile F s p = (None, s') \<Longrightarrow> q \<noteq> p \<Longrightarrow> contentOf F s' q = contentOf F s q"
  unfolding plainFiles_def by blast+

lemma plain_append:
  "plainFiles F \<Longrightarrow> appendTo F s p bs = (None, s') \<Longrightarrow> contentOf F s p = Inr old \<Longrightarrow> contentOf F s' p = Inr (old @ bs)"
  "plainFiles F \<Longrightarrow> appendTo F s p bs = (None, s') \<Longrightarrow> contentOf F s p = Inr old \<Longrightarrow> q \<noteq> p \<Longrightarrow>
     contentOf F s' q = contentOf F s q"
  unfolding plainFiles_def by blast+

lemma plain_size: "plainFiles F \<Longrightarrow> contentOf F s p = Inr bs \<Longrightarrow> fileSize F s p = Inr (int (length bs))"
proof -
  assume "plainFiles F" "contentOf F s p = Inr bs"
  then have "statSize F s p = Inr (int (length bs))" unfolding plainFiles_def by blast
  then show ?thesis by (simp add: fileSize_def)
qed

lemma writeFile_content:
  assumes "plainFiles F" and "writeFile F s p bs = (None, s')"
  shows "contentOf F s' p = Inr bs" and "q \<noteq> p \<Longrightarrow> contentOf F s' q = contentOf F s q"
proof -
  obtain e s1 where c: "createFile F s p = (e, s1)" by fastforce
  obtain e' s2 where a: "appendTo F s1 p bs = (e', s2)" by fastforce
  from assms(2) have 1: "createFile F s p = (None, s1)" "appendTo F s1 p bs = (None, s')"
    by (simp_all add: writeFile_def c a split: option.splits)
  note c = plain_create [OF assms(1) 1(1)] and a = plain_append [OF assms(1) 1(2)]
  show "contentOf F s' p = Inr bs" using a(1) [OF c(1)] by simp
  show "q \<noteq> p \<Longrightarrow> contentOf F s' q = contentOf F s q" using a(2) [OF c(1)] c(2) by simp
qed

lemma mergeLoop_content:
  assumes "plainFiles F" and "mergeLoop F dest s ps = (None, s')" and "contentOf F s dest = Inr acc" and "dest \<notin> set ps"
  shows "(\<exists>bss. list_all2 (\<lambda>p b. contentOf F s p = Inr b) ps bss \<and> contentOf F s' dest = Inr (acc @ concat bss)) \<and>
    (\<forall>q. q \<noteq> dest \<longrightarrow> contentOf F s' q = contentOf F s q)"
  using assms(2-4)
proof (induction ps arbitrary: s acc)
  case Nil
  then show ?case by auto
next
  case (Cons p ps)
  from Cons.prems(1) obtain bs s1 where s1: "contentOf F s p = Inr bs" "appendTo F s dest bs = (None, s1)"
    "mergeLoop F dest s1 ps = (None, s')" by (auto split: sum.splits prod.splits option.splits)
  note a = plain_append [OF assms(1) s1(2) Cons.prems(2)]
  from Cons.IH [OF s1(3) a(1)] Cons.prems(3) obtain bss where
    l: "list_all2 (\<lambda>p b. contentOf F s1 p = Inr b) ps bss" and d: "contentOf F s' dest = Inr ((acc @ bs) @ concat bss)"
    and o: "\<forall>q. q \<noteq> dest \<longrightarrow> contentOf F s' q = contentOf F s1 q" by auto
  have "contentOf F s1 x = contentOf F s x" if "x \<in> set ps" for x using a(2) [of x] Cons.prems(3) that by (cases "x = dest") auto
  then have "list_all2 (\<lambda>p b. contentOf F s p = Inr b) ps bss"
    using l by (simp add: list_all2_conv_all_nth)
  with s1(1) d have "list_all2 (\<lambda>p b. contentOf F s p = Inr b) (p # ps) (bs # bss) \<and>
      contentOf F s' dest = Inr (acc @ concat (bs # bss))" by simp
  moreover have "\<forall>q. q \<noteq> dest \<longrightarrow> contentOf F s' q = contentOf F s q" using a(2) o by simp
  ultimately show ?case by blast
qed

lemma MergeFiles_content:
  assumes "plainFiles F" and "MergeFiles F s dest [p, q] = (None, s')" and "dest \<noteq> p" and "dest \<noteq> q"
  shows "\<exists>b c. contentOf F s p = Inr b \<and> contentOf F s q = Inr c \<and> contentOf F s' dest = Inr (b @ c)"
    and "r \<noteq> dest \<Longrightarrow> contentOf F s' r = contentOf F s r"
proof -
  from assms(2) obtain s1 where 1: "createFile F s dest = (None, s1)" "mergeLoop F dest s1 [p, q] = (None, s')"
    by (auto simp: MergeFiles_def split: prod.splits option.splits)
  note c = plain_create [OF assms(1) 1(1)]
  have m: "\<exists>bss. list_all2 (\<lambda>p b. contentOf F s1 p = Inr b) [p, q] bss \<and> contentOf F s' dest = Inr ([] @ concat bss)"
      "\<forall>q. q \<noteq> dest \<longrightarrow> contentOf F s' q = contentOf F s1 q"
    using mergeLoop_content [OF assms(1) 1(2) c(1)] assms(3,4) by auto
  from m(1) obtain b d where "contentOf F s1 p = Inr b" "contentOf F s1 q = Inr d" "contentOf F s' dest = Inr (b @ d)"
    by (auto simp: list_all2_Cons1)
  with c(2) [of p] c(2) [of q] assms(3,4)
  show "\<exists>b c. contentOf F s p = Inr b \<and> contentOf F s q = Inr c \<and> contentOf F s' dest = Inr (b @ c)" by metis
  show "r \<noteq> dest \<Longrightarrow> contentOf F s' r = contentOf F s r" using m(2) c(2) by simp
qed

section \<open>The paths of the parts\<close>

lemma splitAll_snoc: "sep \<notin> set n \<Longrightarrow> splitAll sep (d @ sep # n) = splitAll sep d @ [n]"
proof (induction d)
  case Nil
  have "splitAll sep n = [n]" using Nil by (induction n) auto
  then show ?case by simp
next
  case (Cons c d)
  obtain p ps where "splitAll sep d = p # ps" by (metis neq_Nil_conv splitAll_nonempty)
  with Cons show ?case by simp
qed

lemma joinSep_snoc: "\<exists>x. joinSep sep (xs @ [n]) = x @ n \<and> (x = [] \<or> last x = sep)"
proof (induction xs)
  case Nil
  then show ?case by simp
next
  case (Cons p xs)
  then obtain x where x: "joinSep sep (xs @ [n]) = x @ n" "x = [] \<or> last x = sep" by blast
  obtain q qs where "xs @ [n] = q # qs" by (cases "xs @ [n]") auto
  with x have "joinSep sep ((p # xs) @ [n]) = (p @ sep # x) @ n" by simp
  moreover have "last (p @ sep # x) = sep" using x(2) by (cases x) auto
  ultimately show ?case by blast
qed

lemma afterLastSlash_append:
  "CHR ''/'' \<notin> set n \<Longrightarrow> x = [] \<or> last x = CHR ''/'' \<Longrightarrow> afterLastSlash (x @ n) = n"
proof -
  assume n: "CHR ''/'' \<notin> set n" and x: "x = [] \<or> last x = CHR ''/''"
  have "takeWhile (\<lambda>c. c \<noteq> CHR ''/'') (rev x) = []" using x by (cases x rule: rev_cases) auto
  moreover have "\<forall>c \<in> set (rev n). c \<noteq> CHR ''/''" using n by auto
  ultimately show ?thesis
    using takeWhile_append2 [of "rev n" "\<lambda>c. c \<noteq> CHR ''/''" "rev x"] by (simp add: afterLastSlash_def)
qed

lemma joinPath_last:
  assumes "CHR ''/'' \<notin> set n" and "n \<noteq> []" and "n \<noteq> ''.''" and "n \<noteq> ''..''"
  shows "afterLastSlash (joinPath d n) = n"
proof -
  have step: "cleanStep r out n = n # out" for r out using assms(2-4) by (simp add: cleanStep_def)
  have body: "\<exists>x. joinSep (CHR ''/'') (rev (foldl (cleanStep r) [] (xs @ [n]))) = x @ n \<and> (x = [] \<or> last x = CHR ''/'')" for r xs
    using joinSep_snoc by (simp add: step)
  have "\<exists>x. clean p = x @ n \<and> (x = [] \<or> last x = CHR ''/'')" if "splitAll (CHR ''/'') p = xs @ [n]" for p xs
  proof -
    let ?r = "p \<noteq> [] \<and> hd p = CHR ''/''"
    obtain x where x: "joinSep (CHR ''/'') (rev (foldl (cleanStep ?r) [] (xs @ [n]))) = x @ n" "x = [] \<or> last x = CHR ''/''"
      using body by blast
    then have "clean p = (if ?r then CHR ''/'' # x else x) @ n" using assms(2) by (auto simp: clean_def that Let_def)
    moreover have "(if ?r then CHR ''/'' # x else x) = [] \<or> last (if ?r then CHR ''/'' # x else x) = CHR ''/''" using x(2) by auto
    ultimately show ?thesis by blast
  qed
  note clean = this
  have "splitAll (CHR ''/'') n = [] @ [n]" using splitAll_snoc [of "CHR ''/''" n "[]"] assms(1) by simp
  from clean [OF this] have 1: "afterLastSlash (clean n) = n" using afterLastSlash_append [OF assms(1)] by metis
  from clean [OF splitAll_snoc [OF assms(1), of d]]
  have 2: "afterLastSlash (clean (d @ CHR ''/'' # n)) = n" using afterLastSlash_append [OF assms(1)] by metis
  from 1 2 assms(2) show ?thesis by (simp add: joinPath_def)
qed

lemma part_paths:
  "joinPath d ''header'' \<noteq> joinPath d ''body''" "joinPath d ''cpio.gz'' \<noteq> joinPath d ''body''"
  "joinPath d ''cpio.gz'' \<noteq> joinPath d ''header''" "joinPath d ''lead'' \<noteq> joinPath d ''body''"
proof -
  have l: "afterLastSlash (joinPath d ''header'') = ''header''" "afterLastSlash (joinPath d ''body'') = ''body''"
    "afterLastSlash (joinPath d ''cpio.gz'') = ''cpio.gz''" "afterLastSlash (joinPath d ''lead'') = ''lead''"
    by (rule joinPath_last; simp)+
  show "joinPath d ''header'' \<noteq> joinPath d ''body''" "joinPath d ''cpio.gz'' \<noteq> joinPath d ''body''"
    "joinPath d ''cpio.gz'' \<noteq> joinPath d ''header''" "joinPath d ''lead'' \<noteq> joinPath d ''body''"
    by (rule notI, drule arg_cong [of _ _ afterLastSlash], simp add: l)+
qed

section \<open>The layout of a package\<close>

lemma genSignature_content:
  assumes "plainFiles F" and "genSignature F s body hdr cpio = Inr sig" and "contentOf F s body = Inr b" and "contentOf F s hdr = Inr h"
  shows "\<exists>n. fileSize F s cpio = Inr n \<and> sig = [mkTag 269 rpmTypeString (RString (sha1Hex F h)), intsTag 1000 [int32 (int (length b))],
      intsTag 1007 [int32 n], mkTag 1004 rpmTypeBin (RBytes (md5 F b))]"
  using assms(2) plain_size [OF assms(1,3)] assms(3,4)
  by (auto simp: genSignature_def fileDigest_def bindr_eq_Inr)

lemma genRpmHeader_digest:
  assumes "genRpmHeader F G s ps cpio gz dir ctx = (Inr tags, ctx')" and "contentOf F s gz = Inr payload"
  shows "mkTag 5092 rpmTypeStringArray (RStrings [sha256Hex F payload]) \<in> set tags"
proof -
  have d: "fileDigest F (sha256Hex F) s gz = Inr (sha256Hex F payload)" using assms(2) by (simp add: fileDigest_def)
  from assms(1) obtain name ver info sz deps pre post where
    "addPreAndPostInstallScriptsRPM F s (pgPreTemplate G) (pgPostTemplate G)
       (addDependenciesRPM (headerTags name ver (pgArch G) info sz (sha256Hex F payload)) deps) pre post = Inr tags"
    by (auto simp: genRpmHeader_def d bindr_eq_Inr Let_def split: sum.splits prod.splits)
  then have "set (headerTags name ver (pgArch G) info sz (sha256Hex F payload)) \<subseteq> set tags"
    by (auto simp: addPreAndPostInstallScriptsRPM_def addDependenciesRPM_def bindr_eq_Inr Let_def)
  moreover have "mkTag 5092 rpmTypeStringArray (RStrings [sha256Hex F payload]) \<in>
      set (headerTags name ver (pgArch G) info sz (sha256Hex F payload))" by (simp add: headerTags_def)
  ultimately show ?thesis by blast
qed

lemma genRpmLead_length: "genRpmLead name = Inr lead \<Longrightarrow> length lead = 96"
  by (auto simp: genRpmLead_def packValues_def Let_def split: if_splits)

text \<open>
  Property C38: a package that was made without an error consists of the lead of 96 bytes, the
  packed signature filled up to a multiple of eight, the packed header and the compressed
  payload, in this order. The signature holds the SHA1 of exactly this header and the size and
  the MD5 of exactly header and payload, and the header the SHA256 of the payload, under what is
  assumed of files and if the package is not written over its own parts.
\<close>

theorem packRpm_layout:
  assumes "plainFiles F" and "packRpm F G ctx dir res s = (None, ctx', s')"
    and "res \<noteq> joinPath dir ''lead''" and "res \<noteq> joinPath dir ''body''"
  shows "\<exists>lead sigTags sig hdrTags hdr payload n.
    contentOf F s' res = Inr (lead @ alignData sig 8 @ hdr @ payload) \<and>
    length lead = 96 \<and> length (lead @ alignData sig 8) mod 8 = 0 \<and>
    packTagSet sigTags 62 = Inr sig \<and> packTagSet hdrTags 63 = Inr hdr \<and>
    sigTags = [mkTag 269 rpmTypeString (RString (sha1Hex F hdr)), intsTag 1000 [int32 (int (length (hdr @ payload)))],
      intsTag 1007 [int32 n], mkTag 1004 rpmTypeBin (RBytes (md5 F (hdr @ payload)))] \<and>
    mkTag 5092 rpmTypeStringArray (RStrings [sha256Hex F payload]) \<in> set hdrTags"
proof -
  let ?cpio = "joinPath dir ''cpio''" and ?gz = "joinPath dir ''cpio.gz''" and ?h = "joinPath dir ''header''"
    and ?b = "joinPath dir ''body''" and ?l = "joinPath dir ''lead''"
  from assms(2) obtain ps s2 hdrTags ctx1 hdr sigTags s3 sig name ctx2 where
    g: "genRpmHeader F G s2 ps ?cpio ?gz dir ctx = (Inr hdrTags, ctx1)" and
    h: "packTagSet hdrTags 63 = Inr hdr" and
    pb: "packBody F s2 dir hdr = (Inr sigTags, s3)" and
    sg: "packTagSet sigTags 62 = Inr sig" and
    pl: "packLead F s3 dir name (alignData sig 8) res = (None, s')"
    unfolding packRpm_def Let_def
    by (auto split: sum.splits prod.splits option.splits)
  from pb obtain s1 where w: "writeFile F s2 ?h hdr = (None, s1)" and m: "MergeFiles F s1 ?b [?h, ?gz] = (None, s3)"
    and gs: "genSignature F s3 ?b ?h ?cpio = Inr sigTags"
    unfolding packBody_def Let_def by (auto split: prod.splits option.splits)
  note wc = writeFile_content [OF assms(1) w]
  have "?b \<noteq> ?h" "?b \<noteq> ?gz" using part_paths [of dir] by metis+
  note mc = MergeFiles_content [OF assms(1) m this]
  from mc(1) wc obtain payload where pay: "contentOf F s2 ?gz = Inr payload" and body: "contentOf F s3 ?b = Inr (hdr @ payload)"
    using part_paths(3) [of dir] by auto
  have "contentOf F s3 ?h = Inr hdr" using mc(2) [of ?h] wc(1) part_paths(1) [of dir] by simp
  from genSignature_content [OF assms(1) gs body this] obtain n where
    sig: "sigTags = [mkTag 269 rpmTypeString (RString (sha1Hex F hdr)), intsTag 1000 [int32 (int (length (hdr @ payload)))],
      intsTag 1007 [int32 n], mkTag 1004 rpmTypeBin (RBytes (md5 F (hdr @ payload)))]" by blast
  from pl obtain lead s4 where lead: "genRpmLead (bytesOf name) = Inr lead"
    and lw: "writeFile F s3 ?l (lead @ alignData sig 8) = (None, s4)" and lm: "MergeFiles F s4 res [?l, ?b] = (None, s')"
    unfolding packLead_def Let_def by (auto split: sum.splits prod.splits option.splits)
  note lc = writeFile_content [OF assms(1) lw]
  from MergeFiles_content(1) [OF assms(1) lm assms(3,4)] lc body part_paths(4) [of dir]
  have res: "contentOf F s' res = Inr (lead @ alignData sig 8 @ hdr @ payload)" by fastforce
  have l96: "length lead = 96" using genRpmLead_length [OF lead] .
  then have "length (lead @ alignData sig 8) mod 8 = 0" using alignData_props(2) [of 8 sig] by (simp add: mod_add_eq [symmetric])
  with res l96 sg h sig genRpmHeader_digest [OF g pay] show ?thesis
    by (intro exI [of _ lead] exI [of _ sigTags] exI [of _ sig] exI [of _ hdrTags] exI [of _ hdr] exI [of _ payload]
        exI [of _ n] conjI)
qed

text \<open>Files as a list of their contents, with hash functions that only take the length.\<close>

definition memFs :: "(string \<times> bytes) list packFs" where
  "memFs =
     \<lparr>walkRel = (\<lambda>s d. Inr []), lstat = (\<lambda>s p. Inl ''no''), evalSymlinks = (\<lambda>s d p. Inl ''no''),
      contentOf = (\<lambda>s p. case map_of s p of None \<Rightarrow> Inl ''no'' | Some bs \<Rightarrow> Inr bs),
      statSize = (\<lambda>s p. case map_of s p of None \<Rightarrow> Inl ''no'' | Some bs \<Rightarrow> Inr (int (length bs))),
      createFile = (\<lambda>s p. (None, AList.update p [] s)),
      appendTo = (\<lambda>s p bs. case map_of s p of None \<Rightarrow> (Some ''no'', s) | Some old \<Rightarrow> (None, AList.update p (old @ bs) s)),
      removeFile = (\<lambda>s p. AList.delete p s),
      execCpio = (\<lambda>s inp d. (None, [1, 2])), gzipWritten = (\<lambda>bs. [3]), gzipFlushed = (\<lambda>bs. []),
      md5 = (\<lambda>bs. [of_nat (length bs)]), md5Hex = (\<lambda>bs. [7]), sha1Hex = (\<lambda>bs. [8]), sha256Hex = (\<lambda>bs. [9])\<rparr>"

lemma memFs_plain: "plainFiles memFs"
  by (auto simp: plainFiles_def memFs_def map_of_update split: option.splits)

definition demoCtx :: packCtx where
  "demoCtx = \<lparr>pcType = ''rpm'', pcName = ''app'', pcVersion = ''1.2.3'', pcFileName = [], pcCartridgeCompat = False,
     pcPreInst = [], pcPostInst = [], pcPkgFiles = []\<rparr>"

definition demoCfg :: packCfg where
  "demoCfg = \<lparr>pgGit = (\<lambda>p. Inl ''no''), pgInstancesEnabled = ''.'', pgCwd = Inl ''no'',
     pgDeps = Inr [\<lparr>depName = ''tarantool'', depRelations = [(''>='', ''2'')]\<rparr>], pgPreTemplate = [], pgPostTemplate = [],
     pgArch = ''amd64''\<rparr>"

lemma mkTag_ok [simp]:
  "is_ok (packTag (strTag i x))" "is_ok (packTag (strsTag i xs))" "is_ok (packTag (intsTag i ws))"
  "is_ok (packTag (mkTag i rpmTypeString (RString b)))" "is_ok (packTag (mkTag i rpmTypeStringArray (RStrings bs)))"
  "is_ok (packTag (mkTag i rpmTypeInt16 (RInt16s hs)))" "is_ok (packTag (mkTag i rpmTypeBin (RBytes b)))"
  by (simp_all add: packTag_def strTag_def strsTag_def intsTag_def mkTag_def rpmTypes)

lemma demoHeader:
  assumes "contentOf memFs s ''d/cpio.gz'' = Inr [3]" and "statSize memFs s ''d/cpio'' = Inr 2"
  shows "\<exists>tags. genRpmHeader memFs demoCfg s [] ''d/cpio'' ''d/cpio.gz'' ''d'' demoCtx = (Inr tags, demoCtx) \<and>
    (\<forall>t \<in> set tags. is_ok (packTag t))"
proof -
  have "is_ok (Parse ''1.2.3'')" by code_simp
  then obtain ver where v: "Parse ''1.2.3'' = Inr ver" by (auto simp: is_ok_iff)
  show ?thesis
    using assms
    by (simp add: genRpmHeader_def fileDigest_def fileSize_def getFilesInfo_def getVersion_def demoCtx_def v
        getPackageFileName_def demoCfg_def addPreAndPostInstallScriptsRPM_def addDependenciesRPM_def headerTags_def Let_def)
qed

lemma demoPaths: "joinPath ''d'' ''cpio'' = ''d/cpio''" "joinPath ''d'' ''cpio.gz'' = ''d/cpio.gz''"
  "joinPath ''d'' ''header'' = ''d/header''" "joinPath ''d'' ''body'' = ''d/body''" "joinPath ''d'' ''lead'' = ''d/lead''"
  by code_simp+

lemma demoRpm_packs: "\<exists>s'. packRpm memFs demoCfg demoCtx ''d'' ''out.rpm'' [] = (None, demoCtx, s')"
proof -
  let ?s = "[(''d/cpio'', [1, 2]), (''d/cpio.gz'', [3])] :: (string \<times> bytes) list"
  obtain tags where g: "genRpmHeader memFs demoCfg ?s [] ''d/cpio'' ''d/cpio.gz'' ''d'' demoCtx = (Inr tags, demoCtx)"
    and "\<forall>t \<in> set tags. is_ok (packTag t)" using demoHeader [of ?s] by (auto simp: memFs_def)
  with packTagSet_ok obtain hdr where h: "packTagSet tags 63 = Inr hdr" by blast
  let ?s3 = "?s @ [(''d/header'', hdr), (''d/body'', hdr @ [3])]"
  let ?sig = "[mkTag 269 rpmTypeString (RString [8]), intsTag 1000 [int32 (1 + int (length hdr))], intsTag 1007 [int32 2],
    mkTag 1004 rpmTypeBin (RBytes [of_nat (length hdr + 1)])]"
  have pb: "packBody memFs ?s ''d'' hdr = (Inr ?sig, ?s3)"
    by (simp add: packBody_def demoPaths writeFile_def MergeFiles_def genSignature_def fileDigest_def fileSize_def memFs_def Let_def)
  have "\<forall>t \<in> set ?sig. is_ok (packTag t)" by simp
  from packTagSet_ok [OF this] obtain bs where b: "packTagSet ?sig 62 = Inr bs" by blast
  obtain s4 where "packLead memFs ?s3 ''d'' ''app'' (alignData bs 8) ''out.rpm'' = (None, s4)"
    by (simp add: packLead_def genRpmLead_def bytesOf_def demoPaths writeFile_def MergeFiles_def memFs_def Let_def)
  with g h pb b show ?thesis
    by (simp add: packRpm_def packCpio_def CompressGzip_def demoPaths getSortedRelPaths_def isort_def memFs_def getPackageFileName_def demoCtx_def Let_def)
qed

theorem packRpm_layout_witness:
  "\<exists>s' lead sig hdr payload. contentOf memFs s' ''out.rpm'' = Inr (lead @ alignData sig 8 @ hdr @ payload) \<and> length lead = 96"
proof -
  obtain s' where "packRpm memFs demoCfg demoCtx ''d'' ''out.rpm'' [] = (None, demoCtx, s')" using demoRpm_packs by blast
  moreover have "''out.rpm'' \<noteq> joinPath ''d'' ''lead''" "''out.rpm'' \<noteq> joinPath ''d'' ''body''" by (simp_all add: demoPaths)
  ultimately show ?thesis using packRpm_layout [OF memFs_plain] by blast
qed

end
