(* ===== verification/Layout.thy ===== *)
theory Layout
  imports RpmFile
begin

text \<open>
  Where the files of an instance are: the layouts of \<^verbatim>\<open>cli/running/internal/layout\<close>, the path
  functions of \<^verbatim>\<open>cli/util/util.go\<close> that they and \<^verbatim>\<open>cli/running\<close> use, and the templates of
  \<^verbatim>\<open>cli/util/regexputil\<close>.
\<close>

section \<open>Paths\<close>

definition isAbs :: "string \<Rightarrow> bool" where
  "isAbs p \<longleftrightarrow> p \<noteq> [] \<and> hd p = CHR ''/''"

definition JoinPaths :: "string list \<Rightarrow> string" where
  "JoinPaths ps = foldl (\<lambda>path pathPart. if isAbs pathPart then pathPart else joinPath path pathPart) [] ps"

text \<open>\<^verbatim>\<open>filepath.Abs\<close>, with the current directory as an argument.\<close>

definition absPath :: "string + string \<Rightarrow> string \<Rightarrow> string + string" where
  "absPath cwd p = (if isAbs p then Inr (clean p) else bindr cwd (\<lambda>d. Inr (joinPath d p)))"

definition JoinAbspath :: "string + string \<Rightarrow> string list \<Rightarrow> string + string" where
  "JoinAbspath cwd ps = absPath cwd (JoinPaths ps)"

text \<open>\<^verbatim>\<open>filepath.Ext\<close>: what follows the last dot of the last component, with the dot.\<close>

definition pathExt :: "string \<Rightarrow> string" where
  "pathExt p =
     (let b = afterLastSlash p
      in if CHR ''.'' \<in> set b then CHR ''.'' # rev (takeWhile (\<lambda>c. c \<noteq> CHR ''.'') (rev b)) else [])"

definition trimSuffix :: "string \<Rightarrow> string \<Rightarrow> string" where
  "trimSuffix s x = (case cutPrefix (rev s) (rev x) of None \<Rightarrow> s | Some r \<Rightarrow> rev r)"

section \<open>Layouts\<close>

datatype layout =
    MultiInstLayout string string string
  | TntCtlLayout string string

datatype layerr = EmptyBaseDir | EmptyAppName | EmptyInstName

definition NewMultiInstLayout :: "string \<Rightarrow> string \<Rightarrow> string \<Rightarrow> layerr + layout" where
  "NewMultiInstLayout baseDir appName instanceName =
     (if baseDir = [] then Inl EmptyBaseDir
      else if appName = [] then Inl EmptyAppName
      else if instanceName = [] then Inl EmptyInstName
      else Inr (MultiInstLayout baseDir appName instanceName))"

definition NewTntCtlLayout :: "string \<Rightarrow> string \<Rightarrow> layerr + layout" where
  "NewTntCtlLayout baseDir appName =
     (if appName = [] then Inl EmptyAppName
      else if baseDir = [] then Inl EmptyBaseDir
      else Inr (TntCtlLayout baseDir appName))"

definition genFilePath :: "string \<Rightarrow> string \<Rightarrow> string \<Rightarrow> string \<Rightarrow> string \<Rightarrow> string" where
  "genFilePath baseDir appName instanceName subdir fileName =
     (let dstDir = (if isAbs subdir then JoinPaths [baseDir, subdir, appName, instanceName]
                    else JoinPaths [baseDir, subdir, instanceName])
      in joinPath dstDir fileName)"

definition genRuntimeFilePath :: "string \<Rightarrow> string \<Rightarrow> string \<Rightarrow> string" where
  "genRuntimeFilePath baseDir subdir fileName = JoinPaths [baseDir, subdir, fileName]"

fun PidFile :: "layout \<Rightarrow> string \<Rightarrow> string" where
  "PidFile (MultiInstLayout b a i) dir = genFilePath b a i dir ''tt.pid''"
| "PidFile (TntCtlLayout b a) dir = genRuntimeFilePath b dir (a @ ''.pid'')"

fun LogFile :: "layout \<Rightarrow> string \<Rightarrow> string" where
  "LogFile (MultiInstLayout b a i) dir = genFilePath b a i dir ''tt.log''"
| "LogFile (TntCtlLayout b a) dir = genRuntimeFilePath b dir (a @ ''.log'')"

fun ConsoleSocket :: "layout \<Rightarrow> string \<Rightarrow> string" where
  "ConsoleSocket (MultiInstLayout b a i) dir = genFilePath b a i dir ''tarantool.control''"
| "ConsoleSocket (TntCtlLayout b a) dir = genRuntimeFilePath b dir (a @ ''.control'')"

fun BinaryPort :: "layout \<Rightarrow> string \<Rightarrow> string" where
  "BinaryPort (MultiInstLayout b a i) dir = genFilePath b a i dir ''tarantool.sock''"
| "BinaryPort (TntCtlLayout b a) dir = genRuntimeFilePath b dir (a @ ''.sock'')"

fun DataDir :: "layout \<Rightarrow> string \<Rightarrow> string" where
  "DataDir (MultiInstLayout b a i) dir = dirName (genFilePath b a i dir ''0'')"
| "DataDir (TntCtlLayout b a) dir = JoinPaths [b, dir, a]"

section \<open>Templates\<close>

definition isSpaceRe :: "char \<Rightarrow> bool" where
  "isSpaceRe c \<longleftrightarrow> (of_char c :: nat) \<in> {9, 10, 12, 13, 32}"

definition notBlank :: "char \<Rightarrow> bool" where
  "notBlank c \<longleftrightarrow> c \<noteq> CHR '' ''"

definition varPattern :: Regexp.rx where
  "varPattern = seqs [Regexp.Lit ''{{'', Regexp.Opt (Regexp.Plus isSpaceRe), Regexp.Cap ''1'' (Regexp.Plus notBlank),
     Regexp.Opt (Regexp.Plus isSpaceRe), Regexp.Lit ''}}'']"

text \<open>The replacement of one match; a variable without a value stays and is reported.\<close>

definition replaceVar :: "(string \<times> string) list \<Rightarrow> string \<Rightarrow> string \<times> string list" where
  "replaceVar dat varNameStr =
     (case runs varPattern varNameStr of
        [] \<Rightarrow> (varNameStr, [])
      | (subMatches, _) # _ \<Rightarrow>
          (case map_of dat (named subMatches ''1'') of
             None \<Rightarrow> (varNameStr, [named subMatches ''1''])
           | Some val \<Rightarrow> (val, [])))"

text \<open>
  \<^verbatim>\<open>ReplaceAllStringFunc\<close>: the matches from left to right, each continued behind the last. What
  is left behind a match at the front of a text, which is never empty:
\<close>

definition behindMatch :: "string \<Rightarrow> string option" where
  "behindMatch s =
     (case runs varPattern s of
        (_, rest) # _ \<Rightarrow> (if length rest < length s then Some rest else None)
      | [] \<Rightarrow> None)"

lemma behindMatch_shorter: "behindMatch s = Some rest \<Longrightarrow> length rest < length s"
  by (auto simp: behindMatch_def split: list.splits if_splits)

function replaceAll :: "(string \<times> string) list \<Rightarrow> string \<Rightarrow> string \<times> string list" where
  "replaceAll dat s =
     (case behindMatch s of
        Some rest \<Rightarrow>
          (let (r, miss) = replaceVar dat (take (length s - length rest) s); (rs, misses) = replaceAll dat rest
           in (r @ rs, miss @ misses))
      | None \<Rightarrow>
          (case s of
             [] \<Rightarrow> ([], [])
           | c # cs \<Rightarrow> (let (rs, misses) = replaceAll dat cs in (c # rs, misses))))"
  by pat_completeness auto

termination
  by (relation "measure (length \<circ> snd)") (auto simp: behindMatch_shorter)

declare replaceAll.simps [simp del]

definition ApplyVars :: "string \<Rightarrow> (string \<times> string) list \<Rightarrow> string list + string" where
  "ApplyVars templateStr dat =
     (case replaceAll dat templateStr of (renderedStr, missingVars) \<Rightarrow>
        if missingVars \<noteq> [] then Inl (remdups missingVars) else Inr renderedStr)"

section \<open>Cleaned paths\<close>

text \<open>The components of a cleaned path.\<close>

definition comps :: "string \<Rightarrow> string list" where
  "comps p = rev (foldl (cleanStep (isAbs p)) [] (splitAll (CHR ''/'') p))"

definition render :: "bool \<Rightarrow> string list \<Rightarrow> string" where
  "render rooted cs =
     (let body = joinSep (CHR ''/'') cs in if rooted then CHR ''/'' # body else if body = [] then ''.'' else body)"

lemma clean_render: "clean p = render (isAbs p) (comps p)"
  by (simp add: clean_def render_def comps_def isAbs_def Let_def)

definition plainName :: "string \<Rightarrow> bool" where
  "plainName n \<longleftrightarrow> n \<noteq> [] \<and> CHR ''/'' \<notin> set n \<and> n \<noteq> ''.'' \<and> n \<noteq> ''..''"

definition canonComp :: "string \<Rightarrow> bool" where
  "canonComp n \<longleftrightarrow> n \<noteq> [] \<and> CHR ''/'' \<notin> set n \<and> n \<noteq> ''.''"

text \<open>No component is empty or a dot, and only leading components of a relative path go up.\<close>

definition canon :: "bool \<Rightarrow> string list \<Rightarrow> bool" where
  "canon rooted cs \<longleftrightarrow> (\<forall>c \<in> set cs. canonComp c) \<and> (\<exists>n ds. cs = replicate n ''..'' @ ds \<and> ''..'' \<notin> set ds \<and> (rooted \<longrightarrow> n = 0))"

lemma cleanStep_plain [simp]: "plainName c \<Longrightarrow> cleanStep r out c = c # out"
  by (simp add: cleanStep_def plainName_def)

lemma canon_step:
  assumes "canon r (rev out)" and "CHR ''/'' \<notin> set c"
  shows "canon r (rev (cleanStep r out c))"
proof -
  obtain n ds where cs: "rev out = replicate n ''..'' @ ds" "''..'' \<notin> set ds" "r \<longrightarrow> n = 0" "\<forall>c \<in> set out. canonComp c"
    using assms(1) unfolding canon_def by auto
  consider "c = [] \<or> c = ''.''" | "c = ''..''" | "plainName c" using assms(2) by (auto simp: plainName_def)
  then show ?thesis
  proof cases
    case 1
    then show ?thesis using assms(1) by (auto simp: cleanStep_def)
  next
    case 3
    have "rev (cleanStep r out c) = replicate n ''..'' @ (ds @ [c])" by (simp add: 3 cs(1))
    moreover have "''..'' \<notin> set (ds @ [c])" "canonComp c" using 3 cs(2) by (auto simp: plainName_def canonComp_def)
    moreover have "set (rev (cleanStep r out c)) = insert c (set out)" by (simp add: 3)
    ultimately show ?thesis unfolding canon_def using cs(3,4) by (metis insert_iff)
  next
    case 2
    show ?thesis
    proof (cases ds rule: rev_cases)
      case Nil
      then have out: "out = replicate n ''..''" using cs(1) by (metis append_Nil2 rev_replicate rev_rev_ident)
      have "cleanStep r out c = (if r then [] else replicate (Suc n) ''..'')"
        using cs(3) by (cases n) (auto simp: cleanStep_def 2 out)
      moreover have "canon False (replicate (Suc n) ''..'')"
        unfolding canon_def by (intro conjI exI [of _ "Suc n"] exI [of _ "[]"]) (simp_all add: canonComp_def)
      moreover have "canon True []" by (simp add: canon_def)
      ultimately show ?thesis by (cases r) (simp_all del: replicate_Suc)
    next
      case (snoc es e)
      then have "rev (rev out) = rev (replicate n ''..'' @ es @ [e])" using cs(1) by simp
      then have out: "out = e # rev (replicate n ''..'' @ es)" by (simp del: rev_replicate)
      have "e \<noteq> ''..''" using cs(2) snoc by auto
      then have "cleanStep r out c = rev (replicate n ''..'' @ es)" by (simp add: cleanStep_def 2 out)
      moreover have "''..'' \<notin> set es" using cs(2) snoc by simp
      moreover have "\<forall>x \<in> set (replicate n ''..'' @ es). canonComp x" using cs(4) out by auto
      ultimately show ?thesis unfolding canon_def using cs(3) by auto
    qed
  qed
qed

lemma canon_foldl:
  "canon r (rev out) \<Longrightarrow> \<forall>c \<in> set cs. CHR ''/'' \<notin> set c \<Longrightarrow> canon r (rev (foldl (cleanStep r) out cs))"
  by (induction cs arbitrary: out) (auto simp: canon_step)

lemma canon_comps: "canon (isAbs p) (comps p)"
  unfolding comps_def by (rule canon_foldl) (auto simp: canon_def dest: splitAll_no_sep)

lemma splitAll_sep: "splitAll c (a @ c # b) = splitAll c a @ splitAll c b"
  by (induction a) (auto split: list.splits)

lemma splitAll_single: "c \<notin> set a \<Longrightarrow> splitAll c a = [a]"
  by (induction a) auto

lemma splitAll_join: "cs \<noteq> [] \<Longrightarrow> \<forall>x \<in> set cs. c \<notin> set x \<Longrightarrow> splitAll c (joinSep c cs) = cs"
  by (induction c cs rule: joinSep.induct) (auto simp: splitAll_sep splitAll_single)

lemma foldl_plain: "\<forall>c \<in> set ds. plainName c \<Longrightarrow> foldl (cleanStep r) out ds = rev ds @ out"
  by (induction ds arbitrary: out) auto

lemma foldl_up: "foldl (cleanStep False) (replicate m ''..'') (replicate n ''..'') = replicate (m + n) ''..''"
proof (induction n arbitrary: m)
  case (Suc n)
  have "cleanStep False (replicate m ''..'') ''..'' = replicate (Suc m) ''..''" by (cases m) (simp_all add: cleanStep_def)
  with Suc.IH [of "Suc m"] show ?case by simp
qed simp

lemma foldl_canon:
  assumes "canon r cs"
  shows "foldl (cleanStep r) [] cs = rev cs"
proof -
  obtain n ds where cs: "cs = replicate n ''..'' @ ds" "''..'' \<notin> set ds" "r \<longrightarrow> n = 0" and ok: "\<forall>c \<in> set cs. canonComp c"
    using assms unfolding canon_def by blast
  then have "\<forall>c \<in> set ds. plainName c" by (auto simp: plainName_def canonComp_def)
  then show ?thesis using cs(3) foldl_up [of 0 n] by (cases r) (simp_all add: cs(1) foldl_plain)
qed

lemma joinSep_nonempty: "cs \<noteq> [] \<Longrightarrow> \<forall>c \<in> set cs. c \<noteq> [] \<Longrightarrow> joinSep s cs \<noteq> [] \<and> hd (joinSep s cs) = hd (hd cs)"
  by (induction s cs rule: joinSep.induct) auto

lemma comps_render:
  assumes "canon r cs"
  shows "comps (render r cs) = cs" and "isAbs (render r cs) = r" and "render r cs \<noteq> []"
proof -
  have ok: "\<forall>c \<in> set cs. c \<noteq> [] \<and> CHR ''/'' \<notin> set c" using assms by (auto simp: canon_def canonComp_def)
  show abs: "isAbs (render r cs) = r"
  proof (cases "r \<or> cs = []")
    case False
    then have "joinSep (CHR ''/'') cs \<noteq> [] \<and> hd (joinSep (CHR ''/'') cs) = hd (hd cs)" using ok joinSep_nonempty by blast
    moreover have "hd (hd cs) \<noteq> CHR ''/''" using ok False by (metis hd_in_set)
    ultimately show ?thesis using False by (simp add: render_def isAbs_def Let_def)
  qed (cases r; auto simp: render_def isAbs_def)
  have split: "cs \<noteq> [] \<Longrightarrow> splitAll (CHR ''/'') (joinSep (CHR ''/'') cs) = cs" using ok splitAll_join by blast
  have nil: "cleanStep q [] [] = []" "cleanStep q [] ''.'' = []" for q by (simp_all add: cleanStep_def)
  have "foldl (cleanStep r) [] (splitAll (CHR ''/'') (render r cs)) = rev cs"
  proof (cases "cs = []")
    case True
    then show ?thesis by (cases r) (simp_all add: render_def nil)
  next
    case False
    then show ?thesis using split ok joinSep_nonempty [of cs] foldl_canon [OF assms]
      by (cases r) (simp_all add: render_def nil Let_def)
  qed
  then show "comps (render r cs) = cs" by (simp add: comps_def abs)
  show "render r cs \<noteq> []" by (simp add: render_def Let_def)
qed

lemma comps_clean: "comps (clean p) = comps p" "isAbs (clean p) = isAbs p" "clean p \<noteq> []"
  unfolding clean_render using comps_render [OF canon_comps] by blast+

lemma clean_eq_iff: "clean p = clean q \<longleftrightarrow> isAbs p = isAbs q \<and> comps p = comps q"
proof
  assume "clean p = clean q"
  then show "isAbs p = isAbs q \<and> comps p = comps q" using comps_clean(1,2) [of p] comps_clean(1,2) [of q] by simp
qed (simp add: clean_render)

lemma foldl_noUp:
  "''..'' \<notin> set cs \<Longrightarrow> \<forall>c \<in> set cs. CHR ''/'' \<notin> set c \<Longrightarrow>
     foldl (cleanStep r) out cs = rev (filter (\<lambda>c. c \<noteq> [] \<and> c \<noteq> ''.'') cs) @ out"
  by (induction cs arbitrary: out) (auto simp: cleanStep_def)

text \<open>A path below a directory: its components that name something.\<close>

definition below :: "string \<Rightarrow> string list" where
  "below d = filter (\<lambda>c. c \<noteq> [] \<and> c \<noteq> ''.'') (splitAll (CHR ''/'') d)"

definition noUp :: "string \<Rightarrow> bool" where
  "noUp d \<longleftrightarrow> ''..'' \<notin> set (splitAll (CHR ''/'') d)"

lemma below_plain: "plainName c \<Longrightarrow> below c = [c] \<and> noUp c"
  by (auto simp: below_def noUp_def plainName_def splitAll_single)

lemma joinPath_below:
  assumes "a \<noteq> []" and "noUp d"
  shows "comps (joinPath a d) = comps a @ below d" and "isAbs (joinPath a d) = isAbs a" and "joinPath a d \<noteq> []"
proof -
  let ?p = "if d = [] then a else a @ CHR ''/'' # d"
  have j: "joinPath a d = clean ?p" using assms(1) by (simp add: joinPath_def)
  have abs: "isAbs ?p = isAbs a" using assms(1) by (simp add: isAbs_def)
  have "comps ?p = comps a @ below d"
  proof (cases "d = []")
    case False
    have "foldl (cleanStep (isAbs a)) out (splitAll (CHR ''/'') d) = rev (below d) @ out" for out
      unfolding below_def using assms(2) splitAll_no_sep by (intro foldl_noUp) (auto simp: noUp_def)
    with False abs show ?thesis by (simp add: comps_def splitAll_sep)
  qed (simp add: below_def)
  then show "comps (joinPath a d) = comps a @ below d" "isAbs (joinPath a d) = isAbs a" "joinPath a d \<noteq> []"
    by (simp_all only: j comps_clean abs not_False_eq_True)
qed

lemma joinPath_Nil:
  assumes "d \<noteq> []"
  shows "comps (joinPath [] d) = comps d" and "isAbs (joinPath [] d) = isAbs d" and "joinPath [] d \<noteq> []"
  using assms by (simp_all add: joinPath_def comps_clean)

section \<open>Files of instances\<close>

lemma plainName_rel: "plainName c \<Longrightarrow> \<not> isAbs c"
  by (cases c) (auto simp: plainName_def isAbs_def)

text \<open>
  The layout that \<^verbatim>\<open>setInstCtxFromTtConfig\<close> makes for an instance, that of tarantoolctl or the one
  for several instances, where names are single components of a path; and the four kinds of files.
\<close>

definition instLayout :: "bool \<Rightarrow> string \<Rightarrow> string \<Rightarrow> string \<Rightarrow> layout \<Rightarrow> bool" where
  "instLayout tntctl b a i l \<longleftrightarrow>
     (if tntctl then NewTntCtlLayout b a else NewMultiInstLayout b a i) = Inr l \<and> plainName a \<and> (tntctl \<or> plainName i)"

definition fileKinds :: "(layout \<Rightarrow> string \<Rightarrow> string) list" where
  "fileKinds = [PidFile, LogFile, ConsoleSocket, BinaryPort]"

fun fileNames :: "layout \<Rightarrow> string list" where
  "fileNames (MultiInstLayout b a i) = [''tt.pid'', ''tt.log'', ''tarantool.control'', ''tarantool.sock'']"
| "fileNames (TntCtlLayout b a) = [a @ ''.pid'', a @ ''.log'', a @ ''.control'', a @ ''.sock'']"

text \<open>The directory that a file of a layout is put into.\<close>

fun fileDir :: "layout \<Rightarrow> string \<Rightarrow> string" where
  "fileDir (MultiInstLayout b a i) d = (if isAbs d then JoinPaths [b, d, a, i] else JoinPaths [b, d, i])"
| "fileDir (TntCtlLayout b a) d = JoinPaths [b, d]"

lemma less4: "k < 4 \<Longrightarrow> k = 0 \<or> k = 1 \<or> k = 2 \<or> k = (3 :: nat)"
  by linarith

lemma instLayoutE:
  assumes "instLayout c b a i l"
  shows "l = (if c then TntCtlLayout b a else MultiInstLayout b a i)" "b \<noteq> []" "plainName a" "c \<or> plainName i"
  using assms by (auto simp: instLayout_def NewTntCtlLayout_def NewMultiInstLayout_def split: if_splits)

lemma fileNames_plain:
  assumes "instLayout c b a i l" and "k < 4"
  shows "plainName (fileNames l ! k)" and "last (fileNames l ! k) = ''dglk'' ! k"
  using less4 [OF assms(2)] instLayoutE [OF assms(1)] by (auto simp: plainName_def split: if_splits)

lemma file_in_dir:
  assumes "instLayout c b a i l" and "k < 4"
  shows "(fileKinds ! k) l d = joinPath (fileDir l d) (fileNames l ! k)"
proof -
  have "plainName f \<Longrightarrow> JoinPaths [b, d, f] = joinPath (JoinPaths [b, d]) f" for f
    by (simp add: JoinPaths_def plainName_rel)
  with less4 [OF assms(2)] instLayoutE(1) [OF assms(1)] fileNames_plain [OF assms] show ?thesis
    by (auto simp: fileKinds_def genFilePath_def genRuntimeFilePath_def Let_def)
qed

lemma joinPath_nonempty: "p \<noteq> [] \<Longrightarrow> joinPath p c \<noteq> []"
  by (simp add: joinPath_def comps_clean)

lemma fileDir_nonempty:
  assumes "instLayout c b a i l"
  shows "fileDir l d \<noteq> []"
  using instLayoutE(1,2) [OF assms] joinPath_Nil(3) [of b] by (auto simp: JoinPaths_def isAbs_def joinPath_nonempty)

lemma file_comps:
  assumes "instLayout c b a i l" and "k < 4"
  shows "comps ((fileKinds ! k) l d) = comps (fileDir l d) @ [fileNames l ! k]"
    and "isAbs ((fileKinds ! k) l d) = isAbs (fileDir l d)"
    and "clean ((fileKinds ! k) l d) = (fileKinds ! k) l d"
proof -
  note n = fileNames_plain(1) [OF assms] and dir = fileDir_nonempty [OF assms(1), of d] and f = file_in_dir [OF assms, of d]
  show "comps ((fileKinds ! k) l d) = comps (fileDir l d) @ [fileNames l ! k]"
    "isAbs ((fileKinds ! k) l d) = isAbs (fileDir l d)"
    using joinPath_below [OF dir] below_plain [OF n] by (simp_all add: f)
  have "joinPath (fileDir l d) (fileNames l ! k) = clean (fileDir l d @ CHR ''/'' # fileNames l ! k)"
    using n dir by (simp add: joinPath_def plainName_def)
  then show "clean ((fileKinds ! k) l d) = (fileKinds ! k) l d"
    unfolding f by (simp add: clean_render comps_render canon_comps)
qed

lemma file_eq:
  assumes "instLayout c b a i l" and "instLayout c' b' a' i' l'" and "j < 4" and "k < 4"
  shows "(fileKinds ! j) l d = (fileKinds ! k) l' d' \<longleftrightarrow>
    isAbs (fileDir l d) = isAbs (fileDir l' d') \<and> comps (fileDir l d) = comps (fileDir l' d') \<and> fileNames l ! j = fileNames l' ! k"
  using file_comps [OF assms(1,3), of d] file_comps [OF assms(2,4), of d'] clean_eq_iff
    [of "(fileKinds ! j) l d" "(fileKinds ! k) l' d'"] by auto

lemma file_kind:
  assumes "instLayout c b a i l" and "instLayout c' b' a' i' l'" and "j < 4" and "k < 4"
    and "(fileKinds ! j) l d = (fileKinds ! k) l' d'"
  shows "j = k"
proof -
  have "last (fileNames l ! j) = last (fileNames l' ! k)" using file_eq [OF assms(1-4)] assms(5) by simp
  then have "''dglk'' ! j = ''dglk'' ! k" using fileNames_plain(2) assms(1-4) by simp
  then show ?thesis using less4 [OF assms(3)] less4 [OF assms(4)] by auto
qed

text \<open>The components of the directory, below the setting or below the base directory.\<close>

lemma fileDir_comps:
  assumes "instLayout c b a i l" and "isAbs d \<or> noUp d"
  shows "isAbs (fileDir l d) = (isAbs d \<or> isAbs b)"
    and "comps (fileDir l d) = (if isAbs d then comps d else comps b @ below d) @
      (if c then [] else if isAbs d then [a, i] else [i])"
proof -
  note l = instLayoutE [OF assms(1)]
  have first: "(if isAbs b then b else joinPath [] b) \<noteq> []" "comps (if isAbs b then b else joinPath [] b) = comps b"
      "isAbs (if isAbs b then b else joinPath [] b) = isAbs b"
    using l(2) joinPath_Nil [OF l(2)] by auto
  have step: "comps (joinPath p x) = comps p @ [x] \<and> isAbs (joinPath p x) = isAbs p \<and> joinPath p x \<noteq> []"
    if "p \<noteq> []" "plainName x" for p x
    using joinPath_below [OF that(1), of x] below_plain [OF that(2)] by simp
  have base: "\<exists>p. JoinPaths [b, d] = p \<and> p \<noteq> [] \<and> isAbs p = (isAbs d \<or> isAbs b) \<and>
      comps p = (if isAbs d then comps d else comps b @ below d)"
    using first joinPath_below [OF first(1), of d] assms(2) by (auto simp: JoinPaths_def isAbs_def)
  have ai: "JoinPaths [b, d, a, i] = joinPath (joinPath (JoinPaths [b, d]) a) i" "JoinPaths [b, d, i] = joinPath (JoinPaths [b, d]) i"
    if "\<not> c" using that l(3,4) plainName_rel by (auto simp: JoinPaths_def)
  obtain p where p: "JoinPaths [b, d] = p" "p \<noteq> []" "isAbs p = (isAbs d \<or> isAbs b)"
    "comps p = (if isAbs d then comps d else comps b @ below d)" using base by blast
  show "isAbs (fileDir l d) = (isAbs d \<or> isAbs b)"
    "comps (fileDir l d) = (if isAbs d then comps d else comps b @ below d) @ (if c then [] else if isAbs d then [a, i] else [i])"
    using p l step [of p a] step [of p i] step [of "joinPath p a" i] ai by auto
qed

section \<open>Properties\<close>

text \<open>
  Property C29: the files of an instance are its own. No two of the four kinds of file (PID file,
  log, console socket, binary port) are ever the same file, for any instances, layouts and
  directories. Under one setting of the directory, absolute or relative without going up, the files of one kind
  of two instances are the same file exactly if the instances are the same: in the layout for several
  instances, if they have the same name and their applications the same name (for an absolute
  directory) or the same directory (for a relative one); in the layout of tarantoolctl, if the applications
  have the same name and, for a relative directory, the same base directory. An instance of the one
  layout and one of the other never share a file of an absolute directory; for a relative one
  nothing is claimed of them. Names are single components of a path.
\<close>

theorem layout_files_distinct:
  assumes "instLayout c b a i l" and "instLayout c' b' a' i' l'" and "isAbs d \<or> noUp d"
  shows "(\<forall>j < 4. \<forall>k < 4. (fileKinds ! j) l d1 = (fileKinds ! k) l' d2 \<longrightarrow> j = k) \<and>
    (\<forall>k < 4. c = c' \<or> isAbs d \<longrightarrow>
       ((fileKinds ! k) l d = (fileKinds ! k) l' d \<longleftrightarrow>
          c = c' \<and> (if isAbs d then a = a' else clean b = clean b') \<and> (if c then a = a' else i = i')))"
proof -
  have "(fileKinds ! k) l d = (fileKinds ! k) l' d \<longleftrightarrow>
      c = c' \<and> (if isAbs d then a = a' else clean b = clean b') \<and> (if c then a = a' else i = i')"
    if k: "k < 4" and same: "c = c' \<or> isAbs d" for k
  proof -
    note l = instLayoutE(1) [OF assms(1)] instLayoutE(1) [OF assms(2)]
    have names: "c = c' \<Longrightarrow> fileNames l ! k = fileNames l' ! k \<longleftrightarrow> (c \<longrightarrow> a = a')"
      using less4 [OF k] l by auto
    show ?thesis
      using same names unfolding file_eq [OF assms(1,2) k k] fileDir_comps [OF assms(1,3)] fileDir_comps [OF assms(2,3)]
      by (auto simp: clean_eq_iff)
  qed
  with file_kind [OF assms(1,2)] show ?thesis by blast
qed

theorem layout_files_distinct_witness:
  "PidFile (MultiInstLayout ''/apps/a'' ''a'' ''i'') ''var/run'' \<noteq> PidFile (MultiInstLayout ''/apps/b'' ''b'' ''i'') ''var/run'' \<and>
   ConsoleSocket (MultiInstLayout ''/apps/a'' ''a'' ''i'') ''var/run'' \<noteq> BinaryPort (MultiInstLayout ''/apps/b'' ''b'' ''i'') ''/run'' \<and>
   PidFile (MultiInstLayout ''/apps/a'' ''a'' ''i'') ''var/run'' = ''/apps/a/var/run/i/tt.pid''"
proof -
  have n: "instLayout False ''/apps/a'' ''a'' ''i'' (MultiInstLayout ''/apps/a'' ''a'' ''i'')"
    "instLayout False ''/apps/b'' ''b'' ''i'' (MultiInstLayout ''/apps/b'' ''b'' ''i'')"
    by (simp_all add: instLayout_def NewMultiInstLayout_def plainName_def)
  have v: "clean ''/apps/a'' = ''/apps/a''" "clean ''/apps/b'' = ''/apps/b''" "\<not> isAbs ''var/run''" "noUp ''var/run''"
    "PidFile (MultiInstLayout ''/apps/a'' ''a'' ''i'') ''var/run'' = ''/apps/a/var/run/i/tt.pid''" by code_simp+
  note t = layout_files_distinct [OF n disjI2 [OF v(4)], of "''var/run''" "''/run''"]
  have "(fileKinds ! 2) (MultiInstLayout ''/apps/a'' ''a'' ''i'') ''var/run'' \<noteq>
      (fileKinds ! 3) (MultiInstLayout ''/apps/b'' ''b'' ''i'') ''/run''"
    using conjunct1 [OF t, rule_format, of 2 3] by auto
  moreover have "(fileKinds ! 0) (MultiInstLayout ''/apps/a'' ''a'' ''i'') ''var/run'' \<noteq>
      (fileKinds ! 0) (MultiInstLayout ''/apps/b'' ''b'' ''i'') ''var/run''"
    using conjunct2 [OF t, rule_format, of 0] v by auto
  ultimately show ?thesis using v(5) by (simp add: fileKinds_def)
qed

section \<open>Templates\<close>

text \<open>
  Two variables without spaces around their names are taken for one, since the expression for a
  name stops at a space only; with spaces both are replaced.
\<close>

lemma ApplyVars_greedy:
  "ApplyVars ''{{a}}/{{a}}'' [(''a'', ''x'')] = Inl [''a}}/{{a'']"
  "ApplyVars ''{{ a }}/{{ a }}'' [(''a'', ''x'')] = Inr ''x/x''"
  by code_simp+

lemma replaceAll_plain: "CHR ''{'' \<notin> set s \<Longrightarrow> replaceAll dat s = (s, [])"
proof (induction s)
  case Nil
  show ?case by (simp add: replaceAll.simps [of dat "[]"] behindMatch_def varPattern_def)
next
  case (Cons c s)
  then have "behindMatch (c # s) = None" by (auto simp: behindMatch_def varPattern_def)
  with Cons show ?case by (simp add: replaceAll.simps [of dat "c # s"])
qed

lemma ApplyVars_plain: "CHR ''{'' \<notin> set s \<Longrightarrow> ApplyVars s dat = Inr s"
  by (simp add: ApplyVars_def replaceAll_plain)

end
