(* ===== verification/Process.thy ===== *)
theory Process
  imports Validation RpmFile
begin

text \<open>
  Processes behind PID files, \<^verbatim>\<open>cli/process_utils/process_utils.go\<close>: reading, checking and
  creating a PID file, stopping, quitting and killing the process it names, and its status. The
  operating system is the record \<open>procOs\<close>: files, signals and the two timers of the loop that
  waits for a process to end. A call takes the state \<open>'s\<close> of the world and returns it changed.
\<close>

section \<open>The operating system\<close>

datatype ferr = NotExist | OtherFileErr string

datatype sig = Signal0 | SIGINTsig | SIGQUITsig | SIGKILLsig

record 's procOs =
  pStat :: "'s \<Rightarrow> string \<Rightarrow> ferr option"
  pOpen :: "'s \<Rightarrow> string \<Rightarrow> string option"
  pReadAll :: "'s \<Rightarrow> string \<Rightarrow> string + string"
  pRemove :: "'s \<Rightarrow> string \<Rightarrow> 's"
  pMkdirAll :: "'s \<Rightarrow> string \<Rightarrow> string option \<times> 's"
  pCreateExcl :: "'s \<Rightarrow> string \<Rightarrow> string option \<times> 's"
  pWriteString :: "'s \<Rightarrow> string \<Rightarrow> string \<Rightarrow> string option \<times> 's"
  pKill :: "'s \<Rightarrow> int \<Rightarrow> sig \<Rightarrow> string option \<times> 's"
  pGetpgid :: "'s \<Rightarrow> int \<Rightarrow> string + int"
  pSelect :: "'s \<Rightarrow> int \<Rightarrow> int \<Rightarrow> bool \<times> 's"

text \<open>
  \<^verbatim>\<open>strings.TrimSpace\<close>: the white space of Unicode, as the bytes of its encodings, is cut off
  at both ends.
\<close>

definition whitespace :: "string list" where
  "whitespace = map (\<lambda>n. [char_of (n::nat)]) [9, 10, 11, 12, 13, 32] @
     map (map (char_of :: nat \<Rightarrow> char)) ([[0xC2, 0x85], [0xC2, 0xA0], [0xE1, 0x9A, 0x80], [0xE2, 0x80, 0xA8], [0xE2, 0x80, 0xA9],
       [0xE2, 0x80, 0xAF], [0xE2, 0x81, 0x9F], [0xE3, 0x80, 0x80]] @ map (\<lambda>n. [0xE2, 0x80, n]) [0x80 ..< 0x8B])"

fun dropAny :: "string list \<Rightarrow> string \<Rightarrow> string" where
  "dropAny ps s =
     (case List.map_filter (\<lambda>p. if p = [] then None else cutPrefix s p) ps of
        [] \<Rightarrow> s
      | r # _ \<Rightarrow> (if length r < length s then dropAny ps r else s))"

declare dropAny.simps [simp del]

definition trimSpace :: "string \<Rightarrow> string" where
  "trimSpace s = rev (dropAny (map rev whitespace) (rev (dropAny whitespace s)))"

section \<open>Operations\<close>

datatype perr =
    StatPidFile ferr
  | OpenPidFile string
  | ReadPidFile string
  | PidFormat string
  | PidUnreadable perr
  | AlreadyExists int
  | SomethingWrong ferr
  | MkPidDir string
  | StatPidDir ferr
  | CreatePid string
  | WritePid string
  | CheckRunning int string
  | NotRunning int
  | NoRunningPid perr
  | CantSignal string
  | CantTerminate
  | NoProcessGroup int string

definition GetPIDFromFile :: "'s procOs \<Rightarrow> string \<Rightarrow> 's \<Rightarrow> perr + int" where
  "GetPIDFromFile P pidFileName s =
     (case pStat P s pidFileName of
        Some e \<Rightarrow> Inl (StatPidFile e)
      | None \<Rightarrow>
          (case pOpen P s pidFileName of
             Some e \<Rightarrow> Inl (OpenPidFile e)
           | None \<Rightarrow>
               (case pReadAll P s pidFileName of
                  Inl e \<Rightarrow> Inl (ReadPidFile e)
                | Inr pidBytes \<Rightarrow>
                    (case parseInt64 (trimSpace pidBytes) of
                       None \<Rightarrow> Inl (PidFormat (trimSpace pidBytes))
                     | Some pid \<Rightarrow> Inr pid))))"

definition IsProcessAlive :: "'s procOs \<Rightarrow> int \<Rightarrow> 's \<Rightarrow> (bool \<times> string option) \<times> 's" where
  "IsProcessAlive P pid s =
     (case pKill P s pid Signal0 of (Some e, s') \<Rightarrow> ((False, Some e), s') | (None, s') \<Rightarrow> ((True, None), s'))"

definition CheckPIDFile :: "'s procOs \<Rightarrow> string \<Rightarrow> 's \<Rightarrow> perr option \<times> 's" where
  "CheckPIDFile P pidFileName s =
     (case pStat P s pidFileName of
        None \<Rightarrow>
          (case GetPIDFromFile P pidFileName s of
             Inl e \<Rightarrow> (Some (PidUnreadable e), s)
           | Inr pid \<Rightarrow>
               (case IsProcessAlive P pid s of
                  ((res, _), s1) \<Rightarrow>
                    if res then (Some (AlreadyExists pid), s1) else (None, pRemove P s1 pidFileName)))
      | Some NotExist \<Rightarrow> (None, s)
      | Some e \<Rightarrow> (Some (SomethingWrong e), s))"

text \<open>The directory of the file is made if it is not there.\<close>

definition ensureDir :: "'s procOs \<Rightarrow> string \<Rightarrow> 's \<Rightarrow> perr option \<times> 's" where
  "ensureDir P pidAbsDir s =
     (case pStat P s pidAbsDir of
        None \<Rightarrow> (None, s)
      | Some NotExist \<Rightarrow> (case pMkdirAll P s pidAbsDir of (Some e, s1) \<Rightarrow> (Some (MkPidDir e), s1) | (None, s1) \<Rightarrow> (None, s1))
      | Some e \<Rightarrow> (Some (StatPidDir e), s))"

definition CreatePIDFile :: "'s procOs \<Rightarrow> string \<Rightarrow> int \<Rightarrow> 's \<Rightarrow> perr option \<times> 's" where
  "CreatePIDFile P pidFileName pid s =
     (case CheckPIDFile P pidFileName s of
        (Some e, s1) \<Rightarrow> (Some e, s1)
      | (None, s1) \<Rightarrow>
          (case ensureDir P (dirName pidFileName) s1 of
             (Some e, s2) \<Rightarrow> (Some e, s2)
           | (None, s2) \<Rightarrow>
               (case pCreateExcl P s2 pidFileName of
                  (Some e, s3) \<Rightarrow> (Some (CreatePid e), s3)
                | (None, s3) \<Rightarrow>
                    (case pWriteString P s3 pidFileName (showInt pid) of
                       (Some e, s4) \<Rightarrow> (Some (WritePid e), s4)
                     | (None, s4) \<Rightarrow> (None, s4)))))"

definition getRunningPid :: "'s procOs \<Rightarrow> string \<Rightarrow> 's \<Rightarrow> (perr + int) \<times> 's" where
  "getRunningPid P pidFile s =
     (case GetPIDFromFile P pidFile s of
        Inl e \<Rightarrow> (Inl e, s)
      | Inr pid \<Rightarrow>
          (case IsProcessAlive P pid s of
             ((_, Some e), s1) \<Rightarrow> (Inl (CheckRunning pid e), s1)
           | ((alive, None), s1) \<Rightarrow> if \<not> alive then (Inl (NotRunning pid), s1) else (Inr pid, s1)))"

text \<open>
  \<^verbatim>\<open>waitProcessTermination\<close>: \<open>pSelect\<close> tells which of the two timers fires first, with
  \<open>True\<close> for the one that ends the loop. A loop that never ends is \<open>None\<close>.
\<close>

definition waitRound :: "'s procOs \<Rightarrow> int \<Rightarrow> int \<Rightarrow> int \<Rightarrow> 's \<Rightarrow> (bool \<times> 's) + 's" where
  "waitRound P pid timeout checkPeriod s =
     (case pSelect P s timeout checkPeriod of
        (True, s1) \<Rightarrow> (case IsProcessAlive P pid s1 of ((res, _), s2) \<Rightarrow> Inl (\<not> res, s2))
      | (False, s1) \<Rightarrow> (case IsProcessAlive P pid s1 of ((res, _), s2) \<Rightarrow> if \<not> res then Inl (True, s2) else Inr s2))"

definition waitProcessTermination :: "'s procOs \<Rightarrow> int \<Rightarrow> int \<Rightarrow> int \<Rightarrow> 's \<Rightarrow> (bool \<times> 's) option" where
  "waitProcessTermination P pid timeout checkPeriod s =
     (case IsProcessAlive P pid s of
        ((res, _), s1) \<Rightarrow> if \<not> res then Some (True, s1) else go_loop (waitRound P pid timeout checkPeriod) s1)"

text \<open>Durations are in nanoseconds. \<^verbatim>\<open>StopProcess\<close> and \<^verbatim>\<open>QuitProcess\<close> differ in the signal.\<close>

definition stopWith :: "sig \<Rightarrow> 's procOs \<Rightarrow> string \<Rightarrow> 's \<Rightarrow> ((perr + int) \<times> 's) option" where
  "stopWith sig P pidFile s =
     (case getRunningPid P pidFile s of
        (Inl e, s1) \<Rightarrow> Some (Inl (NoRunningPid e), s1)
      | (Inr pid, s1) \<Rightarrow>
          (case pKill P s1 pid sig of
             (Some e, s2) \<Rightarrow> Some (Inl (CantSignal e), s2)
           | (None, s2) \<Rightarrow>
               (case waitProcessTermination P pid 30000000000 100000000 s2 of
                  None \<Rightarrow> None
                | Some (res, s3) \<Rightarrow> Some (if \<not> res then Inl CantTerminate else Inr pid, s3))))"

definition StopProcess :: "'s procOs \<Rightarrow> string \<Rightarrow> 's \<Rightarrow> ((perr + int) \<times> 's) option" where
  "StopProcess = stopWith SIGINTsig"

definition QuitProcess :: "'s procOs \<Rightarrow> string \<Rightarrow> 's \<Rightarrow> ((perr + int) \<times> 's) option" where
  "QuitProcess = stopWith SIGQUITsig"

definition KillProcessGroup :: "'s procOs \<Rightarrow> string \<Rightarrow> 's \<Rightarrow> (perr + int) \<times> 's" where
  "KillProcessGroup P pidFile s =
     (case getRunningPid P pidFile s of
        (Inl e, s1) \<Rightarrow> (Inl (NoRunningPid e), s1)
      | (Inr pid, s1) \<Rightarrow>
          (case pGetpgid P s1 pid of
             Inl e \<Rightarrow> (Inl (NoProcessGroup pid e), s1)
           | Inr pgid \<Rightarrow>
               (case pKill P s1 (- pgid) SIGKILLsig of
                  (Some e, s2) \<Rightarrow> (Inl (CantSignal e), s2)
                | (None, s2) \<Rightarrow> (Inr pid, s2))))"

datatype procCode = ProcessRunningCode | ProcessStoppedCode | ProcessDeadCode

record processState =
  psCode :: procCode
  psStatus :: string
  psPID :: int

definition ProcStateRunning :: processState where
  "ProcStateRunning = \<lparr>psCode = ProcessRunningCode, psStatus = ''RUNNING'', psPID = 0\<rparr>"

definition ProcStateStopped :: processState where
  "ProcStateStopped = \<lparr>psCode = ProcessStoppedCode, psStatus = ''NOT RUNNING'', psPID = 0\<rparr>"

definition ProcStateDead :: processState where
  "ProcStateDead = \<lparr>psCode = ProcessDeadCode, psStatus = ''ERROR. The process is dead'', psPID = 0\<rparr>"

definition ProcessStateString :: "processState \<Rightarrow> string" where
  "ProcessStateString procState =
     (if psCode procState = ProcessRunningCode then psStatus procState @ ''. PID: '' @ showInt (psPID procState) @ ''.''
      else psStatus procState)"

definition ProcessStatus :: "'s procOs \<Rightarrow> string \<Rightarrow> 's \<Rightarrow> processState \<times> 's" where
  "ProcessStatus P pidFile s =
     (case GetPIDFromFile P pidFile s of
        Inl _ \<Rightarrow> (ProcStateStopped, s)
      | Inr pid \<Rightarrow>
          (case IsProcessAlive P pid s of
             ((alive, _), s1) \<Rightarrow> if \<not> alive then (ProcStateDead, s1) else (ProcStateRunning\<lparr>psPID := pid\<rparr>, s1)))"

section \<open>Numbers and white space\<close>

lemma dropAny_keep:
  assumes "s = [] \<or> hd s \<notin> hd ` set ps"
  shows "dropAny ps s = s"
proof -
  have "cutPrefix s p = None" if "p \<in> set ps" "p \<noteq> []" for p
    using assms that by (cases s; cases p) (auto simp: image_iff dest: bspec [where x = p])
  then have "List.map_filter (\<lambda>p. if p = [] then None else cutPrefix s p) ps = []"
    by (simp add: List.map_filter_def filter_empty_conv)
  then show ?thesis by (simp add: dropAny.simps [of ps s])
qed

lemma whitespace_ends:
  "hd ` set whitespace \<subseteq> {c. of_char c \<notin> {45..57::nat}}" "hd ` set (map rev whitespace) \<subseteq> {c. of_char c \<notin> {45..57::nat}}"
  by (auto simp: whitespace_def upt_rec)

lemma showNat_chars: "c \<in> set (showNat n) \<Longrightarrow> of_char c \<in> {48..57::nat}"
proof (induction n rule: showNat.induct)
  case (1 n)
  then show ?case
    by (auto simp: showNat.simps [of n] digitChar_def split: if_splits)
qed

lemma showInt_chars: "c \<in> set (showInt i) \<Longrightarrow> of_char c \<in> {45..57::nat}"
  by (auto simp: showInt_def dest!: showNat_chars split: if_splits)

lemma trimSpace_showInt: "trimSpace (showInt i) = showInt i"
proof -
  have ends: "c \<notin> hd ` set whitespace" "c \<notin> hd ` set (map rev whitespace)" if "c \<in> set (showInt i)" for c
    using showInt_chars [OF that] whitespace_ends by blast+
  have "dropAny whitespace (showInt i) = showInt i"
    by (rule dropAny_keep) (use ends(1) [of "hd (showInt i)"] hd_in_set in blast)
  moreover have "dropAny (map rev whitespace) (rev (showInt i)) = rev (showInt i)"
    by (rule dropAny_keep) (use ends(2) [of "hd (rev (showInt i))"] hd_in_set [of "rev (showInt i)"] in \<open>auto simp del: hd_rev set_map\<close>)
  ultimately show ?thesis by (simp add: trimSpace_def)
qed

section \<open>A PID file and its process\<close>

text \<open>
  What is relied on of the operating system, for one PID file, which is readable if it is there:
  \<open>view\<close> is its content, \<open>alive\<close> the processes that exist and \<open>may\<close> those that the caller is
  permitted to signal. Removing, creating and writing may fail; a file is created exclusively only
  where there is none. Signal 0 changes nothing and succeeds exactly for a process that exists and
  may be signalled, as \<^verbatim>\<open>man 2 kill\<close> says. Making its directory does not touch the file.
\<close>

definition pidFileOs ::
  "'s procOs \<Rightarrow> string \<Rightarrow> ('s \<Rightarrow> string option) \<Rightarrow> ('s \<Rightarrow> int \<Rightarrow> bool) \<Rightarrow> (int \<Rightarrow> bool) \<Rightarrow> bool"
where
  "pidFileOs P f view alive may \<longleftrightarrow>
     (\<forall>s. pStat P s f = (if view s = None then Some NotExist else None)) \<and>
     (\<forall>s c. view s = Some c \<longrightarrow> pOpen P s f = None \<and> pReadAll P s f = Inr c) \<and>
     (\<forall>s. view (pRemove P s f) = None \<or> view (pRemove P s f) = view s) \<and>
     (\<forall>s e s'. pMkdirAll P s (dirName f) = (e, s') \<longrightarrow> view s' = view s) \<and>
     (\<forall>s s'. pCreateExcl P s f = (None, s') \<longrightarrow> view s = None \<and> view s' = Some []) \<and>
     (\<forall>s d s'. view s = Some [] \<and> pWriteString P s f d = (None, s') \<longrightarrow> view s' = Some d) \<and>
     (\<forall>s pid e s'. pKill P s pid Signal0 = (e, s') \<longrightarrow>
        view s' = view s \<and> alive s' = alive s \<and> (e = None \<longleftrightarrow> alive s pid \<and> may pid))"

text \<open>Every tick of the clock brings the end of the waiting nearer; signal 0 takes no time.\<close>

definition clock :: "'s procOs \<Rightarrow> ('s \<Rightarrow> nat) \<Rightarrow> bool" where
  "clock P left \<longleftrightarrow> (\<forall>s t c s'. pSelect P s t c = (False, s') \<longrightarrow> left s' < left s) \<and>
     (\<forall>s pid e s'. pKill P s pid Signal0 = (e, s') \<longrightarrow> left s' = left s)"

definition recordedPid :: "('s \<Rightarrow> string option) \<Rightarrow> 's \<Rightarrow> int option" where
  "recordedPid view s = Option.bind (view s) (\<lambda>c. parseInt64 (trimSpace c))"

lemma pidFileOs_laws:
  assumes "pidFileOs P f view alive may"
  shows os_stat: "pStat P s f = (if view s = None then Some NotExist else None)"
    and os_read: "view s = Some c \<Longrightarrow> pOpen P s f = None \<and> pReadAll P s f = Inr c"
    and os_remove: "view (pRemove P s f) = None \<or> view (pRemove P s f) = view s"
    and os_mkdir: "pMkdirAll P s (dirName f) = (e, s') \<Longrightarrow> view s' = view s"
    and os_create: "pCreateExcl P s f = (None, s') \<Longrightarrow> view s = None \<and> view s' = Some []"
    and os_write: "view s = Some [] \<Longrightarrow> pWriteString P s f d = (None, s') \<Longrightarrow> view s' = Some d"
    and os_kill: "pKill P s pid Signal0 = (e, s') \<Longrightarrow>
      view s' = view s \<and> alive s' = alive s \<and> (e = None \<longleftrightarrow> alive s pid \<and> may pid)"
  using assms unfolding pidFileOs_def by blast+

lemma GetPIDFromFile_recorded:
  "pidFileOs P f view alive may \<Longrightarrow> GetPIDFromFile P f s = Inr pid \<longleftrightarrow> recordedPid view s = Some pid"
  using os_stat [of P f view alive may s] os_read [of P f view alive may s]
  by (cases "view s") (auto simp: GetPIDFromFile_def recordedPid_def split: option.splits)

lemma IsProcessAlive_eq:
  assumes "pidFileOs P f view alive may"
  obtains e s' where "IsProcessAlive P pid s = ((alive s pid \<and> may pid, e), s')" "view s' = view s"
    "alive s' = alive s" "e = None \<longleftrightarrow> alive s pid \<and> may pid" "snd (pKill P s pid Signal0) = s'"
proof -
  obtain e s' where k: "pKill P s pid Signal0 = (e, s')" by (cases "pKill P s pid Signal0")
  from os_kill [OF assms k] have "view s' = view s" "alive s' = alive s" "e = None \<longleftrightarrow> alive s pid \<and> may pid" by blast+
  then show ?thesis using that [of e s'] k by (cases e) (auto simp: IsProcessAlive_def)
qed

lemma CheckPIDFile_cases:
  assumes "pidFileOs P f view alive may" and "CheckPIDFile P f s = (r, s')"
  shows "(view s = None \<and> r = None \<and> view s' = None) \<or>
    (view s \<noteq> None \<and> recordedPid view s = None \<and> r \<noteq> None \<and> view s' = view s) \<or>
    (\<exists>old. recordedPid view s = Some old \<and> alive s old \<and> may old \<and> r = Some (AlreadyExists old) \<and> view s' = view s) \<or>
    (\<exists>old. recordedPid view s = Some old \<and> \<not> (alive s old \<and> may old) \<and> r = None \<and> (view s' = None \<or> view s' = view s))"
proof (cases "view s")
  case None
  then have "pStat P s f = Some NotExist" using os_stat [OF assms(1)] by simp
  with assms(2) None show ?thesis by (simp add: CheckPIDFile_def)
next
  case (Some c)
  then have st: "pStat P s f = None" using os_stat [OF assms(1)] by simp
  show ?thesis
  proof (cases "GetPIDFromFile P f s")
    case (Inl e)
    then have "recordedPid view s = None"
      using GetPIDFromFile_recorded [OF assms(1), of s] by (cases "recordedPid view s") auto
    with Inl st Some assms(2) show ?thesis by (auto simp: CheckPIDFile_def)
  next
    case (Inr old)
    then have old: "recordedPid view s = Some old" using GetPIDFromFile_recorded [OF assms(1)] by blast
    obtain e s1 where "IsProcessAlive P old s = ((alive s old \<and> may old, e), s1)" "view s1 = view s"
      by (rule IsProcessAlive_eq [OF assms(1)])
    moreover have "view (pRemove P s1 f) = None \<or> view (pRemove P s1 f) = view s1" using os_remove [OF assms(1)] .
    ultimately show ?thesis using Inr st old assms(2) by (auto simp: CheckPIDFile_def split: if_splits)
  qed
qed

lemma ensureDir_view: "pidFileOs P f view alive may \<Longrightarrow> ensureDir P (dirName f) s = (r, s') \<Longrightarrow> view s' = view s"
  by (auto simp: ensureDir_def split: option.splits ferr.splits prod.splits dest: os_mkdir)

lemma CreatePIDFile_created:
  assumes "pidFileOs P f view alive may" and "CreatePIDFile P f pid s = (None, s')" and "- (2 ^ 63) \<le> pid" and "pid < 2 ^ 63"
  shows "GetPIDFromFile P f s' = Inr pid"
proof -
  obtain s3 where c: "view s3 = Some []" "pWriteString P s3 f (showInt pid) = (None, s')"
    using assms(2) os_create [OF assms(1)] unfolding CreatePIDFile_def by (auto split: option.splits prod.splits)
  then have "view s' = Some (showInt pid)" by (rule os_write [OF assms(1)])
  then have "recordedPid view s' = Some pid"
    using assms(3,4) by (simp add: recordedPid_def trimSpace_showInt parseInt64_showInt)
  then show ?thesis using GetPIDFromFile_recorded [OF assms(1)] by blast
qed

lemma waitRound_result:
  assumes "pidFileOs P f view alive may" and "waitRound P pid t c s = Inl (res, s')"
  shows "res \<longleftrightarrow> \<not> (alive s' pid \<and> may pid)"
proof -
  obtain b s1 where b: "pSelect P s t c = (b, s1)" by (cases "pSelect P s t c")
  obtain e s2 where "IsProcessAlive P pid s1 = ((alive s1 pid \<and> may pid, e), s2)" "alive s2 = alive s1"
    by (rule IsProcessAlive_eq [OF assms(1)])
  with b assms(2) show ?thesis by (cases b) (auto simp: waitRound_def split: if_splits)
qed

lemma waitRound_continue:
  assumes "clock P left" and "waitRound P pid t c s = Inr s'"
  shows "left s' < left s"
proof -
  obtain b s1 where b: "pSelect P s t c = (b, s1)" by (cases "pSelect P s t c")
  obtain e s2 where k: "pKill P s1 pid Signal0 = (e, s2)" by (cases "pKill P s1 pid Signal0")
  have "b = False" "s' = s2" using b k assms(2) by (cases b; cases e; simp add: waitRound_def IsProcessAlive_def)+
  then show ?thesis using assms(1) b k unfolding clock_def by metis
qed

lemma waitProcessTermination_result:
  assumes "pidFileOs P f view alive may" and "clock P left"
  shows "\<exists>res s'. waitProcessTermination P pid t c s = Some (res, s') \<and> (res \<longleftrightarrow> \<not> (alive s' pid \<and> may pid))"
proof -
  obtain e s1 where a: "IsProcessAlive P pid s = ((alive s pid \<and> may pid, e), s1)" "alive s1 = alive s"
    by (rule IsProcessAlive_eq [OF assms(1)])
  obtain res s' where l: "go_loop (waitRound P pid t c) s1 = Some (res, s')"
    using go_loop_terminates [of "\<lambda>_. True" "waitRound P pid t c" left s1] waitRound_continue [OF assms(2)] by auto
  with go_loop_inv [OF l, of "\<lambda>_. True"] have "res \<longleftrightarrow> \<not> (alive s' pid \<and> may pid)" using waitRound_result [OF assms(1)] by blast
  with a l show ?thesis by (auto simp: waitProcessTermination_def)
qed

text \<open>
  The PID file of a process that is alive but that the caller may not signal is removed, too:
  \<^verbatim>\<open>IsProcessAlive\<close> answers no on the error that denies the permission.
\<close>

lemma CheckPIDFile_foreign:
  assumes "pidFileOs P f view alive may" and "recordedPid view s = Some old" and "alive s old" and "\<not> may old"
  shows "\<exists>s1. CheckPIDFile P f s = (None, pRemove P s1 f) \<and> view s1 = view s \<and> alive s1 old"
proof -
  have "view s \<noteq> None" using assms(2) by (cases "view s") (auto simp: recordedPid_def)
  then have "pStat P s f = None" using os_stat [OF assms(1)] by simp
  moreover have "GetPIDFromFile P f s = Inr old" using GetPIDFromFile_recorded [OF assms(1)] assms(2) by blast
  moreover obtain e s1 where "IsProcessAlive P old s = ((alive s old \<and> may old, e), s1)" "view s1 = view s" "alive s1 = alive s"
    by (rule IsProcessAlive_eq [OF assms(1)])
  ultimately show ?thesis using assms(3,4) by (auto simp: CheckPIDFile_def)
qed

section \<open>Properties\<close>

text \<open>
  Property C26: among the processes that the caller may signal, a PID file names one at a time.
  Creating it fails, and leaves it as it is, if it names such a process and it is alive, or if it
  holds something else than a number; if it succeeds, the file names the new process, and before
  there was none or it named a process that was dead or that the caller may not signal.
\<close>

theorem CreatePIDFile_exclusive:
  assumes "pidFileOs P f view alive may" and "- (2 ^ 63) \<le> pid" and "pid < 2 ^ 63"
    and "CreatePIDFile P f pid s = (r, s')"
  shows "(r = None \<longrightarrow> GetPIDFromFile P f s' = Inr pid \<and>
      (view s = None \<or> (\<exists>old. recordedPid view s = Some old \<and> (alive s old \<longrightarrow> \<not> may old)))) \<and>
    (\<forall>old. recordedPid view s = Some old \<and> alive s old \<and> may old \<longrightarrow>
       r = Some (AlreadyExists old) \<and> view s' = view s) \<and>
    (view s \<noteq> None \<and> recordedPid view s = None \<longrightarrow> r \<noteq> None \<and> view s' = view s)"
proof -
  obtain r1 s1 where c: "CheckPIDFile P f s = (r1, s1)" by (cases "CheckPIDFile P f s")
  have "r1 \<noteq> None \<Longrightarrow> r = r1 \<and> s' = s1" using c assms(4) by (auto simp: CreatePIDFile_def)
  moreover have "view s = None \<Longrightarrow> recordedPid view s = None" by (simp add: recordedPid_def)
  ultimately show ?thesis using CheckPIDFile_cases [OF assms(1) c] CreatePIDFile_created [OF assms(1) _ assms(2,3), of s s'] assms(4)
    by auto
qed

text \<open>
  Stopping a process always ends, if the clock goes on, and tells the truth: it
  returns the process that the PID file named only when that process is gone, and it reports that it
  cannot be terminated only while it is still there.
\<close>

theorem StopProcess_outcome:
  assumes "pidFileOs P f view alive may" and "clock P left"
  shows "\<exists>r s'. StopProcess P f s = Some (r, s') \<and>
    (\<forall>pid. r = Inr pid \<longrightarrow> recordedPid view s = Some pid \<and> alive s pid \<and> \<not> alive s' pid) \<and>
    (r = Inl CantTerminate \<longrightarrow> (\<exists>pid. recordedPid view s = Some pid \<and> alive s' pid))"
proof -
  have run: "recordedPid view s = Some pid \<and> alive s pid \<and> may pid" if "getRunningPid P f s = (Inr pid, s1)" for pid s1
  proof -
    obtain e s2 where "IsProcessAlive P pid s = ((alive s pid \<and> may pid, e), s2)" "e = None \<longleftrightarrow> alive s pid \<and> may pid"
      by (rule IsProcessAlive_eq [OF assms(1)])
    with that GetPIDFromFile_recorded [OF assms(1), of s pid] show ?thesis
      by (auto simp: getRunningPid_def split: sum.splits prod.splits option.splits if_splits)
  qed
  obtain q s1 where g: "getRunningPid P f s = (q, s1)" by (cases "getRunningPid P f s")
  show ?thesis
  proof (cases q)
    case (Inl e)
    with g show ?thesis by (simp add: StopProcess_def stopWith_def)
  next
    case (Inr pid)
    obtain e s2 where k: "pKill P s1 pid SIGINTsig = (e, s2)" by (cases "pKill P s1 pid SIGINTsig")
    obtain res s3 where w: "waitProcessTermination P pid 30000000000 100000000 s2 = Some (res, s3)" "res \<longleftrightarrow> \<not> (alive s3 pid \<and> may pid)"
      using waitProcessTermination_result [OF assms] by blast
    show ?thesis using g Inr k w run [of pid s1] by (cases e) (auto simp: StopProcess_def stopWith_def)
  qed
qed

text \<open>
  An operating system with one PID file, a list of processes and a number of ticks; process 1
  belongs to somebody else.
\<close>

type_synonym memProc = "string option \<times> int list \<times> nat"

definition memOs :: "memProc procOs" where
  "memOs = \<lparr>pStat = (\<lambda>(v, ps, n) p. if p = ''/run/tt.pid'' \<and> v = None then Some NotExist else None),
     pOpen = (\<lambda>s p. None), pReadAll = (\<lambda>(v, ps, n) p. case v of None \<Rightarrow> Inl ''no file'' | Some c \<Rightarrow> Inr c),
     pRemove = (\<lambda>(v, ps, n) p. (if p = ''/run/tt.pid'' then None else v, ps, n)), pMkdirAll = (\<lambda>s p. (None, s)),
     pCreateExcl = (\<lambda>(v, ps, n) p. if v = None then (None, (Some [], ps, n)) else (Some ''exists'', (v, ps, n))),
     pWriteString = (\<lambda>(v, ps, n) p d. (None, (Some d, ps, n))),
     pKill = (\<lambda>(v, ps, n) pid sg. if pid \<notin> set ps then (Some ''no such process'', (v, ps, n))
       else if pid = 1 then (Some ''operation not permitted'', (v, ps, n))
       else (None, (v, if sg = Signal0 then ps else removeAll pid ps, n))),
     pGetpgid = (\<lambda>s pid. Inr pid),
     pSelect = (\<lambda>(v, ps, n) t c. if n = 0 then (True, (v, ps, n)) else (False, (v, ps, n - 1)))\<rparr>"

lemma memOs_pidFile: "pidFileOs memOs ''/run/tt.pid'' fst (\<lambda>s pid. pid \<in> set (fst (snd s))) (\<lambda>pid. pid \<noteq> 1)"
  unfolding pidFileOs_def memOs_def by (auto split: if_splits)

lemma memOs_clock: "clock memOs (snd \<circ> snd)"
  unfolding clock_def memOs_def by (auto split: if_splits)

theorem CreatePIDFile_exclusive_witness:
  "GetPIDFromFile memOs ''/run/tt.pid'' (Some ''42'', [7], 0) = Inr 42"
proof -
  have c: "CreatePIDFile memOs ''/run/tt.pid'' 42 (Some ''9'', [7], 0) = (None, (Some ''42'', [7], 0))" by code_simp
  from CreatePIDFile_exclusive [OF memOs_pidFile _ _ c] show ?thesis by simp
qed

theorem StopProcess_outcome_witness:
  "StopProcess memOs ''/run/tt.pid'' (Some ''7'', [7], 3) = Some (Inr 7, (Some ''7'', [], 3)) \<and>
   recordedPid fst (Some ''7'', [7 :: int], 3 :: nat) = Some 7"
proof -
  have c: "StopProcess memOs ''/run/tt.pid'' (Some ''7'', [7], 3) = Some (Inr 7, (Some ''7'', [], 3))" by code_simp
  from StopProcess_outcome [OF memOs_pidFile memOs_clock, of "(Some ''7'', [7], 3)"] c show ?thesis by auto
qed

end
