(* ===== verification/Running.thy ===== *)
theory Running
  imports Layout Process Sources
begin

text \<open>
  Instances of applications, \<^verbatim>\<open>cli/running/running.go\<close> and \<^verbatim>\<open>instance_filter.go\<close>: the
  search for the instances of an application in its directory, the context of an instance from the options of
  tt, the cluster configuration and templates, and starting, stopping and asking for an instance by
  its PID file. The world is the record \<open>runSys\<close>: the sources of a cluster configuration, files and
  processes, the integrity check, and the instances that can be created.
\<close>

section \<open>Contexts\<close>

record instanceCtx =
  xAppDir :: string
  xInstanceScript :: string
  xAppName :: string
  xInstName :: string
  xRunDir :: string
  xLogDir :: string
  xLog :: string
  xWalDir :: string
  xMemtxDir :: string
  xVinylDir :: string
  xPIDFile :: string
  xRestartable :: bool
  xConsoleSocket :: string
  xBinaryPort :: string
  xSingleApp :: bool
  xIsFileApp :: bool
  xClusterConfigPath :: string
  xConfiguration :: instanceConfig

definition emptyCtx :: instanceCtx where
  "emptyCtx = \<lparr>xAppDir = [], xInstanceScript = [], xAppName = [], xInstName = [], xRunDir = [], xLogDir = [],
     xLog = [], xWalDir = [], xMemtxDir = [], xVinylDir = [], xPIDFile = [], xRestartable = False,
     xConsoleSocket = [], xBinaryPort = [], xSingleApp = False, xIsFileApp = False, xClusterConfigPath = [],
     xConfiguration = \<lparr>iRaw = None\<rparr>\<rparr>"

text \<open>The options of tt that matter here; a nil section is \<open>None\<close>.\<close>

record envOpts =
  eInstancesEnabled :: string
  eRestartable :: bool
  eTarantoolctlLayout :: bool

record appOpts =
  aRunDir :: string
  aLogDir :: string
  aWalDir :: string
  aMemtxDir :: string
  aVinylDir :: string

record cliOpts =
  oEnv :: "envOpts option"
  oApp :: "appOpts option"

datatype checkFunction = CheckNotConfigured | CheckFailed string | CheckWith check_func

text \<open>
  The interface \<^verbatim>\<open>Instance\<close> as far as it is used here: starting gives a process or an error,
  stopping and waiting change the world.
\<close>

record 's inst =
  instStart :: "'s \<Rightarrow> (string + int) \<times> 's"
  instStop :: "'s \<Rightarrow> int \<Rightarrow> 's"
  instWait :: "'s \<Rightarrow> string option \<times> 's"

record ('s, 't, 'n) runSys =
  rsSys :: "('s, 't, 'n) sys"
  rsProc :: "'s procOs"
  rsIsDir :: "'s \<Rightarrow> string \<Rightarrow> bool"
  rsReadDir :: "'s \<Rightarrow> string \<Rightarrow> string + string list"
  rsGlob :: "'s \<Rightarrow> string \<Rightarrow> string + string list"
  rsParseYAML :: "'s \<Rightarrow> string \<Rightarrow> string + string list"
  rsCwd :: "string + string"
  rsCheck :: checkFunction
  rsRead :: "'s read_func"
  rsCreate :: "instanceCtx \<Rightarrow> string + 's inst"
  rsHup :: "'s \<Rightarrow> int \<Rightarrow> string option \<times> 's"

datatype runerr =
    StatErr2 ferr
  | YamlExt string
  | GlobErr string
  | AmbiguousYaml "string list"
  | YamlNotExist
  | NoInstancesConfig string
  | MissingFiles string
  | NoScript string
  | CheckFuncErr string
  | ClusterErr srcerr
  | NotADirectory string
  | IntegrityErr string string
  | ParseErr string
  | LoadErr string string runerr
  | FindScriptErr string string runerr
  | NoInstances
  | CollectErr string runerr
  | LayoutErr layerr
  | ConfigErr cerr
  | NotAString path
  | AbsErr string
  | TemplateErr "string list"
  | OneInstanceOnly
  | NoTtConfig
  | AppListErr string string
  | MkdirErr string
  | NotDirErr string
  | CreateErr2 string string
  | StartErr string string
  | PidErr string perr
  | WaitErr string
  | StopErr perr
  | KillErr perr
  | QuitErr perr
  | StateErr string
  | RotateErr string

section \<open>Files of applications\<close>

definition GetYamlFileName :: "('s, 't, 'n) runSys \<Rightarrow> 's \<Rightarrow> string \<Rightarrow> bool \<Rightarrow> runerr + string" where
  "GetYamlFileName R s fileName mustExist =
     (case (if pathExt fileName = ''.yaml'' then Some (trimSuffix fileName ''.yaml'')
            else if pathExt fileName = ''.yml'' then Some (trimSuffix fileName ''.yml'') else None) of
        None \<Rightarrow> Inl (YamlExt fileName)
      | Some fileBaseName \<Rightarrow>
          (case rsGlob R s (fileBaseName @ ''.y*ml'') of
             Inl e \<Rightarrow> Inl (GlobErr e)
           | Inr foundFiles \<Rightarrow>
               (case filter (\<lambda>f. pathExt f \<in> {''.yaml'', ''.yml''}) foundFiles of
                  [] \<Rightarrow> if \<not> mustExist then Inr [] else Inl YamlNotExist
                | [f] \<Rightarrow> Inr f
                | fs \<Rightarrow> Inl (AmbiguousYaml fs))))"

definition IsApp :: "('s, 't, 'n) runSys \<Rightarrow> 's \<Rightarrow> string \<Rightarrow> bool" where
  "IsApp R s path =
     (if pStat (rsProc R) s path \<noteq> None then False
      else if rsIsDir R s path then
        list_ex (\<lambda>f. pStat (rsProc R) s (joinPath path f) = None \<and> \<not> rsIsDir R s (joinPath path f))
          [''init.lua'', ''instances.yml'', ''instances.yaml'']
      else pathExt (baseName path) = ''.lua'')"

definition CollectAppList :: "('s, 't, 'n) runSys \<Rightarrow> 's \<Rightarrow> string \<Rightarrow> string \<Rightarrow> string + string list" where
  "CollectAppList R s baseDir appsPath =
     (if appsPath = ''.'' \<and> IsApp R s baseDir then Inr [baseName baseDir]
      else
        (let appsPath = (if appsPath = ''.'' then baseDir else appsPath)
         in case rsReadDir R s appsPath of
              Inl e \<Rightarrow> Inl e
            | Inr dirEntries \<Rightarrow> Inr (filter (\<lambda>n. IsApp R s (joinPath appsPath n)) dirEntries)))"

definition CreateDirectory :: "('s, 't, 'n) runSys \<Rightarrow> string \<Rightarrow> 's \<Rightarrow> runerr option \<times> 's" where
  "CreateDirectory R dir s =
     (case pStat (rsProc R) s dir of
        None \<Rightarrow> if \<not> rsIsDir R s dir then (Some (NotDirErr dir), s) else (None, s)
      | Some NotExist \<Rightarrow> (case pMkdirAll (rsProc R) s dir of (Some e, s') \<Rightarrow> (Some (MkdirErr e), s') | (None, s') \<Rightarrow> (None, s'))
      | Some e \<Rightarrow> (Some (StatErr2 e), s))"

fun createDirectories :: "('s, 't, 'n) runSys \<Rightarrow> string list \<Rightarrow> 's \<Rightarrow> runerr option \<times> 's" where
  "createDirectories R [] s = (None, s)"
| "createDirectories R (d # ds) s =
     (case CreateDirectory R d s of (Some e, s') \<Rightarrow> (Some e, s') | (None, s') \<Rightarrow> createDirectories R ds s')"

definition createInstanceDataDirectories :: "('s, 't, 'n) runSys \<Rightarrow> instanceCtx \<Rightarrow> 's \<Rightarrow> runerr option \<times> 's" where
  "createInstanceDataDirectories R inst s =
     createDirectories R [xWalDir inst, xVinylDir inst, xMemtxDir inst, xRunDir inst, xLogDir inst] s"

definition searchApplicationScript :: "('s, 't, 'n) runSys \<Rightarrow> 's \<Rightarrow> string \<Rightarrow> string \<Rightarrow> runerr + instanceCtx" where
  "searchApplicationScript R s applicationsDir appName =
     (let instCtx = emptyCtx\<lparr>xAppName := appName, xInstName := appName, xSingleApp := True, xIsFileApp := True,
            xAppDir := JoinPaths [applicationsDir, appName]\<rparr>;
          luaPath = joinPath applicationsDir (appName @ ''.lua'')
      in case pStat (rsProc R) s luaPath of
           Some NotExist \<Rightarrow> Inr instCtx
         | Some e \<Rightarrow> Inl (StatErr2 e)
         | None \<Rightarrow> Inr (instCtx\<lparr>xInstanceScript := luaPath\<rparr>))"

record appDirCtx =
  defaultLuaPath :: string
  clusterCfgPath :: string
  instCfgPath :: string

definition collectAppDirFiles :: "('s, 't, 'n) runSys \<Rightarrow> 's \<Rightarrow> string \<Rightarrow> runerr + appDirCtx" where
  "collectAppDirFiles R s appDir =
     (let lua = joinPath appDir ''init.lua''
      in case pStat (rsProc R) s lua of
           Some (OtherFileErr e) \<Rightarrow> Inl (StatErr2 (OtherFileErr e))
         | st \<Rightarrow>
             bindr (GetYamlFileName R s (joinPath appDir ''config.yml'') False) (\<lambda>clusterCfg.
             bindr (GetYamlFileName R s (joinPath appDir ''instances.yml'') False) (\<lambda>instCfg.
             (let defaultLua = (if st = None then lua else [])
              in if instCfg = [] \<and> clusterCfg \<noteq> [] then Inl (NoInstancesConfig clusterCfg)
                 else if instCfg = [] \<and> defaultLua = [] then Inl (MissingFiles appDir)
                 else Inr \<lparr>defaultLuaPath = defaultLua, clusterCfgPath = clusterCfg, instCfgPath = instCfg\<rparr>))))"

definition getInstanceName :: "string \<Rightarrow> bool \<Rightarrow> string" where
  "getInstanceName fullInstanceName isClusterInstance =
     (if isClusterInstance then fullInstanceName
      else if cutPrefix (rev fullInstanceName) (rev ''-stateboard'') \<noteq> None then ''stateboard''
      else (case splitOnce (CHR ''.'') fullInstanceName of None \<Rightarrow> fullInstanceName | Some (_, inst) \<Rightarrow> inst))"

definition findInstanceScriptInAppDir ::
  "('s, 't, 'n) runSys \<Rightarrow> 's \<Rightarrow> string \<Rightarrow> string \<Rightarrow> string \<Rightarrow> string \<Rightarrow> runerr + string"
where
  "findInstanceScriptInAppDir R s appDir instName clusterCfg defaultScript =
     (if clusterCfg \<noteq> [] then Inr []
      else
        (let script = joinPath appDir (instName @ ''.init.lua'')
         in if pStat (rsProc R) s script \<noteq> None
            then (if defaultScript \<noteq> [] then Inr defaultScript else Inl (NoScript instName))
            else Inr script))"

definition loadInstanceConfig ::
  "('s, 't, 'n) runSys \<Rightarrow> string \<Rightarrow> string \<Rightarrow> 's \<Rightarrow> (runerr + instanceConfig) \<times> 's"
where
  "loadInstanceConfig R configPath instName s =
     (if configPath = [] then (Inr \<lparr>iRaw = None\<rparr>, s)
      else
        (case (case rsCheck R of
                 CheckNotConfigured \<Rightarrow> Inr NewDataCollectorFactory
               | CheckFailed e \<Rightarrow> Inl (CheckFuncErr e)
               | CheckWith checkFunc \<Rightarrow> Inr (NewIntegrityDataCollectorFactory checkFunc (rsRead R))) of
           Inl e \<Rightarrow> (Inl e, s)
         | Inr dataCollectors \<Rightarrow>
             (case GetClusterConfig (rsSys R) (NewCollectorFactory dataCollectors) configPath s of
                (Inl e, s1) \<Rightarrow> (Inl (ClusterErr e), s1)
              | (Inr clusterCfg, s1) \<Rightarrow>
                  (case GetInstanceConfig (rsSys R) clusterCfg instName s1 of
                     Inl e \<Rightarrow> (Inl (ClusterErr e), s1)
                   | Inr instCfg \<Rightarrow> (Inr instCfg, s1)))))"

text \<open>The loop over the names of the instances file, in the order Go visits them.\<close>

fun collectNames ::
  "('s, 't, 'n) runSys \<Rightarrow> string \<Rightarrow> string \<Rightarrow> appDirCtx \<Rightarrow> string list \<Rightarrow> 's \<Rightarrow> (runerr + instanceCtx list) \<times> 's"
where
  "collectNames R appDir selectedInstName files [] s = (Inr [], s)"
| "collectNames R appDir selectedInstName files (n # ns) s =
     (let instName = getInstanceName n (clusterCfgPath files \<noteq> []); appName = baseName appDir
      in if selectedInstName \<noteq> [] \<and> instName \<noteq> selectedInstName \<or> instName = appName
         then collectNames R appDir selectedInstName files ns s
         else
           (case loadInstanceConfig R (clusterCfgPath files) instName s of
              (Inl e, s1) \<Rightarrow> (Inl (LoadErr instName (clusterCfgPath files) e), s1)
            | (Inr cfg, s1) \<Rightarrow>
                (case findInstanceScriptInAppDir R s1 appDir instName (clusterCfgPath files) (defaultLuaPath files) of
                   Inl e \<Rightarrow> (Inl (FindScriptErr instName (clusterCfgPath files) e), s1)
                 | Inr script \<Rightarrow>
                     (case collectNames R appDir selectedInstName files ns s1 of
                        (Inl e, s2) \<Rightarrow> (Inl e, s2)
                      | (Inr is, s2) \<Rightarrow>
                          (Inr (emptyCtx\<lparr>xAppDir := appDir, xClusterConfigPath := clusterCfgPath files,
                              xInstName := instName, xAppName := appName, xConfiguration := cfg,
                              xInstanceScript := script\<rparr> # is), s2)))))"

definition collectInstancesFromAppDir ::
  "('s, 't, 'n) runSys \<Rightarrow> string \<Rightarrow> string \<Rightarrow> 's \<Rightarrow> (runerr + instanceCtx list) \<times> 's"
where
  "collectInstancesFromAppDir R appDir selectedInstName s =
     (if \<not> rsIsDir R s appDir then (Inl (NotADirectory appDir), s)
      else
        (case collectAppDirFiles R s appDir of
           Inl e \<Rightarrow> (Inl e, s)
         | Inr files \<Rightarrow>
             (if instCfgPath files = [] \<and> defaultLuaPath files \<noteq> [] then
                (Inr [emptyCtx\<lparr>xInstanceScript := defaultLuaPath files, xAppName := baseName appDir,
                   xInstName := baseName appDir, xAppDir := appDir, xSingleApp := True\<rparr>], s)
              else
                (case rsRead R s (instCfgPath files) of
                   Inl e \<Rightarrow> (Inl (IntegrityErr (instCfgPath files) e), s)
                 | Inr _ \<Rightarrow>
                     (case rsParseYAML R s (instCfgPath files) of
                        Inl e \<Rightarrow> (Inl (ParseErr e), s)
                      | Inr instParams \<Rightarrow>
                          (case collectNames R appDir selectedInstName files instParams s of
                             (Inl e, s1) \<Rightarrow> (Inl e, s1)
                           | (Inr [], s1) \<Rightarrow> (Inl NoInstances, s1)
                           | (Inr is, s1) \<Rightarrow> (Inr is, s1)))))))"

definition CollectInstances ::
  "('s, 't, 'n) runSys \<Rightarrow> string \<Rightarrow> string \<Rightarrow> 's \<Rightarrow> (runerr + instanceCtx list) \<times> 's"
where
  "CollectInstances R appName0 applicationsDir s =
     (let (appName, selectedInstName) =
            (case splitOnce (CHR '':'') appName0 of None \<Rightarrow> (appName0, []) | Some (a, i) \<Rightarrow> (a, i))
      in case searchApplicationScript R s applicationsDir appName of
           Inl e \<Rightarrow> (Inl e, s)
         | Inr instCtx \<Rightarrow>
             (if xInstanceScript instCtx \<noteq> [] then (Inr [instCtx], s)
              else collectInstancesFromAppDir R
                     (if baseName applicationsDir = appName then applicationsDir else joinPath applicationsDir appName)
                     selectedInstName s))"

section \<open>Filling contexts\<close>

text \<open>
  \<^verbatim>\<open>mapValuesFromConfig\<close> for strings: a value that is there is stored, one that is not there
  leaves the destination as it is. A destination is a function that updates the context.
\<close>

fun mapValuesFromConfig ::
  "config \<Rightarrow> (string \<Rightarrow> runerr + string) \<Rightarrow> (path \<times> (string \<Rightarrow> 'c \<Rightarrow> 'c)) list \<Rightarrow> 'c \<Rightarrow> runerr + 'c"
where
  "mapValuesFromConfig cfg mapFunc [] c = Inr c"
| "mapValuesFromConfig cfg mapFunc ((path, destination) # maps) c =
     (case Get cfg path of
        Inl (NotExistError _) \<Rightarrow> mapValuesFromConfig cfg mapFunc maps c
      | Inl err \<Rightarrow> Inl (ConfigErr err)
      | Inr (VStr castedValue) \<Rightarrow>
          bindr (mapFunc castedValue) (\<lambda>newValue. mapValuesFromConfig cfg mapFunc maps (destination newValue c))
      | Inr _ \<Rightarrow> Inl (NotAString path))"

definition setInstCtxFromTtConfig :: "instanceCtx \<Rightarrow> cliOpts \<Rightarrow> string \<Rightarrow> runerr + instanceCtx" where
  "setInstCtxFromTtConfig inst0 opts ttConfigDir =
     (let inst = (case oEnv opts of None \<Rightarrow> inst0 | Some env \<Rightarrow> inst0\<lparr>xRestartable := eRestartable env\<rparr>);
          tarantoolCtlLayout = (case oEnv opts of None \<Rightarrow> False | Some env \<Rightarrow> eTarantoolctlLayout env)
      in case oApp opts of
           None \<Rightarrow> Inr inst
         | Some app \<Rightarrow>
             (case (if tarantoolCtlLayout \<and> xSingleApp inst then NewTntCtlLayout ttConfigDir (xAppName inst)
                    else NewMultiInstLayout (xAppDir inst) (xAppName inst) (xInstName inst)) of
                Inl e \<Rightarrow> Inl (LayoutErr e)
              | Inr l \<Rightarrow>
                  Inr (inst\<lparr>xConsoleSocket := ConsoleSocket l (aRunDir app), xBinaryPort := BinaryPort l (aRunDir app),
                    xPIDFile := PidFile l (aRunDir app), xRunDir := dirName (ConsoleSocket l (aRunDir app)),
                    xLog := LogFile l (aLogDir app), xLogDir := dirName (LogFile l (aLogDir app)),
                    xWalDir := DataDir l (aWalDir app), xVinylDir := DataDir l (aVinylDir app),
                    xMemtxDir := DataDir l (aMemtxDir app)\<rparr>)))"

definition clusterMaps :: "(path \<times> (string \<Rightarrow> instanceCtx \<Rightarrow> instanceCtx)) list" where
  "clusterMaps = [([''wal'', ''dir''], \<lambda>v c. c\<lparr>xWalDir := v\<rparr>), ([''vinyl'', ''dir''], \<lambda>v c. c\<lparr>xVinylDir := v\<rparr>),
     ([''snapshot'', ''dir''], \<lambda>v c. c\<lparr>xMemtxDir := v\<rparr>), ([''console'', ''socket''], \<lambda>v c. c\<lparr>xConsoleSocket := v\<rparr>)]"

definition setInstCtxFromClusterConfig :: "string + string \<Rightarrow> instanceCtx \<Rightarrow> runerr + instanceCtx" where
  "setInstCtxFromClusterConfig cwd inst =
     (case iRaw (xConfiguration inst) of
        None \<Rightarrow> Inr inst
      | Some cfg \<Rightarrow>
          mapValuesFromConfig cfg
            (\<lambda>val. case JoinAbspath cwd [xAppDir inst, val] of Inl e \<Rightarrow> Inl (AbsErr e) | Inr p \<Rightarrow> Inr p) clusterMaps inst)"

definition renderField :: "string \<Rightarrow> string \<Rightarrow> runerr + string" where
  "renderField instName str =
     (case ApplyVars str [(''instance_name'', instName)] of Inl e \<Rightarrow> Inl (TemplateErr e) | Inr r \<Rightarrow> Inr r)"

definition renderInstCtxMembers :: "instanceCtx \<Rightarrow> runerr + instanceCtx" where
  "renderInstCtxMembers inst =
     (let r = renderField (xInstName inst)
      in bindr (r (xWalDir inst)) (\<lambda>wal. bindr (r (xVinylDir inst)) (\<lambda>vinyl. bindr (r (xMemtxDir inst)) (\<lambda>memtx.
         bindr (r (xConsoleSocket inst)) (\<lambda>console. bindr (r (xBinaryPort inst)) (\<lambda>port.
         Inr (inst\<lparr>xWalDir := wal, xVinylDir := vinyl, xMemtxDir := memtx, xConsoleSocket := console,
           xBinaryPort := port\<rparr>)))))))"

definition GetClusterConfigPath ::
  "('s, 't, 'n) runSys \<Rightarrow> 's \<Rightarrow> envOpts \<Rightarrow> string \<Rightarrow> string \<Rightarrow> bool \<Rightarrow> runerr + string"
where
  "GetClusterConfigPath R s env ttConfigDir appName mustExist =
     (let appDir = (if eInstancesEnabled env = ''.'' then ttConfigDir else joinPath (eInstancesEnabled env) appName);
          configPath = joinPath appDir ''config.yml''
      in case GetYamlFileName R s configPath True of
           Inl YamlNotExist \<Rightarrow> if mustExist then Inl YamlNotExist else Inr configPath
         | Inl e \<Rightarrow> Inl e
         | Inr ret \<Rightarrow> Inr ret)"

definition fillInstanceCtx :: "('s, 't, 'n) runSys \<Rightarrow> cliOpts \<Rightarrow> string \<Rightarrow> instanceCtx \<Rightarrow> runerr + instanceCtx" where
  "fillInstanceCtx R opts ttConfigDir inst =
     bindr (setInstCtxFromTtConfig inst opts ttConfigDir) (\<lambda>i1.
     bindr (setInstCtxFromClusterConfig (rsCwd R) i1) renderInstCtxMembers)"

text \<open>
  The applications one after the other; a name that occurs again replaces what was collected
  before. The section of the options with the enabled instances is there.
\<close>

fun collectApps ::
  "('s, 't, 'n) runSys \<Rightarrow> cliOpts \<Rightarrow> string \<Rightarrow> string \<Rightarrow> string list \<Rightarrow> (string \<times> instanceCtx list) list \<Rightarrow> 's \<Rightarrow>
   (runerr + (string \<times> instanceCtx list) list) \<times> 's"
where
  "collectApps R opts instEnabledPath ttConfigDir [] apps s = (Inr apps, s)"
| "collectApps R opts instEnabledPath ttConfigDir (a # as) apps s =
     (let appName = trimSuffix a ''.lua''
      in case CollectInstances R appName instEnabledPath s of
           (Inl e, s1) \<Rightarrow> (Inl (CollectErr appName e), s1)
         | (Inr collectedInstances, s1) \<Rightarrow>
             (case mapr (fillInstanceCtx R opts ttConfigDir) collectedInstances of
                Inl e \<Rightarrow> (Inl e, s1)
              | Inr is \<Rightarrow> collectApps R opts instEnabledPath ttConfigDir as (AList.update appName is apps) s1))"

definition CollectInstancesForApps ::
  "('s, 't, 'n) runSys \<Rightarrow> string list \<Rightarrow> envOpts \<Rightarrow> appOpts option \<Rightarrow> string \<Rightarrow> 's \<Rightarrow>
   (runerr + (string \<times> instanceCtx list) list) \<times> 's"
where
  "CollectInstancesForApps R appList env app ttConfigDir s =
     collectApps R \<lparr>oEnv = Some env, oApp = app\<rparr>
       (if eInstancesEnabled env = ''.'' then ttConfigDir else eInstancesEnabled env) ttConfigDir appList [] s"

definition FillCtx ::
  "('s, 't, 'n) runSys \<Rightarrow> string \<Rightarrow> string \<Rightarrow> string \<Rightarrow> envOpts \<Rightarrow> appOpts option \<Rightarrow> string list \<Rightarrow> 's \<Rightarrow>
   (runerr + instanceCtx list) \<times> 's"
where
  "FillCtx R commandName configPath configDir env app args s =
     (if length args > 1 \<and> commandName \<noteq> ''run'' \<and> commandName \<noteq> ''connect'' then (Inl OneInstanceOnly, s)
      else if configPath = [] then (Inl NoTtConfig, s)
      else
        (case (case args of [] \<Rightarrow> CollectAppList R s configDir (eInstancesEnabled env) | a # _ \<Rightarrow> Inr [a]) of
           Inl e \<Rightarrow> (Inl (AppListErr (eInstancesEnabled env) e), s)
         | Inr appList \<Rightarrow>
             (case CollectInstancesForApps R appList env app configDir s of
                (Inl e, s1) \<Rightarrow> (Inl e, s1)
              | (Inr instances, s1) \<Rightarrow> (Inr (concat (map snd instances)), s1))))"

section \<open>Running instances\<close>

definition GetAppInstanceName :: "instanceCtx \<Rightarrow> string" where
  "GetAppInstanceName inst = (if xSingleApp inst then xAppName inst else xAppName inst @ CHR '':'' # xInstName inst)"

definition GetAppPath :: "instanceCtx \<Rightarrow> string" where
  "GetAppPath inst = (if xIsFileApp inst then xInstanceScript inst else xAppDir inst)"

definition removeIfThere :: "'s procOs \<Rightarrow> string \<Rightarrow> 's \<Rightarrow> 's" where
  "removeIfThere P f s = (if pStat P s f = None then pRemove P s f else s)"

definition cleanup :: "'s procOs \<Rightarrow> instanceCtx \<Rightarrow> 's \<Rightarrow> 's" where
  "cleanup P run s = removeIfThere P (xBinaryPort run) (removeIfThere P (xConsoleSocket run) (removeIfThere P (xPIDFile run) s))"

text \<open>\<^verbatim>\<open>cleanup\<close> is deferred: it runs on every way out after the start.\<close>

definition RunInstance :: "('s, 't, 'n) runSys \<Rightarrow> instanceCtx \<Rightarrow> 's \<Rightarrow> runerr option \<times> 's" where
  "RunInstance R inst s =
     (case createDirectories R [xWalDir inst, xVinylDir inst, xMemtxDir inst, xRunDir inst] s of
        (Some e, s1) \<Rightarrow> (Some e, s1)
      | (None, s1) \<Rightarrow>
          (case rsCreate R inst of
             Inl e \<Rightarrow> (Some (CreateErr2 (xInstName inst) e), s1)
           | Inr i \<Rightarrow>
               (case instStart i s1 of
                  (Inl e, s2) \<Rightarrow> (Some (StartErr (xInstName inst) e), s2)
                | (Inr pid, s2) \<Rightarrow>
                    (case CreatePIDFile (rsProc R) (xPIDFile inst) pid s2 of
                       (Some e, s3) \<Rightarrow> (Some (PidErr (xPIDFile inst) e), cleanup (rsProc R) inst (instStop i s3 10000000000))
                     | (None, s3) \<Rightarrow>
                         (case instWait i s3 of (r, s4) \<Rightarrow> (map_option WaitErr r, cleanup (rsProc R) inst s4))))))"

definition Stop :: "'s procOs \<Rightarrow> instanceCtx \<Rightarrow> 's \<Rightarrow> (runerr option \<times> 's) option" where
  "Stop P run s =
     (case StopProcess P (xPIDFile run) s of
        None \<Rightarrow> None
      | Some (Inl (NoRunningPid (StatPidFile NotExist)), s1) \<Rightarrow> Some (None, s1)
      | Some (Inl e, s1) \<Rightarrow> Some (Some (StopErr e), s1)
      | Some (Inr pid, s1) \<Rightarrow> Some (None, removeIfThere P (xConsoleSocket run) s1))"

definition Kill :: "'s procOs \<Rightarrow> instanceCtx \<Rightarrow> 's \<Rightarrow> runerr option \<times> 's" where
  "Kill P run s =
     (case KillProcessGroup P (xPIDFile run) s of
        (Inl e, s1) \<Rightarrow> (Some (KillErr e), s1)
      | (Inr pid, s1) \<Rightarrow> (None, cleanup P run s1))"

definition Quit :: "'s procOs \<Rightarrow> instanceCtx \<Rightarrow> 's \<Rightarrow> (runerr option \<times> 's) option" where
  "Quit P run s =
     (case QuitProcess P (xPIDFile run) s of
        None \<Rightarrow> None
      | Some (Inl e, s1) \<Rightarrow> Some (Some (QuitErr e), s1)
      | Some (Inr pid, s1) \<Rightarrow> Some (None, removeIfThere P (xConsoleSocket run) s1))"

definition Status :: "'s procOs \<Rightarrow> instanceCtx \<Rightarrow> 's \<Rightarrow> processState \<times> 's" where
  "Status P run s = ProcessStatus P (xPIDFile run) s"

definition Logrotate :: "('s, 't, 'n) runSys \<Rightarrow> instanceCtx \<Rightarrow> 's \<Rightarrow> (runerr + string) \<times> 's" where
  "Logrotate R run s =
     (case GetPIDFromFile (rsProc R) (xPIDFile run) s of
        Inl _ \<Rightarrow> (Inl (StateErr (ProcessStateString ProcStateStopped)), s)
      | Inr pid \<Rightarrow>
          (case IsProcessAlive (rsProc R) pid s of
             ((alive, _), s1) \<Rightarrow>
               if \<not> alive then (Inl (StateErr (ProcessStateString ProcStateDead)), s1)
               else
                 (case rsHup R s1 pid of
                    (Some e, s2) \<Rightarrow> (Inl (RotateErr e), s2)
                  | (None, s2) \<Rightarrow>
                      (Inr (GetAppInstanceName run @ '': logs has been rotated. PID: '' @ showInt pid @ ''.''), s2))))"

text \<open>\<open>Inl\<close> is the answer that instances cannot be started, with the reason.\<close>

definition IsAbleToStartInstances :: "string + version \<Rightarrow> instanceCtx list \<Rightarrow> (string option \<times> string) + unit" where
  "IsAbleToStartInstances tntVersion instances =
     (case tntVersion of
        Inl e \<Rightarrow> Inl (None, e)
      | Inr v \<Rightarrow>
          (case find (\<lambda>i. xClusterConfigPath i \<noteq> [] \<and> Major v < 3) instances of
             Some i \<Rightarrow> Inl (Some (VStrRep v), xClusterConfigPath i)
           | None \<Rightarrow> Inr ()))"

section \<open>Names of instances and applications\<close>

definition extractInstanceNames :: "instanceCtx list \<Rightarrow> (instanceCtx \<Rightarrow> bool) \<Rightarrow> string list" where
  "extractInstanceNames instances flt = map GetAppInstanceName (filter flt instances)"

fun extractApps :: "(instanceCtx \<Rightarrow> bool) \<Rightarrow> bool \<Rightarrow> instanceCtx list \<Rightarrow> string list" where
  "extractApps flt isAnyValid [] = []"
| "extractApps flt isAnyValid (inst # instances) =
     (let valid = isAnyValid \<or> flt inst
      in if instances = [] \<or> xAppName inst \<noteq> xAppName (hd instances)
         then (if valid then [xAppName inst] else []) @ extractApps flt False instances
         else extractApps flt valid instances)"

definition extractAppNames :: "instanceCtx list \<Rightarrow> (instanceCtx \<Rightarrow> bool) \<Rightarrow> string list" where
  "extractAppNames instances flt = extractApps flt False instances"

text \<open>The filters by status, as one state of the world answers them.\<close>

definition IsInstanceActive :: "'s procOs \<Rightarrow> 's \<Rightarrow> instanceCtx \<Rightarrow> bool" where
  "IsInstanceActive P s inst \<longleftrightarrow> psCode (fst (Status P inst s)) = ProcessRunningCode"

definition ExtractActiveInstanceNames :: "'s procOs \<Rightarrow> 's \<Rightarrow> instanceCtx list \<Rightarrow> string list" where
  "ExtractActiveInstanceNames P s instances = extractInstanceNames instances (IsInstanceActive P s)"

definition ExtractInactiveInstanceNames :: "'s procOs \<Rightarrow> 's \<Rightarrow> instanceCtx list \<Rightarrow> string list" where
  "ExtractInactiveInstanceNames P s instances = extractInstanceNames instances (\<lambda>i. \<not> IsInstanceActive P s i)"

definition ExtractActiveAppNames :: "'s procOs \<Rightarrow> 's \<Rightarrow> instanceCtx list \<Rightarrow> string list" where
  "ExtractActiveAppNames P s instances = extractAppNames instances (IsInstanceActive P s)"

definition ExtractInactiveAppNames :: "'s procOs \<Rightarrow> 's \<Rightarrow> instanceCtx list \<Rightarrow> string list" where
  "ExtractInactiveAppNames P s instances = extractAppNames instances (\<lambda>i. \<not> IsInstanceActive P s i)"

definition ExtractInstanceNames :: "instanceCtx list \<Rightarrow> string list" where
  "ExtractInstanceNames instances = extractInstanceNames instances (\<lambda>_. True)"

definition ExtractAppNames :: "instanceCtx list \<Rightarrow> string list" where
  "ExtractAppNames instances = extractAppNames instances (\<lambda>_. True)"

text \<open>The command that starts a watchdog; \<open>exec\<close> starts a program with arguments.\<close>

record cliCtx =
  cIntegrityCheck :: string
  cIsSystem :: bool
  cLocalLaunchDir :: string
  cConfigPath :: string

definition watchdogArgs :: "cliCtx \<Rightarrow> string list \<Rightarrow> string \<Rightarrow> string list" where
  "watchdogArgs cli args appName =
     (if cIntegrityCheck cli \<noteq> [] then [''--integrity-check'', cIntegrityCheck cli] else []) @ args @
     (if cIsSystem cli then [''-S'']
      else if cLocalLaunchDir cli \<noteq> [] then [''-L'', cLocalLaunchDir cli]
      else [''--cfg'', cConfigPath cli]) @ [''start'', ''--watchdog'', appName]"

definition StartWatchdog ::
  "('s, 't, 'n) runSys \<Rightarrow> ('s \<Rightarrow> string \<Rightarrow> string list \<Rightarrow> string option \<times> 's) \<Rightarrow> cliCtx \<Rightarrow> string \<Rightarrow> instanceCtx \<Rightarrow>
   string list \<Rightarrow> 's \<Rightarrow> runerr option \<times> 's"
where
  "StartWatchdog R exec cli ttExecutable inst args s =
     (case ProcessStatus (rsProc R) (xPIDFile inst) s of
        (procStatus, s1) \<Rightarrow>
          if psCode procStatus = ProcessRunningCode then (None, s1)
          else
            (case rsRead R s1 ttExecutable of
               Inl e \<Rightarrow> (Some (IntegrityErr ttExecutable e), s1)
             | Inr _ \<Rightarrow>
                 (case exec s1 ttExecutable (watchdogArgs cli args (GetAppInstanceName inst)) of
                    (Some e, s2) \<Rightarrow> (Some (StartErr (xInstName inst) e), s2)
                  | (None, s2) \<Rightarrow> (None, s2))))"

section \<open>Which instances are collected\<close>

lemma collectNames_sound:
  "collectNames R appDir sel files names s = (Inr is, s') \<Longrightarrow>
     map xInstName is = filter (\<lambda>n. (sel = [] \<or> n = sel) \<and> n \<noteq> baseName appDir)
       (map (\<lambda>n. getInstanceName n (clusterCfgPath files \<noteq> [])) names) \<and>
     (\<forall>i \<in> set is. xAppName i = baseName appDir \<and> xAppDir i = appDir \<and> \<not> xSingleApp i \<and>
        xClusterConfigPath i = clusterCfgPath files \<and>
        (\<exists>s1 s2. loadInstanceConfig R (clusterCfgPath files) (xInstName i) s1 = (Inr (xConfiguration i), s2) \<and>
           findInstanceScriptInAppDir R s2 appDir (xInstName i) (clusterCfgPath files) (defaultLuaPath files) =
             Inr (xInstanceScript i)))"
proof (induction R appDir sel files names s arbitrary: "is" rule: collectNames.induct)
  case (1 R appDir sel files s)
  then show ?case by simp
next
  case (2 R appDir sel files n ns s)
  let ?n = "getInstanceName n (clusterCfgPath files \<noteq> [])"
  show ?case
  proof (cases "sel \<noteq> [] \<and> ?n \<noteq> sel \<or> ?n = baseName appDir")
    case True
    with "2.prems" have "collectNames R appDir sel files ns s = (Inr is, s')" by (auto simp: Let_def)
    from "2.IH"(1) [OF refl refl True this] True show ?thesis by auto
  next
    case False
    from "2.prems" False obtain cfg s1 script is2 where c:
      "loadInstanceConfig R (clusterCfgPath files) ?n s = (Inr cfg, s1)"
      "findInstanceScriptInAppDir R s1 appDir ?n (clusterCfgPath files) (defaultLuaPath files) = Inr script"
      "collectNames R appDir sel files ns s1 = (Inr is2, s')"
      "is = emptyCtx\<lparr>xAppDir := appDir, xClusterConfigPath := clusterCfgPath files, xInstName := ?n,
         xAppName := baseName appDir, xConfiguration := cfg, xInstanceScript := script\<rparr> # is2"
      by (auto simp: Let_def split: prod.splits sum.splits)
    from "2.IH"(2) [OF refl refl False c(1) [symmetric] refl c(2) c(3)] c(1,2,4) False show ?thesis
      by (auto simp: emptyCtx_def)
  qed
qed

section \<open>Properties\<close>

text \<open>
  Property C28: collecting the instances of a directory gives either the single instance of its
  script, if there is no instances file, or exactly the instances of the instances file under
  their short names, in its order, without the one that is named like the application and, if an
  instance was selected, only that one. Every instance knows its application and has the
  configuration that was loaded and the script that was found for its name; there is at least one.
\<close>

theorem collectInstancesFromAppDir_exact:
  assumes "collectInstancesFromAppDir R appDir sel s = (Inr is, s')"
  shows "\<exists>files. collectAppDirFiles R s appDir = Inr files \<and>
    (if instCfgPath files = [] then
       is = [emptyCtx\<lparr>xInstanceScript := defaultLuaPath files, xAppName := baseName appDir, xInstName := baseName appDir,
         xAppDir := appDir, xSingleApp := True\<rparr>] \<and> defaultLuaPath files \<noteq> []
     else
       \<exists>names. rsParseYAML R s (instCfgPath files) = Inr names \<and> is \<noteq> [] \<and>
         map xInstName is = filter (\<lambda>n. (sel = [] \<or> n = sel) \<and> n \<noteq> baseName appDir)
           (map (\<lambda>n. getInstanceName n (clusterCfgPath files \<noteq> [])) names) \<and>
         (\<forall>i \<in> set is. xAppName i = baseName appDir \<and> xAppDir i = appDir \<and> \<not> xSingleApp i \<and>
            xClusterConfigPath i = clusterCfgPath files \<and>
            (\<exists>s1 s2. loadInstanceConfig R (clusterCfgPath files) (xInstName i) s1 = (Inr (xConfiguration i), s2) \<and>
               findInstanceScriptInAppDir R s2 appDir (xInstName i) (clusterCfgPath files) (defaultLuaPath files) =
                 Inr (xInstanceScript i))))"
proof -
  from assms obtain files where f: "collectAppDirFiles R s appDir = Inr files"
    by (auto simp: collectInstancesFromAppDir_def split: if_splits sum.splits)
  have some: "instCfgPath files \<noteq> [] \<or> defaultLuaPath files \<noteq> []"
    using f by (auto simp: collectAppDirFiles_def bindr_eq_Inr Let_def split: option.splits ferr.splits if_splits)
  show ?thesis
  proof (cases "instCfgPath files = []")
    case True
    with assms f some show ?thesis by (auto simp: collectInstancesFromAppDir_def split: if_splits)
  next
    case False
    with assms f obtain names where n: "rsParseYAML R s (instCfgPath files) = Inr names"
      "collectNames R appDir sel files names s = (Inr is, s')" "is \<noteq> []"
      by (auto simp: collectInstancesFromAppDir_def split: if_splits sum.splits prod.splits list.splits)
    from collectNames_sound [OF n(2)] n(1,3) False f show ?thesis by auto
  qed
qed

text \<open>
  Property C27: stopping an instance always ends, if the clock goes on, and returns without an
  error only if the instance has no PID file or the process that it named is gone.
\<close>

theorem Stop_outcome:
  assumes "pidFileOs P (xPIDFile run) view alive may" and "clock P left" and "\<forall>f s. alive (pRemove P s f) = alive s"
  shows "\<exists>r s'. Stop P run s = Some (r, s') \<and>
    (r = None \<longrightarrow> view s = None \<or> (\<exists>pid. recordedPid view s = Some pid \<and> alive s pid \<and> \<not> alive s' pid))"
proof -
  obtain r s1 where r: "StopProcess P (xPIDFile run) s = Some (r, s1)"
      "\<forall>pid. r = Inr pid \<longrightarrow> recordedPid view s = Some pid \<and> alive s pid \<and> \<not> alive s1 pid"
    using StopProcess_outcome [OF assms(1,2), of s] by blast
  have keep: "alive (removeIfThere P f s1) = alive s1" for f using assms(3) by (simp add: removeIfThere_def)
  show ?thesis
  proof (cases r)
    case (Inr pid)
    with r keep show ?thesis by (auto simp: Stop_def)
  next
    case (Inl e)
    show ?thesis
    proof (cases "e = NoRunningPid (StatPidFile NotExist)")
      case True
      have "view s = None"
      proof (rule ccontr)
        assume "view s \<noteq> None"
        then have "pStat P s (xPIDFile run) = None" using os_stat [OF assms(1)] by simp
        then have "getRunningPid P (xPIDFile run) s \<noteq> (Inl (StatPidFile NotExist), s2)" for s2
          by (auto simp: getRunningPid_def GetPIDFromFile_def split: option.splits sum.splits prod.splits if_splits)
        with r(1) Inl True show False
          by (auto simp: StopProcess_def stopWith_def split: sum.splits prod.splits option.splits if_splits)
      qed
      with r Inl True show ?thesis by (simp add: Stop_def)
    next
      case False
      then have "Stop P run s = Some (Some (StopErr e), s1)"
        using r(1) Inl by (simp add: Stop_def split: perr.splits ferr.splits)
      then show ?thesis by simp
    qed
  qed
qed

section \<open>Examples\<close>

text \<open>An application with a script and an instances file, over the operating system of the PID files.\<close>

definition demoRun :: "(memProc, 't, 'n) sys \<Rightarrow> (memProc, 't, 'n) runSys" where
  "demoRun S =
     \<lparr>rsSys = S, rsProc = memOs, rsIsDir = (\<lambda>s p. p \<noteq> ''/apps/a/init.lua''), rsReadDir = (\<lambda>s p. Inr [''a'']),
      rsGlob = (\<lambda>s p. Inr (if p = ''/apps/a/instances.y*ml'' then [''/apps/a/instances.yml''] else [])),
      rsParseYAML = (\<lambda>s p. Inr [''a.one'', ''a'', ''a-stateboard'']), rsCwd = Inr ''/'', rsCheck = CheckNotConfigured,
      rsRead = (\<lambda>s p. Inr ''text''),
      rsCreate = (\<lambda>c. Inr \<lparr>instStart = (\<lambda>(v, ps, n). (Inr 42, (v, 42 # ps, n))),
        instStop = (\<lambda>(v, ps, n) t. (v, removeAll 42 ps, n)), instWait = (\<lambda>s. (None, s))\<rparr>),
      rsHup = (\<lambda>s p. (None, s))\<rparr>"

lemma demoRun_collects:
  "map_option (map (\<lambda>i. (xInstName i, xInstanceScript i)))
     (case fst (collectInstancesFromAppDir (demoRun S) ''/apps/a'' [] (None, [], 0)) of Inl e \<Rightarrow> None | Inr is \<Rightarrow> Some is) =
   Some [(''one'', ''/apps/a/one.init.lua''), (''stateboard'', ''/apps/a/stateboard.init.lua'')]"
  unfolding demoRun_def memOs_def by code_simp

theorem collectInstancesFromAppDir_exact_witness:
  "\<forall>S. \<exists>is s'. collectInstancesFromAppDir (demoRun S) ''/apps/a'' [] (None, [], 0) = (Inr is, s') \<and>
     (\<forall>i \<in> set is. xAppName i = ''a'')"
proof
  fix S :: "(memProc, 't, 'n) sys"
  let ?c = "collectInstancesFromAppDir (demoRun S) ''/apps/a'' [] (None, [], 0)"
  obtain "is" s' where c: "?c = (Inr is, s')"
    using demoRun_collects [of S] by (cases ?c) (auto split: sum.splits)
  have b: "baseName ''/apps/a'' = ''a''" by code_simp
  have "\<forall>i \<in> set is. xAppName i = ''a''"
    using collectInstancesFromAppDir_exact [OF c] by (auto simp: b split: if_splits)
  with c show "\<exists>is s'. ?c = (Inr is, s') \<and> (\<forall>i \<in> set is. xAppName i = ''a'')" by blast
qed

definition demoInst :: instanceCtx where
  "demoInst = emptyCtx\<lparr>xPIDFile := ''/run/tt.pid'', xConsoleSocket := ''/run/tt.control'', xBinaryPort := ''/run/tt.sock''\<rparr>"

theorem Stop_outcome_witness:
  "\<exists>s'. Stop memOs demoInst (Some ''7'', [7], 3) = Some (None, s') \<and> 7 \<notin> set (fst (snd s'))"
proof -
  have p: "pidFileOs memOs (xPIDFile demoInst) fst (\<lambda>s pid. pid \<in> set (fst (snd s))) (\<lambda>pid. pid \<noteq> 1)"
    using memOs_pidFile by (simp add: demoInst_def)
  have a: "\<forall>f s. (\<lambda>pid. pid \<in> set (fst (snd (pRemove memOs s f)))) = (\<lambda>pid. pid \<in> set (fst (snd s)))"
    by (auto simp: memOs_def)
  have c: "Stop memOs demoInst (Some ''7'', [7], 3) = Some (None, (Some ''7'', [], 3))" by code_simp
  have "recordedPid fst (Some ''7'', [7 :: int], 3 :: nat) = Some 7" by code_simp
  with Stop_outcome [OF p memOs_clock a, of "(Some ''7'', [7], 3)"] c show ?thesis by auto
qed

text \<open>
  Running an instance whose PID file names another process that is alive fails as it should, but
  the deferred cleanup then removes that PID file: the running process can no longer be found.
\<close>

lemma RunInstance_removes_foreign_pid:
  "RunInstance (demoRun S) demoInst (Some ''7'', [7], 0) = (Some (PidErr ''/run/tt.pid'' (AlreadyExists 7)), (None, [7], 0))"
  unfolding demoRun_def memOs_def by code_simp

text \<open>For instances that are grouped by application the names are those of the applications with a chosen instance.\<close>

lemma extractApps_grouped:
  "distinct (remdups_adj (map xAppName is)) \<Longrightarrow>
   extractApps flt b is = filter (\<lambda>a. (\<exists>i \<in> set is. xAppName i = a \<and> flt i) \<or> (b \<and> a = xAppName (hd is))) (remdups_adj (map xAppName is))"
proof (induction flt b "is" rule: extractApps.induct)
  case (2 flt b i "is")
  show ?case
  proof (cases "is")
    case (Cons j js)
    show ?thesis
    proof (cases "xAppName i = xAppName j")
      case True
      with "2.IH"(2) [OF refl] "2.prems" show ?thesis by (auto simp: Cons intro!: filter_cong)
    next
      case False
      have notin: "xAppName i \<notin> set (remdups_adj (map xAppName is))" and d: "distinct (remdups_adj (map xAppName is))"
        using "2.prems" False by (simp_all add: Cons)
      then have other: "\<forall>k \<in> set is. xAppName k \<noteq> xAppName i" by (metis image_eqI list.set_map remdups_adj_set)
      have "extractApps flt False is = filter (\<lambda>a. \<exists>k \<in> set is. xAppName k = a \<and> flt k) (remdups_adj (map xAppName is))"
        using "2.IH"(1) [OF refl _ d] False by (simp add: Cons)
      also have "\<dots> = filter (\<lambda>a. (\<exists>k \<in> set (i # is). xAppName k = a \<and> flt k) \<or> (b \<and> a = xAppName i)) (remdups_adj (map xAppName is))"
        using other by (intro filter_cong) auto
      finally show ?thesis using False other by (auto simp: Cons)
    qed
  qed auto
qed simp

lemma extractAppNames_grouped:
  "distinct (remdups_adj (map xAppName is)) \<Longrightarrow>
   extractAppNames is flt = filter (\<lambda>a. \<exists>i \<in> set is. xAppName i = a \<and> flt i) (remdups_adj (map xAppName is))"
  by (simp add: extractAppNames_def extractApps_grouped)

end
