(* ===== verification/History.thy ===== *)
theory History
  imports Process Uri
begin

text \<open>
  The command history of the console (\<^verbatim>\<open>src/cli/connect/history.go\<close>) and the reading of the
  last lines of a file it rests on (\<^verbatim>\<open>src/cli/util/util.go\<close>): the backwards scan for the
  beginning of the last lines, the scanner of lines, parsing and writing the history file. The
  operating system is a parameter; \<open>regularFile\<close> is what is relied on of it. A text is a list
  of bytes. The theorems: the scan never returns more lines than asked for, and returns exactly the
  last ones when the blocks it reads do not overlap; what is loaded from a written history; the
  invariant of the history.
\<close>

section \<open>Lines of a text\<close>

definition newline :: char where
  "newline = CHR 0x0A"

text \<open>The lines of a text: every line ends with a newline except perhaps the last one.\<close>

definition rawLines :: "string \<Rightarrow> string list" where
  "rawLines c = (let ps = splitAll newline c in if last ps = [] then butlast ps else ps)"

text \<open>
  \<^verbatim>\<open>bufio.ScanLines\<close> drops a carriage return before the newline; the scanner stops without a
  line when a line fills its buffer of \<^verbatim>\<open>bufio.MaxScanTokenSize\<close> bytes.
\<close>

definition dropCR :: "string \<Rightarrow> string" where
  "dropCR l = (if l \<noteq> [] \<and> last l = CHR 0x0D then butlast l else l)"

definition maxScanTokenSize :: nat where
  "maxScanTokenSize = 65536"

definition scanLines :: "string \<Rightarrow> string list" where
  "scanLines c = map dropCR (takeWhile (\<lambda>l. length l < maxScanTokenSize) (rawLines c))"

section \<open>The last lines of a file\<close>

text \<open>
  Files as the operating system gives them: opening, the size, seeking, one read at an offset into
  a buffer of a length, the bytes that reading on to the end yields, and writing a whole file.
\<close>

record 's fileOs =
  fOpen :: "'s \<Rightarrow> string \<Rightarrow> string option"
  fSize :: "'s \<Rightarrow> string \<Rightarrow> string + int"
  fSeek :: "'s \<Rightarrow> string \<Rightarrow> int \<Rightarrow> string option"
  fRead :: "'s \<Rightarrow> string \<Rightarrow> int \<Rightarrow> nat \<Rightarrow> string + string"
  fRest :: "'s \<Rightarrow> string \<Rightarrow> int \<Rightarrow> string"
  fWriteFile :: "'s \<Rightarrow> string \<Rightarrow> string \<Rightarrow> string option \<times> 's"

datatype lineErr = OpenFile string | FileInfo string | SeekFile string | ReadFile string

definition bufSize :: int where
  "bufSize = 10000"

definition readFromPos :: "'s fileOs \<Rightarrow> 's \<Rightarrow> string \<Rightarrow> int \<Rightarrow> lineErr + string" where
  "readFromPos F s f pos =
     (case fSeek F s f pos of
        Some e \<Rightarrow> Inl (SeekFile e)
      | None \<Rightarrow>
          (case fRead F s f pos (nat bufSize) of Inl e \<Rightarrow> Inl (ReadFile e) | Inr b \<Rightarrow> Inr b))"

text \<open>The inner loop, over the bytes of a block from the last one: the position found, or the count.\<close>

fun scanBlock :: "int \<Rightarrow> int \<Rightarrow> string \<Rightarrow> nat \<Rightarrow> int \<Rightarrow> int + int" where
  "scanBlock lines filePos buf 0 newLinesN = Inr newLinesN"
| "scanBlock lines filePos buf (Suc i) newLinesN =
     (let n = (if buf ! i = newline then newLinesN + 1 else newLinesN)
      in if n = lines + 1 then Inl (filePos + int (i + 1)) else scanBlock lines filePos buf i n)"

function scanBlocks :: "'s fileOs \<Rightarrow> 's \<Rightarrow> string \<Rightarrow> int \<Rightarrow> int \<Rightarrow> int \<Rightarrow> lineErr + int" where
  "scanBlocks F s f lines filePos newLinesN =
     (let lastPart = filePos < 0; pos = (if lastPart then 0 else filePos)
      in case readFromPos F s f pos of
           Inl e \<Rightarrow> Inl e
         | Inr buf \<Rightarrow>
             (case scanBlock lines pos buf (length buf) newLinesN of
                Inl p \<Rightarrow> Inr p
              | Inr n \<Rightarrow>
                  if lastPart \<or> pos = 0 then Inr 0 else scanBlocks F s f lines (pos - bufSize) n))"
  by pat_completeness auto

termination
  by (relation "measure (\<lambda>(F, s, f, lines, filePos, n). nat (filePos + bufSize))") (auto simp: bufSize_def)

declare scanBlocks.simps [simp del]

definition GetLastNLinesBegin :: "'s fileOs \<Rightarrow> 's \<Rightarrow> string \<Rightarrow> int \<Rightarrow> lineErr + int" where
  "GetLastNLinesBegin F s f lines =
     (if lines = 0 then Inr 0
      else
        let lines = (if lines < 0 then - lines else lines)
        in case fOpen F s f of
             Some e \<Rightarrow> Inl (OpenFile e)
           | None \<Rightarrow>
               (case fSize F s f of
                  Inl e \<Rightarrow> Inl (FileInfo e)
                | Inr fsize \<Rightarrow>
                    if fsize = 0 then Inr 0
                    else (case readFromPos F s f (fsize - 1) of
                            Inl e \<Rightarrow> Inl e
                          | Inr b \<Rightarrow>
                              scanBlocks F s f lines (fsize - bufSize)
                                (if take 1 b \<noteq> [newline] then 1 else 0))))"

definition GetLastNLines :: "'s fileOs \<Rightarrow> 's \<Rightarrow> string \<Rightarrow> int \<Rightarrow> lineErr + string list" where
  "GetLastNLines F s f linesN =
     (case GetLastNLinesBegin F s f linesN of
        Inl e \<Rightarrow> Inl e
      | Inr pos \<Rightarrow>
          (case fOpen F s f of
             Some e \<Rightarrow> Inl (OpenFile e)
           | None \<Rightarrow>
               (case fSeek F s f pos of
                  Some e \<Rightarrow> Inl (SeekFile e)
                | None \<Rightarrow> Inr (scanLines (fRest F s f pos)))))"

section \<open>The history\<close>

record commandHistory =
  hFilepath :: string
  hCommands :: "string list"
  hTimestamps :: "int list"
  hMaxCommands :: int

text \<open>\<^verbatim>\<open>^#\d+$\<close>.\<close>

definition isTimestamp :: "string \<Rightarrow> bool" where
  "isTimestamp l = (case l of [] \<Rightarrow> False | c # ds \<Rightarrow> c = CHR ''#'' \<and> ds \<noteq> [] \<and> list_all (\<lambda>d. digitVal d \<noteq> None) ds)"

text \<open>The loop over the cells, from the line of a timestamp.\<close>

function historyCells :: "string list \<Rightarrow> string list \<times> int list" where
  "historyCells [] = ([], [])"
| "historyCells (t # ls) =
     (let body = takeWhile (\<lambda>l. \<not> isTimestamp l) ls;
          (commands, timestamps) = historyCells (dropWhile (\<lambda>l. \<not> isTimestamp l) ls)
      in case parseInt64 (drop 1 t) of
           Some timestamp \<Rightarrow>
             if body \<noteq> [] then (joinSep newline body # commands, timestamp # timestamps) else (commands, timestamps)
         | None \<Rightarrow> (commands, timestamps))"
  by pat_completeness auto

termination
  by (relation "measure length") (auto simp: le_imp_less_Suc length_dropWhile_le)

text \<open>The clock is the argument \<open>now\<close>.\<close>

definition parseHistoryCells :: "int \<Rightarrow> string list \<Rightarrow> string list \<times> int list" where
  "parseHistoryCells now ls =
     (if \<not> list_ex isTimestamp ls then (ls, map (\<lambda>_. now) ls)
      else historyCells (dropWhile (\<lambda>l. \<not> isTimestamp l) ls))"

datatype histErr = LoadFailed lineErr | HomeDir string | WriteHistory string | IndexPanic

definition load :: "'s fileOs \<Rightarrow> int \<Rightarrow> 's \<Rightarrow> commandHistory \<Rightarrow> histErr option \<times> commandHistory" where
  "load F now s h =
     (case GetLastNLines F s (hFilepath h) (hMaxCommands h) of
        Inl e \<Rightarrow> (Some (LoadFailed e), h)
      | Inr ls \<Rightarrow>
          (case parseHistoryCells now ls of
             (commands, timestamps) \<Rightarrow> (None, h\<lparr>hCommands := commands, hTimestamps := timestamps\<rparr>)))"

definition appendCommand :: "int \<Rightarrow> string \<Rightarrow> commandHistory \<Rightarrow> commandHistory" where
  "appendCommand now command h =
     (let commands = hCommands h @ [command]; timestamps = hTimestamps h @ [now]
      in if int (length commands) > hMaxCommands h
         then h\<lparr>hCommands := drop 1 commands, hTimestamps := drop 1 timestamps\<rparr>
         else h\<lparr>hCommands := commands, hTimestamps := timestamps\<rparr>)"

definition historyCell :: "string \<Rightarrow> int \<Rightarrow> string" where
  "historyCell command timestamp = ''#'' @ showInt timestamp @ [newline] @ command @ [newline]"

text \<open>The content of the file; \<open>None\<close> when a command has no timestamp, an index out of range.\<close>

fun historyContent :: "string list \<Rightarrow> int list \<Rightarrow> string option" where
  "historyContent [] ts = Some []"
| "historyContent (c # cs) [] = None"
| "historyContent (c # cs) (t # ts) =
     (case historyContent cs ts of None \<Rightarrow> None | Some r \<Rightarrow> Some (historyCell c t @ r))"

definition writeToFile :: "'s fileOs \<Rightarrow> commandHistory \<Rightarrow> 's \<Rightarrow> histErr option \<times> 's" where
  "writeToFile F h s =
     (case historyContent (hCommands h) (hTimestamps h) of
        None \<Rightarrow> (Some IndexPanic, s)
      | Some c \<Rightarrow>
          (case fWriteFile F s (hFilepath h) c of
             (Some e, s') \<Rightarrow> (Some (WriteHistory e), s')
           | (None, s') \<Rightarrow> (None, s')))"

definition newCommandHistory :: "string + string \<Rightarrow> string \<Rightarrow> int \<Rightarrow> histErr + commandHistory" where
  "newCommandHistory homeDir historyFileName maxCommands =
     (case homeDir of
        Inl e \<Rightarrow> Inl (HomeDir e)
      | Inr d \<Rightarrow>
          Inr \<lparr>hFilepath = joinPath d historyFileName, hCommands = [], hTimestamps = [], hMaxCommands = maxCommands\<rparr>)"

section \<open>Counting lines\<close>

definition newlines :: "string \<Rightarrow> nat" where
  "newlines c = length (filter (\<lambda>b. b = newline) c)"

definition openLine :: "string \<Rightarrow> nat" where
  "openLine c = (if c \<noteq> [] \<and> last c \<noteq> newline then 1 else 0)"


lemma newlines_simps [simp]:
  "newlines [] = 0" "newlines (c # cs) = (if c = newline then Suc (newlines cs) else newlines cs)"
  "newlines (a @ b) = newlines a + newlines b"
  by (auto simp: newlines_def)

lemma rawLines_Nil [simp]: "rawLines [] = []"
  by (simp add: rawLines_def)

lemma splitAll_append_sep: "splitAll sep (a @ sep # b) = splitAll sep a @ splitAll sep b"
proof (induction a)
  case (Cons c a)
  then show ?case by (cases "splitAll sep a") auto
qed simp

lemma splitAll_free: "sep \<notin> set a \<Longrightarrow> splitAll sep a = [a]"
  by (induction a) auto

lemma rawLines_append: "rawLines (a @ newline # b) = splitAll newline a @ rawLines b"
  by (simp add: rawLines_def splitAll_append_sep Let_def butlast_append)

lemma rawLines_newline [simp]: "rawLines (a @ [newline]) = splitAll newline a"
  using rawLines_append [of a "[]"] by simp

lemma length_splitAll: "length (splitAll newline c) = Suc (newlines c)"
proof (induction c)
  case (Cons b c)
  then show ?case by (cases "splitAll newline c") auto
qed simp

lemma last_splitAll_Nil: "last (splitAll newline c) = [] \<longleftrightarrow> c = [] \<or> last c = newline"
proof (cases c rule: rev_cases)
  case (snoc a b)
  show ?thesis
  proof (cases "b = newline")
    case True
    with snoc show ?thesis using splitAll_append_sep [of newline a "[]"] by simp
  next
    case False
    have "last (splitAll newline (a @ [b])) \<noteq> []"
    proof (induction a)
      case (Cons x a)
      then show ?case by (cases "splitAll newline (a @ [b])") (auto split: if_splits)
    qed (use False in simp)
    with snoc False show ?thesis by simp
  qed
qed simp

lemma length_rawLines: "length (rawLines c) = newlines c + openLine c"
  by (auto simp: rawLines_def Let_def length_splitAll last_splitAll_Nil openLine_def)

text \<open>A suffix of a text that begins at the beginning of a line holds the last lines of the text.\<close>

definition lineStart :: "string \<Rightarrow> nat \<Rightarrow> bool" where
  "lineStart c p \<longleftrightarrow> p = 0 \<or> (p \<le> length c \<and> c ! (p - 1) = newline)"

lemma rawLines_drop:
  assumes "lineStart c p"
  shows "rawLines (drop p c) = drop (length (rawLines c) - length (rawLines (drop p c))) (rawLines c)"
proof (cases p)
  case (Suc q)
  with assms have q: "q < length c" "c ! q = newline" by (auto simp: lineStart_def)
  then have "c = take q c @ newline # drop p c" using Suc by (metis id_take_nth_drop)
  then have "rawLines c = splitAll newline (take q c) @ rawLines (drop p c)" by (metis rawLines_append)
  then show ?thesis by simp
qed simp

lemma openLine_drop: "p < length c \<Longrightarrow> openLine (drop p c) = openLine c"
  by (auto simp: openLine_def)

section \<open>The backwards scan\<close>

text \<open>
  What is relied on of the operating system for a file that holds the text \<open>c\<close> and does not
  change: a read returns what fits into the buffer.
\<close>

definition regularFile :: "'s fileOs \<Rightarrow> 's \<Rightarrow> string \<Rightarrow> string \<Rightarrow> bool" where
  "regularFile F s f c \<longleftrightarrow>
     fOpen F s f = None \<and> fSize F s f = Inr (int (length c)) \<and>
     (\<forall>p. 0 \<le> p \<longrightarrow> fSeek F s f p = None \<and> fRest F s f p = drop (nat p) c) \<and>
     (\<forall>p n. 0 \<le> p \<and> nat p < length c \<and> 0 < n \<longrightarrow> fRead F s f p n = Inr (take n (drop (nat p) c)))"

lemma readFromPos_regular:
  "regularFile F s f c \<Longrightarrow> 0 \<le> p \<Longrightarrow> nat p < length c \<Longrightarrow>
   readFromPos F s f p = Inr (take 10000 (drop (nat p) c))"
  by (simp add: readFromPos_def regularFile_def bufSize_def)

lemma scanBlock_count:
  assumes "n \<le> length b" "k \<le> ls"
  shows "case scanBlock ls p b n k of
           Inr k' \<Rightarrow> k' = k + int (newlines (take n b)) \<and> k' \<le> ls
         | Inl r \<Rightarrow> \<exists>i < n. r = p + int i + 1 \<and> b ! i = newline \<and> k + int (newlines (drop (i + 1) (take n b))) = ls"
  using assms
proof (induction n arbitrary: k)
  case (Suc i)
  let ?k = "if b ! i = newline then k + 1 else k"
  have i: "i < length b" using Suc.prems by simp
  then have tk: "take (Suc i) b = take i b @ [b ! i]" by (simp add: take_Suc_conv_app_nth)
  show ?case
  proof (cases "?k = ls + 1")
    case True
    with Suc.prems have "b ! i = newline" "k = ls" by (auto split: if_splits)
    with True show ?thesis by (auto simp: Let_def)
  next
    case False
    with Suc.prems have "?k \<le> ls" by (auto split: if_splits)
    from Suc.IH [OF _ this] i False show ?thesis
      by (force simp: Let_def tk split: sum.splits if_splits)
  qed
qed simp

lemma scanBlock_zero: "scanBlock ls p b n k = Inl r \<Longrightarrow> n \<le> length b \<Longrightarrow> k \<le> ls \<Longrightarrow>
    \<exists>i < n. r = p + int i + 1 \<and> b ! i = newline \<and> k + int (newlines (drop (i + 1) (take n b))) = ls"
  using scanBlock_count [of n b k ls p] by simp

lemma scanBlock_rest: "scanBlock ls p b n k = Inr k' \<Longrightarrow> n \<le> length b \<Longrightarrow> k \<le> ls \<Longrightarrow>
    k' = k + int (newlines (take n b)) \<and> k' \<le> ls"
  using scanBlock_count [of n b k ls p] by simp

text \<open>The bytes from a position inside a block: the rest of the block and what follows it.\<close>

lemma newlines_from_block:
  assumes "i < length b" "b = take m (drop q c)"
  shows "newlines (drop (q + i + 1) c) = newlines (drop (i + 1) b) + newlines (drop (q + m) c)"
proof -
  have "drop (i + 1) (b @ r) = drop (i + 1) b @ r" for r using assms(1) by simp
  from this [of "drop m (drop q c)"] have "drop (i + 1) (drop q c) = drop (i + 1) b @ drop m (drop q c)"
    unfolding assms(2) append_take_drop_id .
  then have "newlines (drop (i + 1) (drop q c)) = newlines (drop (i + 1) b) + newlines (drop m (drop q c))" by simp
  then show ?thesis by (simp add: add.commute add.left_commute)
qed

lemma newlines_drop_mono: "p \<le> q \<Longrightarrow> newlines (drop q c) \<le> newlines (drop p c)"
  by (metis le_add2 le_add_diff_inverse2 drop_drop append_take_drop_id newlines_simps(3))

text \<open>
  Before a block is read, the count is that of the newlines from the end of the block on, in the
  variable \<open>u\<close> whether the last line is open. The first block of the file is read in full even
  when a part of it was counted before; \<open>aligned\<close> says that this does not happen.
\<close>

definition alignedAt :: "string \<Rightarrow> int \<Rightarrow> bool" where
  "alignedAt c filePos \<longleftrightarrow> (0 \<le> filePos \<and> bufSize dvd filePos) \<or> int (length c) \<le> filePos + bufSize \<and> filePos \<le> 0"

lemma scanBlocks_found:
  assumes "regularFile F s f c" "c \<noteq> []" "filePos < int (length c)" "0 \<le> filePos + bufSize"
    and "k = u + int (newlines (drop (nat (filePos + bufSize)) c))" "k \<le> ls"
  shows "\<exists>p. scanBlocks F s f ls filePos k = Inr (int p) \<and> lineStart c p \<and>
             u + int (newlines (drop p c)) \<le> ls \<and>
             (alignedAt c filePos \<longrightarrow> p = 0 \<or> u + int (newlines (drop p c)) = ls)"
  using assms(3-)
proof (induction "nat (filePos + bufSize)" arbitrary: filePos k rule: less_induct)
  case less
  define q where "q = nat filePos"
  define b where "b = take 10000 (drop q c)"
  have q: "q < length c" using less.prems(1) assms(2) by (cases "filePos < 0") (auto simp: q_def)
  have rd: "readFromPos F s f (int q) = Inr b"
    unfolding b_def using readFromPos_regular [OF assms(1), of "int q"] q by simp
  have pos: "(if filePos < 0 then 0 else filePos) = int q" by (simp add: q_def)
  have B: "b ! i = c ! (q + i)" if "i < length b" for i using that q by (simp add: b_def)
  have over: "newlines (drop (q + 10000) c) \<le> newlines (drop (nat (filePos + bufSize)) c)"
    by (rule newlines_drop_mono) (auto simp: q_def bufSize_def)
  have same: "newlines (drop (q + 10000) c) = newlines (drop (nat (filePos + bufSize)) c)" if "0 \<le> filePos \<or> int (length c) \<le> filePos + bufSize"
    using that over less.prems(2) by (auto simp: q_def bufSize_def nat_add_distrib)
  show ?case
  proof (cases "scanBlock ls (int q) b (length b) k")
    case (Inl r)
    from scanBlock_zero [OF Inl order.refl less.prems(4)] obtain i where
      i: "i < length b" "r = int (q + i + 1)" "b ! i = newline" "k + int (newlines (drop (i + 1) b)) = ls" by auto
    have st: "lineStart c (q + i + 1)" using i B [OF i(1)] by (auto simp: lineStart_def b_def)
    have "u + int (newlines (drop (q + i + 1) c)) \<le> ls"
      using i(4) less.prems(3) over newlines_from_block [OF i(1) b_def] by simp
    moreover have "alignedAt c filePos \<longrightarrow> u + int (newlines (drop (q + i + 1) c)) = ls"
      using i(4) less.prems(3) same newlines_from_block [OF i(1) b_def] by (auto simp: alignedAt_def)
    moreover have "scanBlocks F s f ls filePos k = Inr (int (q + i + 1))"
      using Inl i(2) rd pos by (subst scanBlocks.simps) (simp add: Let_def)
    ultimately show ?thesis using st by blast
  next
    case (Inr k')
    from scanBlock_rest [OF Inr order.refl less.prems(4)] have k': "k' = k + int (newlines b)" "k' \<le> ls" by auto
    have tot: "newlines (drop q c) = newlines b + newlines (drop (q + 10000) c)"
      unfolding b_def by (metis append_take_drop_id newlines_simps(3) drop_drop add.commute)
    show ?thesis
    proof (cases "filePos \<le> 0")
      case True
      then have "scanBlocks F s f ls filePos k = Inr 0" using Inr rd pos
        by (subst scanBlocks.simps) (auto simp: Let_def q_def)
      moreover have "u + int (newlines c) \<le> ls" using True k' less.prems(3) over tot by (simp add: q_def)
      ultimately show ?thesis by (intro exI [of _ 0]) (auto simp: lineStart_def)
    next
      case False
      then have rec: "scanBlocks F s f ls filePos k = scanBlocks F s f ls (filePos - bufSize) k'" using Inr rd pos
        by (subst scanBlocks.simps) (auto simp: Let_def q_def)
      have al: "alignedAt c filePos \<Longrightarrow> alignedAt c (filePos - bufSize)"
        using False by (auto simp: alignedAt_def bufSize_def dest!: zdvd_imp_le intro: dvd_diff)
      have "k' = u + int (newlines (drop (nat (filePos - bufSize + bufSize)) c))"
        using k'(1) less.prems(3) same tot False by (simp add: q_def)
      from less.hyps [OF _ _ _ this k'(2)] False less.prems(1) al show ?thesis
        by (auto simp: rec bufSize_def)
    qed
  qed
qed

section \<open>The last lines\<close>

text \<open>Files whose blocks do not overlap: one block, or a whole number of blocks.\<close>

definition wholeBlocks :: "string \<Rightarrow> bool" where
  "wholeBlocks c \<longleftrightarrow> length c \<le> nat bufSize \<or> nat bufSize dvd length c"

lemma openLine_drop_le: "openLine (drop p c) \<le> openLine c"
  by (auto simp: openLine_def)

lemma GetLastNLinesBegin_start:
  assumes "regularFile F s f c" "0 < N"
  shows "\<exists>p. GetLastNLinesBegin F s f (int N) = Inr (int p) \<and> lineStart c p \<and>
             length (rawLines (drop p c)) \<le> N \<and>
             (wholeBlocks c \<longrightarrow> length (rawLines (drop p c)) = min N (length (rawLines c)))"
proof (cases "c = []")
  case True
  with assms have "GetLastNLinesBegin F s f (int N) = Inr 0"
    by (simp add: GetLastNLinesBegin_def regularFile_def)
  with True show ?thesis by (intro exI [of _ 0]) (auto simp: lineStart_def)
next
  case False
  let ?u = "int (openLine c)" and ?p = "int (length c) - bufSize"
  have len: "int (length c) - 1 = int (length c - 1)" using False by (cases c) auto
  have "readFromPos F s f (int (length c) - 1) = Inr [last c]"
    using False readFromPos_regular [OF assms(1), of "int (length c) - 1"] unfolding len
    by (cases c rule: rev_cases) auto
  then have beg: "GetLastNLinesBegin F s f (int N) = scanBlocks F s f (int N) ?p ?u"
    using False assms by (simp add: GetLastNLinesBegin_def regularFile_def openLine_def)
  have al: "alignedAt c ?p" if "wholeBlocks c"
  proof (cases "length c \<le> 10000")
    case False
    with that obtain m where m: "length c = 10000 * m" by (auto simp: wholeBlocks_def bufSize_def elim: dvdE)
    with False have "?p = bufSize * (int m - 1)" "1 \<le> m" by (auto simp: bufSize_def)
    then show ?thesis by (simp add: alignedAt_def bufSize_def)
  qed (simp add: alignedAt_def bufSize_def)
  have u: "?u \<le> int N" using assms(2) by (simp add: openLine_def)
  obtain p where p: "scanBlocks F s f (int N) ?p ?u = Inr (int p)" "lineStart c p"
      "openLine c + newlines (drop p c) \<le> N"
      "alignedAt c ?p \<longrightarrow> p = 0 \<or> openLine c + newlines (drop p c) = N"
    using scanBlocks_found [OF assms(1) False, of ?p ?u ?u "int N"] u by (auto simp: bufSize_def)
  have le: "length (rawLines (drop p c)) \<le> N"
    using p(3) openLine_drop_le [of p c] by (simp add: length_rawLines)
  moreover have "length (rawLines (drop p c)) = min N (length (rawLines c))" if "wholeBlocks c"
  proof (cases "p = 0")
    case False
    with p(4) al that have N: "openLine c + newlines (drop p c) = N" by blast
    have "p \<noteq> length c"
      using N assms(2) p(2) False \<open>c \<noteq> []\<close> by (auto simp: openLine_def lineStart_def last_conv_nth split: if_splits)
    with p(2) False have "length (rawLines (drop p c)) = N"
      using N openLine_drop [of p c] by (auto simp: length_rawLines lineStart_def)
    then show ?thesis using rawLines_drop [OF p(2)] by (metis length_drop diff_le_self min.absorb1)
  qed (use le in simp)
  ultimately show ?thesis using p beg by auto
qed

lemma GetLastNLines_regular:
  assumes "regularFile F s f c" "GetLastNLinesBegin F s f n = Inr (int p)"
  shows "GetLastNLines F s f n = Inr (scanLines (drop p c))"
  using assms by (simp add: GetLastNLines_def regularFile_def)

lemma GetLastNLines_lines:
  assumes "regularFile F s f c" "0 < N"
  shows "\<exists>k. GetLastNLines F s f (int N) =
               Inr (map dropCR (takeWhile (\<lambda>l. length l < maxScanTokenSize) (drop k (rawLines c)))) \<and>
             length (rawLines c) - k \<le> N \<and>
             (wholeBlocks c \<longrightarrow> k = length (rawLines c) - N)"
proof -
  obtain p where p: "GetLastNLinesBegin F s f (int N) = Inr (int p)" "lineStart c p"
      "length (rawLines (drop p c)) \<le> N"
      "wholeBlocks c \<longrightarrow> length (rawLines (drop p c)) = min N (length (rawLines c))"
    using GetLastNLinesBegin_start [OF assms] by blast
  let ?k = "length (rawLines c) - length (rawLines (drop p c))"
  have d: "rawLines (drop p c) = drop ?k (rawLines c)" by (rule rawLines_drop [OF p(2)])
  then have "GetLastNLines F s f (int N) =
               Inr (map dropCR (takeWhile (\<lambda>l. length l < maxScanTokenSize) (drop ?k (rawLines c))))"
    using GetLastNLines_regular [OF assms(1) p(1)] by (simp add: scanLines_def)
  moreover have "length (rawLines c) - ?k \<le> N"
    using p(3) by (subst (asm) d) simp
  ultimately show ?thesis using p(4) by (intro exI [of _ ?k]) auto
qed

text \<open>
  Property C34: asked for the last lines of a file, at least one, the function returns lines from
  the end of the file, and never more than asked for. When the file fits into one block of the
  backwards scan, or its size is a multiple of the block, these are exactly the last ones, or all
  lines of a shorter file. A carriage return at the end of a line is dropped, and the lines stop
  before one that does not fit into the buffer of the scanner.
\<close>

theorem GetLastNLines_last:
  assumes "regularFile F s f c" "0 < N"
  shows "\<exists>k. GetLastNLines F s f (int N) =
               Inr (map dropCR (takeWhile (\<lambda>l. length l < maxScanTokenSize) (drop k (rawLines c)))) \<and>
             length (rawLines c) - k \<le> N \<and>
             (wholeBlocks c \<longrightarrow> k = length (rawLines c) - N)"
  using GetLastNLines_lines [OF assms] .

text \<open>Files in memory, an operating system in which every operation on a file that exists succeeds.\<close>

definition memFiles :: "(string \<rightharpoonup> string) fileOs" where
  "memFiles =
     \<lparr>fOpen = (\<lambda>s f. if s f = None then Some ''no such file'' else None),
      fSize = (\<lambda>s f. case s f of None \<Rightarrow> Inl ''no such file'' | Some c \<Rightarrow> Inr (int (length c))),
      fSeek = (\<lambda>s f p. if p < 0 then Some ''invalid argument'' else None),
      fRead = (\<lambda>s f p n. case s f of None \<Rightarrow> Inl ''closed''
                 | Some c \<Rightarrow> if nat p < length c then Inr (take n (drop (nat p) c)) else Inl ''EOF''),
      fRest = (\<lambda>s f p. case s f of None \<Rightarrow> [] | Some c \<Rightarrow> drop (nat p) c),
      fWriteFile = (\<lambda>s f c. (None, s(f \<mapsto> c)))\<rparr>"

lemma memFiles_regular: "s f = Some c \<Longrightarrow> regularFile memFiles s f c"
  by (simp add: regularFile_def memFiles_def)

theorem GetLastNLines_last_witness:
  "GetLastNLines memFiles [''log'' \<mapsto> ''a'' @ [newline] @ ''b'' @ [newline] @ ''c''] ''log'' 2 = Inr [''b'', ''c'']"
proof -
  let ?c = "''a'' @ [newline] @ ''b'' @ [newline] @ ''c''"
  have r: "regularFile memFiles [''log'' \<mapsto> ?c] ''log'' ?c" by (rule memFiles_regular) simp
  have l: "rawLines ?c = [''a'', ''b'', ''c'']" by (simp add: rawLines_def newline_def)
  have w: "wholeBlocks ?c" by (simp add: wholeBlocks_def bufSize_def)
  from GetLastNLines_last [OF r, of 2] l w show ?thesis
    by (auto simp: dropCR_def maxScanTokenSize_def)
qed

lemma scanBlock_newlines:
  assumes "n \<le> m" "k \<le> ls"
  shows "scanBlock ls p (replicate m newline) n k =
           (if k + int n \<le> ls then Inr (k + int n) else Inl (p + int n - (ls - k)))"
  using assms
proof (induction n arbitrary: k)
  case (Suc i)
  show ?case
  proof (cases "k = ls")
    case False
    with Suc.prems have "k + 1 \<le> ls" by simp
    with Suc.IH [OF _ this] Suc.prems False show ?thesis by (auto simp: Let_def)
  qed (use Suc.prems in \<open>simp add: Let_def\<close>)
qed simp

text \<open>
  The condition on the blocks cannot be dropped. A file of 15000 empty lines has 12000 last lines,
  that begin at byte 3000; the block at its beginning overlaps the one at its end, 5000 newlines
  count twice, and the lines that are returned begin at byte 8000.
\<close>

lemma GetLastNLinesBegin_overlap:
  assumes "regularFile F s f (replicate 15000 newline)"
  shows "GetLastNLinesBegin F s f 12000 = Inr 8000"
proof -
  have rd: "readFromPos F s f p = Inr (replicate (min 10000 (15000 - nat p)) newline)" if "0 \<le> p" "p < 15000" for p
    using readFromPos_regular [OF assms that(1)] that by simp
  have "scanBlocks F s f 12000 (- 5000) 10000 = Inr 8000"
    by (subst scanBlocks.simps) (simp add: rd scanBlock_newlines)
  then have "scanBlocks F s f 12000 5000 0 = Inr 8000"
    by (subst scanBlocks.simps) (simp add: rd scanBlock_newlines bufSize_def)
  then show ?thesis using assms rd [of 14999]
    by (simp add: GetLastNLinesBegin_def regularFile_def bufSize_def)
qed

section \<open>The history invariant\<close>

definition wfHistory :: "commandHistory \<Rightarrow> bool" where
  "wfHistory h \<longleftrightarrow> length (hTimestamps h) = length (hCommands h) \<and> int (length (hCommands h)) \<le> hMaxCommands h"

lemma historyCells_lengths:
  "length (snd (historyCells ls)) = length (fst (historyCells ls)) \<and> length (fst (historyCells ls)) \<le> length ls"
proof (induction ls rule: historyCells.induct)
  case (2 t ls)
  let ?r = "historyCells (dropWhile (\<lambda>l. \<not> isTimestamp l) ls)"
  have "length (dropWhile (\<lambda>l. \<not> isTimestamp l) ls) \<le> length ls" by (rule length_dropWhile_le)
  with 2 show ?case by (cases ?r) (auto simp: Let_def split: option.splits)
qed simp

lemma parseHistoryCells_lengths:
  assumes "parseHistoryCells now ls = (commands, timestamps)"
  shows "length timestamps = length commands \<and> length commands \<le> length ls"
proof (cases "list_ex isTimestamp ls")
  case True
  then have "historyCells (dropWhile (\<lambda>l. \<not> isTimestamp l) ls) = (commands, timestamps)"
    using assms by (simp add: parseHistoryCells_def)
  then show ?thesis
    using historyCells_lengths [of "dropWhile (\<lambda>l. \<not> isTimestamp l) ls"] length_dropWhile_le [of "\<lambda>l. \<not> isTimestamp l" ls]
    by simp
qed (use assms in \<open>auto simp: parseHistoryCells_def\<close>)

lemma wfHistory_append:
  "wfHistory h \<Longrightarrow> wfHistory (appendCommand now command h)"
  by (auto simp: wfHistory_def appendCommand_def Let_def)

lemma wfHistory_write:
  assumes "wfHistory h"
  shows "fst (writeToFile F h s) \<noteq> Some IndexPanic"
proof -
  have "length ts = length cs \<Longrightarrow> historyContent cs ts \<noteq> None" for cs ts
    by (induction cs ts rule: historyContent.induct) auto
  with assms show ?thesis by (auto simp: wfHistory_def writeToFile_def split: prod.splits option.splits)
qed

lemma wfHistory_load:
  assumes "regularFile F s (hFilepath h) c" "0 < hMaxCommands h"
  shows "\<exists>h'. load F now s h = (None, h') \<and> wfHistory h' \<and> hFilepath h' = hFilepath h \<and> hMaxCommands h' = hMaxCommands h"
proof -
  obtain ls where ls: "GetLastNLines F s (hFilepath h) (hMaxCommands h) = Inr ls" "int (length ls) \<le> hMaxCommands h"
  proof -
    obtain p where "GetLastNLinesBegin F s (hFilepath h) (int (nat (hMaxCommands h))) = Inr (int p)"
        "length (rawLines (drop p c)) \<le> nat (hMaxCommands h)"
      using GetLastNLinesBegin_start [OF assms(1), of "nat (hMaxCommands h)"] assms(2) by auto
    moreover have "length (scanLines (drop p c)) \<le> length (rawLines (drop p c))"
      by (simp add: scanLines_def length_takeWhile_le)
    ultimately show ?thesis using that GetLastNLines_regular [OF assms(1)] assms(2) by force
  qed
  obtain cs ts where p: "parseHistoryCells now ls = (cs, ts)" by (meson surj_pair)
  from parseHistoryCells_lengths [OF this] ls p show ?thesis
    by (auto simp: load_def wfHistory_def)
qed

section \<open>What is loaded from a written history\<close>

text \<open>
  The lines of one entry of the file. An entry survives when its timestamp is one the parser reads
  and no line of its command looks like a timestamp, ends with a carriage return or is too long.
\<close>

definition cellLines :: "string \<times> int \<Rightarrow> string list" where
  "cellLines e = (''#'' @ showInt (snd e)) # splitAll newline (fst e)"

definition lineOk :: "string \<Rightarrow> bool" where
  "lineOk l \<longleftrightarrow> dropCR l = l \<and> length l < maxScanTokenSize"

definition cellOk :: "string \<times> int \<Rightarrow> bool" where
  "cellOk e \<longleftrightarrow> 0 \<le> snd e \<and> snd e < 2 ^ 63 \<and> list_all (\<lambda>l. \<not> isTimestamp l \<and> lineOk l) (splitAll newline (fst e))"

definition cellsText :: "(string \<times> int) list \<Rightarrow> string list" where
  "cellsText es = concat (map cellLines es)"

lemma cellsText_simps [simp]:
  "cellsText [] = []" "cellsText (e # es) = cellLines e @ cellsText es"
  "cellsText (as @ bs) = cellsText as @ cellsText bs"
  by (auto simp: cellsText_def)

lemma showInt_digits: "0 \<le> t \<Longrightarrow> list_all (\<lambda>d. digitVal d \<noteq> None) (showInt t) \<and> showInt t \<noteq> []"
  using showNat_hd [of "nat t"]
  by (auto simp: showInt_def list_all_iff digitVal_def Let_def dest: showNat_chars)

lemma isTimestamp_shown: "0 \<le> t \<Longrightarrow> isTimestamp (''#'' @ showInt t)"
  using showInt_digits by (simp add: isTimestamp_def)

lemma length_showNat: "n < 10 ^ m \<Longrightarrow> length (showNat n) \<le> Suc m"
proof (induction m arbitrary: n)
  case (Suc m)
  then have "n div 10 < 10 ^ m" by (simp add: less_mult_imp_div_less mult.commute)
  from Suc.IH [OF this] show ?case by (subst showNat.simps) auto
qed (subst showNat.simps, simp)

lemma lineOk_shown:
  assumes "0 \<le> t" "t < 2 ^ 63"
  shows "lineOk (''#'' @ showInt t)"
proof -
  have "nat t < 10 ^ 19" using assms by simp
  from length_showNat [OF this] have "length (showInt t) \<le> 20" using assms by (simp add: showInt_def)
  moreover have "last (showInt t) \<noteq> CHR 0x0D"
    using showInt_digits [OF assms(1)] last_in_set [of "showInt t"] by (force simp: list_all_iff digitVal_def Let_def)
  ultimately show ?thesis using showInt_digits [OF assms(1)] by (simp add: lineOk_def dropCR_def maxScanTokenSize_def)
qed

lemma cellLines_ok: "cellOk e \<Longrightarrow> list_all lineOk (cellLines e)"
  using lineOk_shown [of "snd e"] by (auto simp: cellOk_def cellLines_def list_all_iff)

lemma cellsText_ok: "list_all cellOk es \<Longrightarrow> list_all lineOk (cellsText es)"
  by (induction es) (auto simp: cellLines_ok)

lemma scan_ok: "list_all lineOk ls \<Longrightarrow> map dropCR (takeWhile (\<lambda>l. length l < maxScanTokenSize) ls) = ls"
  by (induction ls) (auto simp: lineOk_def)

lemma cellsText_hd: "list_all cellOk es \<Longrightarrow> es \<noteq> [] \<Longrightarrow> \<exists>t ls. cellsText es = t # ls \<and> isTimestamp t"
  by (cases es) (auto simp: cellLines_def cellOk_def isTimestamp_shown [simplified])

text \<open>The lines of a command up to the next timestamp.\<close>

lemma cells_split:
  assumes "\<forall>l \<in> set a. \<not> isTimestamp l" "list_all cellOk es"
  shows "takeWhile (\<lambda>l. \<not> isTimestamp l) (a @ cellsText es) = a"
    and "dropWhile (\<lambda>l. \<not> isTimestamp l) (a @ cellsText es) = cellsText es"
  using assms cellsText_hd [OF assms(2)] by (cases "es = []"; auto simp: takeWhile_append2 dropWhile_append2)+

lemma historyCells_cells: "list_all cellOk es \<Longrightarrow> historyCells (cellsText es) = (map fst es, map snd es)"
proof (induction es)
  case (Cons e es)
  have e: "\<forall>l \<in> set (splitAll newline (fst e)). \<not> isTimestamp l"
    "parseInt64 (showInt (snd e)) = Some (snd e)"
    using Cons.prems by (auto simp: cellOk_def list_all_iff parseInt64_showInt)
  then show ?case using Cons cells_split [OF e(1), of es] by (simp add: cellLines_def Let_def)
qed simp

lemma parse_suffix:
  assumes "list_all cellOk es" "es \<noteq> []" "\<forall>l \<in> set a. \<not> isTimestamp l"
  shows "parseHistoryCells now (a @ cellsText es) = (map fst es, map snd es)"
  using cellsText_hd [OF assms(1,2)] cells_split(2) [OF assms(3,1)] historyCells_cells [OF assms(1)]
  by (auto simp: parseHistoryCells_def)

text \<open>The last lines of the file are a part of a command and the entries after it.\<close>

lemma drop_cells:
  assumes "list_all cellOk es" "length (cellsText (drop j es)) \<le> N"
    and "j = 0 \<or> N < length (cellsText (drop (j - 1) es))" "j < length es"
  shows "\<exists>a. drop (length (cellsText es) - N) (cellsText es) = a @ cellsText (drop j es) \<and> (\<forall>l \<in> set a. \<not> isTimestamp l)"
proof (cases j)
  case 0
  with assms(2) show ?thesis by simp
next
  case (Suc i)
  let ?c = "cellLines (es ! i)" and ?d = "cellsText (drop j es)"
  have i: "drop i es = es ! i # drop j es" using Suc assms(4) by (simp add: Cons_nth_drop_Suc)
  then have split: "cellsText es = cellsText (take i es) @ ?c @ ?d"
    by (metis append_take_drop_id cellsText_simps(2,3))
  have N: "N < length ?c + length ?d" using assms(3) Suc i by simp
  define m where "m = length ?c + length ?d - N"
  have m: "0 < m" "m \<le> length ?c" using N assms(2) by (auto simp: m_def)
  then have "drop (length (cellsText es) - N) (cellsText es) = drop m ?c @ ?d"
    using N unfolding split by (simp add: m_def)
  moreover have "set (drop m ?c) \<subseteq> set (splitAll newline (fst (es ! i)))"
    using m(1) by (cases m) (auto simp: cellLines_def dest: in_set_dropD)
  moreover have "cellOk (es ! i)" using assms(1,4) Suc by (simp add: list_all_length)
  ultimately show ?thesis by (auto simp: cellOk_def list_all_iff)
qed

lemma rawLines_content:
  "length ts = length cs \<Longrightarrow> \<exists>c. historyContent cs ts = Some c \<and> rawLines c = cellsText (zip cs ts)"
proof (induction cs ts rule: historyContent.induct)
  case (3 c cs t ts)
  then obtain r where r: "historyContent cs ts = Some r" "rawLines r = cellsText (zip cs ts)" by auto
  have "rawLines (historyCell c t @ r) = splitAll newline (''#'' @ showInt t) @ splitAll newline c @ rawLines r"
    using rawLines_append [of "''#'' @ showInt t" "c @ newline # r"] rawLines_append [of c r]
    by (simp add: historyCell_def)
  moreover have "newline \<notin> set (''#'' @ showInt t)"
    using showInt_chars [of newline t] by (auto simp: newline_def)
  ultimately show ?case using r splitAll_free [of newline "''#'' @ showInt t"]
    by (simp add: cellLines_def del: splitAll.simps)
qed auto

text \<open>What is relied on of writing: a file that was written without an error holds the text.\<close>

definition keepsWrites :: "'s fileOs \<Rightarrow> bool" where
  "keepsWrites F \<longleftrightarrow> (\<forall>s f c s'. fWriteFile F s f c = (None, s') \<longrightarrow> regularFile F s' f c)"

text \<open>
  Property C33: a console that loads the history a console has written gets the newest entries back,
  commands and timestamps, as many as have all their lines among the last lines of the file that it
  reads. The number of lines it reads is the maximum number of commands, although every command takes
  two lines at least. The theorem is about files whose blocks do not overlap in the scan, and
  histories in which no line of a command looks like a timestamp.
\<close>

theorem load_written:
  assumes "keepsWrites F" "writeToFile F h s = (None, s')" "wfHistory h"
    and "hFilepath h' = hFilepath h" "hMaxCommands h' = int N" "0 < N"
    and "es = zip (hCommands h) (hTimestamps h)" "list_all cellOk es"
    and "\<forall>c. historyContent (hCommands h) (hTimestamps h) = Some c \<longrightarrow> wholeBlocks c"
    and "length (cellsText (drop j es)) \<le> N" "j = 0 \<or> N < length (cellsText (drop (j - 1) es))" "j < length es"
  shows "load F now s' h' =
           (None, h'\<lparr>hCommands := drop j (hCommands h), hTimestamps := drop j (hTimestamps h)\<rparr>)"
proof -
  have l: "length (hTimestamps h) = length (hCommands h)" using assms(3) by (simp add: wfHistory_def)
  then obtain c where c: "historyContent (hCommands h) (hTimestamps h) = Some c" "rawLines c = cellsText es"
    using rawLines_content assms(7) by blast
  then have "regularFile F s' (hFilepath h) c"
    using assms(1,2) by (auto simp: keepsWrites_def writeToFile_def split: prod.splits option.splits)
  from GetLastNLines_lines [OF this assms(6)] c assms(9)
  have "GetLastNLines F s' (hFilepath h) (int N) =
          Inr (map dropCR (takeWhile (\<lambda>l. length l < maxScanTokenSize) (drop (length (cellsText es) - N) (cellsText es))))"
    by auto
  also have "\<dots> = Inr (drop (length (cellsText es) - N) (cellsText es))"
    by (simp add: scan_ok list_all_iff cellsText_ok [OF assms(8), unfolded list_all_iff] in_set_dropD)
  finally have g: "GetLastNLines F s' (hFilepath h) (int N) = Inr (drop (length (cellsText es) - N) (cellsText es))" .
  obtain a where a: "drop (length (cellsText es) - N) (cellsText es) = a @ cellsText (drop j es)" "\<forall>l \<in> set a. \<not> isTimestamp l"
    using drop_cells [OF assms(8,10,11,12)] by blast
  have "list_all cellOk (drop j es)" using assms(8) by (auto simp: list_all_iff dest: in_set_dropD)
  from parse_suffix [OF this _ a(2)] assms(12)
  have "parseHistoryCells now (a @ cellsText (drop j es)) = (map fst (drop j es), map snd (drop j es))" by simp
  with g a(1) show ?thesis using l assms(4,5,7) by (simp add: load_def drop_map [symmetric])
qed

definition demoHistory :: commandHistory where
  "demoHistory = \<lparr>hFilepath = ''h'', hCommands = [''a'', ''b'', ''c''], hTimestamps = [1, 2, 3], hMaxCommands = 4\<rparr>"

theorem load_written_witness:
  "load memFiles 9 [''h'' \<mapsto> ''#1'' @ [newline] @ ''a'' @ [newline] @ ''#2'' @ [newline] @ ''b'' @ [newline] @ ''#3'' @ [newline] @ ''c'' @ [newline]] demoHistory =
     (None, demoHistory\<lparr>hCommands := [''b'', ''c''], hTimestamps := [2, 3]\<rparr>)"
proof -
  have k: "keepsWrites memFiles"
    unfolding keepsWrites_def using memFiles_regular by (auto simp: memFiles_def)
  have c: "historyContent (hCommands demoHistory) (hTimestamps demoHistory) =
      Some (''#1'' @ [newline] @ ''a'' @ [newline] @ ''#2'' @ [newline] @ ''b'' @ [newline] @ ''#3'' @ [newline] @ ''c'' @ [newline])"
    by code_simp
  then have w: "writeToFile memFiles demoHistory Map.empty =
      (None, [''h'' \<mapsto> ''#1'' @ [newline] @ ''a'' @ [newline] @ ''#2'' @ [newline] @ ''b'' @ [newline] @ ''#3'' @ [newline] @ ''c'' @ [newline]])"
    by (simp add: writeToFile_def memFiles_def demoHistory_def)
  have ok: "list_all cellOk (zip (hCommands demoHistory) (hTimestamps demoHistory))"
    by (simp add: demoHistory_def cellOk_def newline_def isTimestamp_def lineOk_def dropCR_def maxScanTokenSize_def)
  have b: "\<forall>c. historyContent (hCommands demoHistory) (hTimestamps demoHistory) = Some c \<longrightarrow> wholeBlocks c"
    unfolding c by (simp add: wholeBlocks_def bufSize_def)
  show ?thesis
    using load_written [OF k w _ _ _ _ refl ok b, of demoHistory 4 1 9]
    by (simp add: wfHistory_def demoHistory_def cellLines_def newline_def)
qed
end
