(* ===== verification/Formatter.thy ===== *)
theory Formatter
  imports Process
begin

text \<open>
  The output of the console (\<^verbatim>\<open>src/cli/formatter/\<close>): formats and table dialects, the Lua
  encoding, and tables: decoding the answer node by node, collecting rows with metadata, batches of
  nodes of one type, maps with equal keys, and the rows that are handed to the table writer. YAML and
  JSON libraries, the writer that draws the tables (with its limit on the width of columns) and the
  text of floats are parameters. A Go map is an association list, its order one of the orders an
  iteration may have. The theorems: batches partition the nodes, what rows a table gets, and the exact
  condition under which rendering tables fails.
\<close>

section \<open>Formats and dialects\<close>

type_synonym format = int

definition YamlFormat :: format where "YamlFormat = 0"
definition LuaFormat :: format where "LuaFormat = 1"
definition TableFormat :: format where "TableFormat = 2"
definition TTableFormat :: format where "TTableFormat = 3"
definition FormatsAmount :: format where "FormatsAmount = 4"

lemmas format_defs = YamlFormat_def LuaFormat_def TableFormat_def TTableFormat_def FormatsAmount_def

definition ParseFormat :: "string \<Rightarrow> format \<times> bool" where
  "ParseFormat str =
     (let s = toLower str
      in if s = ''yaml'' then (YamlFormat, True)
         else if s = ''lua'' then (LuaFormat, True)
         else if s = ''table'' then (TableFormat, True)
         else if s = ''ttable'' then (TTableFormat, True)
         else (YamlFormat, False))"

text \<open>\<open>None\<close> is the panic of an unknown format.\<close>

definition formatString :: "format \<Rightarrow> string option" where
  "formatString f =
     (if f = YamlFormat then Some ''yaml''
      else if f = LuaFormat then Some ''lua''
      else if f = TableFormat then Some ''table''
      else if f = TTableFormat then Some ''ttable''
      else None)"

datatype tableDialect = DefaultTableDialect | MarkdownTableDialect | JiraTableDialect

definition ParseTableDialect :: "string \<Rightarrow> tableDialect \<times> bool" where
  "ParseTableDialect str =
     (let s = toLower str
      in if s = ''default'' then (DefaultTableDialect, True)
         else if s = ''markdown'' then (MarkdownTableDialect, True)
         else if s = ''jira'' then (JiraTableDialect, True)
         else (DefaultTableDialect, False))"

fun dialectString :: "tableDialect \<Rightarrow> string" where
  "dialectString DefaultTableDialect = ''default''"
| "dialectString MarkdownTableDialect = ''markdown''"
| "dialectString JiraTableDialect = ''jira''"

record fmtOpts =
  Graphics :: bool
  ColumnWidthMax :: int
  TableDialect :: tableDialect

section \<open>Data\<close>

datatype nodeType = scalarNodeType | arrayNodeType | mapNodeType

text \<open>A map that remembers the order in which keys were inserted.\<close>

record umap =
  uKeys :: "gval list"
  uInner :: "(gval \<times> gval) list"

datatype node = NAny gval | NMap umap

text \<open>Rows with a name for each column, and a node of the answer that is not decoded yet.\<close>

record metadataRows =
  mrMetadata :: "string list"
  mrRows :: "gval list list"

record lazyNode =
  lnMeta :: "string + metadataRows"
  lnAny :: "string + gval"

datatype fmtErr =
    NotYamlArray string
  | NotYamlAny string
  | CannotRenderTables fmtErr
  | UnknownBatch
  | JsonError string
  | CannotRenderLua string
  | TableIndexPanic
  | FloatPanic
  | FormatPanic

text \<open>
  What is not under \<^verbatim>\<open>src/\<close>: \<^verbatim>\<open>fmt\<close> on values, the text of a float, \<^verbatim>\<open>json.Marshal\<close>,
  \<^verbatim>\<open>yaml.Unmarshal\<close> into a list of values and of nodes, \<^verbatim>\<open>text.InsertEveryN\<close>, and the table
  writer: with or without graphics, with the configurations of columns and the rows it was given.
\<close>

record columnConfig =
  ccNumber :: nat
  ccTransformer :: "string \<Rightarrow> string"
  ccWidthMax :: int

record fmtOps =
  foSprint :: fops
  foFloat :: "64 word \<Rightarrow> string"
  foJson :: "gval \<Rightarrow> string + string"
  foDecode :: "string \<Rightarrow> string + gval list"
  foLazy :: "string \<Rightarrow> string + lazyNode list"
  foInsertEveryN :: "string \<Rightarrow> char \<Rightarrow> int \<Rightarrow> string"
  foRender :: "bool \<Rightarrow> columnConfig list \<Rightarrow> string list list \<Rightarrow> string"
  foRenderMarkdown :: "bool \<Rightarrow> columnConfig list \<Rightarrow> string list list \<Rightarrow> string"

definition createUnorderedMap :: umap where
  "createUnorderedMap = \<lparr>uKeys = [], uInner = []\<rparr>"

definition uinsert :: "gval \<Rightarrow> gval \<Rightarrow> umap \<Rightarrow> umap" where
  "uinsert k v u = \<lparr>uKeys = uKeys u @ [k], uInner = AList.update k v (uInner u)\<rparr>"

fun getNodeType :: "node \<Rightarrow> nodeType" where
  "getNodeType (NMap u) = mapNodeType"
| "getNodeType (NAny (VMap m)) = mapNodeType"
| "getNodeType (NAny (VList l)) = arrayNodeType"
| "getNodeType (NAny _) = scalarNodeType"

definition isNodeTypeEqual :: "node \<Rightarrow> node \<Rightarrow> bool" where
  "isNodeTypeEqual x y \<longleftrightarrow> getNodeType x = getNodeType y"

section \<open>Lua\<close>

fun joinComma :: "string list \<Rightarrow> string" where
  "joinComma [] = []"
| "joinComma [s] = s"
| "joinComma (s # t # r) = s @ '', '' @ joinComma (t # r)"

fun luaEncodeElement :: "fops \<Rightarrow> gval \<Rightarrow> string" where
  "luaEncodeElement P (VMap m) =
     ''{'' @ joinComma (map (\<lambda>(k, v). (case k of VStr s \<Rightarrow> s | _ \<Rightarrow> ''['' @ sprint P k @ '']'') @ '' = '' @ luaEncodeElement P v) m) @ ''}''"
| "luaEncodeElement P (VList l) = ''{'' @ joinComma (map (luaEncodeElement P) l) @ ''}''"
| "luaEncodeElement P VNil = ''nil''"
| "luaEncodeElement P (VStr s) = [CHR 0x22] @ s @ [CHR 0x22]"
| "luaEncodeElement P v = sprint P v"

definition emptyAnswer :: string where
  "emptyAnswer = ''---'' @ [CHR 0x0A] @ ''...'' @ [CHR 0x0A]"

definition makeLuaOutput :: "fmtOps \<Rightarrow> string \<Rightarrow> fmtErr + string" where
  "makeLuaOutput E inp =
     (if inp = emptyAnswer then Inr ('';'' @ [CHR 0x0A])
      else
        case foDecode E inp of
          Inl e \<Rightarrow> Inl (CannotRenderLua e)
        | Inr decoded \<Rightarrow> Inr (joinComma (map (luaEncodeElement (foSprint E)) decoded) @ '';'' @ [CHR 0x0A]))"

section \<open>Cells\<close>

definition keyText :: "fmtOps \<Rightarrow> gval \<Rightarrow> string" where
  "keyText E k = (case k of VStr s \<Rightarrow> s | _ \<Rightarrow> sprint (foSprint E) k)"

text \<open>The keys as texts; of two keys with the same text the last one keeps its value.\<close>

definition castKeys :: "fmtOps \<Rightarrow> (gval \<times> gval) list \<Rightarrow> (gval \<times> gval) list" where
  "castKeys E src = foldl (\<lambda>m (k, v). AList.update (VStr (keyText E k)) v m) [] src"

definition castMapToUMap :: "fmtOps \<Rightarrow> (gval \<times> gval) list \<Rightarrow> umap" where
  "castMapToUMap E src =
     (let convertedSrc = castKeys E src;
          sortedKeys = isort strLess (map (\<lambda>(k, v). keyText E k) src)
      in foldl (\<lambda>u k. uinsert (VStr k) (mapIndex convertedSrc (VStr k)) u) createUnorderedMap sortedKeys)"

fun deepCastAnyMapToStringMap :: "fmtOps \<Rightarrow> gval \<Rightarrow> gval" where
  "deepCastAnyMapToStringMap E (VList l) = VList (map (deepCastAnyMapToStringMap E) l)"
| "deepCastAnyMapToStringMap E (VMap m) =
     VSMap (foldl (\<lambda>r (k, v). AList.update k v r) []
              (map (\<lambda>(k, v). (keyText E k, deepCastAnyMapToStringMap E v)) m))"
| "deepCastAnyMapToStringMap E v = v"

text \<open>Both float types are asserted to be \<^verbatim>\<open>float64\<close>.\<close>

fun encodeScalar :: "fmtOps \<Rightarrow> gval \<Rightarrow> fmtErr + string" where
  "encodeScalar E (VF64 w) = Inr (foFloat E w)"
| "encodeScalar E (VF32 w) = Inl FloatPanic"
| "encodeScalar E VNil = Inr ''nil''"
| "encodeScalar E v = Inr (sprint (foSprint E) v)"

definition encodeJson :: "fmtOps \<Rightarrow> gval \<Rightarrow> fmtErr + string" where
  "encodeJson E v = (case foJson E (deepCastAnyMapToStringMap E v) of Inl e \<Rightarrow> Inl (JsonError e) | Inr s \<Rightarrow> Inr s)"

definition encodeCell :: "fmtOps \<Rightarrow> gval \<Rightarrow> fmtErr + string" where
  "encodeCell E v = (if getNodeType (NAny v) = scalarNodeType then encodeScalar E v else encodeJson E v)"

definition isSingleType :: "node list \<Rightarrow> nodeType \<Rightarrow> bool" where
  "isSingleType batch t \<longleftrightarrow> list_all (\<lambda>n. getNodeType n = t) batch"

section \<open>Tables\<close>

text \<open>
  The conversion of a string to runes and back: the bytes of a UTF-8 character stay together, and a
  byte that begins none becomes the replacement character.
\<close>

definition runeSize :: "nat list \<Rightarrow> nat" where
  "runeSize bs =
     (let c = (\<lambda>i lo hi. i < length bs \<and> lo \<le> bs ! i \<and> bs ! i \<le> hi) :: nat \<Rightarrow> nat \<Rightarrow> nat \<Rightarrow> bool
      in if c 0 0 127 then 1
         else if c 0 194 223 \<and> c 1 128 191 then 2
         else if (c 0 224 224 \<and> c 1 160 191 \<or> (c 0 225 236 \<or> c 0 238 239) \<and> c 1 128 191 \<or> c 0 237 237 \<and> c 1 128 159) \<and>
           c 2 128 191 then 3
         else if (c 0 240 240 \<and> c 1 144 191 \<or> c 0 241 243 \<and> c 1 128 191 \<or> c 0 244 244 \<and> c 1 128 143) \<and>
           c 2 128 191 \<and> c 3 128 191 then 4
         else 0)"

definition replacementChar :: string where
  "replacementChar = [CHR 0xEF, CHR 0xBF, CHR 0xBD]"

function runes :: "string \<Rightarrow> string list" where
  "runes s =
     (if s = [] then []
      else let n = runeSize (map of_char s)
           in if n = 0 then replacementChar # runes (drop 1 s) else take n s # runes (drop n s))"
  by pat_completeness auto
termination
  by (relation "measure length") auto

declare runes.simps [simp del]

definition colWidthTransformer :: "fmtOps \<Rightarrow> int \<Rightarrow> string \<Rightarrow> string" where
  "colWidthTransformer E widthMax str =
     (if int (length (runes str)) > widthMax
      then concat (take (nat widthMax) (runes str)) @ ''+'' @
        foInsertEveryN E (concat (drop (nat widthMax) (runes str))) (CHR ''+'') (widthMax - 1)
      else str)"

definition handleColumnWidth :: "fmtOps \<Rightarrow> nat \<Rightarrow> fmtOpts \<Rightarrow> columnConfig list" where
  "handleColumnWidth E columns opts =
     map (\<lambda>i. \<lparr>ccNumber = i, ccTransformer = colWidthTransformer E (ColumnWidthMax opts), ccWidthMax = ColumnWidthMax opts\<rparr>)
       [1..<columns + 1]"

definition createHeader :: "fmtOps \<Rightarrow> gval list \<Rightarrow> string list" where
  "createHeader E keys =
     map (\<lambda>k. let strVal = keyText E k in case parseInt64 strVal of None \<Rightarrow> strVal | Some _ \<Rightarrow> ''col'' @ strVal) keys"

definition transposeRows :: "string list list \<Rightarrow> string list list" where
  "transposeRows rowsRaw =
     (let cap = foldl (\<lambda>c row. if length row > c then length row else c) 0 rowsRaw
      in map (\<lambda>i. map (\<lambda>row. if i < length row then row ! i else []) rowsRaw) [0..<cap])"

definition createMarkdownTable :: "string list \<Rightarrow> nat \<Rightarrow> string" where
  "createMarkdownTable table columns =
     (let emptyRow = concat (replicate (max 1 columns) ''| '') @ ''|'';
          separator = concat (replicate (max 1 columns) ''|-'') @ ''|''
      in concat (map (\<lambda>row. row @ [CHR 0x0A]) ([emptyRow, separator] @ table)))"

text \<open>The rows of a table for maps with the keys of the first one: a header and a row for each map.\<close>

definition equalMapsRows :: "fmtOps \<Rightarrow> umap list \<Rightarrow> fmtErr + string list list" where
  "equalMapsRows E maps =
     (case maps of
        [] \<Rightarrow> Inl TableIndexPanic
      | m0 # _ \<Rightarrow>
          (case mapr (\<lambda>m. mapr (\<lambda>k. encodeCell E (mapIndex (uInner m) k)) (uKeys m0)) maps of
             Inl e \<Rightarrow> Inl e
           | Inr cells \<Rightarrow> Inr (createHeader E (uKeys m0) # cells)))"

definition renderEqualMaps :: "fmtOps \<Rightarrow> umap list \<Rightarrow> bool \<Rightarrow> fmtOpts \<Rightarrow> fmtErr + string" where
  "renderEqualMaps E maps transposed opts =
     (case equalMapsRows E maps of
        Inl e \<Rightarrow> Inl e
      | Inr rows \<Rightarrow>
          let columnsAmount = (if transposed then length rows else length (hd rows));
              rows = (if transposed then transposeRows rows else rows);
              configs = (if ColumnWidthMax opts > 0 then handleColumnWidth E columnsAmount opts else [])
          in if TableDialect opts = MarkdownTableDialect
             then Inr (createMarkdownTable (splitAll (CHR 0x0A) (foRenderMarkdown E (Graphics opts) configs rows)) columnsAmount @ [CHR 0x0A])
             else if TableDialect opts = JiraTableDialect
             then Inr (foRenderMarkdown E (Graphics opts) configs rows @ [CHR 0x0A, CHR 0x0A])
             else Inr (foRender E (Graphics opts) configs rows @ [CHR 0x0A]))"

text \<open>The items of a node that is an array; the type assertion on any other node would panic.\<close>

fun arrayItems :: "node \<Rightarrow> fmtErr + gval list" where
  "arrayItems (NAny (VList l)) = Inr l"
| "arrayItems _ = Inl TableIndexPanic"

definition arrayMap :: "nat \<Rightarrow> gval list \<Rightarrow> umap" where
  "arrayMap maxLen item =
     foldl (\<lambda>u i. uinsert (VStr (showNat (i + 1))) (if i < length item then item ! i else VStr []) u)
       createUnorderedMap [0..<maxLen]"

definition maxLength :: "'a list list \<Rightarrow> nat" where
  "maxLength xss = foldl (\<lambda>m xs. if length xs > m then length xs else m) 0 xss"

definition renderArraysAsTable :: "fmtOps \<Rightarrow> node list \<Rightarrow> bool \<Rightarrow> fmtOpts \<Rightarrow> fmtErr + string" where
  "renderArraysAsTable E batch transposed opts =
     (case mapr arrayItems batch of
        Inl e \<Rightarrow> Inl e
      | Inr its \<Rightarrow> renderEqualMaps E (map (arrayMap (maxLength its)) its) transposed opts)"

definition singleArrayOfArrays :: "node list \<Rightarrow> node list option" where
  "singleArrayOfArrays batch =
     (case batch of
        [NAny (VList l)] \<Rightarrow> if isSingleType (map NAny l) arrayNodeType then Some (map NAny l) else None
      | _ \<Rightarrow> None)"

definition renderArrays :: "fmtOps \<Rightarrow> node list \<Rightarrow> bool \<Rightarrow> fmtOpts \<Rightarrow> fmtErr + string" where
  "renderArrays E batch transposed opts =
     (case singleArrayOfArrays batch of
        Some array \<Rightarrow> renderArraysAsTable E array transposed opts
      | None \<Rightarrow> renderArraysAsTable E batch transposed opts)"

fun nodeValue :: "node \<Rightarrow> gval" where
  "nodeValue (NAny v) = v"
| "nodeValue (NMap u) = VMap (uInner u)"

definition renderScalars :: "fmtOps \<Rightarrow> node list \<Rightarrow> bool \<Rightarrow> fmtOpts \<Rightarrow> fmtErr + string" where
  "renderScalars E batch transposed opts =
     renderArrays E (map (\<lambda>n. NAny (VList [nodeValue n])) batch) transposed opts"

text \<open>Keys are sorted by their text.\<close>

definition isMapKeysEqual :: "fmtOps \<Rightarrow> umap \<Rightarrow> umap \<Rightarrow> bool" where
  "isMapKeysEqual E x y =
     (let sorted = isort (\<lambda>a b. strLess (keyText E a) (keyText E b))
      in length (uKeys x) = length (uKeys y) \<and> sorted (uKeys x) = sorted (uKeys y))"

text \<open>
  The loop that cuts a sequence into batches: a new batch begins where two neighbours differ. The
  batches that stay empty in the array of the loop are passed over by its readers and left out here.
\<close>

fun batchesBy :: "('a \<Rightarrow> 'a \<Rightarrow> bool) \<Rightarrow> 'a list \<Rightarrow> 'a list list" where
  "batchesBy eq [] = []"
| "batchesBy eq [x] = [[x]]"
| "batchesBy eq (x # y # xs) =
     (case batchesBy eq (y # xs) of
        [] \<Rightarrow> [[x]]
      | b # bs \<Rightarrow> if eq x y then (x # b) # bs else [x] # b # bs)"

fun nodeMap :: "fmtOps \<Rightarrow> node \<Rightarrow> fmtErr + umap" where
  "nodeMap E (NMap u) = Inr u"
| "nodeMap E (NAny (VMap m)) = Inr (castMapToUMap E m)"
| "nodeMap E _ = Inl TableIndexPanic"

definition renderBatch :: "fmtOps \<Rightarrow> node list \<Rightarrow> bool \<Rightarrow> fmtOpts \<Rightarrow> fmtErr + string" where
  "renderBatch E batch transposed opts =
     (if isSingleType batch scalarNodeType then renderScalars E batch transposed opts
      else if isSingleType batch mapNodeType
      then (case mapr (nodeMap E) batch of
              Inl e \<Rightarrow> Inl e
            | Inr anyMaps \<Rightarrow>
                (case mapr (\<lambda>b. renderEqualMaps E b transposed opts) (batchesBy (isMapKeysEqual E) anyMaps) of
                   Inl e \<Rightarrow> Inl e
                 | Inr outs \<Rightarrow> Inr (concat (map (\<lambda>t. if Graphics opts then t else t @ [CHR 0x0A]) outs))))
      else if isSingleType batch arrayNodeType then renderArrays E batch transposed opts
      else Inl UnknownBatch)"

text \<open>A panic is not an error that can be wrapped.\<close>

fun wrapTables :: "fmtErr \<Rightarrow> fmtErr" where
  "wrapTables TableIndexPanic = TableIndexPanic"
| "wrapTables FloatPanic = FloatPanic"
| "wrapTables e = CannotRenderTables e"

fun renderBatches :: "fmtOps \<Rightarrow> node list list \<Rightarrow> bool \<Rightarrow> fmtOpts \<Rightarrow> fmtErr + string" where
  "renderBatches E [] transposed opts = Inr []"
| "renderBatches E (b # bs) transposed opts =
     (case renderBatch E b transposed opts of
        Inl e \<Rightarrow> Inl (wrapTables e)
      | Inr s \<Rightarrow>
          (case renderBatches E bs transposed opts of
             Inl e \<Rightarrow> Inl e
           | Inr r \<Rightarrow> Inr ((if Graphics opts then s else s @ [CHR 0x0A]) @ r)))"

section \<open>Rows with metadata\<close>

fun remapRow :: "string list \<Rightarrow> gval list \<Rightarrow> nat \<Rightarrow> nat \<Rightarrow> int \<Rightarrow> umap \<Rightarrow> umap" where
  "remapRow names row i 0 index u = u"
| "remapRow names row i (Suc n) index u =
     (let k = VInt KInt (word_of_int index)
      in if i \<ge> length row then remapRow names row (i + 1) n (index + 1) (uinsert k (VStr []) u)
         else if length names > i \<and> names ! i \<noteq> []
         then remapRow names row (i + 1) n index (uinsert (VStr (names ! i)) (row ! i) u)
         else remapRow names row (i + 1) n (index + 1) (uinsert k (row ! i) u))"

definition remapMetadataRows :: "metadataRows \<Rightarrow> node list" where
  "remapMetadataRows meta =
     map (\<lambda>row. NMap (remapRow (mrMetadata meta) row 0 (maxLength (mrRows meta)) 1 createUnorderedMap)) (mrRows meta)"

definition insertCollectedFields :: "metadataRows \<Rightarrow> node list \<Rightarrow> node list" where
  "insertCollectedFields meta nodes =
     (if length (mrMetadata meta) > 0 \<and> length (mrRows meta) > 0 then nodes @ remapMetadataRows meta else nodes)"

definition noRows :: metadataRows where
  "noRows = \<lparr>mrMetadata = [], mrRows = []\<rparr>"

fun collectNodes :: "lazyNode list \<Rightarrow> metadataRows \<Rightarrow> node list \<Rightarrow> fmtErr + node list" where
  "collectNodes [] metaFields nodes = Inr (insertCollectedFields metaFields nodes)"
| "collectNodes (l # ls) metaFields nodes =
     (case lnMeta l of
        Inr meta \<Rightarrow>
          if length (mrRows meta) > 0 \<and> length (mrMetadata meta) > 0
          then (if mrMetadata meta = mrMetadata metaFields
                then collectNodes ls (metaFields\<lparr>mrRows := mrRows metaFields @ mrRows meta\<rparr>) nodes
                else collectNodes ls meta (insertCollectedFields metaFields nodes))
          else (case lnAny l of
                  Inl e \<Rightarrow> Inl (NotYamlAny e)
                | Inr v \<Rightarrow> collectNodes ls noRows (insertCollectedFields metaFields nodes @ [NAny v]))
      | Inl _ \<Rightarrow>
          (case lnAny l of
             Inl e \<Rightarrow> Inl (NotYamlAny e)
           | Inr v \<Rightarrow> collectNodes ls noRows (insertCollectedFields metaFields nodes @ [NAny v])))"

definition nlJoin :: "string list \<Rightarrow> string" where
  "nlJoin ls = concat (map (\<lambda>l. l @ [CHR 0x0A]) ls)"

definition makeTableOutput :: "fmtOps \<Rightarrow> string \<Rightarrow> bool \<Rightarrow> fmtOpts \<Rightarrow> fmtErr + string" where
  "makeTableOutput E inp transposed opts =
     (let inp = (if inp = nlJoin [''---'', ''- '', ''...''] \<or> inp = nlJoin [''---'', ''-'', ''...'']
                 then nlJoin [''--- ['' @ [CHR 0x27, CHR 0x27] @ '']'', ''...''] else inp)
      in case foLazy E inp of
           Inl e \<Rightarrow> Inl (NotYamlArray e)
         | Inr lazyNodes \<Rightarrow>
             (case collectNodes lazyNodes noRows [] of
                Inl e \<Rightarrow> Inl e
              | Inr nodes \<Rightarrow>
                  let nodes = (if nodes = [] then [NAny (VList [VStr []])] else nodes)
                  in renderBatches E (batchesBy isNodeTypeEqual nodes) transposed opts))"

definition MakeOutput :: "fmtOps \<Rightarrow> format \<Rightarrow> string \<Rightarrow> fmtOpts \<Rightarrow> fmtErr + string" where
  "MakeOutput E f dat opts =
     (if f = YamlFormat then Inr (dat @ [CHR 0x0A])
      else if f = LuaFormat then makeLuaOutput E dat
      else if f = TableFormat then makeTableOutput E dat False opts
      else if f = TTableFormat then makeTableOutput E dat True opts
      else Inl FormatPanic)"

section \<open>Batches\<close>

lemma batchesBy_nonempty: "b \<in> set (batchesBy eq xs) \<Longrightarrow> b \<noteq> []"
  by (induction eq xs arbitrary: b rule: batchesBy.induct) (fastforce split: list.splits if_splits)+

lemma concat_batchesBy [simp]: "concat (batchesBy eq xs) = xs"
  by (induction eq xs rule: batchesBy.induct) (auto split: list.splits)

lemma batchesBy_hd: "xs \<noteq> [] \<Longrightarrow> \<exists>b bs. batchesBy eq xs = b # bs \<and> b \<noteq> [] \<and> hd b = hd xs"
  by (induction eq xs rule: batchesBy.induct) (auto split: list.splits if_splits)

text \<open>When the neighbours are compared by a function of the elements, it is constant on a batch.\<close>

lemma batchesBy_same:
  assumes "\<And>x y. eq x y \<longleftrightarrow> g x = g y" "b \<in> set (batchesBy eq xs)" "x \<in> set b"
  shows "g x = g (hd b)"
  using assms(2,3)
proof (induction xs arbitrary: b x)
  case (Cons a ys)
  show ?case
  proof (cases ys)
    case (Cons c xs)
    obtain d ds where d: "batchesBy eq ys = d # ds" "d \<noteq> []" "hd d = c"
      using batchesBy_hd [of ys eq] Cons by auto
    have IH: "x \<in> set b \<Longrightarrow> g x = g (hd b)" if "b \<in> set (d # ds)" for b x
      using Cons.IH [of b x] that d(1) by simp
    consider "eq a c" "b = a # d" | "b = [a]" | "b \<in> set (d # ds)"
      using Cons.prems(1) Cons d(1) by (auto split: if_splits)
    then show ?thesis
    proof cases
      case 1
      then show ?thesis using IH [of d x] Cons.prems(2) assms(1) d(3) by auto
    next
      case 2
      then show ?thesis using Cons.prems(2) by simp
    next
      case 3
      then show ?thesis using IH Cons.prems(2) by blast
    qed
  qed (use Cons.prems in auto)
qed simp

section \<open>Maps that remember their order\<close>

lemma uinsert_keys: "uKeys (foldl (\<lambda>u i. uinsert (k i) (v i) u) u xs) = uKeys u @ map k xs"
  by (induction xs arbitrary: u) (auto simp: uinsert_def)

lemma uinsert_other:
  "x \<notin> k ` set xs \<Longrightarrow> mapIndex (uInner (foldl (\<lambda>u i. uinsert (k i) (v i) u) u xs)) x = mapIndex (uInner u) x"
  by (induction xs arbitrary: u) (auto simp: uinsert_def mapIndex_def map_of_update)

lemma uinsert_get:
  assumes "distinct (map k xs)" "i \<in> set xs"
  shows "mapIndex (uInner (foldl (\<lambda>u i. uinsert (k i) (v i) u) u xs)) (k i) = v i"
  using assms
proof (induction xs arbitrary: u)
  case (Cons x xs)
  show ?case
  proof (cases "i = x")
    case True
    then have "k i \<notin> k ` set xs" using Cons.prems(1) by simp
    then show ?thesis using True by (simp add: uinsert_other) (simp add: uinsert_def mapIndex_def map_of_update)
  qed (use Cons in auto)
qed simp

lemma showNat_inj: "showNat m = showNat n \<Longrightarrow> m = n"
  using parseNat_showNat by (metis option.inject)

lemma arrayMap_keys: "uKeys (arrayMap n item) = map (\<lambda>i. VStr (showNat (i + 1))) [0..<n]"
  by (simp add: arrayMap_def uinsert_keys createUnorderedMap_def)

lemma arrayMap_get:
  assumes "i < n"
  shows "mapIndex (uInner (arrayMap n item)) (VStr (showNat (i + 1))) = (if i < length item then item ! i else VStr [])"
proof -
  have "distinct (map (\<lambda>i. VStr (showNat (i + 1))) [0..<n])"
    by (auto simp: distinct_map inj_on_def dest: showNat_inj)
  from uinsert_get [OF this, of i] assms show ?thesis unfolding arrayMap_def by simp
qed

lemma maxLength_fold: "foldl (\<lambda>m xs. if length xs > m then length xs else m) a xss = foldl max a (map length xss)"
  by (induction xss arbitrary: a) (auto simp: max_def)

lemma foldl_max_ge: "(a::nat) \<le> foldl max a ns \<and> (n \<in> set ns \<longrightarrow> n \<le> foldl max a ns)"
proof (induction ns arbitrary: a)
  case (Cons m ns)
  from Cons [of "max a m"] show ?case by auto
qed simp

lemma maxLength_ge: "xs \<in> set xss \<Longrightarrow> length xs \<le> maxLength xss"
  using foldl_max_ge [of 0 "map length xss" "length xs"] by (simp add: maxLength_def maxLength_fold)

section \<open>The rows of a table\<close>

lemma mapr_map: "mapr f (map g xs) = mapr (\<lambda>x. f (g x)) xs"
  by (induction xs) (auto split: sum.splits)

lemma mapr_cong: "(\<And>x. x \<in> set xs \<Longrightarrow> f x = g x) \<Longrightarrow> mapr f xs = mapr g xs"
  by (induction xs) (auto split: sum.splits)

text \<open>An array in a table of \<open>n\<close> columns.\<close>

definition padded :: "nat \<Rightarrow> gval list \<Rightarrow> gval list" where
  "padded n item = item @ replicate (n - length item) (VStr [])"

lemma arrayMap_row:
  assumes "length item \<le> n"
  shows "mapr (\<lambda>k. encodeCell E (mapIndex (uInner (arrayMap n item)) k)) (uKeys (arrayMap n it)) =
         mapr (encodeCell E) (padded n item)"
proof -
  have "padded n item = map (\<lambda>i. if i < length item then item ! i else VStr []) [0..<n]"
    using assms by (auto simp: padded_def nth_append intro: nth_equalityI)
  then have "mapr (encodeCell E) (padded n item) = mapr (\<lambda>i. encodeCell E (if i < length item then item ! i else VStr [])) [0..<n]"
    by (simp only: mapr_map)
  also have "\<dots> = mapr (\<lambda>i. encodeCell E (mapIndex (uInner (arrayMap n item)) (VStr (showNat (i + 1))))) [0..<n]"
    by (rule mapr_cong) (use arrayMap_get in simp)
  finally show ?thesis by (simp add: arrayMap_keys mapr_map)
qed

lemma array_header:
  assumes "n < 2 ^ 63"
  shows "createHeader E (uKeys (arrayMap n it)) = map (\<lambda>i. ''col'' @ showNat (i + 1)) [0..<n]"
proof -
  have "parseInt64 (showNat (i + 1)) = Some (int (i + 1))" if "i < n" for i
    using parseInt64_showInt [of "int (i + 1)"] that assms by (simp add: showInt_def nat_add_distrib)
  then show ?thesis by (auto simp: createHeader_def arrayMap_keys keyText_def)
qed

text \<open>
  The table of a batch of arrays has the columns \<open>col1\<close>, \<open>col2\<close> and so on, as
  many as the longest array has elements, and a row for each array in their order, with the elements
  in their order and empty cells after them; an element that cannot be written is the error.
\<close>

theorem arrays_rows:
  assumes "its \<noteq> []" "maxLength its < 2 ^ 63"
  shows "equalMapsRows E (map (arrayMap (maxLength its)) its) =
           (case mapr (\<lambda>it. mapr (encodeCell E) (padded (maxLength its) it)) its of
              Inl e \<Rightarrow> Inl e
            | Inr cells \<Rightarrow> Inr (map (\<lambda>i. ''col'' @ showNat (i + 1)) [0..<maxLength its] # cells))"
proof -
  let ?n = "maxLength its"
  obtain i0 rest where its: "its = i0 # rest" using assms(1) by (cases its) auto
  have "mapr (\<lambda>m. mapr (\<lambda>k. encodeCell E (mapIndex (uInner m) k)) (uKeys (arrayMap ?n i0))) (map (arrayMap ?n) its) =
        mapr (\<lambda>it. mapr (encodeCell E) (padded ?n it)) its"
    unfolding mapr_map by (rule mapr_cong) (rule arrayMap_row, rule maxLength_ge)
  then show ?thesis using array_header [OF assms(2), of E i0] its
    by (simp only: equalMapsRows_def list.map list.case)
qed

theorem arrays_rows_witness:
  "equalMapsRows E (map (arrayMap 2) [[VStr ''a'', VStr ''b''], [VNil]]) =
     Inr [[''col1'', ''col2''], [''a'', ''b''], [''nil'', []]]"
proof -
  let ?its = "[[VStr ''a'', VStr ''b''], [VNil]]"
  have n: "maxLength ?its = 2" by (simp add: maxLength_def)
  have h: "map (\<lambda>i. ''col'' @ showNat (i + 1)) [0..<2] = [''col1'', ''col2'']" by code_simp
  show ?thesis using arrays_rows [of ?its E, unfolded n h]
    by (simp add: padded_def encodeCell_def)
qed

lemma remapRow_fold:
  "i + n \<le> length row \<Longrightarrow> i + n \<le> length names \<Longrightarrow> [] \<notin> set names \<Longrightarrow>
   remapRow names row i n index u = foldl (\<lambda>u i. uinsert (VStr (names ! i)) (row ! i) u) u [i..<i + n]"
proof (induction n arbitrary: i u)
  case (Suc n)
  have "names ! i \<noteq> []" using Suc.prems by (metis add_Suc_right in_set_conv_nth less_add_Suc1 less_le_trans)
  moreover have "[i..<i + Suc n] = i # [Suc i..<Suc i + n]" by (simp add: upt_conv_Cons)
  ultimately show ?case using Suc.IH [of "Suc i"] Suc.prems by (simp add: Let_def)
qed simp

lemma remapRow_row:
  assumes "length row = length names" "[] \<notin> set names" "distinct names"
  shows "mapr (\<lambda>k. encodeCell E (mapIndex (uInner (remapRow names row 0 (length names) 1 createUnorderedMap)) k)) (map VStr names) =
         mapr (encodeCell E) row"
    and "uKeys (remapRow names row 0 (length names) 1 createUnorderedMap) = map VStr names"
proof -
  let ?u = "remapRow names row 0 (length names) 1 createUnorderedMap"
  have u: "?u = foldl (\<lambda>u i. uinsert (VStr (names ! i)) (row ! i) u) createUnorderedMap [0..<length names]"
    using remapRow_fold [of 0 "length names" row names] assms by simp
  have d: "distinct (map (\<lambda>i. VStr (names ! i)) [0..<length names])"
    using assms(3) by (auto simp: distinct_map inj_on_def nth_eq_iff_index_eq)
  have m: "map VStr names = map (\<lambda>i. VStr (names ! i)) [0..<length names]" "row = map ((!) row) [0..<length names]"
    using assms(1) by (auto intro: nth_equalityI)
  show "uKeys ?u = map VStr names" unfolding u uinsert_keys by (simp add: createUnorderedMap_def m(1))
  have "mapr (\<lambda>k. encodeCell E (mapIndex (uInner ?u) k)) (map VStr names) = mapr (\<lambda>i. encodeCell E (row ! i)) [0..<length names]"
    unfolding m(1) mapr_map u by (rule mapr_cong) (simp add: uinsert_get [OF d])
  also have "\<dots> = mapr (encodeCell E) row" by (subst (2) m(2)) (simp only: mapr_map)
  finally show "mapr (\<lambda>k. encodeCell E (mapIndex (uInner ?u) k)) (map VStr names) = mapr (encodeCell E) row" .
qed

text \<open>
  The names of the columns must differ: two columns of the same name both get the value of the
  last one.
\<close>

lemma remap_same_names:
  "equalMapsRows E (map (\<lambda>n. case n of NMap u \<Rightarrow> u | _ \<Rightarrow> createUnorderedMap)
     (remapMetadataRows \<lparr>mrMetadata = [''A'', ''A''], mrRows = [[VStr ''1'', VStr ''2'']]\<rparr>)) =
   Inr [[''A'', ''A''], [''2'', ''2'']]"
  by (simp add: equalMapsRows_def remapMetadataRows_def maxLength_def numeral_2_eq_2 createUnorderedMap_def uinsert_def
        mapIndex_def encodeCell_def createHeader_def keyText_def parseInt64_def parseNat_def digitVal_def)

section \<open>Transposed tables\<close>

lemma transposeRows_nth:
  assumes "\<forall>row \<in> set rows. length row = n" "rows \<noteq> []"
  shows "transposeRows rows = map (\<lambda>i. map (\<lambda>row. row ! i) rows) [0..<n]"
proof -
  have "foldl max n (map length rows) = n"
    using assms(1) by (induction rows) auto
  then have "foldl max 0 (map length rows) = n" using assms by (cases rows) auto
  then show ?thesis using assms(1) by (auto simp: transposeRows_def maxLength_fold)
qed

lemma transposeRows_twice:
  assumes "\<forall>row \<in> set rows. length row = n" "rows \<noteq> []" "0 < n"
  shows "transposeRows (transposeRows rows) = rows"
proof -
  have t: "transposeRows rows = map (\<lambda>i. map (\<lambda>row. row ! i) rows) [0..<n]" by (rule transposeRows_nth [OF assms(1,2)])
  have "transposeRows (transposeRows rows) = map (\<lambda>j. map (\<lambda>row. row ! j) (transposeRows rows)) [0..<length rows]"
    by (rule transposeRows_nth) (use t assms(3) in auto)
  also have "\<dots> = rows" using assms(1) by (auto simp: t intro!: nth_equalityI)
  finally show ?thesis .
qed

section \<open>When tables cannot be rendered\<close>

lemma mapr_Inl: "mapr f xs = Inl e \<Longrightarrow> \<exists>x \<in> set xs. f x = Inl e"
  by (induction xs) (auto split: sum.splits)

lemma encodeCell_Inl:
  "encodeCell E v = Inl e \<longleftrightarrow> (\<exists>w. v = VF32 w \<and> e = FloatPanic) \<or>
     (getNodeType (NAny v) \<noteq> scalarNodeType \<and>
      (\<exists>m. foJson E (deepCastAnyMapToStringMap E v) = Inl m \<and> e = JsonError m))"
  by (cases v) (auto simp: encodeCell_def encodeJson_def split: sum.splits)

text \<open>An error that comes from one of the values.\<close>

definition failing :: "fmtOps \<Rightarrow> gval set \<Rightarrow> fmtErr \<Rightarrow> bool" where
  "failing E V e \<longleftrightarrow> (\<exists>v \<in> V. encodeCell E v = Inl e)"

lemma failing_mono: "failing E V e \<Longrightarrow> V \<subseteq> W \<union> {VNil, VStr []} \<Longrightarrow> failing E W e"
proof -
  assume f: "failing E V e" and sub: "V \<subseteq> W \<union> {VNil, VStr []}"
  obtain v where v: "v \<in> V" "encodeCell E v = Inl e" using f by (auto simp: failing_def)
  then have "v \<noteq> VNil" "v \<noteq> VStr []" by (auto simp: encodeCell_def)
  with v sub show ?thesis unfolding failing_def by blast
qed

abbreviation uValues :: "umap \<Rightarrow> gval set" where
  "uValues u \<equiv> snd ` set (uInner u)"

lemma mapIndex_value: "mapIndex m k \<in> snd ` set m \<union> {VNil}"
  using mapIndex_in [of m k] by (cases "mapIndex m k = VNil") (auto intro: image_eqI [of _ snd "(k, mapIndex m k)"])

lemma uValues_foldl:
  "uValues (foldl (\<lambda>u i. uinsert (k i) (v i) u) u xs) \<subseteq> uValues u \<union> v ` set xs"
proof (induction xs arbitrary: u)
  case (Cons x xs)
  have "uValues (uinsert (k x) (v x) u) \<subseteq> uValues u \<union> {v x}"
    using set_update_subset [of "k x" "v x" "uInner u"] by (auto simp: uinsert_def)
  with Cons [of "uinsert (k x) (v x) u"] show ?case by auto
qed simp

lemma uValues_arrayMap: "length item \<le> n \<Longrightarrow> uValues (arrayMap n item) \<subseteq> set item \<union> {VStr []}"
  using uValues_foldl [of "\<lambda>i. VStr (showNat (i + 1))" "\<lambda>i. if i < length item then item ! i else VStr []" createUnorderedMap "[0..<n]"]
  unfolding arrayMap_def by (auto simp: createUnorderedMap_def split: if_splits)

lemma castKeys_values: "snd ` set (castKeys E src) \<subseteq> snd ` set src"
proof -
  have "snd ` set (foldl (\<lambda>m (k, v). AList.update (VStr (keyText E k)) v m) a src) \<subseteq> snd ` set a \<union> snd ` set src" for a
  proof (induction src arbitrary: a)
    case (Cons kv src)
    obtain k v where kv: "kv = (k, v)" by (cases kv)
    have "snd ` set (AList.update (VStr (keyText E k)) v a) \<subseteq> snd ` set a \<union> {v}"
      using set_update_subset [of "VStr (keyText E k)" v a] by auto
    with Cons [of "AList.update (VStr (keyText E k)) v a"] kv show ?case by auto
  qed simp
  from this [of "[]"] show ?thesis by (simp add: castKeys_def)
qed

lemma uValues_castMap: "uValues (castMapToUMap E src) \<subseteq> snd ` set src \<union> {VNil}"
proof -
  let ?ks = "isort strLess (map (\<lambda>(k, v). keyText E k) src)"
  have "uValues (castMapToUMap E src) \<subseteq> (\<lambda>k. mapIndex (castKeys E src) (VStr k)) ` set ?ks"
    using uValues_foldl [of VStr "\<lambda>k. mapIndex (castKeys E src) (VStr k)" createUnorderedMap ?ks]
    unfolding castMapToUMap_def Let_def by (simp add: createUnorderedMap_def)
  moreover have "mapIndex (castKeys E src) (VStr k) \<in> snd ` set src \<union> {VNil}" for k
    using mapIndex_value [of "castKeys E src" "VStr k"] castKeys_values [of E src] by auto
  then have "(\<lambda>k. mapIndex (castKeys E src) (VStr k)) ` set ?ks \<subseteq> snd ` set src \<union> {VNil}" by (rule image_subsetI)
  ultimately show ?thesis by (rule subset_trans)
qed

lemma equalMapsRows_err:
  assumes "equalMapsRows E maps = Inl e"
  shows "failing E (\<Union>m \<in> set maps. uValues m) e \<and> maps \<noteq> [] \<or> maps = [] \<and> e = TableIndexPanic"
proof (cases maps)
  case (Cons m ms)
  then have "mapr (\<lambda>n. mapr (\<lambda>k. encodeCell E (mapIndex (uInner n) k)) (uKeys m)) maps = Inl e"
    using assms by (auto simp: equalMapsRows_def split: sum.splits simp del: mapr.simps)
  then obtain n k where n: "n \<in> set maps" "encodeCell E (mapIndex (uInner n) k) = Inl e"
    by (auto dest!: mapr_Inl simp del: mapr.simps)
  have "failing E {mapIndex (uInner n) k} e" using n(2) by (simp add: failing_def)
  moreover have "{mapIndex (uInner n) k} \<subseteq> (\<Union>m \<in> set maps. uValues m) \<union> {VNil, VStr []}"
    using n(1) mapIndex_value [of "uInner n" k] by auto
  ultimately show ?thesis using Cons failing_mono by blast
qed (use assms in \<open>simp add: equalMapsRows_def\<close>)

lemma renderEqualMaps_err:
  "renderEqualMaps E maps tr opts = Inl e \<Longrightarrow>
     failing E (\<Union>m \<in> set maps. uValues m) e \<and> maps \<noteq> [] \<or> maps = [] \<and> e = TableIndexPanic"
  by (rule equalMapsRows_err) (auto simp: renderEqualMaps_def Let_def split: sum.splits if_splits)

lemma renderEqualMaps_Nil [simp]: "renderEqualMaps E [] tr opts = Inl TableIndexPanic"
  by (simp add: renderEqualMaps_def equalMapsRows_def)

text \<open>
  The cells of a batch: the values of a map, the elements of an array, a scalar itself; for a
  single array of arrays, the elements of these.
\<close>

fun nodeCells :: "node \<Rightarrow> gval set" where
  "nodeCells (NMap u) = uValues u"
| "nodeCells (NAny (VMap m)) = snd ` set m"
| "nodeCells (NAny (VList l)) = set l"
| "nodeCells (NAny v) = {v}"

definition batchCells :: "node list \<Rightarrow> gval set" where
  "batchCells batch =
     (case singleArrayOfArrays batch of
        Some array \<Rightarrow> (\<Union>n \<in> set array. nodeCells n)
      | None \<Rightarrow> (\<Union>n \<in> set batch. nodeCells n))"

lemma arrayItems_ok:
  "list_all (\<lambda>n. getNodeType n = arrayNodeType) batch \<Longrightarrow> \<exists>its. mapr arrayItems batch = Inr its \<and> batch = map (\<lambda>l. NAny (VList l)) its"
proof (induction batch)
  case (Cons n batch)
  from Cons.prems obtain l where "n = NAny (VList l)" by (cases n rule: getNodeType.cases) auto
  with Cons show ?case by auto
qed simp

lemma renderArraysAsTable_err:
  assumes "isSingleType batch arrayNodeType" "renderArraysAsTable E batch tr opts = Inl e"
  shows "failing E (\<Union>n \<in> set batch. nodeCells n) e \<and> batch \<noteq> [] \<or> batch = [] \<and> e = TableIndexPanic"
proof -
  obtain its where its: "mapr arrayItems batch = Inr its" "batch = map (\<lambda>l. NAny (VList l)) its"
    using arrayItems_ok assms(1) by (auto simp: isSingleType_def)
  let ?maps = "map (arrayMap (maxLength its)) its"
  have "(\<Union>m \<in> set ?maps. uValues m) \<subseteq> (\<Union>n \<in> set batch. nodeCells n) \<union> {VNil, VStr []}"
  proof
    fix x assume "x \<in> (\<Union>m \<in> set ?maps. uValues m)"
    then obtain l where l: "l \<in> set its" "x \<in> uValues (arrayMap (maxLength its) l)" by auto
    then have "x \<in> set l \<union> {VStr []}" using uValues_arrayMap [OF maxLength_ge [OF l(1)]] by blast
    with l(1) show "x \<in> (\<Union>n \<in> set batch. nodeCells n) \<union> {VNil, VStr []}" by (auto simp: its(2))
  qed
  then show ?thesis using assms(2) its renderEqualMaps_err [of E ?maps tr opts e] failing_mono
    by (auto simp: renderArraysAsTable_def)
qed

lemma singleArray_cases:
  "(singleArrayOfArrays batch = Some a \<and> isSingleType a arrayNodeType \<and> (a = [] \<longleftrightarrow> batch = [NAny (VList [])])) \<or>
   (singleArrayOfArrays batch = None \<and> batch \<noteq> [NAny (VList [])])"
  if "\<forall>b. singleArrayOfArrays batch = Some b \<longrightarrow> b = a"
  using that by (auto simp: singleArrayOfArrays_def isSingleType_def split: list.splits node.splits gval.splits if_splits)

lemma renderArrays_outcome:
  assumes "isSingleType batch arrayNodeType" "batch \<noteq> []"
  shows "(batch = [NAny (VList [])] \<longrightarrow> renderArrays E batch tr opts = Inl TableIndexPanic) \<and>
         (batch \<noteq> [NAny (VList [])] \<longrightarrow> (\<forall>e. renderArrays E batch tr opts = Inl e \<longrightarrow> failing E (batchCells batch) e))"
proof (cases "singleArrayOfArrays batch")
  case None
  then have "batch \<noteq> [NAny (VList [])]" using singleArray_cases [of batch "[]"] by auto
  then show ?thesis using None renderArraysAsTable_err [OF assms(1)] assms(2) by (auto simp: renderArrays_def batchCells_def)
next
  case (Some a)
  then have a: "isSingleType a arrayNodeType" "a = [] \<longleftrightarrow> batch = [NAny (VList [])]"
    using singleArray_cases [of batch a] by auto
  then show ?thesis using Some renderArraysAsTable_err [OF a(1)]
    by (auto simp: renderArrays_def renderArraysAsTable_def batchCells_def)
qed

lemma renderScalars_err:
  assumes "isSingleType batch scalarNodeType" "renderScalars E batch tr opts = Inl e" "batch \<noteq> []"
  shows "failing E (batchCells batch) e"
proof -
  let ?b = "map (\<lambda>n. NAny (VList [nodeValue n])) batch"
  have "isSingleType ?b arrayNodeType" by (simp add: isSingleType_def list_all_iff)
  moreover have "?b \<noteq> []" "?b \<noteq> [NAny (VList [])]" using assms(3) by (auto simp: map_eq_Cons_conv)
  moreover have scalar: "getNodeType n = scalarNodeType" if "n \<in> set batch" for n
    using assms(1) that by (simp add: isSingleType_def list_all_iff)
  then have cells: "nodeCells n = {nodeValue n}" "n = NAny (nodeValue n)" if "n \<in> set batch" for n
    using that by (cases n rule: nodeCells.cases; fastforce)+
  have "singleArrayOfArrays ?b = None" "singleArrayOfArrays batch = None"
    using scalar cells(2) assms(3)
    by (force simp: singleArrayOfArrays_def isSingleType_def map_eq_Cons_conv split: list.splits node.splits gval.splits if_splits)+
  then have "batchCells ?b = batchCells batch" using cells(1) by (simp add: batchCells_def)
  ultimately show ?thesis using renderArrays_outcome [of ?b E tr opts] assms(2) by (auto simp: renderScalars_def)
qed

lemma nodeMap_ok:
  "list_all (\<lambda>n. getNodeType n = mapNodeType) batch \<Longrightarrow>
     \<exists>ms. mapr (nodeMap E) batch = Inr ms \<and> (\<Union>m \<in> set ms. uValues m) \<subseteq> (\<Union>n \<in> set batch. nodeCells n) \<union> {VNil}"
proof (induction batch)
  case (Cons n batch)
  have "\<exists>u. nodeMap E n = Inr u \<and> uValues u \<subseteq> nodeCells n \<union> {VNil}"
    using Cons.prems uValues_castMap by (cases n rule: getNodeType.cases) auto
  with Cons show ?case by fastforce
qed simp

lemma renderMaps_err:
  assumes "isSingleType batch mapNodeType" "\<not> isSingleType batch scalarNodeType" "renderBatch E batch tr opts = Inl e"
  shows "failing E (batchCells batch) e"
proof -
  obtain ms where ms: "mapr (nodeMap E) batch = Inr ms"
      "(\<Union>m \<in> set ms. uValues m) \<subseteq> (\<Union>n \<in> set batch. nodeCells n) \<union> {VNil}"
    using nodeMap_ok [of batch E] assms(1) unfolding isSingleType_def by blast
  with assms have "mapr (\<lambda>b. renderEqualMaps E b tr opts) (batchesBy (isMapKeysEqual E) ms) = Inl e"
    by (auto simp: renderBatch_def split: sum.splits)
  then obtain b where b: "b \<in> set (batchesBy (isMapKeysEqual E) ms)" "renderEqualMaps E b tr opts = Inl e"
    by (meson mapr_Inl)
  have "set b \<subseteq> set ms" using b(1) concat_batchesBy [of "isMapKeysEqual E" ms] by (metis UN_upper set_concat)
  then have "(\<Union>m \<in> set b. uValues m) \<subseteq> (\<Union>n \<in> set batch. nodeCells n) \<union> {VNil, VStr []}" using ms(2) by blast
  moreover have "failing E (\<Union>m \<in> set b. uValues m) e"
    using batchesBy_nonempty [OF b(1)] renderEqualMaps_err [OF b(2)] by blast
  moreover have "singleArrayOfArrays batch = None"
    using assms(1) by (auto simp: singleArrayOfArrays_def isSingleType_def split: list.splits node.splits gval.splits)
  ultimately show ?thesis unfolding batchCells_def by (simp add: failing_mono)
qed

text \<open>A batch is of one type, so that it is always one of the known cases.\<close>

definition batchOutcome :: "fmtOps \<Rightarrow> node list \<Rightarrow> fmtErr + string \<Rightarrow> bool" where
  "batchOutcome E b r \<longleftrightarrow>
     (if b = [NAny (VList [])] then r = Inl TableIndexPanic else \<forall>e. r = Inl e \<longrightarrow> failing E (batchCells b) e)"

lemma renderBatch_outcome:
  assumes "b \<in> set (batchesBy isNodeTypeEqual nodes)"
  shows "batchOutcome E b (renderBatch E b tr opts)"
proof -
  have ne: "b \<noteq> []" by (rule batchesBy_nonempty [OF assms])
  then have one: "isSingleType b (getNodeType (hd b))"
    using batchesBy_same [of isNodeTypeEqual getNodeType, OF isNodeTypeEqual_def assms] unfolding isSingleType_def list_all_iff by blast
  have iff: "isSingleType b t \<longleftrightarrow> t = getNodeType (hd b)" for t
    using one hd_in_set [OF ne] unfolding isSingleType_def list_all_iff by metis
  have empty: "b = [NAny (VList [])] \<Longrightarrow> getNodeType (hd b) = arrayNodeType" by simp
  show ?thesis
  proof (cases "getNodeType (hd b)")
    case scalarNodeType
    then have "renderBatch E b tr opts = renderScalars E b tr opts" "b \<noteq> [NAny (VList [])]" "isSingleType b scalarNodeType"
      using iff [of scalarNodeType] empty by (simp_all add: renderBatch_def) force
    then show ?thesis using renderScalars_err [OF _ _ ne] by (simp add: batchOutcome_def)
  next
    case arrayNodeType
    then have "renderBatch E b tr opts = renderArrays E b tr opts" "isSingleType b arrayNodeType"
      using iff [of scalarNodeType] iff [of mapNodeType] iff [of arrayNodeType] by (simp_all add: renderBatch_def)
    then show ?thesis using renderArrays_outcome [OF _ ne, of E tr opts] by (simp add: batchOutcome_def)
  next
    case mapNodeType
    then have "b \<noteq> [NAny (VList [])]" "isSingleType b mapNodeType" "\<not> isSingleType b scalarNodeType"
      using iff [of mapNodeType] iff [of scalarNodeType] empty by (simp_all, force)
    then show ?thesis using renderMaps_err by (simp add: batchOutcome_def)
  qed
qed

lemma renderBatches_outcome:
  assumes "\<forall>b \<in> set bs. batchOutcome E b (renderBatch E b tr opts)"
  shows "case renderBatches E bs tr opts of
           Inr t \<Rightarrow> [NAny (VList [])] \<notin> set bs
         | Inl e \<Rightarrow> (e = TableIndexPanic \<and> [NAny (VList [])] \<in> set bs) \<or>
             (\<exists>b \<in> set bs. \<exists>e'. failing E (batchCells b) e' \<and> e = wrapTables e')"
  using assms
proof (induction bs)
  case (Cons b bs)
  have ih: "case renderBatches E bs tr opts of
           Inr t \<Rightarrow> [NAny (VList [])] \<notin> set bs
         | Inl e \<Rightarrow> (e = TableIndexPanic \<and> [NAny (VList [])] \<in> set bs) \<or>
             (\<exists>b \<in> set bs. \<exists>e'. failing E (batchCells b) e' \<and> e = wrapTables e')"
    using Cons by simp
  have b: "batchOutcome E b (renderBatch E b tr opts)" using Cons.prems by simp
  show ?case
  proof (cases "renderBatch E b tr opts")
    case (Inl e)
    then show ?thesis using b by (cases "b = [NAny (VList [])]") (auto simp: batchOutcome_def)
  next
    case (Inr t)
    then have "b \<noteq> [NAny (VList [])]" using b by (auto simp: batchOutcome_def)
    with ih Inr show ?thesis by (cases "renderBatches E bs tr opts") auto
  qed
qed simp

text \<open>
  Property C35: the nodes of an answer are cut into batches of one type, and every batch is
  rendered, unless the answer has a cell that cannot be written or a batch that is a single empty
  array. A panic on a float happens only if some cell is a float of 32 bits, and an error of JSON is
  the one that encoding some map or array in a cell returned. A single empty array is taken for an
  array of arrays with no rows, and reading the first of its rows panics; every answer with such a
  batch fails. The cells of a batch are the values of its maps, the elements of its arrays, its
  scalars, or the elements of the rows of a single array of arrays.
\<close>

theorem tables_outcome:
  "case renderBatches E (batchesBy isNodeTypeEqual nodes) tr opts of
     Inr t \<Rightarrow> [NAny (VList [])] \<notin> set (batchesBy isNodeTypeEqual nodes)
   | Inl e \<Rightarrow> (e = TableIndexPanic \<and> [NAny (VList [])] \<in> set (batchesBy isNodeTypeEqual nodes)) \<or>
       (\<exists>b v. b \<in> set (batchesBy isNodeTypeEqual nodes) \<and> v \<in> batchCells b \<and>
          ((\<exists>w. v = VF32 w \<and> e = FloatPanic) \<or>
           ((\<exists>l m. v \<in> {VList l, VMap m}) \<and>
            (\<exists>msg. foJson E (deepCastAnyMapToStringMap E v) = Inl msg \<and> e = CannotRenderTables (JsonError msg)))))"
proof -
  let ?bs = "batchesBy isNodeTypeEqual nodes"
  have wrap: "(\<exists>w. v = VF32 w \<and> wrapTables e = FloatPanic) \<or>
      ((\<exists>l m. v \<in> {VList l, VMap m}) \<and>
       (\<exists>msg. foJson E (deepCastAnyMapToStringMap E v) = Inl msg \<and> wrapTables e = CannotRenderTables (JsonError msg)))"
    if "encodeCell E v = Inl e" for v e
    using that unfolding encodeCell_Inl by (cases v) auto
  have "case renderBatches E ?bs tr opts of
      Inr t \<Rightarrow> [NAny (VList [])] \<notin> set ?bs
    | Inl e \<Rightarrow> (e = TableIndexPanic \<and> [NAny (VList [])] \<in> set ?bs) \<or>
        (\<exists>b \<in> set ?bs. \<exists>e'. failing E (batchCells b) e' \<and> e = wrapTables e')"
    by (rule renderBatches_outcome) (use renderBatch_outcome in blast)
  note outcome = this
  show ?thesis
  proof (cases "renderBatches E ?bs tr opts")
    case (Inr t)
    with outcome show ?thesis by simp
  next
    case (Inl e)
    then consider "e = TableIndexPanic" "[NAny (VList [])] \<in> set ?bs" |
      b e' v where "b \<in> set ?bs" "v \<in> batchCells b" "encodeCell E v = Inl e'" "e = wrapTables e'"
      using outcome by (auto simp: failing_def)
    then show ?thesis
    proof cases
      case 1
      with Inl show ?thesis by simp
    next
      case 2
      with wrap [OF 2(3)] Inl show ?thesis by (simp only: sum.case) blast
    qed
  qed
qed

text \<open>The answer of \<^verbatim>\<open>return {}\<close>: one node, an empty array.\<close>

lemma empty_array_panics:
  assumes "foLazy E inp = Inr [\<lparr>lnMeta = Inl m, lnAny = Inr (VList [])\<rparr>]" "inp = nlJoin [''---'', ''- []'', ''...'']"
  shows "MakeOutput E TableFormat inp opts = Inl TableIndexPanic"
  using assms by (simp add: MakeOutput_def format_defs makeTableOutput_def nlJoin_def insertCollectedFields_def noRows_def
      renderBatch_def isSingleType_def renderArrays_def singleArrayOfArrays_def renderArraysAsTable_def)

text \<open>A quote in a text is not escaped in the Lua output: different values have the same text.\<close>

lemma lua_quote:
  "luaEncodeElement P (VList [VStr ''a'', VStr ''b'']) = luaEncodeElement P (VList [VStr (''a'' @ [CHR 0x22] @ '', '' @ [CHR 0x22] @ ''b'')])"
  by simp

end
