(* ===== verification/Console.thy ===== *)
theory Console
  imports History Formatter
begin

text \<open>
  The interactive console (\<^verbatim>\<open>src/cli/connect/\<close>): languages and their change on the instance,
  the backslash commands with their decorators and the dispatch of an input to a command, statements
  of several lines, and the executor that takes one line of input at a time, with the history and the
  output. The connection, the Lua parser and YAML are parameters; the world \<open>'w\<close> holds what the
  connection and the file system keep. The theorems: the search for allowed arguments, which
  errors a command can have and that an error leaves the console as it was, when the language
  changes, and that a console panics only in the rendering of a table.
\<close>

section \<open>Languages\<close>

datatype language = DefaultLanguage | LuaLanguage | SQLLanguage

definition ParseLanguage :: "string \<Rightarrow> language \<times> bool" where
  "ParseLanguage str =
     (let s = toLower str
      in if s = [] then (DefaultLanguage, True)
         else if s = ''lua'' then (LuaLanguage, True)
         else if s = ''sql'' then (SQLLanguage, True)
         else (DefaultLanguage, False))"

fun languageString :: "language \<Rightarrow> string" where
  "languageString DefaultLanguage = []"
| "languageString LuaLanguage = ''lua''"
| "languageString SQLLanguage = ''sql''"

text \<open>
  What is not under \<^verbatim>\<open>src/\<close>: evaluating on the instance with the answer as values, and as texts
  decoded by the connection; YAML; \<^verbatim>\<open>LoadString\<close> of the Lua parser, an error or none; the clock.
\<close>

datatype evalErr = EvalEOF | EvalErr string

record 'w consoleEnv =
  ceEval :: "'w \<Rightarrow> gval list \<Rightarrow> (string + gval list) \<times> 'w"
  ceEvalTexts :: "'w \<Rightarrow> gval list \<Rightarrow> (evalErr + string list) \<times> 'w"
  ceUnyaml :: "string \<Rightarrow> string + gval"
  ceLoadString :: "string \<Rightarrow> string option"
  ceNow :: "'w \<Rightarrow> int"
  ceFiles :: "'w fileOs"
  ceFmt :: fmtOps

datatype langErr =
    LangEval string
  | EmptyResponse
  | UnexpectedValues "gval list"
  | UndecodedResponse string
  | UnexpectedText string
  | ReturnsFalse string

definition backslash :: "string \<Rightarrow> string" where
  "backslash s = CHR 0x5C # s"

definition ChangeLanguage :: "'w consoleEnv \<Rightarrow> language \<Rightarrow> 'w \<Rightarrow> langErr option \<times> 'w" where
  "ChangeLanguage E lg w =
     (let lg = (if lg = DefaultLanguage then LuaLanguage else lg);
          languageCmd = backslash ''set language'' @ '' '' @ languageString lg
      in case ceEval E w [VStr languageCmd] of
           (Inl e, w') \<Rightarrow> (Some (LangEval e), w')
         | (Inr response, w') \<Rightarrow>
             ((case response of
                 [] \<Rightarrow> Some EmptyResponse
               | [VStr ret] \<Rightarrow>
                   (case ceUnyaml E ret of
                      Inl e \<Rightarrow> Some (UndecodedResponse e)
                    | Inr (VList [VBool True]) \<Rightarrow> None
                    | Inr (VList [VBool False]) \<Rightarrow> Some (ReturnsFalse languageCmd)
                    | Inr _ \<Rightarrow> Some (UnexpectedText ret))
               | _ \<Rightarrow> Some (UnexpectedValues response)), w'))"

section \<open>Statements\<close>

fun containsText :: "string \<Rightarrow> string \<Rightarrow> bool" where
  "containsText [] p = (p = [])"
| "containsText (c # cs) p = (cutPrefix (c # cs) p \<noteq> None \<or> containsText cs p)"

definition luaValidate :: "'w consoleEnv \<Rightarrow> string \<Rightarrow> bool" where
  "luaValidate E str =
     (case ceLoadString E str of
        None \<Rightarrow> True
      | Some e \<Rightarrow> if \<not> containsText e ''at EOF'' then True else ceLoadString E (''return '' @ str) = None)"

definition validate :: "'w consoleEnv \<Rightarrow> language \<Rightarrow> string \<Rightarrow> bool" where
  "validate E lg str = (case lg of SQLLanguage \<Rightarrow> True | _ \<Rightarrow> luaValidate E str)"

definition AddStmtPart :: "string \<Rightarrow> string \<Rightarrow> (string \<Rightarrow> bool) \<Rightarrow> string \<times> bool" where
  "AddStmtPart stmt part validator =
     (let stmt = (if stmt = [] then (if trimSpace part \<noteq> [] then part else stmt) else stmt @ [newline] @ part)
      in (stmt, validator stmt))"

section \<open>The console\<close>

record console =
  coInput :: string
  coTitle :: string
  coLanguage :: language
  coFormat :: format
  coFormatOpts :: fmtOpts
  coQuit :: bool
  coHistory :: "commandHistory option"
  coPrefix :: string
  coLivePrefixEnabled :: bool
  coLivePrefix :: string

section \<open>Commands\<close>

text \<open>The functions of the basic commands, by name.\<close>

datatype runFunc =
    setLanguageFunc
  | setFormatFunc
  | setTableDialectFunc
  | setGraphicsFunc
  | setTableColumnWidthMaxFunc
  | switchNextFormatFunc
  | getSetFormatFunc format
  | enableGraphicsFunc
  | disableGraphicsFunc
  | getShortcutsFunc
  | setQuitFunc

datatype cmd =
    baseCmd "string list" runFunc
  | combinedCmd "(string \<times> cmd) list"
  | noArgsCmdDecorator cmd
  | argSetCmdDecorator "string list" cmd
  | argUnsignedCmdDecorator cmd
  | argBooleanCmdDecorator cmd
  | helpCmd string

datatype cmdErr =
    ChangeLanguageFailed langErr
  | UnsupportedLanguage string
  | UnsupportedFormat string
  | UnsupportedDialect string
  | ParsingError string
  | NoArgumentsExpected
  | ExpectsOneOf "string list"
  | NotUnsigned
  | NotBoolean
  | ArgsPanic
  | NilCmdPanic

text \<open>\<^verbatim>\<open>sort.SearchStrings\<close>: the first index whose text is not less, by bisection.\<close>

function searchStrings :: "string list \<Rightarrow> string \<Rightarrow> nat \<Rightarrow> nat \<Rightarrow> nat" where
  "searchStrings a x i j =
     (if i < j
      then let h = (i + j) div 2
           in if strLess (a ! h) x then searchStrings a x (h + 1) j else searchStrings a x i h
      else i)"
  by pat_completeness auto

termination
  by (relation "measure (\<lambda>(a, x, i, j). j - i)") auto

declare searchStrings.simps [simp del]

definition findText :: "string list \<Rightarrow> string \<Rightarrow> bool" where
  "findText allowed str =
     (let idx = searchStrings allowed str 0 (length allowed)
      in idx \<noteq> length allowed \<and> str = allowed ! idx)"

text \<open>\<^verbatim>\<open>strconv.ParseUint(s, 10, 64)\<close> and \<^verbatim>\<open>strconv.ParseBool\<close>.\<close>

definition parseUint64 :: "string \<Rightarrow> 64 word option" where
  "parseUint64 s = (case parseNat s of None \<Rightarrow> None | Some n \<Rightarrow> if int n < 2 ^ 64 then Some (word_of_int (int n)) else None)"

definition parseBool :: "string \<Rightarrow> bool option" where
  "parseBool s =
     (if s \<in> {''1'', ''t'', ''T'', ''TRUE'', ''true'', ''True''} then Some True
      else if s \<in> {''0'', ''f'', ''F'', ''FALSE'', ''false'', ''False''} then Some False
      else None)"

type_synonym 'w cmdResult = "(cmdErr + string) \<times> console \<times> 'w"

definition shortcutListText :: string where
  "shortcutListText = joinSep newline
     [''---'',
      ''- - |'',
      ''    Available hotkeys and shortcuts:'',
      [],
      ''       Ctrl + J / Ctrl + M [Enter] -- Enter the command'',
      ''       Ctrl + A [Home]             -- Go to the beginning of the command'',
      ''       Ctrl + E [End]              -- Go to the end of the command'',
      ''       Ctrl + P [Up Arrow]         -- Previous command'',
      ''       Ctrl + N [Down Arrow]       -- Next command'',
      ''       Ctrl + F [Right Arrow]      -- Forward one character'',
      ''       Ctrl + B [Left Arrow]       -- Backward one character'',
      ''       Ctrl + H [Backspace]        -- Delete character before the cursor'',
      ''       Ctrl + I [Tab]              -- Get next completion'',
      ''       BackTab                     -- Get previous completion'',
      ''       Ctrl + D                    -- Delete character under the cursor'',
      ''       Ctrl + W                    -- Cut the word before the cursor'',
      ''       Ctrl + K                    -- Cut the command after the cursor'',
      ''       Ctrl + U                    -- Cut the command before the cursor'',
      ''       Ctrl + L                    -- Clear the screen'',
      ''       Ctrl + R                    -- Enter in the reverse search mode'',
      ''       Ctrl + C                    -- Interrupt current unfinished expression'',
      ''       Alt + B                     -- Move backwards one word'',
      ''       Alt + F                     -- Move forwards one word'',
      ''...'']"

text \<open>The basic commands; without arguments, reading the first one panics.\<close>

definition withArg :: "string list \<Rightarrow> console \<Rightarrow> 'w \<Rightarrow> (string \<Rightarrow> 'w cmdResult) \<Rightarrow> 'w cmdResult" where
  "withArg args con w f = (case args of [] \<Rightarrow> (Inl ArgsPanic, con, w) | a # _ \<Rightarrow> f a)"

fun runBase :: "'w consoleEnv \<Rightarrow> runFunc \<Rightarrow> string list \<Rightarrow> console \<Rightarrow> 'w \<Rightarrow> 'w cmdResult" where
  "runBase E setLanguageFunc args con w =
     withArg args con w (\<lambda>a.
       case ParseLanguage a of
         (lg, True) \<Rightarrow>
           (case ChangeLanguage E lg w of
              (Some e, w') \<Rightarrow> (Inl (ChangeLanguageFailed e), con, w')
            | (None, w') \<Rightarrow> (Inr [], con\<lparr>coLanguage := lg\<rparr>, w'))
       | (_, False) \<Rightarrow> (Inl (UnsupportedLanguage a), con, w))"
| "runBase E setFormatFunc args con w =
     withArg args con w (\<lambda>a.
       case ParseFormat a of
         (f, True) \<Rightarrow> (Inr [], con\<lparr>coFormat := f\<rparr>, w)
       | (_, False) \<Rightarrow> (Inl (UnsupportedFormat a), con, w))"
| "runBase E setTableDialectFunc args con w =
     withArg args con w (\<lambda>a.
       case ParseTableDialect a of
         (d, True) \<Rightarrow> (Inr [], con\<lparr>coFormatOpts := (coFormatOpts con)\<lparr>TableDialect := d\<rparr>\<rparr>, w)
       | (_, False) \<Rightarrow> (Inl (UnsupportedDialect a), con, w))"
| "runBase E setGraphicsFunc args con w =
     withArg args con w (\<lambda>a.
       case parseBool a of
         None \<Rightarrow> (Inl (ParsingError a), con, w)
       | Some b \<Rightarrow> (Inr [], con\<lparr>coFormatOpts := (coFormatOpts con)\<lparr>Graphics := b\<rparr>\<rparr>, w))"
| "runBase E setTableColumnWidthMaxFunc args con w =
     withArg args con w (\<lambda>a.
       case parseUint64 a of
         None \<Rightarrow> (Inl (ParsingError a), con, w)
       | Some v \<Rightarrow> (Inr [], con\<lparr>coFormatOpts := (coFormatOpts con)\<lparr>ColumnWidthMax := sint v\<rparr>\<rparr>, w))"
| "runBase E switchNextFormatFunc args con w =
     (Inr [], con\<lparr>coFormat := (1 + coFormat con) mod FormatsAmount\<rparr>, w)"
| "runBase E (getSetFormatFunc f) args con w = (Inr [], con\<lparr>coFormat := f\<rparr>, w)"
| "runBase E enableGraphicsFunc args con w =
     (Inr [], con\<lparr>coFormatOpts := (coFormatOpts con)\<lparr>Graphics := True\<rparr>\<rparr>, w)"
| "runBase E disableGraphicsFunc args con w =
     (Inr [], con\<lparr>coFormatOpts := (coFormatOpts con)\<lparr>Graphics := False\<rparr>\<rparr>, w)"
| "runBase E getShortcutsFunc args con w = (Inr shortcutListText, con, w)"
| "runBase E setQuitFunc args con w = (Inr [], con\<lparr>coQuit := True\<rparr>, w)"

fun Aliases :: "cmd \<Rightarrow> string list" where
  "Aliases (baseCmd aliases f) = aliases"
| "Aliases (combinedCmd m) = map fst m"
| "Aliases (noArgsCmdDecorator base) = Aliases base"
| "Aliases (argSetCmdDecorator allowed base) = Aliases base"
| "Aliases (argUnsignedCmdDecorator base) = Aliases base"
| "Aliases (argBooleanCmdDecorator base) = Aliases base"
| "Aliases (helpCmd msg) = [backslash ''help'', ''?'']"

lemma size_combined: "map_of m k = Some c \<Longrightarrow> size c < Suc (size_list (size_prod f size) m)"
  by (induction m) (auto split: if_splits)

function Run :: "'w consoleEnv \<Rightarrow> cmd \<Rightarrow> string \<Rightarrow> string list \<Rightarrow> console \<Rightarrow> 'w \<Rightarrow> 'w cmdResult" where
  "Run E (baseCmd aliases f) key args con w = runBase E f args con w"
| "Run E (combinedCmd m) key args con w =
     (case map_of m key of None \<Rightarrow> (Inl NilCmdPanic, con, w) | Some c \<Rightarrow> Run E c key args con w)"
| "Run E (noArgsCmdDecorator base) key args con w =
     (if length args \<noteq> 0 then (Inl NoArgumentsExpected, con, w) else Run E base key args con w)"
| "Run E (argSetCmdDecorator allowed base) key args con w =
     (if length args \<noteq> 1 \<or> \<not> findText allowed (args ! 0) then (Inl (ExpectsOneOf allowed), con, w)
      else Run E base key args con w)"
| "Run E (argUnsignedCmdDecorator base) key args con w =
     (if length args \<noteq> 1 then (Inl NotUnsigned, con, w)
      else if parseUint64 (args ! 0) = None then (Inl NotUnsigned, con, w)
      else Run E base key args con w)"
| "Run E (argBooleanCmdDecorator base) key args con w =
     (if length args \<noteq> 1 then (Inl NotBoolean, con, w)
      else if parseBool (args ! 0) = None then (Inl NotBoolean, con, w)
      else Run E base key args con w)"
| "Run E (helpCmd msg) key args con w = (Inr msg, con, w)"
  by pat_completeness auto

termination
  by (relation "measure (\<lambda>(E, c, k). size c)") (use size_combined in auto)

section \<open>The list of commands\<close>

definition newArgSetCmdDecorator :: "cmd \<Rightarrow> string list \<Rightarrow> cmd" where
  "newArgSetCmdDecorator base texts = argSetCmdDecorator (isort strLess texts) base"

text \<open>Later commands take over the aliases of earlier ones.\<close>

definition cmdsMap :: "cmd list \<Rightarrow> (string \<times> cmd) list" where
  "cmdsMap cmds = foldl (\<lambda>m c. foldl (\<lambda>m a. AList.update a c m) m (Aliases c)) [] cmds"

definition newCombinedCmd :: "cmd list \<Rightarrow> cmd" where
  "newCombinedCmd cmds = combinedCmd (cmdsMap cmds)"

record cmdInfo =
  ciShort :: string
  ciLong :: string
  ciCmd :: cmd

definition setLanguageAlias :: string where "setLanguageAlias = backslash ''set language''"
definition setFormatLong :: string where "setFormatLong = backslash ''set output''"
definition setGraphics :: string where "setGraphics = backslash ''set graphics''"
definition setTableDialect :: string where "setTableDialect = backslash ''set table_format''"
definition setTableColumnWidthMaxLong :: string where "setTableColumnWidthMaxLong = backslash ''set table_column_width''"
definition setTableColumnWidthMaxShort :: string where "setTableColumnWidthMaxShort = backslash ''xw''"
definition setNextFormat :: string where "setNextFormat = backslash ''x''"
definition setFormatYaml :: string where "setFormatYaml = backslash ''xy''"
definition setFormatLua :: string where "setFormatLua = backslash ''xl''"
definition setFormatTable :: string where "setFormatTable = backslash ''xt''"
definition setFormatTTable :: string where "setFormatTTable = backslash ''xT''"
definition setGraphicsEnable :: string where "setGraphicsEnable = backslash ''xG''"
definition setGraphicsDisable :: string where "setGraphicsDisable = backslash ''xg''"
definition setQuit :: "string list" where "setQuit = [backslash ''quit'', backslash ''q'']"
definition getShortcutsList :: string where "getShortcutsList = backslash ''shortcuts''"
definition getHelp :: "string list" where "getHelp = [backslash ''help'', ''?'']"

lemmas alias_defs = setLanguageAlias_def setFormatLong_def setGraphics_def setTableDialect_def
  setTableColumnWidthMaxLong_def setTableColumnWidthMaxShort_def setNextFormat_def setFormatYaml_def
  setFormatLua_def setFormatTable_def setFormatTTable_def setGraphicsEnable_def setGraphicsDisable_def
  setQuit_def getShortcutsList_def getHelp_def backslash_def

definition simpleCmd :: "string \<Rightarrow> runFunc \<Rightarrow> cmd" where
  "simpleCmd a f = noArgsCmdDecorator (baseCmd [a] f)"

definition cmdInfos :: "cmdInfo list" where
  "cmdInfos =
    [\<lparr>ciShort = setLanguageAlias @ '' <language>'', ciLong = ''set language lua (default) or sql'',
      ciCmd = newArgSetCmdDecorator (baseCmd [setLanguageAlias] setLanguageFunc)
                [languageString LuaLanguage, languageString SQLLanguage]\<rparr>,
     \<lparr>ciShort = setFormatLong @ '' <format>'', ciLong = ''set format lua, table, ttable or yaml (default)'',
      ciCmd = newArgSetCmdDecorator (baseCmd [setFormatLong] setFormatFunc) [''lua'', ''table'', ''ttable'', ''yaml'']\<rparr>,
     \<lparr>ciShort = setTableDialect @ '' <format>'', ciLong = ''set table format default, jira or markdown'',
      ciCmd = newArgSetCmdDecorator (baseCmd [setTableDialect] setTableDialectFunc)
                [dialectString DefaultTableDialect, dialectString JiraTableDialect, dialectString MarkdownTableDialect]\<rparr>,
     \<lparr>ciShort = setGraphics @ '' <false/true>'', ciLong = ''disables/enables pseudographics for table modes'',
      ciCmd = argBooleanCmdDecorator (baseCmd [setGraphics] setGraphicsFunc)\<rparr>,
     \<lparr>ciShort = setTableColumnWidthMaxLong @ '' <width>'', ciLong = ''set max column width for table/ttable'',
      ciCmd = argUnsignedCmdDecorator (baseCmd [setTableColumnWidthMaxLong] setTableColumnWidthMaxFunc)\<rparr>,
     \<lparr>ciShort = setTableColumnWidthMaxShort @ '' <width>'', ciLong = ''set max column width for table/ttable'',
      ciCmd = argUnsignedCmdDecorator (baseCmd [setTableColumnWidthMaxShort] setTableColumnWidthMaxFunc)\<rparr>,
     \<lparr>ciShort = setNextFormat, ciLong = ''switches output format cyclically'',
      ciCmd = simpleCmd setNextFormat switchNextFormatFunc\<rparr>,
     \<lparr>ciShort = backslash ''x[l,t,T,y]'', ciLong = ''set output format lua, table, ttable or yaml'',
      ciCmd = newCombinedCmd
        [simpleCmd setFormatLua (getSetFormatFunc LuaFormat), simpleCmd setFormatTable (getSetFormatFunc TableFormat),
         simpleCmd setFormatTTable (getSetFormatFunc TTableFormat), simpleCmd setFormatYaml (getSetFormatFunc YamlFormat)]\<rparr>,
     \<lparr>ciShort = backslash ''x[g,G]'', ciLong = ''disables/enables pseudographics for table modes'',
      ciCmd = newCombinedCmd
        [simpleCmd setGraphicsEnable enableGraphicsFunc, simpleCmd setGraphicsDisable disableGraphicsFunc]\<rparr>,
     \<lparr>ciShort = getShortcutsList, ciLong = ''show available hotkeys and shortcuts'',
      ciCmd = simpleCmd getShortcutsList getShortcutsFunc\<rparr>,
     \<lparr>ciShort = joinComma setQuit, ciLong = ''quit from the console'',
      ciCmd = noArgsCmdDecorator (baseCmd setQuit setQuitFunc)\<rparr>]"

definition helpLines :: "string list" where
  "helpLines =
    [[],
     ''  To get help, see the Tarantool manual at https://tarantool.io/en/doc/'',
     ''  To start the interactive Tarantool tutorial, type '' @ [CHR 0x27] @ ''tutorial()'' @ [CHR 0x27] @ '' here.'',
     [],
     ''  This help is expanded with additional backslash commands'',
     ''  because tt connect is using.'',
     [],
     ''  Available backslash commands:'',
     [], []]"

definition newHelpCmd :: "cmdInfo list \<Rightarrow> cmd" where
  "newHelpCmd infos =
     (let shorts = joinComma getHelp # map ciShort infos;
          longs = ''show this screen'' # map ciLong infos;
          shortMaxLen = foldl (\<lambda>m i. if length (ciShort i) > m then length (ciShort i) else m) (length (joinComma getHelp)) infos
      in helpCmd (joinSep newline helpLines @
           concat (map2 (\<lambda>s l. ''  '' @ s @ replicate (shortMaxLen - length s) (CHR '' '') @ '' -- '' @ l @ [newline]) shorts longs)))"

definition newCmdExecutor :: "(string \<times> cmd) list" where
  "newCmdExecutor = cmdsMap (noArgsCmdDecorator (newHelpCmd cmdInfos) # map ciCmd cmdInfos)"

section \<open>Dispatch\<close>

text \<open>
  Tokens are split at spaces after trimming; the command is looked up as it was typed and its
  arguments are in lower case. The longest sequence of tokens that is an alias is the command. The
  result is \<open>None\<close> when the input is no command.
\<close>

definition inputTokens :: "string \<Rightarrow> string list" where
  "inputTokens inp = filter (\<lambda>t. t \<noteq> []) (splitAll (CHR '' '') (trimSpace inp))"

fun longestAlias :: "(string \<times> cmd) list \<Rightarrow> string list \<Rightarrow> nat \<Rightarrow> (string \<times> cmd \<times> nat) option" where
  "longestAlias cmds tokens 0 = None"
| "longestAlias cmds tokens (Suc i) =
     (let key = joinSep (CHR '' '') (take (Suc i) tokens)
      in case map_of cmds key of Some c \<Rightarrow> Some (key, c, Suc i) | None \<Rightarrow> longestAlias cmds tokens i)"

definition Execute :: "'w consoleEnv \<Rightarrow> (string \<times> cmd) list \<Rightarrow> string \<Rightarrow> console \<Rightarrow> 'w \<Rightarrow> 'w cmdResult option" where
  "Execute E cmds inp con w =
     (let tokens = inputTokens inp
      in case longestAlias cmds tokens (length tokens) of
           None \<Rightarrow> None
         | Some (key, c, i) \<Rightarrow> Some (Run E c key (drop i (map toLower tokens)) con w))"

section \<open>The executor\<close>

datatype panic = CommandPanic cmdErr | HistoryPanic | OutputPanic fmtErr

text \<open>After one input the console goes on, has exited (\<^verbatim>\<open>os.Exit\<close>, \<^verbatim>\<open>log.Fatalf\<close>) or panicked.\<close>

datatype consoleOutcome = GoesOn | Exited | FatalEOF | FatalEval string | Panicked panic

fun cmdPanics :: "cmdErr \<Rightarrow> bool" where
  "cmdPanics ArgsPanic = True"
| "cmdPanics NilCmdPanic = True"
| "cmdPanics _ = False"

fun fmtPanics :: "fmtErr \<Rightarrow> bool" where
  "fmtPanics TableIndexPanic = True"
| "fmtPanics FloatPanic = True"
| "fmtPanics FormatPanic = True"
| "fmtPanics _ = False"

text \<open>A completed statement goes to the history, which is written out; errors of that are only logged.\<close>

definition remember :: "'w consoleEnv \<Rightarrow> string \<Rightarrow> console \<Rightarrow> 'w \<Rightarrow> bool \<times> console \<times> 'w" where
  "remember E statement con w =
     (case coHistory con of
        None \<Rightarrow> (True, con, w)
      | Some h \<Rightarrow>
          (let h' = appendCommand (ceNow E w) statement h
           in case writeToFile (ceFiles E) h' w of
                (e, w') \<Rightarrow> (e \<noteq> Some IndexPanic, con\<lparr>coHistory := Some h'\<rparr>, w')))"

definition evaluate :: "'w consoleEnv \<Rightarrow> console \<Rightarrow> 'w \<Rightarrow> consoleOutcome \<times> string \<times> console \<times> 'w" where
  "evaluate E con w =
     (let needMetaInfo = (coFormat con = TableFormat \<or> coFormat con = TTableFormat);
          args = [VStr (coInput con), VBool (coLanguage con = SQLLanguage), VBool needMetaInfo]
      in case ceEvalTexts E w args of
           (Inl EvalEOF, w') \<Rightarrow> (FatalEOF, [], con, w')
         | (Inl (EvalErr e), w') \<Rightarrow> (FatalEval e, [], con, w')
         | (Inr [], w') \<Rightarrow> (Exited, [], con, w')
         | (Inr (dat # _), w') \<Rightarrow>
             (case MakeOutput (ceFmt E) (coFormat con) dat (coFormatOpts con) of
                Inl e \<Rightarrow>
                  if fmtPanics e then (Panicked (OutputPanic e), [], con, w')
                  else (GoesOn, [], con\<lparr>coInput := [], coLivePrefixEnabled := False\<rparr>, w')
              | Inr out \<Rightarrow> (GoesOn, out, con\<lparr>coInput := [], coLivePrefixEnabled := False\<rparr>, w')))"

definition statementInput :: "'w consoleEnv \<Rightarrow> string \<Rightarrow> console \<Rightarrow> 'w \<Rightarrow> consoleOutcome \<times> string \<times> console \<times> 'w" where
  "statementInput E inp con w =
     (case AddStmtPart (coInput con) inp (validate E (coLanguage con)) of
        (stmt, completed) \<Rightarrow>
          let con1 = con\<lparr>coInput := stmt\<rparr>
          in if \<not> completed then (GoesOn, [], con1\<lparr>coLivePrefixEnabled := True\<rparr>, w)
             else (case remember E (trimSpace stmt) con1 w of
                     (False, con2, w') \<Rightarrow> (Panicked HistoryPanic, [], con2, w')
                   | (True, con2, w') \<Rightarrow> evaluate E con2 w'))"

definition executor :: "'w consoleEnv \<Rightarrow> string \<Rightarrow> console \<Rightarrow> 'w \<Rightarrow> consoleOutcome \<times> string \<times> console \<times> 'w" where
  "executor E inp con w =
     (if coInput con = []
      then (case Execute E newCmdExecutor inp con w of
              Some (r, con', w') \<Rightarrow>
                ((case r of
                    Inl e \<Rightarrow> if cmdPanics e then Panicked (CommandPanic e) else if coQuit con' then Exited else GoesOn
                  | Inr msg \<Rightarrow> if coQuit con' then Exited else GoesOn),
                 (case r of Inr msg \<Rightarrow> if msg \<noteq> [] then msg @ [newline] else [] | Inl _ \<Rightarrow> []), con', w')
            | None \<Rightarrow> statementInput E inp con w)
      else statementInput E inp con w)"

text \<open>Input that is piped: one line after the other, as long as the console goes on.\<close>

fun runPiped :: "'w consoleEnv \<Rightarrow> string list \<Rightarrow> console \<Rightarrow> 'w \<Rightarrow> consoleOutcome \<times> string \<times> console \<times> 'w" where
  "runPiped E [] con w = (GoesOn, [], con, w)"
| "runPiped E (l # ls) con w =
     (case executor E l con w of
        (GoesOn, out, con', w') \<Rightarrow> (case runPiped E ls con' w' of (r, out', con'', w'') \<Rightarrow> (r, out @ out', con'', w''))
      | res \<Rightarrow> res)"

text \<open>The key that interrupts a statement.\<close>

definition interrupt :: "console \<Rightarrow> console" where
  "interrupt con = con\<lparr>coInput := [], coLivePrefixEnabled := False\<rparr>"

section \<open>A new console\<close>

definition genConsoleTitle :: "string \<Rightarrow> string \<Rightarrow> string" where
  "genConsoleTitle address connectTarget = (if connectTarget \<noteq> [] then connectTarget else address)"

definition setTitle :: "string \<Rightarrow> console \<Rightarrow> console" where
  "setTitle title con = (if coTitle con \<noteq> [] then con else con\<lparr>coTitle := title\<rparr>)"

definition setPrefix :: "console \<Rightarrow> console" where
  "setPrefix con =
     (let livePrefixIndent = (if length (coTitle con) > 15 then 15 else length (coTitle con))
      in con\<lparr>coPrefix := coTitle con @ ''> '', coLivePrefix := replicate livePrefixIndent (CHR '' '') @ ''> ''\<rparr>)"

datatype consoleErr = ConnectFailed string | LanguageFailed langErr

definition NewConsole ::
  "'w consoleEnv \<Rightarrow> string + string \<Rightarrow> ('w \<Rightarrow> string option \<times> 'w) \<Rightarrow> language \<Rightarrow> format \<Rightarrow> string \<Rightarrow> string \<Rightarrow> string \<Rightarrow> 'w \<Rightarrow> (consoleErr + console) \<times> 'w" where
  "NewConsole E homeDir connect lg f address connectTarget title w =
     (let hist = (case newCommandHistory homeDir ''.tarantool_history'' 10000 of
                    Inl _ \<Rightarrow> None
                  | Inr h \<Rightarrow> Some (snd (load (ceFiles E) (ceNow E w) w h)));
          con = \<lparr>coInput = [], coTitle = title, coLanguage = lg, coFormat = f,
                 coFormatOpts = \<lparr>Graphics = True, ColumnWidthMax = 0, TableDialect = DefaultTableDialect\<rparr>,
                 coQuit = False, coHistory = hist, coPrefix = [], coLivePrefixEnabled = False, coLivePrefix = []\<rparr>
      in case connect w of
           (Some e, w1) \<Rightarrow> (Inl (ConnectFailed e), w1)
         | (None, w1) \<Rightarrow>
             (case (if lg \<noteq> DefaultLanguage then ChangeLanguage E lg w1 else (None, w1)) of
                (Some e, w2) \<Rightarrow> (Inl (LanguageFailed e), w2)
              | (None, w2) \<Rightarrow> (Inr (setPrefix (setTitle (genConsoleTitle address connectTarget) con)), w2)))"

section \<open>The search for an allowed argument\<close>

interpretation texts: strict_weak_order strLess
proof unfold_locales
  fix x y z :: string
  show "\<not> strLess x x" by simp
  show "strLess x y \<Longrightarrow> strLess y z \<Longrightarrow> strLess x z" by (rule strLess_trans)
  show "\<not> strLess x y \<Longrightarrow> \<not> strLess y z \<Longrightarrow> \<not> strLess x z"
    using strLess_total [of x y] strLess_trans [of y x z] by blast
qed

lemma searchStrings_done: "\<not> i < j \<Longrightarrow> searchStrings a x i j = i"
  by (simp add: searchStrings.simps)

lemma searchStrings_up: "i < j \<Longrightarrow> strLess (a ! ((i + j) div 2)) x \<Longrightarrow> searchStrings a x i j = searchStrings a x ((i + j) div 2 + 1) j"
  by (subst searchStrings.simps) (simp only: Let_def if_True)

lemma searchStrings_down: "i < j \<Longrightarrow> \<not> strLess (a ! ((i + j) div 2)) x \<Longrightarrow> searchStrings a x i j = searchStrings a x i ((i + j) div 2)"
  by (subst searchStrings.simps) (simp only: Let_def if_True if_False)

lemma searchStrings_range: "i \<le> j \<Longrightarrow> i \<le> searchStrings a x i j \<and> searchStrings a x i j \<le> j"
proof (induction a x i j rule: searchStrings.induct)
  case (1 a x i j)
  show ?case
  proof (cases "i < j")
    case True
    let ?h = "(i + j) div 2"
    have h: "?h < j" "i \<le> ?h" using True by auto
    show ?thesis
    proof (cases "strLess (a ! ?h) x")
      case less: True
      from 1(1) [OF True refl less] h show ?thesis unfolding searchStrings_up [OF True less] by linarith
    next
      case False
      from 1(2) [OF True refl False] h show ?thesis unfolding searchStrings_down [OF True False] by linarith
    qed
  qed (use 1 in \<open>simp add: searchStrings_done\<close>)
qed

lemma sorted_below:
  assumes "sorted_wrt (\<lambda>a b. \<not> strLess b a) a" "h < length a" "k \<le> h" "strLess (a ! h) x"
  shows "strLess (a ! k) x"
proof (cases "k = h")
  case False
  then have "\<not> strLess (a ! h) (a ! k)" using assms sorted_wrt_nth_less [OF assms(1), of k h] by auto
  then show ?thesis using strLess_total [of "a ! h" "a ! k"] strLess_trans [of "a ! k" "a ! h" x] assms(4) by auto
qed (use assms in simp)

lemma searchStrings_split:
  assumes "sorted_wrt (\<lambda>a b. \<not> strLess b a) a"
    and "i \<le> j" "j \<le> length a" "\<forall>k < i. strLess (a ! k) x" "\<forall>k. j \<le> k \<and> k < length a \<longrightarrow> \<not> strLess (a ! k) x"
  shows "(\<forall>k < searchStrings a x i j. strLess (a ! k) x) \<and>
         (\<forall>k. searchStrings a x i j \<le> k \<and> k < length a \<longrightarrow> \<not> strLess (a ! k) x)"
  using assms
proof (induction a x i j rule: searchStrings.induct)
  case (1 a x i j)
  show ?case
  proof (cases "i < j")
    case True
    let ?h = "(i + j) div 2"
    have h: "?h < j" "i \<le> ?h" "?h < length a" using True 1(5) by auto
    show ?thesis
    proof (cases "strLess (a ! ?h) x")
      case less: True
      then have below: "\<forall>k < ?h + 1. strLess (a ! k) x" using sorted_below [OF 1(3) h(3)] by auto
      have "?h + 1 \<le> j" using h(1) by simp
      from 1(1) [OF True refl less 1(3) this 1(5) below 1(7)] show ?thesis unfolding searchStrings_up [OF True less] .
    next
      case False
      then have above: "\<forall>k. ?h \<le> k \<and> k < length a \<longrightarrow> \<not> strLess (a ! k) x" using sorted_below [OF 1(3)] by blast
      have "?h \<le> length a" using h(3) by simp
      from 1(2) [OF True refl False 1(3) h(2) this 1(6) above] show ?thesis unfolding searchStrings_down [OF True False] .
    qed
  next
    case False
    then have "i = j" using 1(4) by simp
    then show ?thesis using 1(6,7) searchStrings_done [OF False] by metis
  qed
qed

lemma findText_mem: "findText a x \<Longrightarrow> x \<in> set a"
  using searchStrings_range [of 0 "length a" a x] nth_mem [of "searchStrings a x 0 (length a)" a]
  unfolding findText_def Let_def by (metis le_neq_implies_less zero_le)

text \<open>In a sorted list bisection finds exactly the elements.\<close>

lemma findText_sorted:
  assumes "sorted_wrt (\<lambda>a b. \<not> strLess b a) a"
  shows "findText a x \<longleftrightarrow> x \<in> set a"
proof
  assume "x \<in> set a"
  then obtain k where k: "k < length a" "a ! k = x" by (auto simp: in_set_conv_nth)
  let ?r = "searchStrings a x 0 (length a)"
  have none: "\<forall>k < 0. strLess (a ! k) x" "\<forall>k. length a \<le> k \<and> k < length a \<longrightarrow> \<not> strLess (a ! k) x"
    by auto
  have s: "\<forall>k < ?r. strLess (a ! k) x" "\<forall>k. ?r \<le> k \<and> k < length a \<longrightarrow> \<not> strLess (a ! k) x"
    using searchStrings_split [OF assms le0 order.refl none] by blast+
  have le: "?r \<le> k"
  proof (rule ccontr)
    assume "\<not> ?r \<le> k"
    then have "strLess (a ! k) x" using s(1) by (metis not_le)
    with k(2) show False by simp
  qed
  then have r: "?r < length a" using k(1) by (rule order.strict_trans1)
  have "\<not> strLess (a ! ?r) x" using s(2) r by blast
  moreover have "\<not> strLess x (a ! ?r)"
  proof (cases "?r = k")
    case False
    with le have "?r < k" by simp
    from sorted_wrt_nth_less [OF assms this k(1)] k(2) show ?thesis by simp
  qed (use k(2) in simp)
  ultimately have "x = a ! ?r" using strLess_total [of x "a ! ?r"] by blast
  then show "findText a x" using r unfolding findText_def Let_def by (metis less_irrefl)
qed (rule findText_mem)

lemma newArgSet_allows: "findText (isort strLess xs) x \<longleftrightarrow> x \<in> set xs"
  by (simp add: findText_sorted texts.isort_sorted)

section \<open>Commands and their errors\<close>

definition validFormat :: "format \<Rightarrow> bool" where
  "validFormat f \<longleftrightarrow> 0 \<le> f \<and> f < FormatsAmount"

fun userErr :: "cmdErr \<Rightarrow> bool" where
  "userErr NoArgumentsExpected = True"
| "userErr (ExpectsOneOf _) = True"
| "userErr NotUnsigned = True"
| "userErr NotBoolean = True"
| "userErr (ChangeLanguageFailed _) = True"
| "userErr _ = False"

text \<open>
  What a command may do: an error is one of the user or of the instance and leaves the console as it
  was; otherwise the settings change, the format to a known one, and the language only when the
  instance has confirmed it.
\<close>

definition settled :: "'w consoleEnv \<Rightarrow> console \<Rightarrow> 'w \<Rightarrow> 'w cmdResult \<Rightarrow> bool" where
  "settled E con w res =
     (case res of
        (Inl e, con', w') \<Rightarrow> userErr e \<and> con' = con
      | (Inr msg, con', w') \<Rightarrow>
          coInput con' = coInput con \<and> coHistory con' = coHistory con \<and>
          (validFormat (coFormat con) \<longrightarrow> validFormat (coFormat con')) \<and>
          (coLanguage con' \<noteq> coLanguage con \<longrightarrow> ChangeLanguage E (coLanguage con') w = (None, w')))"

text \<open>The arguments a basic command accepts, and the commands whose decorators let only these through.\<close>

fun accepts :: "runFunc \<Rightarrow> string \<Rightarrow> bool" where
  "accepts setLanguageFunc a = snd (ParseLanguage a)"
| "accepts setFormatFunc a = snd (ParseFormat a)"
| "accepts setTableDialectFunc a = snd (ParseTableDialect a)"
| "accepts setGraphicsFunc a = (parseBool a \<noteq> None)"
| "accepts setTableColumnWidthMaxFunc a = (parseUint64 a \<noteq> None)"
| "accepts _ a = False"

fun argless :: "runFunc \<Rightarrow> bool" where
  "argless switchNextFormatFunc = True"
| "argless (getSetFormatFunc f) = validFormat f"
| "argless enableGraphicsFunc = True"
| "argless disableGraphicsFunc = True"
| "argless getShortcutsFunc = True"
| "argless setQuitFunc = True"
| "argless _ = False"

fun plainSafe :: "cmd \<Rightarrow> bool" where
  "plainSafe (noArgsCmdDecorator (baseCmd as f)) = argless f"
| "plainSafe (noArgsCmdDecorator (helpCmd msg)) = True"
| "plainSafe (argSetCmdDecorator texts (baseCmd as f)) = list_all (accepts f) texts"
| "plainSafe (argUnsignedCmdDecorator (baseCmd as f)) = (f = setTableColumnWidthMaxFunc)"
| "plainSafe (argBooleanCmdDecorator (baseCmd as f)) = (f = setGraphicsFunc)"
| "plainSafe _ = False"

fun safeCmd :: "string \<Rightarrow> cmd \<Rightarrow> bool" where
  "safeCmd key (combinedCmd m) = (case map_of m key of None \<Rightarrow> False | Some c \<Rightarrow> plainSafe c)"
| "safeCmd key c = plainSafe c"

lemma ParseFormat_valid: "ParseFormat a = (f, b) \<Longrightarrow> validFormat f"
  by (auto simp: ParseFormat_def Let_def validFormat_def format_defs split: if_splits)

lemma runBase_accepts:
  assumes "accepts f a" "args = [a]"
  shows "settled E con w (runBase E f args con w)"
proof (cases f)
  case setLanguageFunc
  obtain lg b where p: "ParseLanguage a = (lg, b)" by fastforce
  then have "b" using assms setLanguageFunc by simp
  then show ?thesis using assms p setLanguageFunc
    by (auto simp: settled_def withArg_def split: prod.splits option.splits)
next
  case setFormatFunc
  obtain g b where p: "ParseFormat a = (g, b)" by fastforce
  then show ?thesis using assms ParseFormat_valid [OF p] setFormatFunc
    by (auto simp: settled_def withArg_def)
next
  case setTableDialectFunc
  obtain d b where p: "ParseTableDialect a = (d, b)" by fastforce
  then show ?thesis using assms setTableDialectFunc by (auto simp: settled_def withArg_def)
qed (use assms in \<open>auto simp: settled_def withArg_def\<close>)

lemma runBase_argless: "argless f \<Longrightarrow> settled E con w (runBase E f [] con w)"
  by (cases f) (auto simp: settled_def validFormat_def format_defs)

lemma Run_plainSafe: "plainSafe c \<Longrightarrow> settled E con w (Run E c key args con w)"
proof (induction c rule: plainSafe.induct)
  case (1 as f)
  then show ?case by (auto simp: settled_def [of _ _ _ "(Inl _, _)"] runBase_argless)
next
  case (3 texts as f)
  show ?case
  proof (cases "length args \<noteq> 1 \<or> \<not> findText texts (args ! 0)")
    case True
    then show ?thesis by (auto simp: settled_def)
  next
    case False
    then obtain a where a: "args = [a]" "a \<in> set texts" by (cases args) (auto dest: findText_mem)
    then have "accepts f a" using 3 by (simp add: list_all_iff)
    with a False show ?thesis using runBase_accepts by simp
  qed
next
  case (4 as f)
  show ?case
  proof (cases "length args \<noteq> 1 \<or> parseUint64 (args ! 0) = None")
    case True
    then show ?thesis by (auto simp: settled_def)
  next
    case False
    then obtain a where a: "args = [a]" "accepts f a" using 4 by (cases args) auto
    with False show ?thesis using runBase_accepts by auto
  qed
next
  case (5 as f)
  show ?case
  proof (cases "length args \<noteq> 1 \<or> parseBool (args ! 0) = None")
    case True
    then show ?thesis by (auto simp: settled_def)
  next
    case False
    then obtain a where a: "args = [a]" "accepts f a" using 5 by (cases args) auto
    with False show ?thesis using runBase_accepts by auto
  qed
qed (auto simp: settled_def)

lemma Run_safe: "safeCmd key c \<Longrightarrow> settled E con w (Run E c key args con w)"
  using Run_plainSafe [of c E con w key args]
  by (cases c) (auto simp: Run_plainSafe simp del: Run.simps(3-) split: option.splits)

text \<open>The table of commands, whatever the text of the help is.\<close>

lemma newCmdExecutor_help: "\<exists>msg. newCmdExecutor = cmdsMap (noArgsCmdDecorator (helpCmd msg) # map ciCmd cmdInfos)"
  unfolding newCmdExecutor_def newHelpCmd_def Let_def by blast

lemma safe_help: "list_all (\<lambda>(key, c). safeCmd key c) (cmdsMap (noArgsCmdDecorator (helpCmd msg) # map ciCmd cmdInfos))"
  by code_simp

lemma newCmdExecutor_safe: "list_all (\<lambda>(key, c). safeCmd key c) newCmdExecutor"
  using newCmdExecutor_help safe_help by metis

lemma executor_lookup: "map_of newCmdExecutor key = Some c \<Longrightarrow> safeCmd key c"
  using newCmdExecutor_safe by (auto simp: list_all_iff dest: map_of_in)

text \<open>The dispatch takes the longest alias that the input begins with.\<close>

definition aliasAt :: "(string \<times> cmd) list \<Rightarrow> string list \<Rightarrow> nat \<Rightarrow> bool" where
  "aliasAt cmds tokens i \<longleftrightarrow> 0 < i \<and> i \<le> length tokens \<and> joinSep (CHR '' '') (take i tokens) \<in> fst ` set cmds"

lemma map_of_None_iff: "map_of m k = None \<longleftrightarrow> k \<notin> fst ` set m"
  by (rule map_of_eq_None_iff)

lemma longestAlias_cases:
  assumes "n \<le> length tokens"
  shows "case longestAlias cmds tokens n of
           None \<Rightarrow> \<forall>i \<le> n. \<not> aliasAt cmds tokens i
         | Some (key, c, i) \<Rightarrow> i \<le> n \<and> aliasAt cmds tokens i \<and> key = joinSep (CHR '' '') (take i tokens) \<and>
             map_of cmds key = Some c \<and> (\<forall>j. i < j \<and> j \<le> n \<longrightarrow> \<not> aliasAt cmds tokens j)"
  using assms
proof (induction n)
  case 0
  then show ?case by (simp add: aliasAt_def)
next
  case (Suc n)
  let ?key = "joinSep (CHR '' '') (take (Suc n) tokens)"
  show ?case
  proof (cases "map_of cmds ?key")
    case None
    then have no: "\<not> aliasAt cmds tokens (Suc n)" by (simp add: aliasAt_def map_of_None_iff)
    have step: "longestAlias cmds tokens (Suc n) = longestAlias cmds tokens n" using None by (simp add: Let_def)
    show ?thesis using Suc no unfolding step by (auto split: option.splits simp: le_Suc_eq)
  next
    case (Some c)
    then have "aliasAt cmds tokens (Suc n)" using Suc.prems by (auto simp: aliasAt_def dest!: map_of_in intro!: rev_image_eqI)
    with Some show ?thesis by (auto simp: Let_def)
  qed
qed

lemma Execute_cases:
  "case Execute E newCmdExecutor inp con w of
     None \<Rightarrow> \<forall>i. \<not> aliasAt newCmdExecutor (inputTokens inp) i
   | Some res \<Rightarrow>
       settled E con w res \<and>
       (\<exists>i c. aliasAt newCmdExecutor (inputTokens inp) i \<and> \<not> (\<exists>j. i < j \<and> aliasAt newCmdExecutor (inputTokens inp) j) \<and>
          map_of newCmdExecutor (joinSep (CHR '' '') (take i (inputTokens inp))) = Some c \<and>
          res = Run E c (joinSep (CHR '' '') (take i (inputTokens inp))) (drop i (map toLower (inputTokens inp))) con w)"
proof -
  let ?t = "inputTokens inp"
  have beyond: "\<not> aliasAt newCmdExecutor ?t j" if "length ?t < j" for j using that by (simp add: aliasAt_def)
  show ?thesis
  proof (cases "longestAlias newCmdExecutor ?t (length ?t)")
    case None
    then have "\<forall>i \<le> length ?t. \<not> aliasAt newCmdExecutor ?t i"
      using longestAlias_cases [of "length ?t" ?t newCmdExecutor] by simp
    then have "\<forall>i. \<not> aliasAt newCmdExecutor ?t i" using beyond by (metis not_le)
    with None show ?thesis by (simp add: Execute_def Let_def)
  next
    case (Some r)
    obtain key c i where r: "r = (key, c, i)" by (cases r)
    have f: "aliasAt newCmdExecutor ?t i" "key = joinSep (CHR '' '') (take i ?t)" "map_of newCmdExecutor key = Some c"
        "\<forall>j. i < j \<and> j \<le> length ?t \<longrightarrow> \<not> aliasAt newCmdExecutor ?t j"
      using longestAlias_cases [of "length ?t" ?t newCmdExecutor] Some r by auto
    have "\<forall>j > i. \<not> aliasAt newCmdExecutor ?t j" using f(4) beyond by (metis not_le)
    moreover have "Execute E newCmdExecutor inp con w = Some (Run E c key (drop i (map toLower ?t)) con w)"
      using Some r by (simp add: Execute_def Let_def)
    ultimately show ?thesis using f Run_safe [OF executor_lookup [OF f(3)]] by auto
  qed
qed

lemma Execute_settled: "Execute E newCmdExecutor inp con w = Some res \<Longrightarrow> settled E con w res"
  using Execute_cases [where E = E and inp = inp and con = con and w = w] by (simp only: option.case)

text \<open>
  Property C32: an input is a command exactly if it begins, token by token, with an alias, and the
  longest such alias is the command. Its error is one of the user's arguments or of the change of the
  language on the instance, never an internal one, and leaves the console as it was. Without an error
  the statement and the history stay, the output format stays a known one, and the language changes only
  when the instance has confirmed it.
\<close>

theorem Execute_command:
  "case Execute E newCmdExecutor inp con w of
     None \<Rightarrow> \<forall>i. \<not> aliasAt newCmdExecutor (inputTokens inp) i
   | Some res \<Rightarrow>
       settled E con w res \<and>
       (\<exists>i c. aliasAt newCmdExecutor (inputTokens inp) i \<and> \<not> (\<exists>j. i < j \<and> aliasAt newCmdExecutor (inputTokens inp) j) \<and>
          map_of newCmdExecutor (joinSep (CHR '' '') (take i (inputTokens inp))) = Some c \<and>
          res = Run E c (joinSep (CHR '' '') (take i (inputTokens inp))) (drop i (map toLower (inputTokens inp))) con w)"
  by (rule Execute_cases)

section \<open>A console over its life\<close>

lemma historyContent_ok: "length ts = length cs \<Longrightarrow> historyContent cs ts \<noteq> None"
  by (induction cs ts rule: historyContent.induct) auto

text \<open>Every command of the history has its timestamp.\<close>

definition stamped :: "console \<Rightarrow> bool" where
  "stamped con \<longleftrightarrow> (\<forall>h. coHistory con = Some h \<longrightarrow> length (hTimestamps h) = length (hCommands h))"

lemma stamped_cong: "coHistory a = coHistory b \<Longrightarrow> stamped a = stamped b"
  by (simp add: stamped_def)

definition wfConsole :: "'w consoleEnv \<Rightarrow> console \<Rightarrow> bool" where
  "wfConsole E con \<longleftrightarrow>
     validFormat (coFormat con) \<and>
     stamped con \<and>
     (coInput con \<noteq> [] \<longrightarrow> \<not> validate E (coLanguage con) (coInput con))"

definition tablePanic :: "consoleOutcome \<Rightarrow> bool" where
  "tablePanic r \<longleftrightarrow> (\<forall>p. r = Panicked p \<longrightarrow> p = OutputPanic TableIndexPanic \<or> p = OutputPanic FloatPanic)"

lemma collectNodes_err: "collectNodes ls m ns = Inl e \<Longrightarrow> \<exists>t. e = NotYamlAny t"
  by (induction ls m ns rule: collectNodes.induct) (auto split: sum.splits if_splits)

lemma makeTableOutput_err:
  assumes "makeTableOutput E inp tr opts = Inl e" "fmtPanics e"
  shows "e = TableIndexPanic \<or> e = FloatPanic"
proof -
  consider t where "e = NotYamlArray t" | ls where "collectNodes ls noRows [] = Inl e"
    | ns where "renderBatches E (batchesBy isNodeTypeEqual ns) tr opts = Inl e"
    using assms(1) by (auto simp: makeTableOutput_def Let_def split: sum.splits if_splits)
  then show ?thesis
  proof cases
    case 1
    with assms(2) show ?thesis by simp
  next
    case 2
    with collectNodes_err assms(2) show ?thesis by force
  next
    case 3
    have "\<forall>b \<in> set (batchesBy isNodeTypeEqual ns). batchOutcome E b (renderBatch E b tr opts)"
      using renderBatch_outcome by blast
    from renderBatches_outcome [OF this] 3 have "e = TableIndexPanic \<or> (\<exists>v e'. encodeCell E v = Inl e' \<and> e = wrapTables e')"
      by (auto simp: failing_def)
    then show ?thesis using assms(2) by (auto simp: encodeCell_Inl)
  qed
qed

lemma MakeOutput_err:
  assumes "MakeOutput E f dat opts = Inl e" "fmtPanics e" "validFormat f"
  shows "e = TableIndexPanic \<or> e = FloatPanic"
proof -
  have "makeLuaOutput E dat \<noteq> Inl e" using assms(2) by (auto simp: makeLuaOutput_def split: sum.splits)
  moreover have "f \<in> {YamlFormat, LuaFormat, TableFormat, TTableFormat}"
    using assms(3) by (auto simp: validFormat_def format_defs)
  ultimately show ?thesis using assms(1,2) makeTableOutput_err by (auto simp: MakeOutput_def split: if_splits)
qed

lemma remember_ok:
  assumes "remember E st con w = (ok, con', w')" "stamped con"
  shows "ok \<and> coFormat con' = coFormat con \<and> coInput con' = coInput con \<and> stamped con'"
proof (cases "coHistory con")
  case None
  then show ?thesis using assms by (auto simp: remember_def)
next
  case (Some h)
  let ?h = "appendCommand (ceNow E w) st h"
  have l: "length (hTimestamps ?h) = length (hCommands ?h)" using assms(2) Some by (auto simp: appendCommand_def Let_def stamped_def)
  then have "fst (writeToFile (ceFiles E) ?h w) \<noteq> Some IndexPanic"
    using historyContent_ok by (auto simp: writeToFile_def split: option.splits prod.splits)
  then show ?thesis using assms(1) Some l by (auto simp: remember_def Let_def stamped_def split: prod.splits)
qed

lemma evaluate_ok:
  assumes "evaluate E con w = (r, out, con', w')" "validFormat (coFormat con)"
    and "stamped con"
  shows "tablePanic r \<and> (r = GoesOn \<longrightarrow> wfConsole E con')"
proof -
  obtain a w1 where a: "ceEvalTexts E w [VStr (coInput con), VBool (coLanguage con = SQLLanguage),
      VBool (coFormat con = TableFormat \<or> coFormat con = TTableFormat)] = (a, w1)" by fastforce
  show ?thesis
  proof (cases a)
    case (Inl e)
    then show ?thesis using assms(1) a by (cases e) (auto simp: evaluate_def Let_def tablePanic_def)
  next
    case (Inr ts)
    show ?thesis
    proof (cases ts)
      case Nil
      then show ?thesis using assms(1) a Inr by (auto simp: evaluate_def Let_def tablePanic_def)
    next
      case (Cons t us)
      let ?out = "MakeOutput (ceFmt E) (coFormat con) t (coFormatOpts con)"
      from assms(1) a Inr Cons have "(\<exists>e. ?out = Inl e \<and> fmtPanics e \<and> r = Panicked (OutputPanic e)) \<or>
          (r = GoesOn \<and> con' = con\<lparr>coInput := [], coLivePrefixEnabled := False\<rparr>)"
        by (auto simp: evaluate_def Let_def split: sum.splits if_splits)
      then show ?thesis
      proof
        assume "\<exists>e. ?out = Inl e \<and> fmtPanics e \<and> r = Panicked (OutputPanic e)"
        then obtain e where "?out = Inl e" "fmtPanics e" "r = Panicked (OutputPanic e)" by blast
        moreover from MakeOutput_err [OF this(1,2) assms(2)] have "e = TableIndexPanic \<or> e = FloatPanic" .
        ultimately show ?thesis by (simp add: tablePanic_def)
      qed (use assms(2,3) in \<open>simp add: tablePanic_def wfConsole_def stamped_def\<close>)
    qed
  qed
qed

lemma statementInput_ok:
  assumes "statementInput E inp con w = (r, out, con', w')" "wfConsole E con"
  shows "tablePanic r \<and> (r = GoesOn \<longrightarrow> wfConsole E con')"
proof -
  obtain st fin where p: "AddStmtPart (coInput con) inp (validate E (coLanguage con)) = (st, fin)" by fastforce
  have d: "fin = validate E (coLanguage con) st" using p by (auto simp: AddStmtPart_def Let_def)
  show ?thesis
  proof (cases "fin")
    case False
    then show ?thesis using assms p d by (auto simp: statementInput_def wfConsole_def tablePanic_def stamped_def)
  next
    case True
    obtain ok c2 w2 where m: "remember E (trimSpace st) (con\<lparr>coInput := st\<rparr>) w = (ok, c2, w2)" by (metis prod_cases3)
    have "stamped (con\<lparr>coInput := st\<rparr>)" using assms(2) by (simp add: wfConsole_def stamped_def)
    from remember_ok [OF m this] have "ok" "coFormat c2 = coFormat con" "stamped c2" by auto
    moreover have "evaluate E c2 w2 = (r, out, con', w')"
      using assms(1) p True m \<open>ok\<close> by (simp add: statementInput_def)
    ultimately show ?thesis using evaluate_ok [of E c2 w2 r out con' w'] assms(2) by (simp add: wfConsole_def)
  qed
qed

lemma executor_ok:
  assumes "executor E inp con w = (r, out, con', w')" "wfConsole E con"
  shows "tablePanic r \<and> (r = GoesOn \<longrightarrow> wfConsole E con')"
proof (cases "coInput con = [] \<and> Execute E newCmdExecutor inp con w \<noteq> None")
  case False
  then have "executor E inp con w = statementInput E inp con w"
    by (cases "Execute E newCmdExecutor inp con w") (auto simp: executor_def)
  then show ?thesis using statementInput_ok assms by metis
next
  case True
  then obtain res c2 w2 where e: "Execute E newCmdExecutor inp con w = Some (res, c2, w2)" by (metis option.exhaust prod_cases3)
  then have s: "settled E con w (res, c2, w2)" by (rule Execute_settled)
  have "\<not> cmdPanics err" if "userErr err" for err using that by (cases err) auto
  then show ?thesis using s assms e True stamped_cong [of c2 con]
    by (cases res) (auto simp: executor_def settled_def tablePanic_def wfConsole_def split: if_splits)
qed

lemma runPiped_ok:
  "wfConsole E con \<Longrightarrow> runPiped E ls con w = (r, out, con', w') \<Longrightarrow> tablePanic r \<and> (r = GoesOn \<longrightarrow> wfConsole E con')"
proof (induction ls arbitrary: con w out)
  case (Cons l ls)
  obtain r1 o1 c1 w1 where e: "executor E l con w = (r1, o1, c1, w1)" by (metis prod_cases4)
  from executor_ok [OF e Cons.prems(1)] have s: "tablePanic r1" "r1 = GoesOn \<Longrightarrow> wfConsole E c1" by auto
  show ?case
  proof (cases "r1 = GoesOn")
    case True
    obtain o2 where "runPiped E ls c1 w1 = (r, o2, con', w')"
      using Cons.prems(2) e True by (auto split: prod.splits)
    with Cons.IH s(2) True show ?thesis by blast
  next
    case False
    then have "r1 = r" using Cons.prems(2) e by (cases r1) auto
    with s False show ?thesis by simp
  qed
qed (auto simp: tablePanic_def)

lemma NewConsole_wf:
  assumes "NewConsole E homeDir connect lg f address connectTarget title w = (Inr con, w')" "validFormat f"
  shows "wfConsole E con"
proof -
  let ?hist = "case newCommandHistory homeDir ''.tarantool_history'' 10000 of
                 Inl _ \<Rightarrow> None | Inr h \<Rightarrow> Some (snd (load (ceFiles E) (ceNow E w) w h))"
  have con: "coFormat con = f" "coInput con = []" "coHistory con = ?hist"
    using assms(1) by (auto simp: NewConsole_def Let_def setPrefix_def setTitle_def split: prod.splits option.splits if_splits)
  have "length (hTimestamps h) = length (hCommands h)" if "?hist = Some h" for h
  proof -
    from that obtain h0 where h0: "newCommandHistory homeDir ''.tarantool_history'' 10000 = Inr h0"
        "h = snd (load (ceFiles E) (ceNow E w) w h0)" by (auto split: sum.splits)
    then have "length (hTimestamps h0) = length (hCommands h0)" by (auto simp: newCommandHistory_def split: sum.splits)
    then show ?thesis using h0(2) parseHistoryCells_lengths
      by (auto simp: load_def split: sum.splits prod.splits)
  qed
  then show ?thesis using con assms(2) by (simp add: wfConsole_def stamped_def)
qed

text \<open>
  Property C31: a console that was created with a known output format takes any sequence of lines
  without a panic, but for the rendering of a table: no command is missing or reads an argument that
  is not there, no command of the history lacks its timestamp, and the output format is always a known
  one, whatever the commands set and whatever the history file held. As long as the console goes on,
  a statement is pending only if it is not complete.
\<close>

theorem console_safe:
  assumes "NewConsole E homeDir connect lg f address connectTarget title w0 = (Inr con, w)" "validFormat f"
    and "runPiped E ls con w = (r, out, con', w')"
  shows "(\<forall>p. r = Panicked p \<longrightarrow> p = OutputPanic TableIndexPanic \<or> p = OutputPanic FloatPanic) \<and>
         (r = GoesOn \<longrightarrow> validFormat (coFormat con') \<and>
            (coInput con' \<noteq> [] \<longrightarrow> \<not> validate E (coLanguage con') (coInput con')))"
  using runPiped_ok [OF NewConsole_wf [OF assms(1,2)] assms(3)] by (auto simp: tablePanic_def wfConsole_def)

text \<open>An instance that answers every statement with an empty result, and accepts every language.\<close>

definition demoFmt :: fmtOps where
  "demoFmt = \<lparr>foSprint = sampleOps, foFloat = (\<lambda>w. []), foJson = (\<lambda>v. Inr []), foDecode = (\<lambda>s. Inr []),
     foLazy = (\<lambda>s. Inr []), foInsertEveryN = (\<lambda>s c n. s), foRender = (\<lambda>g c rows. []), foRenderMarkdown = (\<lambda>g c rows. [])\<rparr>"

definition demoConsole :: "(string \<rightharpoonup> string) consoleEnv" where
  "demoConsole = \<lparr>ceEval = (\<lambda>w args. (Inr [VStr ''- true''], w)), ceEvalTexts = (\<lambda>w args. (Inr [''---''], w)),
     ceUnyaml = (\<lambda>s. Inr (VList [VBool True])), ceLoadString = (\<lambda>s. None), ceNow = (\<lambda>w. 7),
     ceFiles = memFiles, ceFmt = demoFmt\<rparr>"

definition demoNew :: "(consoleErr + console) \<times> (string \<rightharpoonup> string)" where
  "demoNew = NewConsole demoConsole (Inr ''/home'') (\<lambda>w. (None, w)) SQLLanguage YamlFormat ''host:3301'' [] [] Map.empty"

definition demoLines :: "string list" where
  "demoLines = [backslash ''x'', backslash ''x'']"

lemma demo_tokens: "inputTokens (backslash ''x'') = [backslash ''x'']"
  by code_simp

lemma demo_lookup_help:
  "map_of (cmdsMap (noArgsCmdDecorator (helpCmd msg) # map ciCmd cmdInfos)) (backslash ''x'') =
     Some (noArgsCmdDecorator (baseCmd [backslash ''x''] switchNextFormatFunc))"
  by code_simp

lemma demo_lookup: "map_of newCmdExecutor (backslash ''x'') = Some (noArgsCmdDecorator (baseCmd [backslash ''x''] switchNextFormatFunc))"
  using newCmdExecutor_help demo_lookup_help by metis

lemma demo_Execute:
  "Execute demoConsole newCmdExecutor (backslash ''x'') con w = Some (Inr [], con\<lparr>coFormat := (1 + coFormat con) mod FormatsAmount\<rparr>, w)"
  by (simp add: Execute_def demo_tokens demo_lookup Let_def)

lemma demo_fields: "demoNew = (Inr con, w) \<Longrightarrow> coInput con = [] \<and> \<not> coQuit con"
  by (auto simp: demoNew_def NewConsole_def Let_def newCommandHistory_def demoConsole_def ChangeLanguage_def setPrefix_def setTitle_def)

lemma demoNew_ok: "case demoNew of (Inr con, w) \<Rightarrow> True | _ \<Rightarrow> False"
  by code_simp

lemma demo_goes_on:
  "coInput con = [] \<Longrightarrow> \<not> coQuit con \<Longrightarrow> \<exists>out con' w'. runPiped demoConsole demoLines con w = (GoesOn, out, con', w')"
  by (simp add: demoLines_def executor_def demo_Execute)

theorem console_safe_witness:
  "\<exists>con w out con' w'. demoNew = (Inr con, w) \<and>
     runPiped demoConsole demoLines con w = (GoesOn, out, con', w') \<and> validFormat (coFormat con')"
proof -
  have v: "validFormat YamlFormat" by (simp add: validFormat_def format_defs)
  obtain con w where c: "demoNew = (Inr con, w)"
    using demoNew_ok by (auto split: prod.splits sum.splits)
  then obtain out con' w' where r: "runPiped demoConsole demoLines con w = (GoesOn, out, con', w')"
    using demo_goes_on demo_fields by metis
  with c console_safe [OF c [unfolded demoNew_def] v r] show ?thesis by blast
qed

end
