(* ===== verification/Tail.thy ===== *)
theory Tail
  imports History
begin

text \<open>
  The reader of the last lines of a log (\<^verbatim>\<open>newTailReader\<close> of \<^verbatim>\<open>src/cli/tail/tail.go\<close>), for
  \<^verbatim>\<open>tt log\<close>: blocks of the file are read from its end, and newlines counted until there are as many
  as lines were asked for. The reader and the context that may cancel the search are parameters. The
  theorem: the result begins at a line and has at least the lines asked for; exactly these, unless a
  newline stands at the first byte of a block, which the search passes over.
\<close>

section \<open>The search\<close>

text \<open>Seeking to the end gives the size; a read at an offset returns the bytes or an error other than the end of the file.\<close>

record readSeeker =
  rsEnd :: "string + int"
  rsSeek :: "int \<Rightarrow> string option"
  rsRead :: "int \<Rightarrow> nat \<Rightarrow> string + string"

datatype tailErr = TailSeek string | TailRead string | Cancelled string

definition blockSize :: int where
  "blockSize = 8192"

text \<open>The inner loop, from the index \<open>i\<close> down to 1; it stops when enough lines are found.\<close>

fun scanTail :: "int \<Rightarrow> int \<Rightarrow> string \<Rightarrow> nat \<Rightarrow> int \<Rightarrow> int \<Rightarrow> int \<times> int" where
  "scanTail cnt readOffset buf 0 startPos linesFound = (startPos, linesFound)"
| "scanTail cnt readOffset buf (Suc j) startPos linesFound =
     (if buf ! Suc j = newline
      then let pos = readOffset + int (Suc j);
               startPos = (if startPos - pos = 1 then pos else pos + 1)
           in if linesFound + 1 = cnt then (startPos, linesFound + 1)
              else scanTail cnt readOffset buf j startPos (linesFound + 1)
      else scanTail cnt readOffset buf j startPos linesFound)"

text \<open>The outer loop; \<open>n\<close> counts its rounds, in each of which the context is asked.\<close>

function tailLoop :: "readSeeker \<Rightarrow> (nat \<Rightarrow> string option) \<Rightarrow> int \<Rightarrow> nat \<Rightarrow> int \<Rightarrow> int \<Rightarrow> int \<Rightarrow> tailErr + int \<times> int" where
  "tailLoop R ctx cnt n readOffset startPos linesFound =
     (if readOffset \<noteq> 0 \<and> linesFound \<noteq> cnt
      then (case ctx n of
              Some e \<Rightarrow> Inl (Cancelled e)
            | None \<Rightarrow>
                let below = readOffset - blockSize;
                    limit = (if below < 0 then blockSize + below else blockSize);
                    offset = (if below < 0 then 0 else below)
                in case rsSeek R offset of
                     Some e \<Rightarrow> Inl (TailSeek e)
                   | None \<Rightarrow>
                       (case (if limit \<le> 0 then Inr [] else rsRead R offset (nat limit)) of
                          Inl e \<Rightarrow> Inl (TailRead e)
                        | Inr buf \<Rightarrow>
                            (case scanTail cnt offset buf (length buf - 1) startPos linesFound of
                               (sp, found) \<Rightarrow> tailLoop R ctx cnt (n + 1) offset sp found)))
      else Inr (startPos, linesFound))"
  by pat_completeness auto

termination
  by (relation "measure (\<lambda>(R, ctx, cnt, n, readOffset, sp, found). if readOffset < 0 then 1 else nat readOffset)")
     (auto simp: blockSize_def)

declare tailLoop.simps [simp del]

text \<open>The reader that is returned: the offset it begins at, the number of bytes it yields; and the start position.\<close>

definition newTailReader :: "readSeeker \<Rightarrow> (nat \<Rightarrow> string option) \<Rightarrow> int \<Rightarrow> tailErr + (int \<times> int) \<times> int" where
  "newTailReader R ctx cnt =
     (case rsEnd R of
        Inl e \<Rightarrow> Inl (TailSeek e)
      | Inr end_ \<Rightarrow>
          if cnt \<le> 0 then Inr ((end_, 0), end_)
          else (case tailLoop R ctx cnt 0 (end_ - 1) end_ 0 of
                  Inl e \<Rightarrow> Inl e
                | Inr (startPos, linesFound) \<Rightarrow>
                    if linesFound = cnt then Inr ((startPos, end_ - startPos), startPos) else Inr ((0, end_), 0)))"

datatype tailNErr = NegativeCount | OpenLog string | TailFailed tailErr

text \<open>
  \<^verbatim>\<open>TailN\<close>: the lines of the text that the reader yields, each through the formatter, in the order
  in which they are sent to the channel. The file is opened and read as a parameter.
\<close>

definition TailN :: "string + readSeeker \<Rightarrow> (int \<times> int \<Rightarrow> string) \<Rightarrow> (nat \<Rightarrow> string option) \<Rightarrow> (string \<Rightarrow> string) \<Rightarrow> int \<Rightarrow> tailNErr + string list" where
  "TailN opened contents ctx logFormatter n =
     (if n < 0 then Inl NegativeCount
      else case opened of
             Inl e \<Rightarrow> Inl (OpenLog e)
           | Inr R \<Rightarrow>
               (case newTailReader R ctx n of
                  Inl e \<Rightarrow> Inl (TailFailed e)
                | Inr (rd, _) \<Rightarrow> Inr (map logFormatter (scanLines (contents rd)))))"

definition NewLogFormatter :: "(string \<Rightarrow> string) \<Rightarrow> string \<Rightarrow> string \<Rightarrow> string" where
  "NewLogFormatter color label str = color label @ str"

section \<open>What the search counts\<close>

text \<open>What is relied on of the reader of a text \<open>c\<close>.\<close>

definition readsText :: "readSeeker \<Rightarrow> string \<Rightarrow> bool" where
  "readsText R c \<longleftrightarrow>
     rsEnd R = Inr (int (length c)) \<and> (\<forall>p \<ge> 0. rsSeek R p = None) \<and>
     (\<forall>p n. 0 \<le> p \<and> 0 < n \<longrightarrow> rsRead R p n = Inr (take n (drop (nat p) c)))"

text \<open>The positions at which the search passes over a newline: the first bytes of its blocks.\<close>

definition passedOver :: "string \<Rightarrow> nat \<Rightarrow> bool" where
  "passedOver c p \<longleftrightarrow> p = 0 \<or> (\<exists>k > 0. p + k * 8192 = length c - 1)"

lemma scanTail_count:
  assumes "i < length b \<or> i = 0" "k < N" "sp > ro + int i + 1"
  shows "case scanTail N ro b i sp k of (sp', k') \<Rightarrow>
           (k' = k + int (newlines (drop 1 (take (Suc i) b))) \<and> k' < N \<and> sp' > ro + 1) \<or>
           (\<exists>j. 1 \<le> j \<and> j \<le> i \<and> b ! j = newline \<and> sp' = ro + int j + 1 \<and> k' = N \<and>
              N = k + int (newlines (drop j (take (Suc i) b))))"
  using assms
proof (induction i arbitrary: k sp)
  case 0
  then show ?case by (cases b) auto
next
  case (Suc j)
  have j: "Suc j < length b" using Suc.prems by simp
  have tk: "take (Suc (Suc j)) b = take (Suc j) b @ [b ! Suc j]" using j by (simp add: take_Suc_conv_app_nth)
  have one: "drop (Suc j) (take (Suc (Suc j)) b) = [b ! Suc j]" using j by (simp add: tk)
  show ?case
  proof (cases "b ! Suc j = newline")
    case nl: True
    show ?thesis
    proof (cases "k + 1 = N")
      case True
      then show ?thesis using nl Suc.prems(3) one by (auto simp: Let_def intro!: exI [of _ "Suc j"])
    next
      case False
      with Suc.IH [of "k + 1" "ro + int (Suc j) + 1"] Suc.prems j nl show ?thesis
        by (force simp: Let_def tk split: prod.splits)
    qed
  next
    case False
    with Suc.IH [of k sp] Suc.prems j show ?thesis by (force simp: tk split: prod.splits)
  qed
qed

lemma length_rawLines_butlast: "c \<noteq> [] \<Longrightarrow> length (rawLines c) = Suc (newlines (butlast c))"
  by (cases c rule: rev_cases) (auto simp: length_rawLines openLine_def)

text \<open>No newline that counts stands where the search passes over it.\<close>

definition plainBlocks :: "string \<Rightarrow> bool" where
  "plainBlocks c \<longleftrightarrow> (\<forall>p. p + 1 < length c \<and> passedOver c p \<longrightarrow> c ! p \<noteq> newline)"

lemma tailLoop_step:
  assumes "readsText R c" "ctx n = None" "0 < q" "q < length c" "k \<noteq> N"
  shows "tailLoop R ctx N n (int q) sp k =
           (case scanTail N (int (q - 8192)) (take (q - (q - 8192)) (drop (q - 8192) c)) (q - (q - 8192) - 1) sp k of
              (sp', k') \<Rightarrow> tailLoop R ctx N (n + 1) (int (q - 8192)) sp' k')"
proof -
  have off: "(if int q - blockSize < 0 then 0 else int q - blockSize) = int (q - 8192)"
    by (auto simp: blockSize_def of_nat_diff)
  have lim: "(if int q - blockSize < 0 then blockSize + (int q - blockSize) else blockSize) = int (q - (q - 8192))"
    by (auto simp: blockSize_def of_nat_diff)
  have pos: "\<not> int (q - (q - 8192)) \<le> 0" using assms(3) by auto
  have len: "length (take (q - (q - 8192)) (drop (q - 8192) c)) = q - (q - 8192)" using assms(4) by simp
  have read: "rsRead R (int x) m = Inr (take m (drop x c))" if "0 < m" for m x
    using assms(1) that by (simp add: readsText_def)
  have rd: "rsSeek R (int (q - 8192)) = None"
      "rsRead R (int (q - 8192)) (nat (int (q - (q - 8192)))) = Inr (take (q - (q - 8192)) (drop (q - 8192) c))"
    using assms(1) read [of "q - (q - 8192)" "q - 8192"] assms(3) by (simp add: readsText_def, simp only: nat_int)
  show ?thesis
    by (subst tailLoop.simps) (simp only: assms(2,5) off lim rd pos len Let_def if_True if_False option.case sum.case
        of_nat_eq_0_iff assms(3) [THEN less_imp_neq, symmetric] not_False_eq_True simp_thms)
qed

lemma newlines_block:
  assumes "r \<le> q" "q \<le> length d" "j \<le> q - r"
  shows "newlines (drop (r + j) d) = newlines (drop j (take (q - r) (drop r d))) + newlines (drop q d)"
proof -
  let ?a = "drop r d"
  have "length (take (q - r) ?a) = q - r" using assms by simp
  then have "drop j (take (q - r) ?a @ e) = drop j (take (q - r) ?a) @ e" for e using assms(3) by simp
  from this [of "drop (q - r) ?a"] have "drop j ?a = drop j (take (q - r) ?a) @ drop (q - r) ?a"
    unfolding append_take_drop_id .
  moreover have "drop (q - r) ?a = drop q d" using assms(1) by simp
  ultimately have "newlines (drop j ?a) = newlines (drop j (take (q - r) ?a)) + newlines (drop q d)" by (metis newlines_simps(3))
  then show ?thesis by (simp add: add.commute)
qed

lemma passedOver_block:
  assumes "q = 0 \<or> (\<exists>m. q + m * 8192 = length c - 1)"
  shows "passedOver c (q - 8192) \<and> (q - 8192 = 0 \<or> (\<exists>m. q - 8192 + m * 8192 = length c - 1))"
proof (cases "q \<le> 8192")
  case False
  with assms obtain m where "q + m * 8192 = length c - 1" by auto
  with False have "q - 8192 + Suc m * 8192 = length c - 1" by simp
  then show ?thesis unfolding passedOver_def by (metis zero_less_Suc)
qed (simp add: passedOver_def)

text \<open>
  What the search found, in the text \<open>d\<close> without its last byte: at most the newlines from a position
  on, and all of them when none is passed over.
\<close>

definition tailFound :: "string \<Rightarrow> int \<Rightarrow> int \<times> int \<Rightarrow> bool" where
  "tailFound c N r =
     (case r of (sp, k) \<Rightarrow>
        (k < N \<and> (plainBlocks c \<longrightarrow> k = int (newlines (butlast c)))) \<or>
        (k = N \<and> (\<exists>p. sp = int p + 1 \<and> p + 1 < length c \<and> c ! p = newline \<and>
           N \<le> int (newlines (drop p (butlast c))) \<and> (plainBlocks c \<longrightarrow> N = int (newlines (drop p (butlast c)))))))"

lemma tailLoop_found:
  assumes "readsText R c" "\<forall>n. ctx n = None" "c \<noteq> []"
    and "q < length c" "int q < sp" "k < N" "k \<le> int (newlines (drop q (butlast c)))"
    and "plainBlocks c \<longrightarrow> k = int (newlines (drop q (butlast c)))" "q = 0 \<or> (\<exists>m. q + m * 8192 = length c - 1)"
  shows "\<exists>r. tailLoop R ctx N n (int q) sp k = Inr r \<and> tailFound c N r"
  using assms(4-)
proof (induction q arbitrary: sp k n rule: less_induct)
  case (less q)
  let ?d = "butlast c" and ?o = "q - 8192"
  show ?case
  proof (cases "q = 0")
    case True
    then show ?thesis using less.prems by (auto simp: tailLoop.simps [of R ctx N n] tailFound_def)
  next
    case False
    define b where "b = take (q - ?o) (drop ?o ?d)"
    have "c = ?d @ [last c]" using assms(3) by simp
    have qd: "q \<le> length ?d" using less.prems(1) by simp
    have bc: "take (q - ?o) (drop ?o c) = b"
      using qd less.prems(1) by (subst \<open>c = ?d @ [last c]\<close>) (simp add: b_def)
    have lb: "length b = q - ?o" "0 < length b" using qd False by (auto simp: b_def)
    have nb: "newlines (drop (?o + j) ?d) = newlines (drop j b) + newlines (drop q ?d)" if "j \<le> length b" for j
      unfolding b_def by (rule newlines_block) (use qd that lb in auto)
    have po: "passedOver c ?o" "?o = 0 \<or> (\<exists>m. ?o + m * 8192 = length c - 1)"
      using passedOver_block [of q c] less.prems(6) by auto
    have b0: "b ! 0 = c ! ?o" using lb qd by (simp add: b_def nth_butlast)
    have fst: "newlines b = newlines (drop 1 b) + (if b ! 0 = newline then 1 else 0)" using lb(2) by (cases b) auto
    have plain: "plainBlocks c \<Longrightarrow> newlines b = newlines (drop 1 b)"
      using po(1) b0 fst less.prems(1) False by (simp add: plainBlocks_def)
    obtain sp' k' where s: "scanTail N (int ?o) b (q - ?o - 1) sp k = (sp', k')" by fastforce
    have "q - ?o - 1 < length b" "Suc (q - ?o - 1) = length b" using lb by auto
    with scanTail_count [of "q - ?o - 1" b k N "int ?o" sp] s less.prems(2,3) lb
    have cases: "(k' = k + int (newlines (drop 1 b)) \<and> k' < N \<and> sp' > int ?o + 1) \<or>
        (\<exists>j. 1 \<le> j \<and> j \<le> q - ?o - 1 \<and> b ! j = newline \<and> sp' = int ?o + int j + 1 \<and> k' = N \<and> N = k + int (newlines (drop j b)))"
      by auto
    have step: "tailLoop R ctx N n (int q) sp k = tailLoop R ctx N (n + 1) (int ?o) sp' k'"
      using tailLoop_step [OF assms(1), of ctx n q k N sp] assms(2) False less.prems(1,3) s bc by simp
    from cases show ?thesis
    proof
      assume 1: "k' = k + int (newlines (drop 1 b)) \<and> k' < N \<and> sp' > int ?o + 1"
      have "k' \<le> int (newlines (drop ?o ?d))" using 1 less.prems(4) nb [of 0] fst by simp
      moreover have "plainBlocks c \<longrightarrow> k' = int (newlines (drop ?o ?d))" using 1 less.prems(5) nb [of 0] plain by simp
      ultimately show ?thesis unfolding step using less.IH [of ?o sp' k' "n + 1"] 1 po(2) False less.prems(1) by simp
    next
      assume "\<exists>j. 1 \<le> j \<and> j \<le> q - ?o - 1 \<and> b ! j = newline \<and> sp' = int ?o + int j + 1 \<and> k' = N \<and> N = k + int (newlines (drop j b))"
      then obtain j where j0: "j \<le> q - ?o - 1" and j1: "b ! j = newline" "sp' = int ?o + int j + 1" "k' = N" "N = k + int (newlines (drop j b))"
        by blast
      have j: "j < length b" "b ! j = newline" "sp' = int (?o + j) + 1" "k' = N" "N = k + int (newlines (drop j b))"
        using j0 j1 lb by simp_all
      have p: "?o + j + 1 < length c" "c ! (?o + j) = newline"
        using j(1,2) lb qd less.prems(1) by (auto simp: b_def nth_butlast)
      have "tailFound c N (sp', k')"
        unfolding tailFound_def using j p nb [of j] less.prems(4,5) by (auto intro!: exI [of _ "?o + j"])
      moreover have "tailLoop R ctx N (n + 1) (int ?o) sp' k' = Inr (sp', k')" using j(4) by (simp add: tailLoop.simps)
      ultimately show ?thesis unfolding step by blast
    qed
  qed
qed

lemma newTailReader_empty:
  assumes "readsText R []" "\<forall>n. ctx n = None" "0 < N"
  shows "newTailReader R ctx (int N) = Inr ((0, 0), 0)"
proof -
  have "tailLoop R ctx (int N) 0 (- 1) 0 0 = Inr (0, 0)"
    using assms by (simp add: tailLoop.simps [of R ctx "int N" 0] tailLoop.simps [of R ctx "int N" "Suc 0"] blockSize_def readsText_def)
  with assms show ?thesis by (simp add: newTailReader_def readsText_def)
qed

text \<open>
  Property C36: the reader of the last lines of a text begins at the beginning of a line and yields
  the text from there to its end, with at least as many lines as were asked for, or all of a shorter
  text. These are exactly the lines asked for when no newline stands at the first byte of a block of
  the search, which are the first byte of the text and the bytes a multiple of 8192 before the last
  one. The search ends for every text, unless it is cancelled.
\<close>

theorem newTailReader_lines:
  assumes "readsText R c" "\<forall>n. ctx n = None" "0 < N"
  shows "\<exists>p. newTailReader R ctx (int N) = Inr ((int p, int (length c) - int p), int p) \<and> lineStart c p \<and>
             min N (length (rawLines c)) \<le> length (rawLines (drop p c)) \<and>
             (plainBlocks c \<longrightarrow> rawLines (drop p c) = drop (length (rawLines c) - N) (rawLines c))"
proof (cases "c = []")
  case True
  then show ?thesis using newTailReader_empty assms by (intro exI [of _ 0]) (auto simp: lineStart_def)
next
  case False
  have len: "int (length c) - 1 = int (length c - 1)" using False by (cases c) auto
  obtain sp k where r: "tailLoop R ctx (int N) 0 (int (length c - 1)) (int (length c)) 0 = Inr (sp, k)" "tailFound c (int N) (sp, k)"
    using tailLoop_found [OF assms(1,2) False, of "length c - 1" "int (length c)" 0 "int N" 0] False assms(3) by force
  have tot: "length (rawLines c) = Suc (newlines (butlast c))" by (rule length_rawLines_butlast [OF False])
  show ?thesis
  proof (cases "k = int N")
    case True
    with r(2) obtain p where p: "sp = int (p + 1)" "p + 1 < length c" "c ! p = newline"
        "N \<le> newlines (drop p (butlast c))" "plainBlocks c \<longrightarrow> N = newlines (drop p (butlast c))"
      by (auto simp: tailFound_def)
    have st: "lineStart c (p + 1)" using p(2,3) by (simp add: lineStart_def)
    have "drop p (butlast c) = newline # drop (p + 1) (butlast c)"
      using p(2,3) by (simp add: Cons_nth_drop_Suc [symmetric] nth_butlast)
    then have n: "length (rawLines (drop (p + 1) c)) = newlines (drop p (butlast c))"
      using p(2) length_rawLines_butlast [of "drop (p + 1) c"] by (simp add: butlast_drop)
    have "newTailReader R ctx (int N) = Inr ((int (p + 1), int (length c) - int (p + 1)), int (p + 1))"
      using r(1) True p(1) assms by (simp add: newTailReader_def readsText_def len)
    then show ?thesis using st n p(4,5) rawLines_drop [OF st] by (intro exI [of _ "p + 1"]) auto
  next
    case False
    with r(2) have "plainBlocks c \<longrightarrow> newlines (butlast c) < N" by (auto simp: tailFound_def)
    moreover have "newTailReader R ctx (int N) = Inr ((0, int (length c)), 0)"
      using r(1) False assms by (simp add: newTailReader_def readsText_def len)
    ultimately show ?thesis using tot by (intro exI [of _ 0]) (auto simp: lineStart_def)
  qed
qed

text \<open>The reader of a text in memory.\<close>

definition textReader :: "string \<Rightarrow> readSeeker" where
  "textReader c = \<lparr>rsEnd = Inr (int (length c)), rsSeek = (\<lambda>p. if p < 0 then Some ''negative'' else None),
     rsRead = (\<lambda>p n. Inr (take n (drop (nat p) c)))\<rparr>"

lemma textReader_reads: "readsText (textReader c) c"
  by (simp add: readsText_def textReader_def)

theorem newTailReader_lines_witness:
  "\<exists>p. newTailReader (textReader (''a'' @ [newline] @ ''b'' @ [newline] @ ''c'')) (\<lambda>n. None) 2 = Inr ((int p, 5 - int p), int p) \<and>
       rawLines (drop p (''a'' @ [newline] @ ''b'' @ [newline] @ ''c'')) = [''b'', ''c'']"
proof -
  let ?c = "''a'' @ [newline] @ ''b'' @ [newline] @ ''c''"
  have pl: "plainBlocks ?c" by (auto simp: plainBlocks_def passedOver_def newline_def)
  have l: "rawLines ?c = [''a'', ''b'', ''c'']" by (simp add: rawLines_def newline_def)
  from newTailReader_lines [OF textReader_reads, of "\<lambda>n. None" 2 ?c] pl l show ?thesis by auto
qed

text \<open>
  The condition cannot be dropped: a text that begins with an empty line has its last line at byte 1,
  and the reader for one line yields all of it.
\<close>

lemma tail_first_byte:
  "newTailReader (textReader ([newline] @ ''abc'' @ [newline])) (\<lambda>n. None) 1 = Inr ((0, 5), 0)"
  "rawLines ([newline] @ ''abc'' @ [newline]) = [[], ''abc'']"
  by code_simp+

end
