(* ===== verification/Failover.thy ===== *)
theory Failover
  imports ClusterCmd
begin

text \<open>
  The commands of the supervised failover (\<^verbatim>\<open>src/cli/cluster/cmd/failover.go\<close>): switching the
  master through a key of etcd, waiting for the result, and showing the state of a switch. The
  goroutine that watches the key runs beside the one that writes it, so waiting is a step relation over
  both, the supervisor that writes its answers to the key, and the deadline. The theorems: what is
  printed are the values written since the watch began, in their order and up to the first final one,
  how a wait can end, and that it ends after its deadline.
\<close>

section \<open>Requests\<close>

record switchCmd =
  swCommand :: string
  swNewMaster :: string
  swTimeout :: "64 word"

record switchCtx =
  scInstName :: string
  scUsername :: string
  scPassword :: string
  scWait :: bool
  scTimeout :: "64 word"

text \<open>Of an answer of the supervisor only its status is used.\<close>

record switchCmdResult =
  srStatus :: string

datatype switchErr =
    SwitchUrl cmderr
  | SwitchConnect derr
  | SwitchMarshal string
  | SwitchPut string
  | SwitchResult string
  | SwitchGet string
  | TaskNotFound string

definition failoverPath :: string where
  "failoverPath = ''/failover/command/''"

definition makeEtcdOpts :: "uriOpts \<Rightarrow> etcdOpts" where
  "makeEtcdOpts opts =
     \<lparr>Endpoints = [uEndpoint opts], Username = uUsername opts, Password = uPassword opts,
      KeyFile = uKeyFile opts, CertFile = uCertFile opts, CaPath = uCaPath opts, CaFile = uCaFile opts,
      SkipHostVerify = uSkipHostVerify opts, Timeout = uTimeout opts\<rparr>"

text \<open>
  The time to wait in nanoseconds, \<^verbatim>\<open>time.Duration(Timeout)*time.Second + cmdAdditionalWait\<close>: a
  product and a sum of signed integers of 64 bits.
\<close>

definition waitDuration :: "64 word \<Rightarrow> int" where
  "waitDuration t = sint (t * 1000000000 + 5000000000)"

text \<open>
  What is not under \<^verbatim>\<open>src/\<close>: connecting, a put and a get of one key with the state they leave, the
  YAML encoder and decoder, and the identifiers of tasks.
\<close>

record ('c, 's) switchSys =
  ssConnect :: "etcdOpts \<Rightarrow> derr + 'c"
  ssPut :: "'c \<Rightarrow> 's \<Rightarrow> string \<Rightarrow> string \<Rightarrow> string option \<times> 's"
  ssGet :: "'c \<Rightarrow> 's \<Rightarrow> string \<Rightarrow> string + string list"
  ssMarshal :: "switchCmd \<Rightarrow> string + string"
  ssUnmarshal :: "string \<Rightarrow> string + switchCmdResult"
  ssUuid :: string

text \<open>What a request does before it is sent: the connection, the key and the text, or an error.\<close>

definition switchRequest ::
  "('c, 's) switchSys \<Rightarrow> (string \<Rightarrow> 64 word option) \<Rightarrow> (64 word \<Rightarrow> int) \<Rightarrow> url \<Rightarrow> switchCtx \<Rightarrow> switchErr + 'c \<times> string \<times> string" where
  "switchRequest S pFloat seconds uri ctx =
     (case ParseUriOpts pFloat seconds uri of
        Inl e \<Rightarrow> Inl (SwitchUrl e)
      | Inr opts \<Rightarrow>
          (case ssConnect S (makeEtcdOpts opts) of
             Inl e \<Rightarrow> Inl (SwitchConnect e)
           | Inr c \<Rightarrow>
               (case ssMarshal S \<lparr>swCommand = ''switch'', swNewMaster = scInstName ctx, swTimeout = scTimeout ctx\<rparr> of
                  Inl e \<Rightarrow> Inl (SwitchMarshal e)
                | Inr req \<Rightarrow> Inr (c, uPrefix opts @ failoverPath @ ssUuid S, req))))"

text \<open>A switch that does not wait; the result is the identifier that is printed.\<close>

definition SwitchNoWait ::
  "('c, 's) switchSys \<Rightarrow> (string \<Rightarrow> 64 word option) \<Rightarrow> (64 word \<Rightarrow> int) \<Rightarrow> url \<Rightarrow> switchCtx \<Rightarrow> 's \<Rightarrow> (switchErr + string) \<times> 's" where
  "SwitchNoWait S pFloat seconds uri ctx s =
     (case switchRequest S pFloat seconds uri ctx of
        Inl e \<Rightarrow> (Inl e, s)
      | Inr (c, key, req) \<Rightarrow>
          (case ssPut S c s key req of (Some e, s') \<Rightarrow> (Inl (SwitchPut e), s') | (None, s') \<Rightarrow> (Inr (ssUuid S), s')))"

definition SwitchStatus ::
  "('c, 's) switchSys \<Rightarrow> (string \<Rightarrow> 64 word option) \<Rightarrow> (64 word \<Rightarrow> int) \<Rightarrow> url \<Rightarrow> string \<Rightarrow> 's \<Rightarrow> switchErr + string" where
  "SwitchStatus S pFloat seconds uri taskID s =
     (case ParseUriOpts pFloat seconds uri of
        Inl e \<Rightarrow> Inl (SwitchUrl e)
      | Inr opts \<Rightarrow>
          (case ssConnect S (makeEtcdOpts opts) of
             Inl e \<Rightarrow> Inl (SwitchConnect e)
           | Inr c \<Rightarrow>
               (case ssGet S c s (uPrefix opts @ failoverPath @ taskID) of
                  Inl e \<Rightarrow> Inl (SwitchGet e)
                | Inr kvs \<Rightarrow> if length kvs \<noteq> 1 then Inl (TaskNotFound taskID) else Inr (hd kvs))))"

section \<open>Waiting\<close>

text \<open>
  The state of a switch that waits: the values put to the key since the watch was registered and not
  read yet (on the channel of the watch or held by the goroutine), what was printed, whether the deadline
  has passed, whether the channel was closed, which may drop queued values, and where the function is. The ghost field \<open>wtSeen\<close>
  keeps all values put since the registration.
\<close>

datatype waitEnd = FinalStatus | DeadlineReached | ChannelClosed | WaitFailed switchErr

datatype waitPc = Sending | Reading | Ended waitEnd

record waitState =
  wtPc :: waitPc
  wtWatching :: bool
  wtQueue :: "string list"
  wtPrinted :: "string list"
  wtExpired :: bool
  wtClosed :: bool
  wtSeen :: "string list"

definition waitStart :: waitState where
  "waitStart = \<lparr>wtPc = Sending, wtWatching = False, wtQueue = [], wtPrinted = [], wtExpired = False, wtClosed = False, wtSeen = []\<rparr>"

text \<open>A value that is put to the key reaches the watch when it is registered and open.\<close>

definition putValue :: "string \<Rightarrow> waitState \<Rightarrow> waitState" where
  "putValue v w =
     (if wtWatching w \<and> \<not> wtClosed w then w\<lparr>wtQueue := wtQueue w @ [v], wtSeen := wtSeen w @ [v]\<rparr> else w)"

definition finalStatus :: "switchCmdResult \<Rightarrow> bool" where
  "finalStatus r \<longleftrightarrow> srStatus r = ''success'' \<or> srStatus r = ''failed''"

text \<open>The body of the loop over the channel.\<close>

definition readValue1 :: "(string \<Rightarrow> string + switchCmdResult) \<Rightarrow> string \<Rightarrow> waitState \<Rightarrow> waitState" where
  "readValue1 unyaml v w =
     (case unyaml v of
        Inl e \<Rightarrow> w\<lparr>wtPc := Ended (WaitFailed (SwitchResult e))\<rparr>
      | Inr r \<Rightarrow>
          (let w' = w\<lparr>wtPrinted := wtPrinted w @ [v]\<rparr>
           in if finalStatus r then w'\<lparr>wtPc := Ended FinalStatus\<rparr> else w'))"

inductive waitStep :: "(string \<Rightarrow> string + switchCmdResult) \<Rightarrow> string \<Rightarrow> waitState \<Rightarrow> waitState \<Rightarrow> bool"
  for unyaml :: "string \<Rightarrow> string + switchCmdResult" and req :: string where
  watch: "\<not> wtWatching w \<Longrightarrow> waitStep unyaml req w (w\<lparr>wtWatching := True, wtClosed := wtExpired w\<rparr>)"
| put_done: "wtPc w = Sending \<Longrightarrow> waitStep unyaml req w ((putValue req w)\<lparr>wtPc := Reading\<rparr>)"
| put_failed: "wtPc w = Sending \<Longrightarrow> waitStep unyaml req w (w\<lparr>wtPc := Ended (WaitFailed (SwitchPut e))\<rparr>)"
| supervisor: "waitStep unyaml req w (putValue v w)"
| expire: "\<not> wtExpired w \<Longrightarrow> waitStep unyaml req w (w\<lparr>wtExpired := True, wtClosed := wtWatching w \<or> wtClosed w\<rparr>)"
| dropped: "wtClosed w \<Longrightarrow> wtQueue w = q @ d \<Longrightarrow> waitStep unyaml req w (w\<lparr>wtQueue := q\<rparr>)"
| lost: "wtWatching w \<Longrightarrow> waitStep unyaml req w (w\<lparr>wtClosed := True\<rparr>)"
| receive: "wtPc w = Reading \<Longrightarrow> wtQueue w = v # q \<Longrightarrow> waitStep unyaml req w (readValue1 unyaml v (w\<lparr>wtQueue := q\<rparr>))"
| deadline: "wtPc w = Reading \<Longrightarrow> wtQueue w = [] \<Longrightarrow> wtClosed w \<Longrightarrow> wtExpired w \<Longrightarrow>
    waitStep unyaml req w (w\<lparr>wtPc := Ended DeadlineReached\<rparr>)"
| closed: "wtPc w = Reading \<Longrightarrow> wtQueue w = [] \<Longrightarrow> wtClosed w \<Longrightarrow> \<not> wtExpired w \<Longrightarrow>
    waitStep unyaml req w (w\<lparr>wtPc := Ended ChannelClosed\<rparr>)"

inductive waitReach :: "(string \<Rightarrow> string + switchCmdResult) \<Rightarrow> string \<Rightarrow> waitState \<Rightarrow> bool"
  for unyaml :: "string \<Rightarrow> string + switchCmdResult" and req :: string where
  start: "waitReach unyaml req waitStart"
| step: "waitReach unyaml req w \<Longrightarrow> waitStep unyaml req w w' \<Longrightarrow> waitReach unyaml req w'"

section \<open>What is printed\<close>

definition statusOf :: "(string \<Rightarrow> string + switchCmdResult) \<Rightarrow> string \<Rightarrow> bool" where
  "statusOf unyaml v \<longleftrightarrow> (\<exists>r. unyaml v = Inr r \<and> finalStatus r)"

text \<open>
  The invariant: the values seen are those printed, the one that could not be read, those still
  queued and those dropped when the channel was closed, in this order; only the last printed one is final, and exactly when the wait has ended with it.
\<close>

definition accounted :: "(string \<Rightarrow> string + switchCmdResult) \<Rightarrow> waitState \<Rightarrow> bool" where
  "accounted unyaml w \<longleftrightarrow>
     (\<exists>bad d. wtSeen w = wtPrinted w @ bad @ wtQueue w @ d \<and> (d = [] \<or> wtClosed w) \<and>
        (bad = [] \<or> (\<exists>v e. bad = [v] \<and> unyaml v = Inl e \<and> wtPc w = Ended (WaitFailed (SwitchResult e)))))"

definition waitInv :: "(string \<Rightarrow> string + switchCmdResult) \<Rightarrow> waitState \<Rightarrow> bool" where
  "waitInv unyaml w \<longleftrightarrow>
     accounted unyaml w \<and>
     (wtPc w = Sending \<longrightarrow> wtPrinted w = []) \<and>
     (if wtPc w = Ended FinalStatus
      then \<exists>vs v. wtPrinted w = vs @ [v] \<and> statusOf unyaml v \<and> list_all (\<lambda>u. \<not> statusOf unyaml u) vs
      else list_all (\<lambda>u. \<not> statusOf unyaml u) (wtPrinted w)) \<and>
     (wtPc w = Ended DeadlineReached \<longrightarrow> wtExpired w) \<and>
     (wtExpired w \<and> wtWatching w \<longrightarrow> wtClosed w) \<and>
     (\<not> wtWatching w \<longrightarrow> wtSeen w = [])"

lemma accountedI:
  "wtSeen w = wtPrinted w @ wtQueue w @ d \<Longrightarrow> d = [] \<or> wtClosed w \<Longrightarrow> accounted unyaml w"
  unfolding accounted_def by (intro exI [of _ "[]"] exI [of _ d]) simp

lemma accounted_open:
  "accounted unyaml w \<Longrightarrow> wtPc w = Sending \<or> wtPc w = Reading \<Longrightarrow>
   \<exists>d. wtSeen w = wtPrinted w @ wtQueue w @ d \<and> (d = [] \<or> wtClosed w)"
  by (auto simp: accounted_def)

text \<open>Steps that leave the values alone, or change them while the function still runs.\<close>

lemma accounted_same:
  assumes "accounted unyaml w" "wtSeen w' = wtSeen w" "wtPrinted w' = wtPrinted w" "wtQueue w' = wtQueue w"
    and "wtClosed w \<longrightarrow> wtClosed w'" "wtPc w' = wtPc w \<or> wtPc w = Sending \<or> wtPc w = Reading"
  shows "accounted unyaml w'"
proof (cases "wtPc w' = wtPc w")
  case True
  show ?thesis using assms(1,5) unfolding accounted_def True assms(2-4) by blast
next
  case False
  then obtain d where "wtSeen w = wtPrinted w @ wtQueue w @ d" "d = [] \<or> wtClosed w"
    using accounted_open [OF assms(1)] assms(6) by blast
  then show ?thesis using assms by (intro accountedI [of _ d]) auto
qed

lemma accounted_put:
  assumes "accounted unyaml w"
  shows "accounted unyaml (putValue v w)"
proof (cases "wtWatching w \<and> \<not> wtClosed w")
  case True
  with assms obtain bad where "wtSeen w = wtPrinted w @ bad @ wtQueue w"
      "bad = [] \<or> (\<exists>v e. bad = [v] \<and> unyaml v = Inl e \<and> wtPc w = Ended (WaitFailed (SwitchResult e)))"
    by (auto simp: accounted_def)
  then show ?thesis using True unfolding accounted_def putValue_def by (intro exI [of _ bad] exI [of _ "[]"]) simp
qed (use assms in \<open>auto simp: putValue_def\<close>)

lemma accounted_drop:
  assumes "accounted unyaml w" "wtClosed w" "wtQueue w = q @ d"
  shows "accounted unyaml (w\<lparr>wtQueue := q\<rparr>)"
proof -
  from assms(1,3) obtain bad d' where "wtSeen w = wtPrinted w @ bad @ q @ (d @ d')"
      "bad = [] \<or> (\<exists>v e. bad = [v] \<and> unyaml v = Inl e \<and> wtPc w = Ended (WaitFailed (SwitchResult e)))"
    by (auto simp: accounted_def)
  then show ?thesis using assms(2) unfolding accounted_def by (intro exI [of _ bad] exI [of _ "d @ d'"]) simp
qed

lemma waitInv_start: "waitInv unyaml waitStart"
  by (simp add: waitInv_def waitStart_def accounted_def)

lemma waitInv_put: "waitInv unyaml w \<Longrightarrow> waitInv unyaml (putValue v w)"
  using accounted_put [of unyaml w v] by (auto simp: waitInv_def putValue_def)

lemma waitInv_receive:
  assumes "waitInv unyaml w" "wtPc w = Reading" "wtQueue w = v # q"
  shows "waitInv unyaml (readValue1 unyaml v (w\<lparr>wtQueue := q\<rparr>))"
proof -
  let ?w = "readValue1 unyaml v (w\<lparr>wtQueue := q\<rparr>)"
  obtain d where d: "wtSeen w = wtPrinted w @ v # q @ d" "d = [] \<or> wtClosed w"
    using accounted_open [of unyaml w] assms by (auto simp: waitInv_def)
  have p: "list_all (\<lambda>u. \<not> statusOf unyaml u) (wtPrinted w)" "wtWatching w" "wtExpired w \<longrightarrow> wtClosed w"
    using assms d by (auto simp: waitInv_def)
  show ?thesis
  proof (cases "unyaml v")
    case (Inl e)
    then have "accounted unyaml ?w" using d unfolding accounted_def readValue1_def
      by (intro exI [of _ "[v]"] exI [of _ d]) simp
    then show ?thesis using Inl p by (auto simp: waitInv_def readValue1_def)
  next
    case (Inr r)
    have s: "statusOf unyaml v \<longleftrightarrow> finalStatus r" using Inr by (simp add: statusOf_def)
    have "accounted unyaml ?w" by (rule accountedI [of _ d]) (use Inr d in \<open>auto simp: readValue1_def Let_def\<close>)
    then show ?thesis using assms(2) Inr p s by (auto simp: waitInv_def readValue1_def Let_def)
  qed
qed

lemma waitInv_step: "waitStep unyaml req w w' \<Longrightarrow> waitInv unyaml w \<Longrightarrow> waitInv unyaml w'"
proof (induction rule: waitStep.induct)
  case (watch w)
  have "wtClosed w \<longrightarrow> wtExpired w \<or> wtSeen w = []" using watch by (auto simp: waitInv_def)
  then have "accounted unyaml (w\<lparr>wtWatching := True, wtClosed := wtExpired w\<rparr>)"
    using watch by (fastforce simp: waitInv_def accounted_def)
  then show ?case using watch by (auto simp: waitInv_def)
next
  case (put_done w)
  let ?p = "putValue req w"
  have i: "waitInv unyaml ?p" and pc: "wtPc ?p = Sending" using put_done waitInv_put by (auto simp: putValue_def)
  have "accounted unyaml (?p\<lparr>wtPc := Reading\<rparr>)"
    by (rule accounted_same [of unyaml ?p]) (use i pc in \<open>auto simp: waitInv_def\<close>)
  then show ?case using i pc by (auto simp: waitInv_def)
next
  case (put_failed w e)
  have "accounted unyaml (w\<lparr>wtPc := Ended (WaitFailed (SwitchPut e))\<rparr>)"
    by (rule accounted_same [of unyaml w]) (use put_failed in \<open>auto simp: waitInv_def\<close>)
  then show ?case using put_failed by (auto simp: waitInv_def)
next
  case (supervisor w v)
  then show ?case by (rule waitInv_put)
next
  case (expire w)
  have "accounted unyaml (w\<lparr>wtExpired := True, wtClosed := wtWatching w \<or> wtClosed w\<rparr>)"
    by (rule accounted_same [of unyaml w]) (use expire in \<open>auto simp: waitInv_def\<close>)
  then show ?case using expire by (auto simp: waitInv_def)
next
  case (dropped w q d)
  then show ?case using accounted_drop [of unyaml w q d] by (auto simp: waitInv_def)
next
  case (lost w)
  have "accounted unyaml (w\<lparr>wtClosed := True\<rparr>)"
    by (rule accounted_same [of unyaml w]) (use lost in \<open>auto simp: waitInv_def\<close>)
  then show ?case using lost by (auto simp: waitInv_def)
next
  case (receive w v q)
  then show ?case by (intro waitInv_receive)
next
  case (deadline w)
  have "accounted unyaml (w\<lparr>wtPc := Ended DeadlineReached\<rparr>)"
    by (rule accounted_same [of unyaml w]) (use deadline in \<open>auto simp: waitInv_def\<close>)
  then show ?case using deadline by (auto simp: waitInv_def)
next
  case (closed w)
  have "accounted unyaml (w\<lparr>wtPc := Ended ChannelClosed\<rparr>)"
    by (rule accounted_same [of unyaml w]) (use closed in \<open>auto simp: waitInv_def\<close>)
  then show ?case using closed by (auto simp: waitInv_def)
qed

lemma waitReach_inv: "waitReach unyaml req w \<Longrightarrow> waitInv unyaml w"
  by (induction rule: waitReach.induct) (auto intro: waitInv_start waitInv_step)

text \<open>
  Property C30: a switch that waits prints the values written to its key since the watch was
  registered, in their order, up to the first one with a final status, and it ends without an error
  by a status only when the last value printed is final. It ends by its deadline only when that has passed.
\<close>

theorem switch_wait_prints:
  assumes "waitReach unyaml req w"
  shows "(\<exists>rest. wtSeen w = wtPrinted w @ rest) \<and>
         (wtPc w = Ended FinalStatus \<longrightarrow>
            (\<exists>vs v. wtPrinted w = vs @ [v] \<and> statusOf unyaml v \<and> list_all (\<lambda>u. \<not> statusOf unyaml u) vs)) \<and>
         (wtPc w \<noteq> Ended FinalStatus \<longrightarrow> list_all (\<lambda>u. \<not> statusOf unyaml u) (wtPrinted w)) \<and>
         (wtPc w = Ended DeadlineReached \<longrightarrow> wtExpired w)"
  using waitReach_inv [OF assms] by (auto simp: waitInv_def accounted_def)

text \<open>
  After the deadline a registered watch is closed and nothing more is queued; the loop reads what is
  there and ends.
\<close>

lemma wait_ends:
  assumes "wtPc w = Reading" "wtClosed w" "wtExpired w"
  shows "\<exists>w' x. (waitStep unyaml req)\<^sup>*\<^sup>* w w' \<and> wtPc w' = Ended x"
  using assms
proof (induction "wtQueue w" arbitrary: w)
  case Nil
  then have "waitStep unyaml req w (w\<lparr>wtPc := Ended DeadlineReached\<rparr>)" by (intro waitStep.deadline) auto
  then show ?case by (intro exI [of _ "w\<lparr>wtPc := Ended DeadlineReached\<rparr>"] exI [of _ DeadlineReached]) auto
next
  case (Cons v q)
  let ?w = "readValue1 unyaml v (w\<lparr>wtQueue := q\<rparr>)"
  have st: "waitStep unyaml req w ?w" using Cons by (intro waitStep.receive) auto
  show ?case
  proof (cases "wtPc ?w = Reading")
    case True
    have "wtClosed ?w" "wtExpired ?w" "q = wtQueue ?w"
      using Cons.prems by (auto simp: readValue1_def Let_def split: sum.splits)
    with Cons.hyps(1) [OF _ True] st show ?thesis by (meson converse_rtranclp_into_rtranclp)
  next
    case False
    then have "\<exists>x. wtPc ?w = Ended x"
      using Cons.prems(1) by (auto simp: readValue1_def Let_def split: sum.splits if_splits)
    with st show ?thesis by blast
  qed
qed

lemma wait_ends_after_deadline:
  assumes "waitReach unyaml req w" "wtPc w = Reading" "wtExpired w" "wtWatching w"
  shows "\<exists>w' x. (waitStep unyaml req)\<^sup>*\<^sup>* w w' \<and> wtPc w' = Ended x"
  using wait_ends assms waitReach_inv [OF assms(1)] by (auto simp: waitInv_def)

definition demoYaml :: "string \<Rightarrow> string + switchCmdResult" where
  "demoYaml v = Inr \<lparr>srStatus = v\<rparr>"

text \<open>A run in which the watch is registered first, and the supervisor answers twice.\<close>

definition demoWait :: waitState where
  "demoWait = \<lparr>wtPc = Ended FinalStatus, wtWatching = True, wtQueue = [], wtPrinted = [''switch'', ''taken'', ''success''],
     wtExpired = False, wtClosed = False, wtSeen = [''switch'', ''taken'', ''success'']\<rparr>"

lemma demoWait_reach: "waitReach demoYaml ''switch'' demoWait"
proof -
  let ?r = "waitReach demoYaml ''switch''"
  let ?w = "\<lambda>pc q p seen. \<lparr>wtPc = pc, wtWatching = True, wtQueue = q, wtPrinted = p, wtExpired = False, wtClosed = False, wtSeen = seen\<rparr>"
  have 1: "?r (?w Sending [] [] [])"
    using waitReach.step [OF waitReach.start waitStep.watch] by (simp add: waitStart_def)
  have 2: "?r (?w Reading [''switch''] [] [''switch''])"
    using waitReach.step [OF 1 waitStep.put_done] by (simp add: putValue_def)
  have 3: "?r (?w Reading [''switch'', ''taken''] [] [''switch'', ''taken''])"
    using waitReach.step [OF 2 waitStep.supervisor [of _ _ _ "''taken''"]] by (simp add: putValue_def)
  have 4: "?r (?w Reading [''switch'', ''taken'', ''success''] [] [''switch'', ''taken'', ''success''])"
    using waitReach.step [OF 3 waitStep.supervisor [of _ _ _ "''success''"]] by (simp add: putValue_def)
  have 5: "?r (?w Reading [''taken'', ''success''] [''switch''] [''switch'', ''taken'', ''success''])"
    using waitReach.step [OF 4 waitStep.receive [of _ "''switch''" "[''taken'', ''success'']"]]
    by (simp add: readValue1_def demoYaml_def finalStatus_def)
  have 6: "?r (?w Reading [''success''] [''switch'', ''taken''] [''switch'', ''taken'', ''success''])"
    using waitReach.step [OF 5 waitStep.receive [of _ "''taken''" "[''success'']"]]
    by (simp add: readValue1_def demoYaml_def finalStatus_def)
  show ?thesis
    using waitReach.step [OF 6 waitStep.receive [of _ "''success''" "[]"]]
    by (simp add: readValue1_def demoYaml_def finalStatus_def demoWait_def)
qed

theorem switch_wait_prints_witness: "\<exists>vs v. wtPrinted demoWait = vs @ [v] \<and> statusOf demoYaml v"
  using switch_wait_prints [OF demoWait_reach] by (auto simp: demoWait_def)

text \<open>
  The watch is registered beside the put: a status that is written before the registration is never
  seen, and the wait ends by its deadline although the switch was successful.
\<close>

lemma status_missed:
  "\<exists>w. waitReach demoYaml ''switch'' w \<and> wtPc w = Ended DeadlineReached \<and> wtPrinted w = []"
proof -
  let ?r = "waitReach demoYaml ''switch''"
  let ?w = "\<lambda>pc wa ex cl. \<lparr>wtPc = pc, wtWatching = wa, wtQueue = [], wtPrinted = [], wtExpired = ex, wtClosed = cl, wtSeen = []\<rparr>"
  have 1: "?r (?w Reading False False False)"
    using waitReach.step [OF waitReach.start waitStep.put_done] by (simp add: waitStart_def putValue_def)
  have 2: "?r (?w Reading False False False)"
    using waitReach.step [OF 1 waitStep.supervisor [of _ _ _ "''success''"]] by (simp add: putValue_def)
  have 3: "?r (?w Reading True False False)"
    using waitReach.step [OF 2 waitStep.watch] by simp
  have 4: "?r (?w Reading True True True)"
    using waitReach.step [OF 3 waitStep.expire] by simp
  have "?r (?w (Ended DeadlineReached) True True True)"
    using waitReach.step [OF 4 waitStep.deadline] by simp
  then show ?thesis by (rule exI [of _ "?w (Ended DeadlineReached) True True True", OF conjI]) simp
qed

text \<open>A timeout of more than 292 years: the deadline is before the beginning of the wait.\<close>

lemma waitDuration_wraps: "waitDuration 9223372032 < 0" "waitDuration 60 = 65000000000"
  by (simp_all add: waitDuration_def)

text \<open>The user name and the password of the command line play no part in a request.\<close>

lemma credentials_ignored:
  "switchRequest S pFloat seconds uri (ctx\<lparr>scUsername := u, scPassword := p\<rparr>) = switchRequest S pFloat seconds uri ctx"
  by (simp add: switchRequest_def cong: sum.case_cong)

text \<open>Asking not to verify the peer has no effect on the options of the connection either, unlike with the other commands.\<close>

lemma skip_peer_ignored:
  "SkipHostVerify (makeEtcdOpts (opts\<lparr>uSkipPeerVerify := True, uSkipHostVerify := False\<rparr>)) = False"
  "SkipHostVerify (MakeEtcdOptsFromUriOpts (opts\<lparr>uSkipPeerVerify := True, uSkipHostVerify := False\<rparr>)) = True"
  by (simp_all add: makeEtcdOpts_def MakeEtcdOptsFromUriOpts_def)

end
