(* ===== verification/Spec2Isabelle.thy ===== *)
theory Spec2Isabelle
  imports Cluster Schema CConfigFacts Channel Watchdog Running Console Tail Failover
begin

text \<open>
  A verification development for tt, the command line tool that manages Tarantool applications and
  clusters. File names below are relative to the repository.

  \<^bold>\<open>The program.\<close> tt is a library for cluster configurations (\<^verbatim>\<open>lib/cluster\<close>), a library
  for connection URIs (\<^verbatim>\<open>lib/connect\<close>) and the commands under \<^verbatim>\<open>cli\<close> that use them. A
  configuration is a tree of maps; it is collected from environment variables, a file, etcd and a
  Tarantool config storage, merged by priority, decoded into groups, replicasets and instances,
  validated against a schema, shown, and published. Values in a storage can carry hashes and a signature that
  the collectors check. The commands on replicasets patch one document of such a storage under the
  revision it was read with. Beside that, tt packs applications, compares versions, starts instances
  under a watchdog that is found again through its PID file, and connects to them with a console.

  \<^bold>\<open>Theories.\<close>

  \<^item> \<^verbatim>\<open>Prelude\<close>: results, the string and path functions of Go that are used, association lists as
    Go maps, loops, insertion sort, and the contract \<open>strict_weak_order\<close> of what sorting needs.
    \<^verbatim>\<open>Values\<close>: the dynamic values of Go. \<^verbatim>\<open>Data\<close>: what collectors and publishers exchange.
    \<^verbatim>\<open>Regexp\<close>: the regular expressions with named groups of the sources, matched as Go does,
    together with their language.
  \<^item> \<^verbatim>\<open>Config\<close> (\<^verbatim>\<open>lib/cluster/config.go\<close>): Set, Get, ForEach, Merge. Shown: what was set is
    read and nothing else changes, when setting fails, and which value a merge has at every path,
    whatever the order of Go's maps. The contract \<open>path_store\<close> carries these laws to the clients.
  \<^item> \<^verbatim>\<open>Storages\<close> (\<^verbatim>\<open>storages.go\<close>), \<^verbatim>\<open>Tarantool\<close> (\<^verbatim>\<open>tarantool.go\<close>), \<^verbatim>\<open>Etcd\<close>
    (\<^verbatim>\<open>etcd.go\<close>): the layout of keys, the collectors and the publishers. Shown: the key
    functions are inverse, only values checked with exactly their own hashes and signature are returned and
    none is left out, which states of the store a publish passes through under interference, that it ends without, and compare-and-set
    by revision.
  \<^item> \<^verbatim>\<open>EnvPaths\<close>, \<^verbatim>\<open>Collectors\<close> (\<^verbatim>\<open>env.go\<close>, \<^verbatim>\<open>file.go\<close>, \<^verbatim>\<open>yaml.go\<close>,
    \<^verbatim>\<open>datacollector.go\<close>, \<^verbatim>\<open>datapublisher.go\<close>, \<^verbatim>\<open>collector.go\<close>,
    \<^verbatim>\<open>publisher.go\<close>, \<^verbatim>\<open>integrity.go\<close>) and \<^verbatim>\<open>Channel\<close>: sources and sinks, their factories,
    decoding and merging; the contract \<open>channel\<close> between a publisher and a collector, which files, keys
    of etcd and signed prefixes of both storages meet, and the round trip of configurations over it.
  \<^item> \<^verbatim>\<open>Cluster\<close> (\<^verbatim>\<open>cluster.go\<close>): decoding, finding, instantiating, replacing instances. Shown: the
    merge of the four scopes, well-formedness, agreement of the lookups, a set instance is found.
  \<^item> \<^verbatim>\<open>Validators\<close>, \<^verbatim>\<open>Validation\<close>, \<^verbatim>\<open>Schema\<close> (\<^verbatim>\<open>validators.go\<close>, \<^verbatim>\<open>schema.go\<close>,
    \<^verbatim>\<open>paths.go\<close>): errors with paths, validators, the schema of Tarantool. Shown: validated values
    have the described type, errors are complete, ordered and under their paths, and what the literal schema
    says about environment variables.
  \<^item> \<^verbatim>\<open>Uri\<close> (\<^verbatim>\<open>lib/connect/uri.go\<close>): which strings are URIs and their parts.
  \<^item> \<^verbatim>\<open>Sources\<close> (\<^verbatim>\<open>cli/cluster/cluster.go\<close>), \<^verbatim>\<open>ClusterCmd\<close> (\<^verbatim>\<open>cli/cluster/cmd\<close>):
    all sources of a cluster configuration together, show and publish. Shown: the priority of the
    sources, that nothing unvalidated is published, and where an instance is published.
    \<^verbatim>\<open>Failover\<close> (\<^verbatim>\<open>failover.go\<close>): switching the master through etcd, with waiting as a step
    relation. Shown: what a wait prints and how it can end.
  \<^item> \<^verbatim>\<open>Replicaset\<close> (\<^verbatim>\<open>cli/replicaset\<close>: data, evaluation, discovery), \<^verbatim>\<open>CConfig\<close> and
    \<^verbatim>\<open>CConfigFacts\<close> (\<^verbatim>\<open>cconfig.go\<close>, \<^verbatim>\<open>configsource.go\<close>, \<^verbatim>\<open>roles.go\<close>,
    \<^verbatim>\<open>cli/cluster/cmd/replicaset.go\<close>). Shown: merging topologies refines grouping by replicaset; the
    targets of a patch and their order; a command publishes one document with exactly one option
    changed; what a demotion leaves behind on every path.
  \<^item> \<^verbatim>\<open>Version\<close> (\<^verbatim>\<open>cli/version\<close>), \<^verbatim>\<open>Rpm\<close> and \<^verbatim>\<open>RpmFile\<close> (\<^verbatim>\<open>cli/pack/rpm_*.go\<close>,
    \<^verbatim>\<open>cpio.go\<close>, compression in \<^verbatim>\<open>tgz.go\<close>, names and versions of \<^verbatim>\<open>common.go\<close>). Shown: the grammar of versions (the lone suffix \<^verbatim>\<open>-gc64\<close> apart), their order, that a
    reader of the RPM format gets the packed tags back, and the layout of the packed file.
  \<^item> \<^verbatim>\<open>Watchdog\<close> (\<^verbatim>\<open>cli/running/watchdog.go\<close>) as a step relation over the main loop, the signal
    handler and the integrity checks; \<^verbatim>\<open>Process\<close> (\<^verbatim>\<open>cli/process_utils\<close>). Shown: after a stop signal
    nothing is started, the loop ends within three steps and is never stuck; a PID file names one live
    process among those that may be signalled; stopping ends and tells the truth.
  \<^item> \<^verbatim>\<open>Layout\<close> (\<^verbatim>\<open>cli/running/internal/layout\<close>, path functions of \<^verbatim>\<open>cli/util\<close>, templates of
    \<^verbatim>\<open>regexputil\<close>) and \<^verbatim>\<open>Running\<close> (\<^verbatim>\<open>running.go\<close>, \<^verbatim>\<open>instance_filter.go\<close>): the search for
    instances, their contexts, running and stopping them over \<^verbatim>\<open>Process\<close> and \<^verbatim>\<open>Sources\<close>. Shown:
    which instances a directory has, that files of different kinds and of different instances differ, what stopping guarantees.
  \<^item> \<^verbatim>\<open>Formatter\<close> (\<^verbatim>\<open>cli/formatter\<close>), \<^verbatim>\<open>History\<close> (\<^verbatim>\<open>cli/connect/history.go\<close>, the last
    lines of a file in \<^verbatim>\<open>cli/util\<close>) and \<^verbatim>\<open>Console\<close> (\<^verbatim>\<open>commands.go\<close>, \<^verbatim>\<open>language.go\<close>,
    \<^verbatim>\<open>input.go\<close>, \<^verbatim>\<open>console.go\<close> of \<^verbatim>\<open>cli/connect\<close>): the interactive console with its commands,
    its history file and its output. Shown: which command an input is and what its errors leave behind,
    what is loaded from a written history, which rows a table has, which cell is to blame when it cannot be rendered, and
    that a console does not panic otherwise. \<^verbatim>\<open>Tail\<close> (\<^verbatim>\<open>cli/tail/tail.go\<close>): where the last lines
    of a log begin.

  \<^bold>\<open>How the code is modelled.\<close> A result \<^verbatim>\<open>(T, error)\<close> is a sum, a panic is an error value, a
  map is an association list whose order is open, a struct a record, an interface a datatype with
  one constructor per implementation. Integers keep their width where it matters (validators,
  versions, RPM) and are unbounded where the code only counts. What is not in the repository is an argument: the clients of
  etcd and Tarantool, the YAML decoder and encoder, IEEE arithmetic, the file system, signals, timers,
  external programs and hash functions are fields of records, and what is relied on of them is a named
  predicate that appears as a hypothesis. For each such predicate a theorem evaluates its
  conclusion on a concrete instance (an etcd, a storage, a file system or an operating system in memory).

  \<^bold>\<open>Loops.\<close> Most loops are structural recursion. The loops that retry a transaction or wait for
  a process are \<open>go_loop\<close>, a partial function in which not returning is \<open>None\<close>; that they return is a
  theorem of its own, under the hypothesis that nobody interferes or that the clock goes on. No
  definition uses fuel. \<^verbatim>\<open>sort.Slice\<close> is insertion sort, which is what Go runs on up to twelve
  elements; the properties of sorted results do not depend on it beyond that they are sorted permutations.

  \<^bold>\<open>Not modelled.\<close> The command line itself (\<^verbatim>\<open>cli/cmd\<close>), installation, search, download and
  docker, archives and DEB packages, connections to instances, the prompt of the console and the drawing of tables,
  following log files, templates, modules, the orchestrators Cartridge and
  custom (Lua evaluated on instances), and the child processes of instances. They call external programs and the network or only pass arguments on; the
  manifest lists them with their reasons.
\<close>

end
